(* ===== verification/Py_Base.thy ===== *)
theory Py_Base
  imports Main "HOL-Library.AList" "HOL-Library.Char_ord" "HOL-Library.List_Lexorder"
begin

text \<open>
  Shared base of the development: the fragment of Python that the modelled modules use.

  \<^item> \<open>pv\<close> is a Python value as it arrives from JSON, from a database row or from a DAG
    configuration. A dictionary is an association list in insertion order; a float is kept as its
    \<open>repr\<close>, which Python guarantees to identify it; a datetime is its wall clock in
    microseconds since 1970-01-01T00:00:00 with its UTC offset in seconds (None when naive).
  \<^item> A \<open>str\<close> is a list of code points below 256 (Latin-1), which covers every literal of
    the modelled sources; \<open>lower\<close>, \<open>strip\<close>, \<open>isalpha\<close> and their kin are given on that range.
  \<^item> A raised exception is a value of \<open>pyexc\<close>, so a function that may raise returns
    \<open>pyexc + 'a\<close>, and \<open>rbind\<close> runs the rest of the body when nothing was raised.

  The generic lemmas about these operations are collected in \<open>py_simps\<close>.
\<close>

named_theorems py_simps \<open>unfolding rules of the Python fragment\<close>
named_theorems py_str_simps \<open>facts on the string operations\<close>

section \<open>Values, exceptions, results\<close>

datatype pv =
    PNone
  | PBool bool
  | PInt int
  | PFloat string
  | PStr string
  | PDt int "int option"
  | PList "pv list"
  | PDict "(pv \<times> pv) list"

type_synonym pdict = "(pv \<times> pv) list"

datatype pyexc =
    ValueError string
  | TypeError
  | KeyError string
  | IndexError
  | AttributeError
  | OverflowError
  | RuntimeError string
  | PermissionError string
  | DatabaseError string

text \<open>A \<open>DatabaseError\<close> carries the name of the driver's exception class.\<close>

type_synonym 'a pyres = "pyexc + 'a"

definition rbind :: "'e + 'a \<Rightarrow> ('a \<Rightarrow> 'e + 'b) \<Rightarrow> 'e + 'b" where
  "rbind m f = (case m of Inl e \<Rightarrow> Inl e | Inr x \<Rightarrow> f x)"

lemma rbind_simps [simp]: "rbind (Inl e) f = Inl e" "rbind (Inr x) f = f x"
  by (simp_all add: rbind_def)

lemma rbind_Inr_iff: "rbind m f = Inr y \<longleftrightarrow> (\<exists>x. m = Inr x \<and> f x = Inr y)"
  by (cases m) simp_all

lemma rbind_InrE:
  assumes "rbind m f = Inr y"
  obtains x where "m = Inr x" and "f x = Inr y"
  using assms by (auto simp: rbind_Inr_iff)

lemma rbind_cong [fundef_cong]:
  "m = m' \<Longrightarrow> (\<And>x. m' = Inr x \<Longrightarrow> f x = f' x) \<Longrightarrow> rbind m f = rbind m' f'"
  by (cases m') simp_all

text \<open>A list comprehension or loop whose body may raise: the first exception wins.\<close>

fun rmap :: "('a \<Rightarrow> 'e + 'b) \<Rightarrow> 'a list \<Rightarrow> 'e + 'b list" where
  "rmap f [] = Inr []"
| "rmap f (x # xs) = rbind (f x) (\<lambda>y. rbind (rmap f xs) (\<lambda>ys. Inr (y # ys)))"

lemma rmap_Inr_iff: "rmap f xs = Inr ys \<longleftrightarrow> list_all2 (\<lambda>x y. f x = Inr y) xs ys"
  by (induction xs arbitrary: ys) (auto simp: rbind_Inr_iff list_all2_Cons1)

lemma rmap_length: "rmap f xs = Inr ys \<Longrightarrow> length ys = length xs"
  by (auto simp: rmap_Inr_iff dest: list_all2_lengthD)

lemma rmap_Inr_set: "rmap f xs = Inr ys \<Longrightarrow> y \<in> set ys \<Longrightarrow> \<exists>x\<in>set xs. f x = Inr y"
  by (induction xs arbitrary: ys) (auto simp: rbind_Inr_iff)

lemma distinct_map_take: "distinct (map f xs) \<Longrightarrow> distinct (map f (take n xs))"
  by (simp add: take_map [symmetric])

lemma distinct_map_sort_key: "distinct (map f (sort_key k xs)) \<longleftrightarrow> distinct (map f xs)"
  by (simp add: distinct_map)

lemma rmap_total: "(\<And>x. x \<in> set xs \<Longrightarrow> f x = Inr (g x)) \<Longrightarrow> rmap f xs = Inr (map g xs)"
  by (induction xs) simp_all

fun rfold :: "('s \<Rightarrow> 'a \<Rightarrow> 'e + 's) \<Rightarrow> 's \<Rightarrow> 'a list \<Rightarrow> 'e + 's" where
  "rfold f s [] = Inr s"
| "rfold f s (x # xs) = rbind (f s x) (\<lambda>s'. rfold f s' xs)"

lemma set_map_filter: "set (List.map_filter f xs) = {y. \<exists>x\<in>set xs. f x = Some y}"
  by (force simp: map_filter_def)

text \<open>An invariant that every step of a loop keeps holds after the loop.\<close>

lemma rfold_invariant:
  assumes "rfold f s xs = Inr s'" and "P s"
    and "\<And>t x t'. P t \<Longrightarrow> x \<in> set xs \<Longrightarrow> f t x = Inr t' \<Longrightarrow> P t'"
  shows "P s'"
  using assms
proof (induction xs arbitrary: s)
  case Nil
  then show ?case by simp
next
  case (Cons x xs)
  from Cons.prems(1) obtain t where t: "f s x = Inr t" "rfold f t xs = Inr s'"
    by (auto simp: rbind_Inr_iff)
  from Cons.prems(2) t(1) have "P t" using Cons.prems(3) [of s x t] by simp
  moreover have "P v'" if "P v" "y \<in> set xs" "f v y = Inr v'" for v y v'
    using Cons.prems(3) [of v y v'] that by simp
  ultimately show ?case using Cons.IH [OF t(2)] by blast
qed

section \<open>Strings\<close>

abbreviation code :: "char \<Rightarrow> nat" where
  "code c \<equiv> of_char c"

definition is_space :: "char \<Rightarrow> bool" where
  "is_space c \<longleftrightarrow> code c \<in> {9, 10, 11, 12, 13, 28, 29, 30, 31, 32, 133, 160}"

text \<open>
  The upper-case letters of Latin-1 are the codes 65--90 and 192--222 without 215. Their lower-case
  partners lie 32 higher, which sets bit 5 of the code.
\<close>

definition is_upper :: "char \<Rightarrow> bool" where
  "is_upper c \<longleftrightarrow>
     (65 \<le> code c \<and> code c \<le> 90) \<or> (192 \<le> code c \<and> code c \<le> 222 \<and> code c \<noteq> 215)"

fun set_bit5 :: "char \<Rightarrow> char" where
  "set_bit5 (Char b0 b1 b2 b3 b4 b5 b6 b7) = Char b0 b1 b2 b3 b4 True b6 b7"

definition lower_char :: "char \<Rightarrow> char" where
  "lower_char c = (if is_upper c then set_bit5 c else c)"

definition lower :: "string \<Rightarrow> string" where
  "lower s = map lower_char s"

definition lstrip :: "(char \<Rightarrow> bool) \<Rightarrow> string \<Rightarrow> string" where
  "lstrip p s = dropWhile p s"

definition rstrip :: "(char \<Rightarrow> bool) \<Rightarrow> string \<Rightarrow> string" where
  "rstrip p s = rev (dropWhile p (rev s))"

definition strip_by :: "(char \<Rightarrow> bool) \<Rightarrow> string \<Rightarrow> string" where
  "strip_by p s = rstrip p (lstrip p s)"

definition strip :: "string \<Rightarrow> string" where
  "strip s = strip_by is_space s"

definition strip_slash :: "string \<Rightarrow> string" where
  "strip_slash s = strip_by (\<lambda>c. c = CHR ''/'') s"

definition startswith :: "string \<Rightarrow> string \<Rightarrow> bool" where
  "startswith s p \<longleftrightarrow> take (length p) s = p"

definition endswith :: "string \<Rightarrow> string \<Rightarrow> bool" where
  "endswith s p \<longleftrightarrow> length p \<le> length s \<and> drop (length s - length p) s = p"

fun str_in :: "string \<Rightarrow> string \<Rightarrow> bool" where
  "str_in p [] = (p = [])"
| "str_in p (c # s) = (startswith (c # s) p \<or> str_in p s)"

fun split_on :: "char \<Rightarrow> string \<Rightarrow> string list" where
  "split_on d [] = [[]]"
| "split_on d (c # s) =
     (if c = d then [] # split_on d s
      else (case split_on d s of [] \<Rightarrow> [[c]] | p # ps \<Rightarrow> (c # p) # ps))"

fun join :: "string \<Rightarrow> string list \<Rightarrow> string" where
  "join sep [] = []"
| "join sep [s] = s"
| "join sep (s # t # ss) = s @ sep @ join sep (t # ss)"

fun replace_z :: "string \<Rightarrow> string" where
  \<comment> \<open>\<open>.replace("Z", "+00:00")\<close>\<close>
  "replace_z [] = []"
| "replace_z (c # s) = (if c = CHR ''Z'' then ''+00:00'' @ replace_z s else c # replace_z s)"

definition is_ascii_digit :: "char \<Rightarrow> bool" where
  "is_ascii_digit c \<longleftrightarrow> 48 \<le> code c \<and> code c \<le> 57"

definition is_digit :: "char \<Rightarrow> bool" where
  "is_digit c \<longleftrightarrow> is_ascii_digit c \<or> code c \<in> {178, 179, 185}"

definition is_ascii_alpha :: "char \<Rightarrow> bool" where
  "is_ascii_alpha c \<longleftrightarrow> (65 \<le> code c \<and> code c \<le> 90) \<or> (97 \<le> code c \<and> code c \<le> 122)"

definition is_alpha :: "char \<Rightarrow> bool" where
  "is_alpha c \<longleftrightarrow> is_ascii_alpha c \<or> code c \<in> {170, 181, 186}
     \<or> (192 \<le> code c \<and> code c \<noteq> 215 \<and> code c \<noteq> 247)"

definition is_alnum :: "char \<Rightarrow> bool" where
  "is_alnum c \<longleftrightarrow> is_alpha c \<or> is_digit c \<or> code c \<in> {188, 189, 190}"

text \<open>Decimal printing of integers.\<close>

definition digit_char :: "int \<Rightarrow> char" where
  "digit_char n = ''0123456789'' ! nat n"

function str_of_pos :: "int \<Rightarrow> string" where
  "str_of_pos n = (if n < 10 then [digit_char n] else str_of_pos (n div 10) @ [digit_char (n mod 10)])"
  by pat_completeness auto
termination
  by (relation "measure nat") auto

declare str_of_pos.simps [simp del]

definition str_of_int :: "int \<Rightarrow> string" where
  "str_of_int i = (if i < 0 then ''-'' @ str_of_pos (- i) else str_of_pos i)"

section \<open>Truth, str(), int()\<close>

fun truthy :: "pv \<Rightarrow> bool" where
  "truthy PNone = False"
| "truthy (PBool b) = b"
| "truthy (PInt i) = (i \<noteq> 0)"
| "truthy (PFloat s) = (s \<noteq> ''0.0'' \<and> s \<noteq> ''-0.0'')"
| "truthy (PStr s) = (s \<noteq> [])"
| "truthy (PDt t z) = True"
| "truthy (PList xs) = (xs \<noteq> [])"
| "truthy (PDict d) = (d \<noteq> [])"

definition py_or :: "pv \<Rightarrow> pv \<Rightarrow> pv" where
  "py_or a b = (if truthy a then a else b)"

text \<open>\<open>repr\<close> of a string: the quote that needs no escape is preferred.\<close>

definition hex_digit :: "nat \<Rightarrow> char" where
  "hex_digit n = ''0123456789abcdef'' ! n"

definition repr_char :: "char \<Rightarrow> char \<Rightarrow> string" where
  "repr_char q c =
     (if c = q \<or> c = CHR 0x5C then [CHR 0x5C, c]
      else if code c = 10 then [CHR 0x5C, CHR ''n'']
      else if code c = 13 then [CHR 0x5C, CHR ''r'']
      else if code c = 9 then [CHR 0x5C, CHR ''t'']
      else if code c < 32 \<or> (127 \<le> code c \<and> code c \<le> 160) \<or> code c = 173
        then [CHR 0x5C, CHR ''x'', hex_digit (code c div 16), hex_digit (code c mod 16)]
      else [c])"

definition repr_str :: "string \<Rightarrow> string" where
  "repr_str s =
     (let q = (if CHR 0x27 \<in> set s \<and> CHR 0x22 \<notin> set s then CHR 0x22 else CHR 0x27)
      in [q] @ concat (map (repr_char q) s) @ [q])"

text \<open>
  Calendar date of a day number (days since 1970-01-01), for \<open>datetime.isoformat\<close>.
\<close>

definition civil_from_days :: "int \<Rightarrow> int \<times> int \<times> int" where
  "civil_from_days days =
     (let z = days + 719468;
          era = z div 146097;
          doe = z mod 146097;
          yoe = (doe - doe div 1460 + doe div 36524 - doe div 146096) div 365;
          doy = doe - (365 * yoe + yoe div 4 - yoe div 100);
          mp = (5 * doy + 2) div 153;
          d = doy - (153 * mp + 2) div 5 + 1;
          m = (if mp < 10 then mp + 3 else mp - 9);
          y = yoe + era * 400 + (if m \<le> 2 then 1 else 0)
      in (y, m, d))"

definition zpad :: "nat \<Rightarrow> int \<Rightarrow> string" where
  "zpad w i = (let s = str_of_int i in replicate (w - length s) (CHR ''0'') @ s)"

definition iso_offset :: "int option \<Rightarrow> string" where
  "iso_offset z =
     (case z of None \<Rightarrow> []
      | Some off \<Rightarrow>
          let a = \<bar>off\<bar> in
          (if off < 0 then ''-'' else ''+'') @ zpad 2 (a div 3600) @ '':'' @ zpad 2 ((a div 60) mod 60) @
          (if a mod 60 = 0 then [] else '':'' @ zpad 2 (a mod 60)))"

definition isoformat_sep :: "string \<Rightarrow> int \<Rightarrow> int option \<Rightarrow> string" where
  "isoformat_sep sep t z =
     (let us = t mod 1000000; secs = t div 1000000; sod = secs mod 86400 in
      case civil_from_days (secs div 86400) of (y, m, d) \<Rightarrow>
        zpad 4 y @ ''-'' @ zpad 2 m @ ''-'' @ zpad 2 d @ sep @
        zpad 2 (sod div 3600) @ '':'' @ zpad 2 ((sod div 60) mod 60) @ '':'' @ zpad 2 (sod mod 60) @
        (if us = 0 then [] else ''.'' @ zpad 6 us) @ iso_offset z)"

definition isoformat :: "int \<Rightarrow> int option \<Rightarrow> string" where
  "isoformat t z = isoformat_sep ''T'' t z"

text \<open>
  \<open>repr\<close> of a value. A datetime inside a container that is printed does not occur in the
  modelled code; it is printed here like \<open>str\<close> prints it.
\<close>

primrec py_repr :: "pv \<Rightarrow> string"
  and py_repr_list :: "pv list \<Rightarrow> string list"
  and py_repr_items :: "(pv \<times> pv) list \<Rightarrow> string list"
  and py_repr_item :: "pv \<times> pv \<Rightarrow> string" where
  "py_repr PNone = ''None''"
| "py_repr (PBool b) = (if b then ''True'' else ''False'')"
| "py_repr (PInt i) = str_of_int i"
| "py_repr (PFloat s) = s"
| "py_repr (PStr s) = repr_str s"
| "py_repr (PDt t z) = isoformat_sep '' '' t z"
| "py_repr (PList xs) = ''['' @ join '', '' (py_repr_list xs) @ '']''"
| "py_repr (PDict d) = ''{'' @ join '', '' (py_repr_items d) @ ''}''"
| "py_repr_list [] = []"
| "py_repr_list (x # xs) = py_repr x # py_repr_list xs"
| "py_repr_items [] = []"
| "py_repr_items (kv # kvs) = py_repr_item kv # py_repr_items kvs"
| "py_repr_item (k, v) = py_repr k @ '': '' @ py_repr v"

text \<open>Structural induction over a value, its lists of values and its items.\<close>

lemma pv_induct [case_names None Bool Int Float Str Dt List Dict NilL ConsL NilD ConsD Item]:
  assumes "P PNone" "\<And>b. P (PBool b)" "\<And>i. P (PInt i)" "\<And>r. P (PFloat r)" "\<And>s. P (PStr s)"
    "\<And>t z. P (PDt t z)" "\<And>xs. Q xs \<Longrightarrow> P (PList xs)" "\<And>d. R d \<Longrightarrow> P (PDict d)"
    "Q []" "\<And>x xs. P x \<Longrightarrow> Q xs \<Longrightarrow> Q (x # xs)"
    "R []" "\<And>kv d. S kv \<Longrightarrow> R d \<Longrightarrow> R (kv # d)"
    "\<And>k v. P k \<Longrightarrow> P v \<Longrightarrow> S (k, v)"
  shows "P v" and "Q xs" and "R d" and "S kv"
proof -
  have "P v \<and> Q xs \<and> S kv \<and> R d"
    by (rule py_repr_py_repr_list_py_repr_items_py_repr_item.induct) (use assms in blast)+
  then show "P v" and "Q xs" and "R d" and "S kv" by auto
qed

definition py_str :: "pv \<Rightarrow> string" where
  "py_str v = (case v of PStr s \<Rightarrow> s | _ \<Rightarrow> py_repr v)"

lemma py_str_eqs [simp]:
  "py_str (PStr s) = s"
  "py_str (PInt i) = str_of_int i"
  "py_str PNone = ''None''"
  "py_str (PBool b) = (if b then ''True'' else ''False'')"
  by (simp_all add: py_str_def)

definition str_or :: "pv \<Rightarrow> string \<Rightarrow> string" where
  \<comment> \<open>\<open>str(value or default)\<close>\<close>
  "str_or v dflt = py_str (py_or v (PStr dflt))"

lemma str_or_simps [simp]:
  "str_or (PStr s) dflt = (if s = [] then dflt else s)"
  "str_or PNone dflt = dflt"
  by (simp_all add: str_or_def py_or_def)

text \<open>Reading an integer out of a string, as \<open>int()\<close> does: blanks, sign, digits, single underscores.\<close>

fun parse_digits :: "int \<Rightarrow> bool \<Rightarrow> string \<Rightarrow> int option" where
  "parse_digits acc d [] = (if d then Some acc else None)"
| "parse_digits acc d (c # s) =
     (if is_ascii_digit c then parse_digits (acc * 10 + (int (code c) - 48)) True s
      else if c = CHR ''_'' \<and> d then parse_digits acc False s
      else None)"

definition is_ascii :: "string \<Rightarrow> bool" where
  "is_ascii s \<longleftrightarrow> list_all (\<lambda>c. code c < 128) s"

definition int_space :: "string \<Rightarrow> char \<Rightarrow> bool" where
  "int_space s c = (if is_ascii s then code c \<in> {9, 10, 11, 12, 13, 32} else is_space c)"

definition max_int_str_digits :: nat where
  "max_int_str_digits = 4300"

definition parse_int :: "string \<Rightarrow> int option" where
  "parse_int s =
     (let t = strip_by (int_space s) s;
          neg = startswith t ''-'';
          u = (if neg \<or> startswith t ''+'' then tl t else t)
      in if max_int_str_digits < length (filter is_ascii_digit u) then None
         else map_option (\<lambda>n. if neg then - n else n) (parse_digits 0 False u))"

section \<open>Floating point\<close>

text \<open>
  A positive double is a pair \<open>(m, e)\<close> with value \<open>m * 2 ^ e\<close>. \<open>fl_pos a b\<close> is the
  double nearest to \<open>a / b\<close> (ties to even, 53 significant bits; the exponent range is unbounded).
\<close>

function nbits :: "int \<Rightarrow> int" where
  "nbits n = (if n \<le> 0 then 0 else 1 + nbits (n div 2))"
  by pat_completeness auto
termination
  by (relation "measure nat") auto

declare nbits.simps [simp del]

definition div_half_even :: "int \<Rightarrow> int \<Rightarrow> int" where
  "div_half_even a b =
     (let q = a div b; r = a mod b
      in if 2 * r < b then q else if b < 2 * r then q + 1 else if q mod 2 = 0 then q else q + 1)"

definition scaled :: "int \<Rightarrow> int \<Rightarrow> int \<Rightarrow> int \<times> int" where
  "scaled a b s = (if 0 \<le> s then (a * 2 ^ nat s, b) else (a, b * 2 ^ nat (- s)))"

definition fl_pos :: "int \<Rightarrow> int \<Rightarrow> int \<times> int" where
  "fl_pos a b =
     (let s0 = 53 - (nbits a - nbits b);
          s = (case scaled a b s0 of (x, y) \<Rightarrow> if 2 ^ 53 \<le> x div y then s0 - 1 else s0)
      in case scaled a b s of (x, y) \<Rightarrow> (div_half_even x y, - s))"

definition round_pos :: "int \<times> int \<Rightarrow> int" where
  \<comment> \<open>\<open>round(x)\<close> of a positive double\<close>
  "round_pos x =
     (case x of (m, e) \<Rightarrow> if 0 \<le> e then m * 2 ^ nat e else div_half_even m (2 ^ nat (- e)))"

definition trunc_pos :: "int \<times> int \<Rightarrow> int" where
  "trunc_pos x = (case x of (m, e) \<Rightarrow> if 0 \<le> e then m * 2 ^ nat e else m div 2 ^ nat (- e))"

definition round_div :: "int \<Rightarrow> int \<Rightarrow> int" where
  \<comment> \<open>\<open>round(a / b)\<close>, \<open>b\<close> positive\<close>
  "round_div a b = (if a = 0 then 0 else round_pos (fl_pos a b))"

definition round_percent :: "int \<Rightarrow> int \<Rightarrow> int" where
  \<comment> \<open>\<open>round((a / b) * 100)\<close>, \<open>b\<close> positive\<close>
  "round_percent a b =
     (if a = 0 then 0
      else case fl_pos a b of (m, e) \<Rightarrow>
        case fl_pos (m * 100) 1 of (m', e') \<Rightarrow> round_pos (m', e + e'))"

definition float_to_int :: "string \<Rightarrow> int pyres" where
  \<comment> \<open>\<open>int(x)\<close> of the float with this \<open>repr\<close>\<close>
  "float_to_int s =
     (if s = ''nan'' then Inl (ValueError ''cannot convert float NaN to integer'')
      else if s = ''inf'' \<or> s = ''-inf'' then Inl OverflowError
      else
        let neg = startswith s ''-'';
            u = (if neg then tl s else s);
            parts = split_on (CHR ''e'') u;
            mant = split_on (CHR ''.'') (hd parts);
            frac = (if length mant = 2 then mant ! 1 else []);
            num = (case parse_digits 0 False (hd mant @ frac) of None \<Rightarrow> 0 | Some n \<Rightarrow> n);
            ex = (if length parts = 2 then (case parse_int (parts ! 1) of None \<Rightarrow> 0 | Some e \<Rightarrow> e) else 0)
                 - int (length frac);
            v = (if num = 0 then 0
                 else if 0 \<le> ex then trunc_pos (fl_pos (num * 10 ^ nat ex) 1)
                 else trunc_pos (fl_pos num (10 ^ nat (- ex))))
        in Inr (if neg then - v else v))"

fun py_int :: "pv \<Rightarrow> int pyres" where
  "py_int (PBool b) = Inr (if b then 1 else 0)"
| "py_int (PInt i) = Inr i"
| "py_int (PFloat s) = float_to_int s"
| "py_int (PStr s) =
     (case parse_int s of
        None \<Rightarrow> Inl (ValueError (''invalid literal for int() with base 10: '' @ repr_str s))
      | Some i \<Rightarrow> Inr i)"
| "py_int _ = Inl TypeError"

definition int_or0 :: "pv \<Rightarrow> int pyres" where
  \<comment> \<open>\<open>int(value or 0)\<close>\<close>
  "int_or0 v = py_int (py_or v (PInt 0))"

lemma int_or0_PInt [simp]: "int_or0 (PInt i) = Inr i" "int_or0 PNone = Inr 0"
  by (simp_all add: int_or0_def py_or_def)

section \<open>Dictionaries\<close>

definition dget :: "pdict \<Rightarrow> string \<Rightarrow> pv" where
  \<comment> \<open>\<open>d.get(key)\<close>\<close>
  "dget d k = (case map_of d (PStr k) of None \<Rightarrow> PNone | Some v \<Rightarrow> v)"

definition dhas :: "pdict \<Rightarrow> string \<Rightarrow> bool" where
  \<comment> \<open>\<open>key in d\<close>\<close>
  "dhas d k \<longleftrightarrow> map_of d (PStr k) \<noteq> None"

definition dindex :: "pdict \<Rightarrow> string \<Rightarrow> pv pyres" where
  \<comment> \<open>\<open>d[key]\<close>\<close>
  "dindex d k = (case map_of d (PStr k) of None \<Rightarrow> Inl (KeyError k) | Some v \<Rightarrow> Inr v)"

definition dset :: "pdict \<Rightarrow> string \<Rightarrow> pv \<Rightarrow> pdict" where
  \<comment> \<open>\<open>d[key] = v\<close>: in place, or appended\<close>
  "dset d k v = AList.update (PStr k) v d"

definition dmerge :: "pdict \<Rightarrow> pdict \<Rightarrow> pdict" where
  \<comment> \<open>\<open>{**d, **e}\<close>\<close>
  "dmerge d e = foldl (\<lambda>acc (k, v). AList.update k v acc) d e"

definition pdict_of :: "(string \<times> pv) list \<Rightarrow> pdict" where
  \<comment> \<open>a dict display with constant string keys\<close>
  "pdict_of kvs = map (\<lambda>(k, v). (PStr k, v)) kvs"

lemma pdict_of_simps [simp]:
  "pdict_of [] = []"
  "pdict_of ((k, v) # kvs) = (PStr k, v) # pdict_of kvs"
  by (simp_all add: pdict_of_def)

lemma pdict_of_append: "pdict_of (xs @ ys) = pdict_of xs @ pdict_of ys"
  by (simp add: pdict_of_def)

lemma dget_simps [simp]:
  "dget [] k = PNone"
  "dget ((PStr k', v) # d) k = (if k' = k then v else dget d k)"
  by (auto simp: dget_def)

lemma dhas_simps [simp]:
  "dhas [] k = False"
  "dhas ((PStr k', v) # d) k = (k' = k \<or> dhas d k)"
  by (auto simp: dhas_def)

lemma dget_dset: "dget (dset d k v) k' = (if k' = k then v else dget d k')"
  by (auto simp: dget_def dset_def AList.update_conv')

lemma dhas_dset: "dhas (dset d k v) k' = (k' = k \<or> dhas d k')"
  by (auto simp: dhas_def dset_def AList.update_conv')

lemma dget_not_dhas: "\<not> dhas d k \<Longrightarrow> dget d k = PNone"
  by (simp add: dget_def dhas_def)

lemma map_of_dmerge: "distinct (map fst e) \<Longrightarrow>
    map_of (dmerge d e) k = (case map_of e k of None \<Rightarrow> map_of d k | Some v \<Rightarrow> Some v)"
proof (induction e arbitrary: d)
  case Nil
  then show ?case by (simp add: dmerge_def)
next
  case (Cons kv e)
  obtain k' v where kv: "kv = (k', v)" by (cases kv)
  from Cons.prems kv have nin: "map_of e k' = None" by (simp add: map_of_eq_None_iff)
  have "map_of (dmerge d (kv # e)) k = map_of (dmerge (AList.update k' v d) e) k"
    by (simp add: dmerge_def kv)
  also have "\<dots> = (case map_of e k of None \<Rightarrow> map_of (AList.update k' v d) k | Some w \<Rightarrow> Some w)"
    using Cons.prems kv by (intro Cons.IH) simp
  also have "\<dots> = (case map_of (kv # e) k of None \<Rightarrow> map_of d k | Some w \<Rightarrow> Some w)"
    using nin kv by (auto simp: AList.update_conv' split: option.split)
  finally show ?case .
qed

lemma dget_dmerge: "distinct (map fst e) \<Longrightarrow>
    dget (dmerge d e) k = (if dhas e k then dget e k else dget d k)"
  by (cases "map_of e (PStr k)") (auto simp: dget_def dhas_def map_of_dmerge)

lemma dhas_dmerge: "distinct (map fst e) \<Longrightarrow> dhas (dmerge d e) k = (dhas e k \<or> dhas d k)"
  by (auto simp: dhas_def map_of_dmerge split: option.splits)

fun as_dict :: "pv \<Rightarrow> pdict option" where
  \<comment> \<open>\<open>isinstance(v, dict)\<close>, with the dictionary\<close>
  "as_dict (PDict d) = Some d"
| "as_dict _ = None"

fun as_list :: "pv \<Rightarrow> pv list option" where
  "as_list (PList xs) = Some xs"
| "as_list _ = None"

fun is_int :: "pv \<Rightarrow> bool" where
  \<comment> \<open>\<open>isinstance(v, int) and not isinstance(v, bool)\<close>\<close>
  "is_int (PInt i) = True"
| "is_int _ = False"

fun is_bool :: "pv \<Rightarrow> bool" where
  "is_bool (PBool b) = True"
| "is_bool _ = False"

fun is_str :: "pv \<Rightarrow> bool" where
  "is_str (PStr s) = True"
| "is_str _ = False"

fun is_dict :: "pv \<Rightarrow> bool" where
  "is_dict (PDict d) = True"
| "is_dict _ = False"

fun is_list :: "pv \<Rightarrow> bool" where
  "is_list (PList d) = True"
| "is_list _ = False"

fun py_get :: "pv \<Rightarrow> string \<Rightarrow> pv pyres" where
  \<comment> \<open>\<open>v.get(key)\<close> on a value of unknown type\<close>
  "py_get (PDict d) k = Inr (dget d k)"
| "py_get _ k = Inl AttributeError"

fun py_iter :: "pv \<Rightarrow> pv list pyres" where
  \<comment> \<open>iterating over a value: list items, dict keys, characters\<close>
  "py_iter (PList xs) = Inr xs"
| "py_iter (PDict d) = Inr (map fst d)"
| "py_iter (PStr s) = Inr (map (\<lambda>c. PStr [c]) s)"
| "py_iter _ = Inl TypeError"

lemma py_or_simps [simp]:
  "truthy a \<Longrightarrow> py_or a b = a"
  "\<not> truthy a \<Longrightarrow> py_or a b = b"
  by (simp_all add: py_or_def)

lemma as_dict_Some_iff [simp]: "as_dict v = Some d \<longleftrightarrow> v = PDict d"
  by (cases v) auto

lemma as_list_Some_iff [simp]: "as_list v = Some xs \<longleftrightarrow> v = PList xs"
  by (cases v) auto

lemma is_int_iff: "is_int v \<longleftrightarrow> (\<exists>i. v = PInt i)"
  by (cases v) auto

lemma is_bool_iff: "is_bool v \<longleftrightarrow> (\<exists>b. v = PBool b)"
  by (cases v) auto

lemma is_str_iff: "is_str v \<longleftrightarrow> (\<exists>s. v = PStr s)"
  by (cases v) auto

section \<open>json.dumps and equality\<close>

definition json_char :: "char \<Rightarrow> string" where
  "json_char c =
     (if c = CHR 0x22 \<or> c = CHR 0x5C then [CHR 0x5C, c]
      else if code c = 10 then [CHR 0x5C, CHR ''n'']
      else if code c = 13 then [CHR 0x5C, CHR ''r'']
      else if code c = 9 then [CHR 0x5C, CHR ''t'']
      else if code c = 12 then [CHR 0x5C, CHR ''f'']
      else if code c = 8 then [CHR 0x5C, CHR ''b'']
      else if code c < 32 \<or> 127 \<le> code c
        then [CHR 0x5C] @ ''u00'' @ [hex_digit (code c div 16), hex_digit (code c mod 16)]
      else [c])"

definition json_str :: "string \<Rightarrow> string" where
  "json_str s = [CHR 0x22] @ concat (map json_char s) @ [CHR 0x22]"

definition json_float :: "string \<Rightarrow> string" where
  "json_float s =
     (if s = ''nan'' then ''NaN'' else if s = ''inf'' then ''Infinity''
      else if s = ''-inf'' then ''-Infinity'' else s)"

fun json_key :: "pv \<Rightarrow> string option" where
  "json_key (PStr s) = Some (json_str s)"
| "json_key (PInt i) = Some (json_str (str_of_int i))"
| "json_key (PFloat s) = Some (json_str (json_float s))"
| "json_key (PBool b) = Some (json_str (if b then ''true'' else ''false''))"
| "json_key PNone = Some (json_str ''null'')"
| "json_key _ = None"

text \<open>\<open>json.dumps(value, default=str)\<close>; None when a key is of a type that JSON cannot write.\<close>

primrec json_dumps :: "pv \<Rightarrow> string option"
  and json_list :: "pv list \<Rightarrow> string list option"
  and json_items :: "(pv \<times> pv) list \<Rightarrow> string list option"
  and json_item :: "pv \<times> pv \<Rightarrow> string option" where
  "json_dumps PNone = Some ''null''"
| "json_dumps (PBool b) = Some (if b then ''true'' else ''false'')"
| "json_dumps (PInt i) = Some (str_of_int i)"
| "json_dumps (PFloat s) = Some (json_float s)"
| "json_dumps (PStr s) = Some (json_str s)"
| "json_dumps (PDt t z) = Some (json_str (isoformat_sep '' '' t z))"
| "json_dumps (PList xs) = map_option (\<lambda>ss. ''['' @ join '', '' ss @ '']'') (json_list xs)"
| "json_dumps (PDict d) = map_option (\<lambda>ss. ''{'' @ join '', '' ss @ ''}'') (json_items d)"
| "json_list [] = Some []"
| "json_list (x # xs) =
     (case json_dumps x of None \<Rightarrow> None | Some s \<Rightarrow> map_option (\<lambda>ss. s # ss) (json_list xs))"
| "json_items [] = Some []"
| "json_items (kv # kvs) =
     (case json_item kv of None \<Rightarrow> None | Some s \<Rightarrow> map_option (\<lambda>ss. s # ss) (json_items kvs))"
| "json_item (k, v) =
     (case json_key k of None \<Rightarrow> None | Some ks \<Rightarrow> map_option (\<lambda>vs. ks @ '': '' @ vs) (json_dumps v))"

text \<open>
  \<open>a == b\<close>: booleans and integers compare as numbers, a float equals an integer of the same value
  (the \<open>repr\<close> of an integral float ends in \<open>.0\<close> or has a positive exponent), a NaN equals nothing,
  lists compare item by item, dictionaries key by key.
\<close>

fun as_number :: "pv \<Rightarrow> int option" where
  "as_number (PBool b) = Some (if b then 1 else 0)"
| "as_number (PInt i) = Some i"
| "as_number (PFloat s) =
     (if endswith s ''.0'' \<or> str_in ''e+'' s
      then (case float_to_int s of Inl _ \<Rightarrow> None | Inr i \<Rightarrow> Some i) else None)"
| "as_number _ = None"

definition num_eq :: "pv \<Rightarrow> pv \<Rightarrow> bool" where
  "num_eq a b \<longleftrightarrow> as_number a \<noteq> None \<and> as_number a = as_number b"

primrec py_eq :: "pv \<Rightarrow> pv \<Rightarrow> bool"
  and py_eq_list :: "pv list \<Rightarrow> pv list \<Rightarrow> bool"
  and py_eq_items :: "(pv \<times> pv) list \<Rightarrow> pdict \<Rightarrow> bool"
  and py_eq_item :: "pv \<times> pv \<Rightarrow> pdict \<Rightarrow> bool" where
  "py_eq PNone w = (w = PNone)"
| "py_eq (PBool b) w = num_eq (PBool b) w"
| "py_eq (PInt i) w = num_eq (PInt i) w"
| "py_eq (PFloat s) w = (num_eq (PFloat s) w \<or> (w = PFloat s \<and> s \<noteq> ''nan''))"
| "py_eq (PStr s) w = (w = PStr s)"
| "py_eq (PDt t z) w =
     (case w of
        PDt t' z' \<Rightarrow> (case (z, z') of
           (None, None) \<Rightarrow> t = t'
         | (Some o1, Some o2) \<Rightarrow> t - o1 * 1000000 = t' - o2 * 1000000
         | _ \<Rightarrow> False)
      | _ \<Rightarrow> False)"
| "py_eq (PList xs) w = (case w of PList ys \<Rightarrow> py_eq_list xs ys | _ \<Rightarrow> False)"
| "py_eq (PDict d) w = (case w of PDict e \<Rightarrow> length d = length e \<and> py_eq_items d e | _ \<Rightarrow> False)"
| "py_eq_list [] ys = (ys = [])"
| "py_eq_list (x # xs) ys = (case ys of [] \<Rightarrow> False | y # ys' \<Rightarrow> py_eq x y \<and> py_eq_list xs ys')"
| "py_eq_items [] e = True"
| "py_eq_items (kv # kvs) e = (py_eq_item kv e \<and> py_eq_items kvs e)"
| "py_eq_item (k, v) e = (case map_of e k of None \<Rightarrow> False | Some w \<Rightarrow> py_eq v w)"

section \<open>Lemmas on strings\<close>

lemma set_bit5_not_upper: "is_upper c \<Longrightarrow> \<not> is_upper (set_bit5 c)"
proof (cases c)
  case (Char b0 b1 b2 b3 b4 b5 b6 b7)
  then show "is_upper c \<Longrightarrow> \<not> is_upper (set_bit5 c)"
    by (cases b0; cases b1; cases b2; cases b3; cases b4; cases b5; cases b6; cases b7)
       (simp_all add: is_upper_def)
qed

lemma lower_char_idem [simp]: "lower_char (lower_char c) = lower_char c"
  by (simp add: lower_char_def set_bit5_not_upper)

lemma lower_idem [simp]: "lower (lower s) = lower s"
  by (simp add: lower_def comp_def)

lemma lower_Nil_iff [simp]: "lower s = [] \<longleftrightarrow> s = []"
  by (simp add: lower_def)

lemma is_space_set_bit5: "is_upper c \<Longrightarrow> \<not> is_space (set_bit5 c)"
proof (cases c)
  case (Char b0 b1 b2 b3 b4 b5 b6 b7)
  then show "is_upper c \<Longrightarrow> \<not> is_space (set_bit5 c)"
    by (cases b0; cases b1; cases b2; cases b3; cases b4; cases b5; cases b6; cases b7)
       (simp_all add: is_upper_def is_space_def)
qed

lemma is_space_not_upper: "is_upper c \<Longrightarrow> \<not> is_space c"
  by (auto simp: is_upper_def is_space_def)

lemma is_space_lower [simp]: "is_space (lower_char c) = is_space c"
  by (auto simp: lower_char_def is_space_set_bit5 dest: is_space_not_upper)

lemma strip_by_hd: "strip_by p s \<noteq> [] \<Longrightarrow> \<not> p (hd (strip_by p s))"
proof -
  assume ne: "strip_by p s \<noteq> []"
  define u where "u = dropWhile p s"
  have t: "strip_by p s = rev (dropWhile p (rev u))"
    by (simp add: strip_by_def lstrip_def rstrip_def u_def)
  with ne obtain x xs where u: "u = x # xs" by (cases u) auto
  then have x: "\<not> p x" using u_def by (metis dropWhile_eq_Cons_conv)
  then have "dropWhile p (rev u) = dropWhile p (rev xs) @ [x]"
    using u by (cases "\<forall>y\<in>set (rev xs). p y")
      (auto simp: dropWhile_append3 dropWhile_append1 dropWhile_append2)
  with t x show ?thesis by simp
qed

lemma strip_by_last: "strip_by p s \<noteq> [] \<Longrightarrow> \<not> p (last (strip_by p s))"
  by (simp add: strip_by_def rstrip_def last_rev hd_dropWhile)

lemma strip_by_id: "s = [] \<or> (\<not> p (hd s) \<and> \<not> p (last s)) \<Longrightarrow> strip_by p s = s"
proof (cases "s = []")
  case True
  then show ?thesis by (simp add: strip_by_def lstrip_def rstrip_def)
next
  case False
  assume "s = [] \<or> (\<not> p (hd s) \<and> \<not> p (last s))"
  with False have "\<not> p (hd s)" and "\<not> p (last s)" by auto
  then have "dropWhile p s = s" using False by (cases s) simp_all
  moreover from \<open>\<not> p (last s)\<close> have "dropWhile p (rev s) = rev s"
    using False by (cases s rule: rev_cases) simp_all
  ultimately show ?thesis by (simp add: strip_by_def lstrip_def rstrip_def)
qed

lemma strip_by_idem [simp]: "strip_by p (strip_by p s) = strip_by p s"
  using strip_by_hd strip_by_last by (intro strip_by_id) blast

lemma strip_idem [simp]: "strip (strip s) = strip s"
  by (simp add: strip_def)

lemma strip_lower: "strip (lower s) = lower (strip s)"
  by (simp add: strip_def strip_by_def lstrip_def rstrip_def lower_def dropWhile_map rev_map comp_def)

lemma set_strip_by: "set (strip_by p s) \<subseteq> set s"
  by (auto simp: strip_by_def rstrip_def lstrip_def dest!: set_dropWhileD)

lemma split_on_not_Nil [simp]: "split_on d s \<noteq> []"
  by (induction s) (auto split: list.split)

lemma join_split_on: "join [d] (split_on d s) = s"
proof (induction s)
  case Nil
  then show ?case by simp
next
  case (Cons c s)
  obtain p ps where sp: "split_on d s = p # ps" by (cases "split_on d s") auto
  with Cons show ?case by (cases ps) auto
qed

lemma split_on_single: "d \<notin> set s \<Longrightarrow> split_on d s = [s]"
  by (induction s) auto

lemma split_on_append: "d \<notin> set s \<Longrightarrow> split_on d (s @ d # t) = s # split_on d t"
  by (induction s) auto

lemma split_on_append_sep: "split_on d (s @ d # t) = split_on d s @ split_on d t"
  by (induction s) (auto split: list.split)

lemma split_on_join:
  "ps \<noteq> [] \<Longrightarrow> \<forall>p\<in>set ps. d \<notin> set p \<Longrightarrow> split_on d (join [d] ps) = ps"
proof (induction ps)
  case (Cons p ps)
  then show ?case
    by (cases ps) (auto simp: split_on_single split_on_append)
qed simp

lemma split_on_no_sep: "p \<in> set (split_on d s) \<Longrightarrow> d \<notin> set p"
proof (induction s arbitrary: p)
  case (Cons c s)
  then show ?case
    by (cases "split_on d s") (auto split: if_splits)
qed simp

lemma set_split_on: "p \<in> set (split_on d s) \<Longrightarrow> set p \<subseteq> set s"
proof (induction s arbitrary: p)
  case (Cons c s)
  obtain q qs where sp: "split_on d s = q # qs" by (cases "split_on d s") auto
  have "set q \<subseteq> set s" "\<And>r. r \<in> set qs \<Longrightarrow> set r \<subseteq> set s" using Cons.IH sp by auto
  with Cons.prems sp show ?case by (fastforce split: if_splits)
qed simp

lemma startswith_iff: "startswith s p \<longleftrightarrow> (\<exists>t. s = p @ t)"
proof
  assume "startswith s p"
  then have "s = p @ drop (length p) s"
    unfolding startswith_def by (metis append_take_drop_id)
  then show "\<exists>t. s = p @ t" by blast
qed (auto simp: startswith_def)

lemma str_in_iff: "str_in p s \<longleftrightarrow> (\<exists>u v. s = u @ p @ v)"
proof (induction s)
  case (Cons c s)
  have "(\<exists>u v. c # s = u @ p @ v) \<longleftrightarrow> (\<exists>v. c # s = p @ v) \<or> (\<exists>u v. s = u @ p @ v)"
    by (metis append_Cons append_Nil list.inject list.exhaust)
  then show ?case using Cons by (simp add: startswith_iff)
qed simp

lemmas [py_str_simps] = strip_lower startswith_iff str_in_iff join_split_on

text \<open>Unfolding rules that evaluate the string operations on literals.\<close>

lemmas str_eval = strip_def strip_slash_def strip_by_def lstrip_def rstrip_def is_space_def lower_def
  lower_char_def is_upper_def startswith_def endswith_def

end
