(* ===== verification/Sql_Text.thy ===== *)
theory Sql_Text
  imports Py_Base
begin

text \<open>
  SQL expressions as text. The console builds the expressions of its updates as strings; what PostgreSQL
  does with such a string is modelled by a lexer (\<open>sql_lex\<close>), a recursive-descent parser (\<open>read_or\<close> and
  the functions beside it) and an evaluator (\<open>sql_eval\<close>), none of which knows the programs that write the
  text. \<open>sql_value\<close> composes them. The fragment is the one the console uses: columns, text and integer
  literals, a cast to text, \<open>LOWER\<close>, \<open>COALESCE\<close>, comparisons, \<open>OR\<close>, parentheses and both forms of \<open>CASE\<close>,
  with SQL's three-valued logic. \<open>None\<close> is a syntax or type error.
\<close>

section \<open>Values and expressions\<close>

datatype sql_value = SNull | SText string | SInt int | SBool bool

datatype sql_expr =
    Column string
  | Literal string
  | Number int
  | Text_Cast sql_expr
  | Lower sql_expr
  | Coalesce sql_expr sql_expr
  | Greater sql_expr sql_expr
  | Equals sql_expr sql_expr
  | Either sql_expr sql_expr
  | Simple_Case sql_expr sql_branches
  | Search_Case sql_branches
and sql_branches = Otherwise sql_expr | When_Then sql_expr sql_expr sql_branches

section \<open>Lexer\<close>

datatype sql_token = Word string | Quoted string | Sym char

datatype lex_mode = Between | In_Word string | In_Quote string

definition word_char :: "char \<Rightarrow> bool" where
  "word_char c \<longleftrightarrow> is_ascii_alpha c \<or> is_ascii_digit c \<or> c \<in> {CHR ''_'', CHR ''.'', CHR ''$''}"

definition sym_char :: "char \<Rightarrow> bool" where
  "sym_char c \<longleftrightarrow> c \<in> {CHR ''('', CHR '')'', CHR '','', CHR ''>'', CHR ''='', CHR '':''}"

definition quote :: char where "quote = CHR 0x27"

function sql_lex :: "lex_mode \<Rightarrow> string \<Rightarrow> sql_token list option" where
  "sql_lex Between [] = Some []"
| "sql_lex (In_Word w) [] = Some [Word w]"
| "sql_lex (In_Quote q) [] = None"
| "sql_lex Between (c # cs) =
     (if c = CHR '' '' then sql_lex Between cs
      else if word_char c then sql_lex (In_Word [c]) cs
      else if c = quote then sql_lex (In_Quote []) cs
      else if sym_char c then map_option (Cons (Sym c)) (sql_lex Between cs)
      else None)"
| "sql_lex (In_Word w) (c # cs) =
     (if word_char c then sql_lex (In_Word (w @ [c])) cs
      else map_option (Cons (Word w)) (sql_lex Between (c # cs)))"
| "sql_lex (In_Quote q) (c # cs) =
     (if c = quote then map_option (Cons (Quoted q)) (sql_lex Between cs) else sql_lex (In_Quote (q @ [c])) cs)"
  by pat_completeness auto
termination
  by (relation "measure (\<lambda>(m, s). 2 * length s + (case m of In_Word w \<Rightarrow> 1 | _ \<Rightarrow> 0))") auto

section \<open>Parser\<close>

type_synonym 'a reader = "sql_token list \<Rightarrow> ('a \<times> sql_token list) option"

fun eat :: "sql_token \<Rightarrow> sql_token list \<Rightarrow> sql_token list option" where
  "eat t [] = None"
| "eat t (x # rest) = (if x = t then Some rest else None)"

definition KEYWORDS :: "string list" where
  "KEYWORDS = [''CASE'', ''WHEN'', ''THEN'', ''ELSE'', ''END'', ''OR'', ''LOWER'', ''COALESCE'']"

definition digits_value :: "string \<Rightarrow> int" where
  "digits_value w = foldl (\<lambda>n c. 10 * n + (int (code c) - 48)) 0 w"

text \<open>The first argument bounds the depth; every call is one level below its caller.\<close>

fun read_or :: "nat \<Rightarrow> sql_expr reader" and read_comparison :: "nat \<Rightarrow> sql_expr reader"
  and read_cast :: "nat \<Rightarrow> sql_expr reader" and read_primary :: "nat \<Rightarrow> sql_expr reader"
  and read_branches :: "nat \<Rightarrow> sql_branches reader" where
  "read_or 0 ts = None"
| "read_or (Suc n) ts =
     Option.bind (read_comparison n ts) (\<lambda>(a, ts1).
       case eat (Word ''OR'') ts1 of
         None \<Rightarrow> Some (a, ts1)
       | Some ts2 \<Rightarrow> Option.bind (read_or n ts2) (\<lambda>(b, ts3). Some (Either a b, ts3)))"
| "read_comparison 0 ts = None"
| "read_comparison (Suc n) ts =
     Option.bind (read_cast n ts) (\<lambda>(a, ts1).
       case eat (Sym (CHR ''>'')) ts1 of
         Some ts2 \<Rightarrow> Option.bind (read_cast n ts2) (\<lambda>(b, ts3). Some (Greater a b, ts3))
       | None \<Rightarrow>
           (case eat (Sym (CHR ''='')) ts1 of
              Some ts2 \<Rightarrow> Option.bind (read_cast n ts2) (\<lambda>(b, ts3). Some (Equals a b, ts3))
            | None \<Rightarrow> Some (a, ts1)))"
| "read_cast 0 ts = None"
| "read_cast (Suc n) ts =
     Option.bind (read_primary n ts) (\<lambda>(a, ts1).
       case eat (Sym (CHR '':'')) ts1 of
         None \<Rightarrow> Some (a, ts1)
       | Some ts2 \<Rightarrow> Option.bind (eat (Sym (CHR '':'')) ts2) (\<lambda>ts3.
           Option.bind (eat (Word ''text'') ts3) (\<lambda>ts4. Some (Text_Cast a, ts4))))"
| "read_primary 0 ts = None"
| "read_primary (Suc n) ts =
     (case ts of
        [] \<Rightarrow> None
      | Quoted s # ts1 \<Rightarrow> Some (Literal s, ts1)
      | Sym c # ts1 \<Rightarrow>
          if c \<noteq> CHR ''('' then None
          else Option.bind (read_or n ts1) (\<lambda>(e, ts2). Option.bind (eat (Sym (CHR '')'')) ts2) (\<lambda>ts3. Some (e, ts3)))
      | Word w # ts1 \<Rightarrow>
          if w = ''LOWER'' then
            Option.bind (eat (Sym (CHR ''('')) ts1) (\<lambda>ts2. Option.bind (read_or n ts2) (\<lambda>(e, ts3).
              Option.bind (eat (Sym (CHR '')'')) ts3) (\<lambda>ts4. Some (Lower e, ts4))))
          else if w = ''COALESCE'' then
            Option.bind (eat (Sym (CHR ''('')) ts1) (\<lambda>ts2. Option.bind (read_or n ts2) (\<lambda>(a, ts3).
              Option.bind (eat (Sym (CHR '','')) ts3) (\<lambda>ts4. Option.bind (read_or n ts4) (\<lambda>(b, ts5).
              Option.bind (eat (Sym (CHR '')'')) ts5) (\<lambda>ts6. Some (Coalesce a b, ts6))))))
          else if w = ''CASE'' then
            (if eat (Word ''WHEN'') ts1 \<noteq> None
             then Option.bind (read_branches n ts1) (\<lambda>(bs, ts2). Some (Search_Case bs, ts2))
             else Option.bind (read_or n ts1) (\<lambda>(e, ts2).
                    Option.bind (read_branches n ts2) (\<lambda>(bs, ts3). Some (Simple_Case e bs, ts3))))
          else if w \<in> set KEYWORDS then None
          else if list_all is_ascii_digit w then Some (Number (digits_value w), ts1)
          else Some (Column w, ts1))"
| "read_branches 0 ts = None"
| "read_branches (Suc n) ts =
     (case eat (Word ''WHEN'') ts of
        Some ts1 \<Rightarrow>
          Option.bind (read_or n ts1) (\<lambda>(c, ts2). Option.bind (eat (Word ''THEN'') ts2) (\<lambda>ts3.
            Option.bind (read_or n ts3) (\<lambda>(e, ts4). Option.bind (read_branches n ts4) (\<lambda>(bs, ts5).
              Some (When_Then c e bs, ts5)))))
      | None \<Rightarrow>
          Option.bind (eat (Word ''ELSE'') ts) (\<lambda>ts1. Option.bind (read_or n ts1) (\<lambda>(e, ts2).
            Option.bind (eat (Word ''END'') ts2) (\<lambda>ts3. Some (Otherwise e, ts3)))))"

definition sql_parse :: "string \<Rightarrow> sql_expr option" where
  "sql_parse s = Option.bind (sql_lex Between s) (\<lambda>ts.
     case read_or (5 * length ts + 5) ts of Some (e, []) \<Rightarrow> Some e | _ \<Rightarrow> None)"

section \<open>Evaluation\<close>

definition sql_greater :: "sql_value \<Rightarrow> sql_value \<Rightarrow> sql_value option" where
  "sql_greater a b =
     (case (a, b) of
        (SNull, _) \<Rightarrow> Some SNull | (_, SNull) \<Rightarrow> Some SNull
      | (SInt x, SInt y) \<Rightarrow> Some (SBool (x > y)) | _ \<Rightarrow> None)"

definition sql_equals :: "sql_value \<Rightarrow> sql_value \<Rightarrow> sql_value option" where
  "sql_equals a b =
     (case (a, b) of
        (SNull, _) \<Rightarrow> Some SNull | (_, SNull) \<Rightarrow> Some SNull
      | (SInt x, SInt y) \<Rightarrow> Some (SBool (x = y)) | (SText x, SText y) \<Rightarrow> Some (SBool (x = y))
      | (SBool x, SBool y) \<Rightarrow> Some (SBool (x = y)) | _ \<Rightarrow> None)"

definition sql_or :: "sql_value \<Rightarrow> sql_value \<Rightarrow> sql_value option" where
  "sql_or a b =
     (case (a, b) of
        (SBool x, SBool y) \<Rightarrow> Some (SBool (x \<or> y))
      | (SBool x, SNull) \<Rightarrow> Some (if x then SBool True else SNull)
      | (SNull, SBool y) \<Rightarrow> Some (if y then SBool True else SNull)
      | (SNull, SNull) \<Rightarrow> Some SNull | _ \<Rightarrow> None)"

definition sql_lower :: "sql_value \<Rightarrow> sql_value option" where
  "sql_lower a = (case a of SNull \<Rightarrow> Some SNull | SText s \<Rightarrow> Some (SText (lower s)) | _ \<Rightarrow> None)"

definition sql_text :: "sql_value \<Rightarrow> sql_value option" where
  "sql_text a = (case a of SNull \<Rightarrow> Some SNull | SText s \<Rightarrow> Some (SText s) | _ \<Rightarrow> None)"

primrec sql_eval :: "(string \<Rightarrow> sql_value) \<Rightarrow> sql_expr \<Rightarrow> sql_value option"
  and sql_branch :: "(string \<Rightarrow> sql_value) \<Rightarrow> sql_value option \<Rightarrow> sql_branches \<Rightarrow> sql_value option" where
  "sql_eval env (Column c) = Some (env c)"
| "sql_eval env (Literal s) = Some (SText s)"
| "sql_eval env (Number i) = Some (SInt i)"
| "sql_eval env (Text_Cast e) = Option.bind (sql_eval env e) sql_text"
| "sql_eval env (Lower e) = Option.bind (sql_eval env e) sql_lower"
| "sql_eval env (Coalesce a b) = Option.bind (sql_eval env a) (\<lambda>x. if x = SNull then sql_eval env b else Some x)"
| "sql_eval env (Greater a b) = Option.bind (sql_eval env a) (\<lambda>x. Option.bind (sql_eval env b) (sql_greater x))"
| "sql_eval env (Equals a b) = Option.bind (sql_eval env a) (\<lambda>x. Option.bind (sql_eval env b) (sql_equals x))"
| "sql_eval env (Either a b) = Option.bind (sql_eval env a) (\<lambda>x. Option.bind (sql_eval env b) (sql_or x))"
| "sql_eval env (Simple_Case e bs) = Option.bind (sql_eval env e) (\<lambda>x. sql_branch env (Some x) bs)"
| "sql_eval env (Search_Case bs) = sql_branch env None bs"
| "sql_branch env scrutinee (Otherwise e) = sql_eval env e"
| "sql_branch env scrutinee (When_Then c e bs) =
     Option.bind (sql_eval env c) (\<lambda>x.
     Option.bind (case scrutinee of None \<Rightarrow> Some x | Some v \<Rightarrow> sql_equals v x) (\<lambda>hit.
       if hit = SBool True then sql_eval env e
       else if hit = SNull \<or> hit = SBool False then sql_branch env scrutinee bs else None))"

definition sql_value :: "(string \<Rightarrow> sql_value) \<Rightarrow> string \<Rightarrow> sql_value option" where
  \<comment> \<open>what an expression given as text computes\<close>
  "sql_value env s = Option.bind (sql_parse s) (sql_eval env)"

section \<open>Reading a text piece by piece\<close>

lemma prepend_one: "(@) [x] = (#) x" by auto

lemma lex_piece:
  assumes "sql_lex m s = Some ts" "s \<noteq> []" "\<not> word_char (last s)"
  shows "sql_lex m (s @ rest) = map_option ((@) ts) (sql_lex Between rest)"
  using assms
proof (induction m s arbitrary: ts rule: sql_lex.induct)
  case (4 c cs)
  show ?case
  proof (cases "cs = []")
    case True
    then show ?thesis using 4(5,7) by (cases "sql_lex Between rest") (auto split: if_splits)
  next
    case False
    then have l: "\<not> word_char (last cs)" using 4(7) by simp
    show ?thesis
      using 4(1) [OF _ _ False l] 4(2) [OF _ _ _ False l] 4(3) [OF _ _ _ _ False l] 4(4) [OF _ _ _ _ _ False l] 4(5)
      by (cases "sql_lex Between rest") (auto split: if_splits)
  qed
next
  case (5 w c cs)
  show ?case
  proof (cases "word_char c")
    case True
    then have "cs \<noteq> []" using 5(5) by auto
    then show ?thesis using 5(1) [OF True, of ts] 5(3,5) True by simp
  next
    case False
    then obtain us where us: "sql_lex Between (c # cs) = Some us" "ts = Word w # us" using 5(3) by auto
    have "sql_lex Between ((c # cs) @ rest) = map_option ((@) us) (sql_lex Between rest)"
      by (rule 5(2) [OF False us(1) 5(4,5)])
    then show ?thesis using False us(2) by (simp del: sql_lex.simps(4) add: option.map_comp comp_def)
  qed
next
  case (6 q c cs)
  show ?case
  proof (cases "cs = []")
    case True
    then show ?thesis using 6(3) by (cases "sql_lex Between rest") (auto split: if_splits)
  next
    case False
    then have l: "\<not> word_char (last cs)" using 6(5) by simp
    show ?thesis using 6(1) [OF _ _ False l] 6(2) [OF _ _ False l] 6(3)
      by (cases "c = quote"; cases "sql_lex Between rest") auto
  qed
qed simp_all

lemma lex_in_word:
  "list_all word_char s \<Longrightarrow> rest = [] \<or> \<not> word_char (hd rest) \<Longrightarrow>
     sql_lex (In_Word w) (s @ rest) = map_option (Cons (Word (w @ s))) (sql_lex Between rest)"
proof (induction s arbitrary: w)
  case Nil
  then show ?case by (cases rest) auto
qed auto

lemma lex_word:
  assumes "list_all word_char s" "s \<noteq> []" "rest = [] \<or> \<not> word_char (hd rest)"
  shows "sql_lex Between (s @ rest) = map_option (Cons (Word s)) (sql_lex Between rest)"
proof -
  obtain c cs where s: "s = c # cs" using assms(2) by (cases s) auto
  have "c \<noteq> CHR '' ''" "word_char c" using assms(1) s by (auto simp: word_char_def is_ascii_alpha_def is_ascii_digit_def)
  then show ?thesis using assms(1,3) s lex_in_word [of cs rest "[c]"] by simp
qed

text \<open>
  A text reads as an expression wherever an operand may stand: \<open>reads e x\<close>.
\<close>

definition operand_ends :: "sql_token list \<Rightarrow> bool" where
  "operand_ends rest \<longleftrightarrow> eat (Sym (CHR '':'')) rest = None"

definition expr_ends :: "sql_token list \<Rightarrow> bool" where
  "expr_ends rest \<longleftrightarrow> operand_ends rest \<and> eat (Word ''OR'') rest = None \<and> eat (Sym (CHR ''>'')) rest = None \<and>
     eat (Sym (CHR ''='')) rest = None"

lemma expr_ends_simps [simp]:
  "expr_ends []" "expr_ends (Word w # rest) \<longleftrightarrow> w \<noteq> ''OR''" "expr_ends (Sym c # rest) \<longleftrightarrow> c \<notin> {CHR '':'', CHR ''>'', CHR ''=''}"
  by (auto simp: expr_ends_def operand_ends_def)

lemma operand_ends_simps [simp]:
  "operand_ends (Word w # rest)" "operand_ends (Sym c # rest) \<longleftrightarrow> c \<noteq> CHR '':''"
  by (auto simp: operand_ends_def)

lemma read_or_operand:
  assumes "read_cast n ts = Some (x, rest)" "expr_ends rest"
  shows "read_or (Suc (Suc n)) ts = Some (x, rest)"
  using assms by (simp add: expr_ends_def)

lemma read_cast_primary:
  assumes "read_primary n ts = Some (x, rest)" "operand_ends rest"
  shows "read_cast (Suc n) ts = Some (x, rest)"
  using assms by (simp add: operand_ends_def)

lemmas read_or_primary = read_or_operand [OF read_cast_primary]

lemma read_or_number:
  assumes "list_all is_ascii_digit w" "w \<notin> set KEYWORDS" "expr_ends rest"
  shows "read_or (Suc (Suc (Suc (Suc n)))) (Word w # rest) = Some (Number (digits_value w), rest)"
proof -
  have "w \<noteq> ''LOWER''" "w \<noteq> ''COALESCE''" "w \<noteq> ''CASE''" using assms(2) by (auto simp: KEYWORDS_def)
  then show ?thesis using assms by (intro read_or_primary) (simp_all add: expr_ends_def)
qed

lemma read_or_literal: "expr_ends rest \<Longrightarrow> read_or (Suc (Suc (Suc (Suc n)))) (Quoted s # rest) = Some (Literal s, rest)"
  by (intro read_or_primary) (simp_all add: expr_ends_def)

definition lexes :: "string \<Rightarrow> sql_token list \<Rightarrow> bool" where
  "lexes s ts \<longleftrightarrow> (\<forall>rest. rest = [] \<or> \<not> word_char (hd rest) \<longrightarrow>
     sql_lex Between (s @ rest) = map_option ((@) ts) (sql_lex Between rest))"

definition solid :: "string \<Rightarrow> sql_token list \<Rightarrow> bool" where
  \<comment> \<open>whatever follows\<close>
  "solid s ts \<longleftrightarrow> (\<forall>rest. sql_lex Between (s @ rest) = map_option ((@) ts) (sql_lex Between rest))"

lemma solid_piece: "sql_lex Between s = Some ts \<Longrightarrow> s \<noteq> [] \<Longrightarrow> \<not> word_char (last s) \<Longrightarrow> solid s ts"
  by (simp add: solid_def lex_piece)

lemma solid_lexes: "solid s ts \<Longrightarrow> lexes s ts"
  by (simp add: solid_def lexes_def)

lemma map_append_append: "map_option ((@) ts) (map_option ((@) us) r) = map_option ((@) (ts @ us)) r"
  by (cases r) simp_all

lemma solid_append: "solid a ts \<Longrightarrow> solid b us \<Longrightarrow> solid (a @ b) (ts @ us)"
  by (simp add: solid_def map_append_append)

lemma solid_then_lexes: "solid a ts \<Longrightarrow> lexes b us \<Longrightarrow> lexes (a @ b) (ts @ us)"
  by (auto simp add: solid_def lexes_def map_append_append)

lemma lexes_then_solid: "lexes a ts \<Longrightarrow> solid b us \<Longrightarrow> b \<noteq> [] \<Longrightarrow> \<not> word_char (hd b) \<Longrightarrow> solid (a @ b) (ts @ us)"
  by (simp add: solid_def lexes_def map_append_append)

lemma lexes_parse:
  assumes "lexes s ts" "read_or (5 * length ts + 5) ts = Some (e, [])"
  shows "sql_parse s = Some e"
proof -
  have "sql_lex Between s = Some ts" using assms(1) [unfolded lexes_def, rule_format, of "[]"] by simp
  with assms(2) show ?thesis by (simp add: sql_parse_def)
qed

text \<open>A text reads as an expression wherever an operand may stand, with depth \<open>d\<close>.\<close>

definition reads_as :: "nat \<Rightarrow> sql_token list \<Rightarrow> sql_expr \<Rightarrow> bool" where
  "reads_as d ts x \<longleftrightarrow> eat (Word ''WHEN'') ts = None \<and> ts \<noteq> [] \<and>
     (\<forall>n rest. d \<le> n \<longrightarrow> operand_ends rest \<longrightarrow> read_cast n (ts @ rest) = Some (x, rest))"

definition reads :: "nat \<Rightarrow> string \<Rightarrow> sql_expr \<Rightarrow> bool" where
  "reads d e x \<longleftrightarrow> (\<exists>ts. lexes e ts \<and> reads_as d ts x)"

lemma reads_as_mono: "reads_as d ts x \<Longrightarrow> d \<le> d' \<Longrightarrow> reads_as d' ts x"
  by (auto simp: reads_as_def)

lemma Suc_of: "Suc d \<le> n \<Longrightarrow> (\<And>m. n = Suc m \<Longrightarrow> d \<le> m \<Longrightarrow> thesis) \<Longrightarrow> thesis"
  by (cases n) auto

lemma reads_as_or:
  assumes "reads_as d ts x" "Suc (Suc d) \<le> n" "expr_ends rest"
  shows "read_or n (ts @ rest) = Some (x, rest)"
proof -
  obtain m where n: "n = Suc (Suc m)" "d \<le> m" using assms(2) by (metis Suc_le_D Suc_le_mono)
  have "read_cast m (ts @ rest) = Some (x, rest)" using assms(1,3) n(2) by (simp add: reads_as_def expr_ends_def)
  then show ?thesis unfolding n(1) using assms(3) by (rule read_or_operand)
qed

lemma reads_as_primary:
  assumes "\<And>n rest. d \<le> n \<Longrightarrow> read_primary n (t # ts @ rest) = Some (x, rest)" "t \<noteq> Word ''WHEN''"
  shows "reads_as (Suc d) (t # ts) x"
proof -
  have "read_cast n (t # ts @ rest) = Some (x, rest)" if "Suc d \<le> n" "operand_ends rest" for n rest
    using that assms(1) read_cast_primary by (metis Suc_le_D Suc_le_mono)
  then show ?thesis using assms(2) by (simp add: reads_as_def)
qed

lemma read_or_literal': "4 \<le> n \<Longrightarrow> expr_ends rest \<Longrightarrow> read_or n (Quoted s # rest) = Some (Literal s, rest)"
proof -
  assume n: "4 \<le> n" and rest: "expr_ends rest"
  define m where "m = n - 4"
  then have "n = Suc (Suc (Suc (Suc m)))" using n by simp
  then show ?thesis using read_or_literal [OF rest] by (simp only:)
qed

lemma reads_as_paren:
  assumes "\<And>n rest. d \<le> n \<Longrightarrow> read_or n (ts @ Sym (CHR '')'') # rest) = Some (x, Sym (CHR '')'') # rest)"
  shows "reads_as (Suc (Suc d)) (Sym (CHR ''('') # ts @ [Sym (CHR '')'')]) x"
proof (rule reads_as_primary)
  fix n and rest :: "sql_token list" assume "Suc d \<le> n"
  then obtain m where "n = Suc m" "d \<le> m" by (rule Suc_of)
  then show "read_primary n (Sym (CHR ''('') # (ts @ [Sym (CHR '')'')]) @ rest) = Some (x, rest)"
    using assms [of m rest] by simp
qed simp

lemma reads_as_lower:
  assumes "reads_as d ts x"
  shows "reads_as (d + 4) (Word ''LOWER'' # Sym (CHR ''('') # ts @ [Sym (CHR '')'')]) (Lower x)"
proof -
  have "read_primary n (Word ''LOWER'' # (Sym (CHR ''('') # ts @ [Sym (CHR '')'')]) @ rest) = Some (Lower x, rest)"
    if "d + 3 \<le> n" for n rest
  proof -
    obtain m where m: "n = Suc m" "Suc (Suc d) \<le> m" using \<open>d + 3 \<le> n\<close> by (cases n) auto
    have "read_or m (ts @ Sym (CHR '')'') # rest) = Some (x, Sym (CHR '')'') # rest)"
      by (rule reads_as_or [OF assms m(2)]) simp
    then show ?thesis using m(1) by simp
  qed
  from reads_as_primary [OF this] show ?thesis by (simp add: eval_nat_numeral)
qed

lemma reads_as_coalesce:
  assumes "reads_as d ts x" "2 \<le> d"
  shows "reads_as (d + 4) (Word ''COALESCE'' # Sym (CHR ''('') # ts @ [Sym (CHR '',''), Quoted s, Sym (CHR '')'')])
    (Coalesce x (Literal s))"
proof -
  have "read_primary n (Word ''COALESCE'' # (Sym (CHR ''('') # ts @ [Sym (CHR '',''), Quoted s, Sym (CHR '')'')]) @ rest) =
      Some (Coalesce x (Literal s), rest)" if "d + 3 \<le> n" for n rest
  proof -
    obtain m where m: "n = Suc m" "Suc (Suc d) \<le> m" "4 \<le> m" using \<open>d + 3 \<le> n\<close> assms(2) by (cases n) auto
    have "read_or m (ts @ Sym (CHR '','') # us) = Some (x, Sym (CHR '','') # us)" for us
      by (rule reads_as_or [OF assms(1) m(2)]) simp
    moreover have "read_or m (Quoted s # Sym (CHR '')'') # rest) = Some (Literal s, Sym (CHR '')'') # rest)"
      by (rule read_or_literal' [OF m(3)]) simp
    ultimately show ?thesis using m(1) by simp
  qed
  from reads_as_primary [OF this] show ?thesis by (simp add: eval_nat_numeral)
qed

lemma read_comparison_greater:
  assumes "reads_as d ts x" "reads_as d us y" "Suc (Suc d) \<le> n" "expr_ends rest"
  shows "read_or n (ts @ Sym (CHR ''>'') # us @ rest) = Some (Greater x y, rest)"
proof -
  obtain m where n: "n = Suc (Suc m)" "d \<le> m" using assms(3) by (metis Suc_le_D Suc_le_mono)
  have "read_cast m (ts @ Sym (CHR ''>'') # us @ rest) = Some (x, Sym (CHR ''>'') # us @ rest)"
    "read_cast m (us @ rest) = Some (y, rest)"
    using assms(1,2,4) n(2) by (simp_all add: reads_as_def expr_ends_def)
  then show ?thesis using assms(4) n(1) by (simp add: expr_ends_def)
qed

lemma read_comparison_equals:
  assumes "reads_as d ts x" "reads_as d us y" "Suc (Suc d) \<le> n" "expr_ends rest"
  shows "read_or n (ts @ Sym (CHR ''='') # us @ rest) = Some (Equals x y, rest)"
proof -
  obtain m where n: "n = Suc (Suc m)" "d \<le> m" using assms(3) by (metis Suc_le_D Suc_le_mono)
  have "read_cast m (ts @ Sym (CHR ''='') # us @ rest) = Some (x, Sym (CHR ''='') # us @ rest)"
    "read_cast m (us @ rest) = Some (y, rest)"
    using assms(1,2,4) n(2) by (simp_all add: reads_as_def expr_ends_def)
  then show ?thesis using assms(4) n(1) by (simp add: expr_ends_def)
qed

lemma read_or_either:
  assumes "reads_as d ts x" "reads_as d us y" "Suc (Suc (Suc d)) \<le> n" "expr_ends rest"
  shows "read_or n (ts @ Word ''OR'' # us @ rest) = Some (Either x y, rest)"
proof -
  obtain m where n: "n = Suc (Suc m)" "Suc d \<le> m" using assms(3) by (metis Suc_le_D Suc_le_mono)
  have "read_cast m (ts @ Word ''OR'' # us @ rest) = Some (x, Word ''OR'' # us @ rest)"
    using assms(1) n(2) by (simp add: reads_as_def)
  moreover have "read_or (Suc m) (us @ rest) = Some (y, rest)"
    by (rule reads_as_or [OF assms(2) _ assms(4)]) (use n(2) in simp)
  ultimately show ?thesis using n(1) by simp
qed

lemma read_search_case:
  assumes "\<And>n rest. d \<le> n \<Longrightarrow> read_or n (cs @ Word ''THEN'' # rest) = Some (c, Word ''THEN'' # rest)"
    and "reads_as d ts x" "reads_as d us y" "d + 6 \<le> n" "operand_ends rest"
  shows "read_cast n (Word ''CASE'' # Word ''WHEN'' # cs @ Word ''THEN'' # ts @ Word ''ELSE'' # us @ Word ''END'' # rest) =
    Some (Search_Case (When_Then c x (Otherwise y)), rest)"
proof -
  define m where "m = n - 4"
  then have n: "n = Suc (Suc (Suc (Suc m)))" "d + 2 \<le> m" using assms(4) by simp_all
  have "read_or (Suc m) (cs @ Word ''THEN'' # zs) = Some (c, Word ''THEN'' # zs)" for zs
    by (rule assms(1)) (use n(2) in simp)
  moreover have "read_or (Suc m) (ts @ Word ''ELSE'' # zs) = Some (x, Word ''ELSE'' # zs)" for zs
    by (rule reads_as_or [OF assms(2)]) (use n(2) in simp_all)
  moreover have "read_or m (us @ Word ''END'' # zs) = Some (y, Word ''END'' # zs)" for zs
    by (rule reads_as_or [OF assms(3)]) (use n(2) in simp_all)
  moreover have "Word ''ELSE'' \<noteq> Word ''WHEN''" by simp
  ultimately have "read_branches (Suc (Suc m)) (Word ''WHEN'' # cs @ Word ''THEN'' # ts @ Word ''ELSE'' # us @ Word ''END'' # rest) =
    Some (When_Then c x (Otherwise y), rest)"
    by (simp only: read_branches.simps eat.simps option.case bind.bind_lunit prod.case simp_thms if_True if_False)
  then have "read_primary (Suc (Suc (Suc m))) (Word ''CASE'' # Word ''WHEN'' # cs @ Word ''THEN'' # ts @ Word ''ELSE'' # us @ Word ''END'' # rest) =
    Some (Search_Case (When_Then c x (Otherwise y)), rest)" by (simp del: read_branches.simps)
  then show ?thesis unfolding n(1) using assms(5) by (rule read_cast_primary)
qed

definition column_name :: "string \<Rightarrow> bool" where
  \<comment> \<open>a possibly qualified name or a parameter, no keyword and no number\<close>
  "column_name e \<longleftrightarrow> e \<noteq> [] \<and> list_all word_char e \<and> \<not> list_all is_ascii_digit e \<and>
     lower e \<notin> set (map lower KEYWORDS)"

lemma column_reads: "column_name e \<Longrightarrow> reads 2 e (Column e)"
proof -
  assume e: "column_name e"
  then have "e \<notin> set KEYWORDS" by (auto simp: column_name_def)
  then have k: "e \<notin> set KEYWORDS" "e \<noteq> ''LOWER''" "e \<noteq> ''COALESCE''" "e \<noteq> ''CASE''" "e \<noteq> ''WHEN''"
    by (auto simp: KEYWORDS_def)
  have "lexes e [Word e]" using lex_word [of e] e by (simp add: column_name_def lexes_def prepend_one)
  moreover have "reads_as (Suc 1) [Word e] (Column e)"
  proof (rule reads_as_primary)
    fix n :: nat and rest :: "sql_token list" assume "1 \<le> n"
    then show "read_primary n (Word e # [] @ rest) = Some (Column e, rest)" using e k by (cases n) (simp_all add: column_name_def)
  qed (use k in simp)
  ultimately show ?thesis unfolding reads_def by (auto simp: eval_nat_numeral)
qed

lemma literal_reads:
  assumes "quote \<notin> set s"
  shows "reads 2 ([quote] @ s @ [quote] @ ''::text'') (Text_Cast (Literal s))"
proof -
  have q: "sql_lex (In_Quote q) (s @ quote # rest) = map_option (Cons (Quoted (q @ s))) (sql_lex Between rest)" for q rest
    using assms by (induction s arbitrary: q) auto
  have "list_all word_char ''text''" by code_simp
  then have t: "sql_lex Between (''text'' @ rest) = map_option (Cons (Word ''text'')) (sql_lex Between rest)"
    if "rest = [] \<or> \<not> word_char (hd rest)" for rest using lex_word that by blast
  have colon: "sql_lex Between (CHR '':'' # rest) = map_option (Cons (Sym (CHR '':''))) (sql_lex Between rest)" for rest
    by (simp add: word_char_def is_ascii_alpha_def is_ascii_digit_def quote_def sym_char_def)
  have start: "sql_lex Between (quote # rest) = sql_lex (In_Quote []) rest" for rest
    by (simp add: word_char_def is_ascii_alpha_def is_ascii_digit_def quote_def)
  let ?ts = "[Quoted s, Sym (CHR '':''), Sym (CHR '':''), Word ''text'']"
  have "sql_lex Between (([quote] @ s @ [quote] @ ''::text'') @ rest) = map_option ((@) ?ts) (sql_lex Between rest)"
    if "rest = [] \<or> \<not> word_char (hd rest)" for rest
  proof -
    have "([quote] @ s @ [quote] @ ''::text'') @ rest = quote # s @ quote # CHR '':'' # CHR '':'' # ''text'' @ rest" by simp
    then show ?thesis
      by (simp only: start q colon t [OF that]) (cases "sql_lex Between rest"; simp)
  qed
  moreover have "read_cast n (?ts @ rest) = Some (Text_Cast (Literal s), rest)" if "2 \<le> n" for n rest
  proof -
    obtain m where "n = Suc (Suc m)" using \<open>2 \<le> n\<close> by (cases n; cases "n - 1") auto
    then show ?thesis by simp
  qed
  ultimately show ?thesis unfolding reads_def lexes_def reads_as_def by (intro exI [of _ ?ts]) simp
qed

end
