(* ===== verification/Status_Transitions.thy ===== *)
theory Status_Transitions
  imports Sql_Text
begin

text \<open>
  Monotone pipeline statuses: \<open>console/app/domains/pipeline/status_transitions.py\<close>.

  The module ranks the statuses of a pipeline run and lets a run only move to a status of higher
  rank. It does so twice: in Python (\<open>advance_pipeline_status\<close>, \<open>pipeline_status_accepts\<close>) and as
  SQL text that the console splices into its updates (\<open>postgres_monotonic_status\<close>,
  \<open>postgres_status_accepts\<close>). Both are modelled; what the SQL text computes is found by reading it, with the
  lexer, the parser and the evaluator of \<open>Sql_Text\<close>, which know nothing of this module.

  The contract of a ranked status, stated as the locale \<open>ranked_status\<close>, is what the rest of the
  pipeline code relies on; it is interpreted on the definitions of this module.
\<close>

section \<open>The Python side\<close>

definition PIPELINE_STATUS_RANKS :: "(string \<times> int) list" where
  "PIPELINE_STATUS_RANKS =
     [(''unknown'', 0), (''queued'', 10), (''scheduled'', 10), (''up_for_retry'', 15),
      (''running'', 20), (''success'', 30), (''noop'', 30), (''skipped'', 35),
      (''skipped_explicit'', 35), (''partial'', 40), (''blocked'', 50), (''failed'', 60),
      (''error'', 60), (''upstream_failed'', 60), (''cancelled'', 60), (''removed'', 60)]"

definition PIPELINE_TERMINAL_STATUSES :: "string list" where
  "PIPELINE_TERMINAL_STATUSES = map fst (filter (\<lambda>(status, rank). 30 \<le> rank) PIPELINE_STATUS_RANKS)"

definition normalize_pipeline_status :: "pv \<Rightarrow> string" where
  "normalize_pipeline_status value =
     (let s = lower (strip (str_or value ''unknown'')) in if s = [] then ''unknown'' else s)"

definition status_rank :: "string \<Rightarrow> int" where
  \<comment> \<open>\<open>PIPELINE_STATUS_RANKS.get(status, 0)\<close>\<close>
  "status_rank s = (case map_of PIPELINE_STATUS_RANKS s of None \<Rightarrow> 0 | Some r \<Rightarrow> r)"

definition pipeline_status_rank :: "pv \<Rightarrow> int" where
  "pipeline_status_rank value = status_rank (normalize_pipeline_status value)"

definition advance_pipeline_status :: "pv \<Rightarrow> pv \<Rightarrow> string" where
  "advance_pipeline_status current incoming =
     (let current_status = normalize_pipeline_status current;
          incoming_status = normalize_pipeline_status incoming
      in if pipeline_status_rank (PStr incoming_status) > pipeline_status_rank (PStr current_status)
         then incoming_status else current_status)"

definition pipeline_status_accepts :: "pv \<Rightarrow> pv \<Rightarrow> bool" where
  "pipeline_status_accepts current incoming =
     (let current_status = normalize_pipeline_status current;
          incoming_status = normalize_pipeline_status incoming
      in incoming_status = current_status \<or>
         pipeline_status_rank (PStr incoming_status) > pipeline_status_rank (PStr current_status))"

section \<open>The SQL side\<close>

definition rank_case :: "string \<times> int \<Rightarrow> string" where
  "rank_case sr = ''WHEN '' @ [CHR 0x27] @ fst sr @ [CHR 0x27] @ '' THEN '' @ str_of_int (snd sr)"

definition sql_lower_coalesce :: "string \<Rightarrow> string" where
  "sql_lower_coalesce expression =
     ''LOWER(COALESCE('' @ expression @ '', '' @ [CHR 0x27] @ ''unknown'' @ [CHR 0x27] @ ''))''"

definition postgres_status_rank :: "string \<Rightarrow> string" where
  "postgres_status_rank expression =
     ''(CASE '' @ sql_lower_coalesce expression @ '' '' @
     join '' '' (map rank_case PIPELINE_STATUS_RANKS) @ '' ELSE 0 END)''"

definition postgres_status_advances :: "string \<Rightarrow> string \<Rightarrow> string" where
  "postgres_status_advances current incoming =
     postgres_status_rank incoming @ '' > '' @ postgres_status_rank current"

definition postgres_status_accepts :: "string \<Rightarrow> string \<Rightarrow> string" where
  "postgres_status_accepts current incoming =
     (let advances = postgres_status_advances current incoming;
          same = sql_lower_coalesce incoming @ '' = '' @ sql_lower_coalesce current
      in ''(('' @ advances @ '') OR ('' @ same @ ''))'')"

definition postgres_monotonic_status :: "string \<Rightarrow> string \<Rightarrow> string" where
  "postgres_monotonic_status current incoming =
     (let advances = postgres_status_advances current incoming
      in ''CASE WHEN '' @ advances @ '' THEN '' @ incoming @ '' ELSE '' @ current @ '' END'')"

section \<open>The contract of a ranked status\<close>

text \<open>
  A client that keeps a status and feeds it reported values needs of the ranking only this: a
  normal form that is a fixed point, a rank that sees values through their normal form, and an
  update that takes the incoming status exactly when its rank is higher.
\<close>

locale ranked_status =
  fixes norm :: "'v \<Rightarrow> 's" and inj :: "'s \<Rightarrow> 'v" and rank :: "'v \<Rightarrow> int"
    and advance :: "'v \<Rightarrow> 'v \<Rightarrow> 's" and accepts :: "'v \<Rightarrow> 'v \<Rightarrow> bool"
  assumes norm_inj: "norm (inj (norm v)) = norm v"
    and rank_norm: "rank (inj (norm v)) = rank v"
    and advance_eq: "advance c i = (if rank i > rank c then norm i else norm c)"
    and accepts_iff: "accepts c i \<longleftrightarrow> norm i = norm c \<or> rank i > rank c"
begin

lemma rank_advance: "rank (inj (advance c i)) = max (rank c) (rank i)"
  by (auto simp: advance_eq rank_norm max_def)

lemma norm_advance: "norm (inj (advance c i)) = advance c i"
  by (simp add: advance_eq norm_inj)

lemma accepts_iff_advance: "accepts c i \<longleftrightarrow> advance c i = norm i"
  by (auto simp: accepts_iff advance_eq)

lemma advance_idem: "advance (inj (advance c i)) i = advance c i"
  by (auto simp: advance_eq rank_norm norm_inj)

text \<open>Replaying a list of reports: the rank only grows, and ends at the maximum.\<close>

lemma rank_foldl_advance:
  "rank (foldl (\<lambda>s i. inj (advance s i)) c is) = Max (set (rank c # map rank is))"
proof (induction "is" arbitrary: c)
  case Nil
  then show ?case by simp
next
  case (Cons i "is")
  have "Max (set (max (rank c) (rank i) # map rank is)) = Max (set (rank c # rank i # map rank is))"
  proof (cases "is")
    case Nil
    then show ?thesis by simp
  next
    case (Cons a list)
    then show ?thesis by (simp add: max.assoc)
  qed
  with Cons.IH [of "inj (advance c i)"] show ?case by (simp add: rank_advance)
qed

lemma foldl_advance_stays:
  "(\<And>i. i \<in> set is \<Longrightarrow> rank i \<le> rank c) \<Longrightarrow> norm c = s \<Longrightarrow>
   norm (foldl (\<lambda>s i. inj (advance s i)) c is) = s"
proof (induction "is" arbitrary: c)
  case Nil
  then show ?case by simp
next
  case (Cons i "is")
  from Cons.prems(1) [of i] have "advance c i = norm c" by (simp add: advance_eq)
  moreover have "norm (foldl (\<lambda>s i. inj (advance s i)) (inj (norm c)) is) = s"
    using Cons.prems by (intro Cons.IH) (auto simp: rank_norm norm_inj)
  ultimately show ?case by simp
qed

end

lemma normalize_unknown: "lower (strip ''unknown'') = ''unknown''"
  by (simp add: str_eval)

lemma normalize_PStr:
  "normalize_pipeline_status (PStr s) = (let t = lower (strip s) in if t = [] then ''unknown'' else t)"
proof (cases "s = []")
  case True
  have "strip [] = []" by (simp add: str_eval)
  with True show ?thesis by (simp add: normalize_pipeline_status_def normalize_unknown)
qed (simp add: normalize_pipeline_status_def)

lemma normalize_normalized [simp]:
  "normalize_pipeline_status (PStr (normalize_pipeline_status v)) = normalize_pipeline_status v"
proof -
  define s where "s = str_or v ''unknown''"
  have "normalize_pipeline_status v = (let t = lower (strip s) in if t = [] then ''unknown'' else t)"
    by (simp add: normalize_pipeline_status_def s_def)
  then show ?thesis
    by (simp add: normalize_PStr Let_def strip_lower normalize_unknown)
qed

lemma pipeline_rank_normalized [simp]:
  "pipeline_status_rank (PStr (normalize_pipeline_status v)) = pipeline_status_rank v"
  by (simp add: pipeline_status_rank_def)

interpretation pipeline: ranked_status normalize_pipeline_status PStr pipeline_status_rank
  advance_pipeline_status pipeline_status_accepts
  by unfold_locales
    (auto simp: advance_pipeline_status_def pipeline_status_accepts_def Let_def)

section \<open>Properties\<close>

lemma ranks_bounds: "0 \<le> status_rank s \<and> status_rank s \<le> 60"
  by (auto simp: status_rank_def PIPELINE_STATUS_RANKS_def split: option.split if_splits)

lemma terminal_iff_rank: "s \<in> set PIPELINE_TERMINAL_STATUSES \<longleftrightarrow> 30 \<le> status_rank s"
  by (auto simp: PIPELINE_TERMINAL_STATUSES_def status_rank_def PIPELINE_STATUS_RANKS_def)

lemma terminal_iff_pipeline_rank:
  "normalize_pipeline_status v \<in> set PIPELINE_TERMINAL_STATUSES \<longleftrightarrow> 30 \<le> pipeline_status_rank v"
  by (simp add: terminal_iff_rank pipeline_status_rank_def)

abbreviation replay :: "pv \<Rightarrow> pv list \<Rightarrow> pv" where
  \<comment> \<open>a run's status after a sequence of reports\<close>
  "replay c reports \<equiv> foldl (\<lambda>s i. PStr (advance_pipeline_status s i)) c reports"

text \<open>
  C30: Whatever reports arrive and in whatever order, a run's status ends at the highest rank among
  its starting status and the reports, so late or duplicated reports cannot lower it.
\<close>
theorem replay_rank_max:
  "pipeline_status_rank (replay c reports) =
     Max (set (pipeline_status_rank c # map pipeline_status_rank reports))"
  by (rule pipeline.rank_foldl_advance)

text \<open>
  A finished run is never reopened: once its status is terminal, it stays terminal under every
  sequence of reports, and a run at the top rank (failed, error, cancelled, ...) keeps exactly its
  status.
\<close>
theorem terminal_never_reopened:
  assumes "normalize_pipeline_status c \<in> set PIPELINE_TERMINAL_STATUSES"
  shows "normalize_pipeline_status (replay c reports) \<in> set PIPELINE_TERMINAL_STATUSES \<and>
    (pipeline_status_rank c = 60 \<longrightarrow>
      normalize_pipeline_status (replay c reports) = normalize_pipeline_status c)"
proof (intro conjI impI)
  have "pipeline_status_rank c \<le> pipeline_status_rank (replay c reports)"
    by (simp only: pipeline.rank_foldl_advance) simp
  then show "normalize_pipeline_status (replay c reports) \<in> set PIPELINE_TERMINAL_STATUSES"
    using assms by (simp add: terminal_iff_pipeline_rank)
next
  assume "pipeline_status_rank c = 60"
  then show "normalize_pipeline_status (replay c reports) = normalize_pipeline_status c"
    using ranks_bounds by (intro pipeline.foldl_advance_stays) (simp_all add: pipeline_status_rank_def)
qed

theorem terminal_never_reopened_witness:
  "normalize_pipeline_status (replay (PStr '' Failed'') [PStr ''running'', PStr ''success'']) = ''failed'' \<and>
   normalize_pipeline_status (replay (PStr ''noop'') [PStr ''queued'']) \<in> set PIPELINE_TERMINAL_STATUSES"
proof -
  have n: "normalize_pipeline_status (PStr '' Failed'') = ''failed''"
    "normalize_pipeline_status (PStr ''noop'') = ''noop''"
    by (simp_all add: normalize_PStr str_eval)
  have t: "normalize_pipeline_status (PStr '' Failed'') \<in> set PIPELINE_TERMINAL_STATUSES"
    "normalize_pipeline_status (PStr ''noop'') \<in> set PIPELINE_TERMINAL_STATUSES"
    by (simp_all add: n PIPELINE_TERMINAL_STATUSES_def PIPELINE_STATUS_RANKS_def)
  have r: "pipeline_status_rank (PStr '' Failed'') = 60"
    by (simp add: pipeline_status_rank_def n status_rank_def PIPELINE_STATUS_RANKS_def)
  show ?thesis
    using terminal_never_reopened [OF t(1), of "[PStr ''running'', PStr ''success'']"]
      terminal_never_reopened [OF t(2), of "[PStr ''queued'']"] n r by simp
qed

text \<open>
  The acceptance test agrees with the update: a report is accepted exactly when storing it
  through the monotone update leaves the run at the reported status.
\<close>
theorem accepts_iff_advance_to_incoming:
  "pipeline_status_accepts c i \<longleftrightarrow> advance_pipeline_status c i = normalize_pipeline_status i"
  by (rule pipeline.accepts_iff_advance)

definition column :: "string option \<Rightarrow> pv" where
  \<comment> \<open>the Python value of a nullable text column\<close>
  "column x = (case x of None \<Rightarrow> PNone | Some s \<Rightarrow> PStr s)"

definition unpadded :: "string option \<Rightarrow> bool" where
  "unpadded x = (case x of None \<Rightarrow> True | Some s \<Rightarrow> s \<noteq> [] \<and> strip s = s)"

lemma normalize_column: "unpadded x \<Longrightarrow>
    normalize_pipeline_status (column x) = lower (case x of None \<Rightarrow> ''unknown'' | Some s \<Rightarrow> s)"
  by (cases x)
    (simp_all add: column_def unpadded_def normalize_PStr, simp add: normalize_pipeline_status_def str_eval)

section \<open>Reading the SQL text\<close>

definition case_tokens :: "string \<times> int \<Rightarrow> sql_token list" where
  "case_tokens sr = [Word ''WHEN'', Quoted (fst sr), Word ''THEN'', Word (str_of_int (snd sr))]"

definition rank_cases :: "(string \<times> int) list \<Rightarrow> sql_branches" where
  "rank_cases rs = foldr (\<lambda>sr. When_Then (Literal (fst sr)) (Number (snd sr))) rs (Otherwise (Number 0))"

definition lowered :: "sql_expr \<Rightarrow> sql_expr" where
  "lowered x = Lower (Coalesce x (Literal ''unknown''))"

definition rank_tokens :: "sql_token list" where
  "rank_tokens = concat (map case_tokens PIPELINE_STATUS_RANKS) @ [Word ''ELSE'', Word ''0'', Word ''END'']"

lemma read_rank_cases:
  assumes "list_all (\<lambda>sr. list_all is_ascii_digit (str_of_int (snd sr)) \<and> digits_value (str_of_int (snd sr)) = snd sr \<and>
      str_of_int (snd sr) \<notin> set KEYWORDS) rs"
  shows "read_branches (length rs + (n + 6)) (concat (map case_tokens rs) @ [Word ''ELSE'', Word ''0'', Word ''END''] @ rest) =
    Some (rank_cases rs, rest)"
  using assms
proof (induction rs)
  case Nil
  have "list_all is_ascii_digit ''0''" "digits_value ''0'' = 0" "''0'' \<notin> set KEYWORDS" by code_simp+
  then have zero: "read_or (Suc (Suc (Suc (Suc (n + 1))))) (Word ''0'' # Word ''END'' # rest) = Some (Number 0, Word ''END'' # rest)"
    using read_or_number [of "''0''" "Word ''END'' # rest"] by simp
  have fuel: "length [] + (n + 6) = Suc (Suc (Suc (Suc (Suc (n + 1)))))" by simp
  have tail: "concat (map case_tokens []) @ [Word ''ELSE'', Word ''0'', Word ''END''] @ rest = Word ''ELSE'' # Word ''0'' # Word ''END'' # rest"
    by simp
  have "Word ''ELSE'' \<noteq> Word ''WHEN''" by simp
  then show ?case unfolding fuel tail
    by (simp only: read_branches.simps eat.simps option.case bind.bind_lunit prod.case simp_thms if_True if_False zero)
      (simp add: rank_cases_def)
next
  case (Cons sr rs)
  then have "str_of_int (snd sr) \<notin> set KEYWORDS" by simp
  let ?n = "length rs + n + 2"
  let ?tail = "concat (map case_tokens rs) @ [Word ''ELSE'', Word ''0'', Word ''END''] @ rest"
  have ends: "expr_ends ?tail" by (cases rs) (simp_all add: case_tokens_def)
  have fuel: "length (sr # rs) + (n + 6) = Suc (Suc (Suc (Suc (Suc ?n))))" "length rs + (n + 6) = Suc (Suc (Suc (Suc ?n)))"
    by simp_all
  have "read_or (Suc (Suc (Suc (Suc ?n)))) (Quoted (fst sr) # Word ''THEN'' # ts) = Some (Literal (fst sr), Word ''THEN'' # ts)" for ts
    by (rule read_or_literal) simp
  moreover have "read_or (Suc (Suc (Suc (Suc ?n)))) (Word (str_of_int (snd sr)) # ?tail) = Some (Number (snd sr), ?tail)"
    using Cons(2) ends read_or_number [of "str_of_int (snd sr)" ?tail] by simp
  moreover have "read_branches (Suc (Suc (Suc (Suc ?n)))) ?tail = Some (rank_cases rs, rest)"
    using Cons unfolding fuel by simp
  moreover have "concat (map case_tokens (sr # rs)) @ [Word ''ELSE'', Word ''0'', Word ''END''] @ rest =
      Word ''WHEN'' # Quoted (fst sr) # Word ''THEN'' # Word (str_of_int (snd sr)) # ?tail" by (simp add: case_tokens_def)
  ultimately show ?case
    unfolding fuel
    by (simp only: read_branches.simps eat.simps option.case bind.bind_lunit prod.case simp_thms if_True)
      (simp add: rank_cases_def)
qed

lemma rank_cases_value:
  "sql_branch env (Some (SText s)) (rank_cases rs) = Some (SInt (case map_of rs s of None \<Rightarrow> 0 | Some r \<Rightarrow> r))"
  by (induction rs) (auto simp: rank_cases_def sql_equals_def)

lemma rank_ranks_read:
  "list_all (\<lambda>sr. list_all is_ascii_digit (str_of_int (snd sr)) \<and> digits_value (str_of_int (snd sr)) = snd sr \<and>
     str_of_int (snd sr) \<notin> set KEYWORDS) PIPELINE_STATUS_RANKS"
  by code_simp

text \<open>The texts as tokens.\<close>

definition lower_tokens :: "sql_token list \<Rightarrow> sql_token list" where
  "lower_tokens ts = Word ''LOWER'' # Sym (CHR ''('') #
     (Word ''COALESCE'' # Sym (CHR ''('') # ts @ [Sym (CHR '',''), Quoted ''unknown'', Sym (CHR '')'')]) @ [Sym (CHR '')'')]"

definition rank_text_tokens :: "sql_token list \<Rightarrow> sql_token list" where
  "rank_text_tokens ts = Sym (CHR ''('') # (Word ''CASE'' # lower_tokens ts @ rank_tokens) @ [Sym (CHR '')'')]"

lemma lex_lower_coalesce: "lexes e ts \<Longrightarrow> solid (sql_lower_coalesce e) (lower_tokens ts)"
proof -
  assume e: "lexes e ts"
  let ?tail = "'', '' @ [CHR 0x27] @ ''unknown'' @ [CHR 0x27] @ ''))''"
  have "solid ''LOWER(COALESCE('' [Word ''LOWER'', Sym (CHR ''(''), Word ''COALESCE'', Sym (CHR ''('')]"
    by (rule solid_piece) code_simp+
  moreover have "solid ?tail [Sym (CHR '',''), Quoted ''unknown'', Sym (CHR '')''), Sym (CHR '')'')]"
    by (rule solid_piece) code_simp+
  moreover have "\<not> word_char (hd ?tail)" by code_simp
  ultimately have "solid (''LOWER(COALESCE('' @ e @ ?tail) ([Word ''LOWER'', Sym (CHR ''(''), Word ''COALESCE'', Sym (CHR ''('')] @ ts @
      [Sym (CHR '',''), Quoted ''unknown'', Sym (CHR '')''), Sym (CHR '')'')])"
    using e by (intro solid_append lexes_then_solid) simp_all
  then show ?thesis by (simp add: sql_lower_coalesce_def lower_tokens_def)
qed

lemma lex_status_rank: "lexes e ts \<Longrightarrow> solid (postgres_status_rank e) (rank_text_tokens ts)"
proof -
  assume e: "lexes e ts"
  let ?tail = "'' '' @ join '' '' (map rank_case PIPELINE_STATUS_RANKS) @ '' ELSE 0 END)''"
  have "solid ''(CASE '' [Sym (CHR ''(''), Word ''CASE'']" by (rule solid_piece) code_simp+
  moreover have "solid ?tail (rank_tokens @ [Sym (CHR '')'')])" by (rule solid_piece) code_simp+
  ultimately have "solid (''(CASE '' @ sql_lower_coalesce e @ ?tail) ([Sym (CHR ''(''), Word ''CASE''] @ lower_tokens ts @ rank_tokens @ [Sym (CHR '')'')])"
    using lex_lower_coalesce [OF e] by (blast intro: solid_append)
  then show ?thesis by (simp add: postgres_status_rank_def rank_text_tokens_def)
qed

lemma lex_monotonic_status:
  assumes "lexes c ts" "lexes i us"
  shows "lexes (postgres_monotonic_status c i) (Word ''CASE'' # Word ''WHEN'' # (rank_text_tokens us @ Sym (CHR ''>'') # rank_text_tokens ts) @
    Word ''THEN'' # us @ Word ''ELSE'' # ts @ [Word ''END''])"
proof -
  have one: "solid ''CASE WHEN '' [Word ''CASE'', Word ''WHEN'']" by (rule solid_piece) code_simp+
  have two: "solid '' > '' [Sym (CHR ''>'')]" by (rule solid_piece) code_simp+
  have three: "solid '' THEN '' [Word ''THEN'']" by (rule solid_piece) code_simp+
  have four: "solid (i @ '' ELSE '') (us @ [Word ''ELSE''])"
    by (rule lexes_then_solid [OF assms(2) solid_piece]) code_simp+
  have five: "lexes (c @ '' END'') (ts @ [Word ''END''])"
  proof -
    have "list_all word_char ''END''" by code_simp
    then have "lexes ''END'' [Word ''END'']" using lex_word [of "''END''"] by (simp add: lexes_def prepend_one)
    moreover have "solid (c @ '' '') (ts @ [])" by (rule lexes_then_solid [OF assms(1) solid_piece]) code_simp+
    ultimately have "lexes ((c @ '' '') @ ''END'') ((ts @ []) @ [Word ''END''])" by (rule solid_then_lexes [rotated])
    then show ?thesis by simp
  qed
  have "lexes (''CASE WHEN '' @ postgres_status_rank i @ '' > '' @ postgres_status_rank c @ '' THEN '' @ (i @ '' ELSE '') @ c @ '' END'')
      ([Word ''CASE'', Word ''WHEN''] @ rank_text_tokens us @ [Sym (CHR ''>'')] @ rank_text_tokens ts @ [Word ''THEN''] @ (us @ [Word ''ELSE'']) @
         ts @ [Word ''END''])"
    by (intro solid_then_lexes [OF one] solid_then_lexes [OF two] solid_then_lexes [OF three] solid_then_lexes [OF four five]
        solid_then_lexes [OF lex_status_rank [OF assms(1)]] solid_then_lexes [OF lex_status_rank [OF assms(2)]])
  then show ?thesis by (simp add: postgres_monotonic_status_def postgres_status_advances_def)
qed

lemma lex_status_accepts:
  assumes "lexes c ts" "lexes i us"
  shows "lexes (postgres_status_accepts c i) (Sym (CHR ''('') #
    ((Sym (CHR ''('') # (rank_text_tokens us @ Sym (CHR ''>'') # rank_text_tokens ts) @ [Sym (CHR '')'')]) @ Word ''OR'' #
     (Sym (CHR ''('') # (lower_tokens us @ Sym (CHR ''='') # lower_tokens ts) @ [Sym (CHR '')'')])) @ [Sym (CHR '')'')])"
proof -
  have "solid ''(('' [Sym (CHR ''(''), Sym (CHR ''('')]" by (rule solid_piece) code_simp+
  moreover have "solid '' > '' [Sym (CHR ''>'')]" by (rule solid_piece) code_simp+
  moreover have "solid '') OR ('' [Sym (CHR '')''), Word ''OR'', Sym (CHR ''('')]" by (rule solid_piece) code_simp+
  moreover have "solid '' = '' [Sym (CHR ''='')]" by (rule solid_piece) code_simp+
  moreover have "solid ''))'' [Sym (CHR '')''), Sym (CHR '')'')]" by (rule solid_piece) code_simp+
  ultimately have "solid (''(('' @ postgres_status_rank i @ '' > '' @ postgres_status_rank c @ '') OR ('' @ sql_lower_coalesce i @ '' = '' @
       sql_lower_coalesce c @ ''))'')
      ([Sym (CHR ''(''), Sym (CHR ''('')] @ rank_text_tokens us @ [Sym (CHR ''>'')] @ rank_text_tokens ts @
        [Sym (CHR '')''), Word ''OR'', Sym (CHR ''('')] @ lower_tokens us @ [Sym (CHR ''='')] @ lower_tokens ts @ [Sym (CHR '')''), Sym (CHR '')'')])"
    using lex_status_rank [OF assms(1)] lex_status_rank [OF assms(2)] lex_lower_coalesce [OF assms(1)] lex_lower_coalesce [OF assms(2)]
    by (intro solid_append)
  then show ?thesis by (simp add: postgres_status_accepts_def postgres_status_advances_def solid_lexes)
qed

text \<open>The tokens as expressions.\<close>

lemma read_lowered: "reads_as d ts x \<Longrightarrow> 2 \<le> d \<Longrightarrow> reads_as (d + 8) (lower_tokens ts) (lowered x)"
  using reads_as_lower [OF reads_as_coalesce [of d ts x "''unknown''"]] by (simp add: lower_tokens_def lowered_def add.commute)

lemma rank_tokens_end: "expr_ends (rank_tokens @ rest)"
  by (simp add: rank_tokens_def PIPELINE_STATUS_RANKS_def case_tokens_def)

lemma read_rank:
  assumes "reads_as d ts x" "2 \<le> d"
  shows "reads_as (d + 28) (rank_text_tokens ts) (Simple_Case (lowered x) (rank_cases PIPELINE_STATUS_RANKS))"
proof -
  have "read_or n ((Word ''CASE'' # lower_tokens ts @ rank_tokens) @ Sym (CHR '')'') # rest) =
      Some (Simple_Case (lowered x) (rank_cases PIPELINE_STATUS_RANKS), Sym (CHR '')'') # rest)" if "d + 26 \<le> n" for n rest
  proof -
    define m where "m = n - 4"
    then have m: "n = Suc (Suc (Suc (Suc m)))" "d + 22 \<le> m" using \<open>d + 26 \<le> n\<close> by simp_all
    have "eat (Word ''WHEN'') (lower_tokens ts @ rank_tokens @ Sym (CHR '')'') # rest) = None" by (simp add: lower_tokens_def)
    moreover have "read_or m (lower_tokens ts @ rank_tokens @ Sym (CHR '')'') # rest) =
        Some (lowered x, rank_tokens @ Sym (CHR '')'') # rest)"
      by (rule reads_as_or [OF read_lowered [OF assms] _ rank_tokens_end]) (use m(2) in simp)
    moreover have "read_branches m (rank_tokens @ Sym (CHR '')'') # rest) = Some (rank_cases PIPELINE_STATUS_RANKS, Sym (CHR '')'') # rest)"
    proof -
      have "m = length PIPELINE_STATUS_RANKS + ((m - 22) + 6)" using m(2) by (simp add: PIPELINE_STATUS_RANKS_def)
      then show ?thesis using read_rank_cases [OF rank_ranks_read, of "m - 22" "Sym (CHR '')'') # rest"]
        by (simp add: rank_tokens_def)
    qed
    ultimately have "read_primary (Suc m) (Word ''CASE'' # lower_tokens ts @ rank_tokens @ Sym (CHR '')'') # rest) =
        Some (Simple_Case (lowered x) (rank_cases PIPELINE_STATUS_RANKS), Sym (CHR '')'') # rest)" by simp
    then show ?thesis unfolding m(1) append_Cons append_assoc by (rule read_or_primary) simp_all
  qed
  from reads_as_paren [OF this] show ?thesis by (simp add: rank_text_tokens_def eval_nat_numeral)
qed

abbreviation rank_expr :: "sql_expr \<Rightarrow> sql_expr" where
  "rank_expr x \<equiv> Simple_Case (lowered x) (rank_cases PIPELINE_STATUS_RANKS)"

lemma rank_text_length: "67 \<le> length (rank_text_tokens ts)"
  by (simp add: rank_text_tokens_def lower_tokens_def rank_tokens_def PIPELINE_STATUS_RANKS_def case_tokens_def)

lemma parse_monotonic_status:
  assumes "reads 2 c x" "reads 2 i y"
  shows "sql_parse (postgres_monotonic_status c i) =
    Some (Search_Case (When_Then (Greater (rank_expr y) (rank_expr x)) y (Otherwise x)))"
proof -
  obtain ts us where c: "lexes c ts" "reads_as 2 ts x" and i: "lexes i us" "reads_as 2 us y" using assms by (auto simp: reads_def)
  let ?cond = "rank_text_tokens us @ Sym (CHR ''>'') # rank_text_tokens ts"
  let ?all = "Word ''CASE'' # Word ''WHEN'' # ?cond @ Word ''THEN'' # us @ Word ''ELSE'' # ts @ [Word ''END'']"
  note r = read_rank [OF c(2)] read_rank [OF i(2)]
  have cond: "read_or n (?cond @ Word ''THEN'' # rest) = Some (Greater (rank_expr y) (rank_expr x), Word ''THEN'' # rest)"
    if "32 \<le> n" for n rest
    using read_comparison_greater [OF r(2,1)] that by simp
  have "read_or n ?all = Some (Search_Case (When_Then (Greater (rank_expr y) (rank_expr x)) y (Otherwise x)), [])" if "40 \<le> n" for n
  proof -
    define m where "m = n - 2"
    then have m: "n = Suc (Suc m)" "38 \<le> m" using \<open>40 \<le> n\<close> by simp_all
    have "read_cast m ?all = Some (Search_Case (When_Then (Greater (rank_expr y) (rank_expr x)) y (Otherwise x)), [])"
      using read_search_case [OF cond reads_as_mono [OF i(2)] reads_as_mono [OF c(2)], where n = m and rest = "[]"] m(2) by (simp add: operand_ends_def)
    then show ?thesis unfolding m(1) by (rule read_or_operand) simp
  qed
  moreover have "40 \<le> 5 * length ?all + 5" using rank_text_length [of ts] by simp
  ultimately show ?thesis by (intro lexes_parse [OF lex_monotonic_status [OF c(1) i(1)]])
qed

lemma parse_status_accepts:
  assumes "reads 2 c x" "reads 2 i y"
  shows "sql_parse (postgres_status_accepts c i) =
    Some (Either (Greater (rank_expr y) (rank_expr x)) (Equals (lowered y) (lowered x)))"
proof -
  obtain ts us where c: "lexes c ts" "reads_as 2 ts x" and i: "lexes i us" "reads_as 2 us y" using assms by (auto simp: reads_def)
  let ?advances = "Sym (CHR ''('') # (rank_text_tokens us @ Sym (CHR ''>'') # rank_text_tokens ts) @ [Sym (CHR '')'')]"
  let ?same = "Sym (CHR ''('') # (lower_tokens us @ Sym (CHR ''='') # lower_tokens ts) @ [Sym (CHR '')'')]"
  let ?all = "Sym (CHR ''('') # (?advances @ Word ''OR'' # ?same) @ [Sym (CHR '')'')]"
  have "reads_as (Suc (Suc 32)) ?advances (Greater (rank_expr y) (rank_expr x))"
    by (rule reads_as_paren) (use read_comparison_greater [OF read_rank [OF i(2)] read_rank [OF c(2)]] in simp)
  moreover have "reads_as (Suc (Suc 12)) ?same (Equals (lowered y) (lowered x))"
    by (rule reads_as_paren) (use read_comparison_equals [OF read_lowered [OF i(2)] read_lowered [OF c(2)]] in simp)
  then have "reads_as (Suc (Suc 32)) ?same (Equals (lowered y) (lowered x))" by (rule reads_as_mono) simp
  ultimately have "read_or n ((?advances @ Word ''OR'' # ?same) @ Sym (CHR '')'') # rest) =
      Some (Either (Greater (rank_expr y) (rank_expr x)) (Equals (lowered y) (lowered x)), Sym (CHR '')'') # rest)" if "37 \<le> n" for n rest
    using read_or_either [of "Suc (Suc 32)" ?advances _ ?same _ n "Sym (CHR '')'') # rest"] that by simp
  from reads_as_or [OF reads_as_paren [OF this], where n = "5 * length ?all + 5" and rest = "[]"] rank_text_length [of ts]
  have "read_or (5 * length ?all + 5) ?all = Some (Either (Greater (rank_expr y) (rank_expr x)) (Equals (lowered y) (lowered x)), [])"
    by simp
  then show ?thesis by (intro lexes_parse [OF lex_status_accepts [OF c(1) i(1)]])
qed

section \<open>What the SQL text computes\<close>

definition sql_of :: "string option \<Rightarrow> sql_value" where
  \<comment> \<open>a nullable text as the database holds it\<close>
  "sql_of x = (case x of None \<Rightarrow> SNull | Some s \<Rightarrow> SText s)"

definition folded :: "string option \<Rightarrow> string" where
  "folded x = lower (case x of None \<Rightarrow> ''unknown'' | Some s \<Rightarrow> s)"

lemma lowered_value: "sql_eval env x = Some (sql_of a) \<Longrightarrow> sql_eval env (lowered x) = Some (SText (folded a))"
  by (cases a) (simp_all add: lowered_def sql_of_def folded_def sql_lower_def)

lemma rank_value: "sql_eval env x = Some (sql_of a) \<Longrightarrow> sql_eval env (rank_expr x) = Some (SInt (status_rank (folded a)))"
  by (simp add: lowered_value rank_cases_value status_rank_def)

lemma monotonic_value:
  assumes "reads 2 c x" "reads 2 i y" "sql_eval env x = Some (sql_of a)" "sql_eval env y = Some (sql_of b)"
  shows "sql_value env (postgres_monotonic_status c i) = Some (sql_of (if status_rank (folded b) > status_rank (folded a) then b else a))"
  using rank_value [OF assms(3)] rank_value [OF assms(4)] assms(3,4)
  by (simp add: sql_value_def parse_monotonic_status [OF assms(1,2)] sql_greater_def)

lemma accepts_value:
  assumes "reads 2 c x" "reads 2 i y" "sql_eval env x = Some (sql_of a)" "sql_eval env y = Some (sql_of b)"
  shows "sql_value env (postgres_status_accepts c i) =
    Some (SBool (status_rank (folded b) > status_rank (folded a) \<or> folded b = folded a))"
  using rank_value [OF assms(3)] rank_value [OF assms(4)] lowered_value [OF assms(3)] lowered_value [OF assms(4)]
  by (simp add: sql_value_def parse_status_accepts [OF assms(1,2)] sql_greater_def sql_equals_def sql_or_def)

text \<open>
  C31: the SQL text spliced into the database updates does what the Python functions do. Read and evaluated as SQL
  over columns that are NULL or unpadded non-empty text, the text of \<open>postgres_monotonic_status\<close> yields one of the two
  columns, and that one's normal form is the status that \<open>advance_pipeline_status\<close> computes; the text of
  \<open>postgres_status_accepts\<close> yields the Boolean of \<open>pipeline_status_accepts\<close>, never NULL and never an error. The two operands are any
  two names of columns or parameters. (The SQL does not strip blanks, hence the hypothesis on the columns.)
\<close>
theorem postgres_status_agrees:
  assumes "column_name current" and "column_name incoming" and "unpadded (env current)" and "unpadded (env incoming)"
  shows "\<exists>status. status \<in> {env current, env incoming} \<and>
      sql_value (\<lambda>name. sql_of (env name)) (postgres_monotonic_status current incoming) = Some (sql_of status) \<and>
      normalize_pipeline_status (column status) = advance_pipeline_status (column (env current)) (column (env incoming)) \<and>
      sql_value (\<lambda>name. sql_of (env name)) (postgres_status_accepts current incoming) =
        Some (SBool (pipeline_status_accepts (column (env current)) (column (env incoming))))"
proof -
  let ?env = "\<lambda>name. sql_of (env name)"
  let ?status = "if status_rank (folded (env incoming)) > status_rank (folded (env current)) then env incoming else env current"
  note reads = column_reads [OF assms(1)] column_reads [OF assms(2)]
  have norm: "normalize_pipeline_status (column (env e)) = folded (env e)" if "unpadded (env e)" for e
    using normalize_column [OF that] by (simp add: folded_def)
  have rank: "pipeline_status_rank (column (env e)) = status_rank (folded (env e))" if "unpadded (env e)" for e
    by (simp add: pipeline_status_rank_def norm [OF that])
  have "sql_value ?env (postgres_monotonic_status current incoming) = Some (sql_of ?status)"
    by (rule monotonic_value [OF reads]) simp_all
  moreover have "normalize_pipeline_status (column ?status) = advance_pipeline_status (column (env current)) (column (env incoming))"
    using assms(3,4) by (simp add: pipeline.advance_eq norm rank)
  moreover have "sql_value ?env (postgres_status_accepts current incoming) =
      Some (SBool (pipeline_status_accepts (column (env current)) (column (env incoming))))"
    unfolding accepts_value [OF reads, of ?env "env current" "env incoming", simplified]
    using assms(3,4) by (auto simp: pipeline.accepts_iff norm rank)
  ultimately show ?thesis by (intro exI [of _ ?status]) auto
qed

theorem postgres_status_agrees_witness:
  "\<exists>status. sql_value (\<lambda>name. sql_of (if name = ''pipeline_runs.status'' then None else Some ''Failed''))
      (postgres_monotonic_status ''pipeline_runs.status'' ''EXCLUDED.status'') = Some (sql_of status) \<and>
    normalize_pipeline_status (column status) = advance_pipeline_status PNone (PStr ''Failed'')"
proof -
  let ?env = "\<lambda>name. if name = ''pipeline_runs.status'' then None else Some ''Failed''"
  have names: "column_name ''pipeline_runs.status''" "column_name ''EXCLUDED.status''" by code_simp+
  have "unpadded None" "unpadded (Some ''Failed'')"
    by (simp_all add: unpadded_def str_eval)
  then have "unpadded (?env ''pipeline_runs.status'')" "unpadded (?env ''EXCLUDED.status'')" by simp_all
  from postgres_status_agrees [OF names this] show ?thesis by (auto simp: column_def)
qed

end
