(* ===== verification/Storage_Scope.thy ===== *)
theory Storage_Scope
  imports Py_Base
begin

text \<open>
  Tenant scoping of lakehouse object keys: \<open>omega_lakehouse/storage_scope.py\<close> and
  \<open>omega_lakehouse/keys.py\<close>.

  A key is first brought to a canonical form (\<open>canonical_storage_key\<close>), then its
  \<open>tenant_id=\<close> and \<open>workspace_id=\<close> segments are compared with the caller's context at the position
  its root prescribes (\<open>has_exact_storage_scope\<close>, \<open>scoped_storage_key\<close>). The same check guards the
  literals handed to DuckDB's readers (\<open>require_scoped_reader_uri\<close>). The theorems state the
  isolation this is for: a key that is granted names one tenant and one workspace only.
\<close>

section \<open>storage\_scope.py\<close>

definition SCOPE_INDEX_BY_ROOT :: "(string \<times> nat) list" where
  "SCOPE_INDEX_BY_ROOT =
     [(''raw'', 3), (''silver'', 3), (''gold'', 3), (''knowledge_bits'', 3), (''uploads'', 2)]"

definition READABLE_SCOPED_ROOTS :: "string list" where
  "READABLE_SCOPED_ROOTS = [''raw'', ''silver'', ''gold'', ''uploads'']"

definition segment_char :: "bool \<Rightarrow> char \<Rightarrow> bool" where
  \<comment> \<open>the character classes of \<open>_SEGMENT\<close> and, with \<open>glob\<close>, \<open>_GLOB_SEGMENT\<close>\<close>
  "segment_char glob c \<longleftrightarrow> is_ascii_alpha c \<or> is_ascii_digit c \<or> c \<in> set ''_.:=-''
     \<or> (glob \<and> c \<in> set ''*?'')"

definition segment_fullmatch :: "bool \<Rightarrow> string \<Rightarrow> bool" where
  "segment_fullmatch glob part \<longleftrightarrow> part \<noteq> [] \<and> list_all (segment_char glob) part"

definition scope_value :: "string \<Rightarrow> bool" where
  \<comment> \<open>\<open>_SCOPE_VALUE\<close>\<close>
  "scope_value s \<longleftrightarrow>
     s \<noteq> [] \<and> list_all (\<lambda>c. is_ascii_alpha c \<or> is_ascii_digit c \<or> c \<in> set ''_.:-'') s"

definition READER_SCHEME_DENY :: "string list" where
  "READER_SCHEME_DENY = [''file:'', ''/'', ''../'', ''~'', ''http:'', ''https:'']"

datatype reader_error = ReaderUriError string

definition has_control_char :: "string \<Rightarrow> bool" where
  "has_control_char s \<longleftrightarrow> list_ex (\<lambda>c. code c < 32 \<or> code c = 127) s"

text \<open>
  The source also compares the text with its NFKC normal form, after it has rejected non-ASCII
  text; on ASCII text NFKC is the identity, so that disjunct never holds.
\<close>

definition canonical_storage_key :: "pv \<Rightarrow> bool \<Rightarrow> string pyres" where
  "canonical_storage_key value allow_glob =
     (let raw = strip (str_or value [])
      in if raw = [] \<or> startswith raw ''/'' \<or> CHR ''%'' \<in> set raw \<or> CHR 0x5C \<in> set raw
            \<or> str_in ''//'' raw \<or> \<not> is_ascii raw \<or> has_control_char raw
         then Inl (ValueError ''storage path is not canonical'')
         else
           let raw' = (if endswith raw ''/'' then butlast raw else raw)
           in if raw' = [] then Inl (ValueError ''storage path is not canonical'')
              else
                let parts = split_on (CHR ''/'') raw'
                in if list_ex (\<lambda>part. part = [] \<or> part = ''.'' \<or> part = ''..''
                        \<or> \<not> segment_fullmatch allow_glob part) parts
                   then Inl (ValueError ''storage path is not canonical'')
                   else Inr (join ''/'' parts))"

definition positions :: "string \<Rightarrow> string list \<Rightarrow> nat list" where
  "positions prefix parts = filter (\<lambda>i. startswith (parts ! i) prefix) [0..<length parts]"

definition has_glob :: "string \<Rightarrow> bool" where
  "has_glob part \<longleftrightarrow> CHR ''*'' \<in> set part \<or> CHR ''?'' \<in> set part"

definition has_exact_storage_scope :: "pv \<Rightarrow> pv \<Rightarrow> pv \<Rightarrow> bool" where
  "has_exact_storage_scope key tenant workspace =
     (let tenant_value = strip (str_or tenant []);
          workspace_value = strip (str_or workspace [])
      in if tenant_value = [] \<or> workspace_value = [] then False
         else case canonical_storage_key key True of
           Inl _ \<Rightarrow> False
         | Inr clean \<Rightarrow>
             let parts = split_on (CHR ''/'') clean
             in case map_of SCOPE_INDEX_BY_ROOT (hd parts) of
               None \<Rightarrow> False
             | Some scope_index \<Rightarrow>
                 if length parts \<le> scope_index + 1 then False
                 else if list_ex has_glob (take (scope_index + 2) parts) then False
                 else positions ''tenant_id='' parts = [scope_index]
                   \<and> positions ''workspace_id='' parts = [scope_index + 1]
                   \<and> parts ! scope_index = ''tenant_id='' @ tenant_value
                   \<and> parts ! (scope_index + 1) = ''workspace_id='' @ workspace_value)"

definition stripped_items :: "pv \<Rightarrow> string list pyres" where
  \<comment> \<open>\<open>{str(item).strip() for item in (value or []) if str(item).strip()}\<close>\<close>
  "stripped_items value =
     rbind (py_iter (py_or value (PList [])))
       (\<lambda>items. Inr (filter (\<lambda>s. s \<noteq> []) (map (\<lambda>item. strip (py_str item)) items)))"

definition scoped_storage_key :: "pv \<Rightarrow> pv \<Rightarrow> string option \<Rightarrow> bool \<Rightarrow> string pyres" where
  "scoped_storage_key value context bucket allow_glob =
     rbind (canonical_storage_key value allow_glob) (\<lambda>key.
       let parts = split_on (CHR ''/'') key
       in if hd parts \<notin> set READABLE_SCOPED_ROOTS then Inl (ValueError ''storage root is not scoped'')
       else
         let ctx = (case as_dict context of None \<Rightarrow> [] | Some d \<Rightarrow> d);
             tenant = strip (str_or (dget ctx ''tenant_id'') []);
             workspace = strip (str_or (dget ctx ''workspace_id'') [])
         in if tenant = [] \<or> workspace = []
            then Inl (PermissionError ''tenant/workspace storage scope required'')
            else if \<not> has_exact_storage_scope (PStr key) (PStr tenant) (PStr workspace)
            then Inl (PermissionError ''storage scope mismatch'')
            else rbind (stripped_items (dget ctx ''allowed_cartridges'')) (\<lambda>allowed.
              case parts of
                _ # cartridge # _ \<Rightarrow>
                  if cartridge \<notin> set allowed \<and> ''*'' \<notin> set allowed
                  then Inl (PermissionError ''storage cartridge mismatch'')
                  else rbind (stripped_items (dget ctx ''allowed_buckets'')) (\<lambda>buckets.
                    case bucket of
                      Some b \<Rightarrow>
                        if b \<noteq> [] \<and> buckets \<noteq> [] \<and> b \<notin> set buckets
                        then Inl (PermissionError ''storage bucket mismatch'') else Inr key
                    | None \<Rightarrow> Inr key)
              | _ \<Rightarrow> Inl IndexError))"

definition scoped_storage_allowed :: "pv \<Rightarrow> pv \<Rightarrow> string option \<Rightarrow> bool pyres" where
  "scoped_storage_allowed value context bucket =
     (case scoped_storage_key value context bucket False of
        Inr _ \<Rightarrow> Inr True
      | Inl (PermissionError _) \<Rightarrow> Inr False
      | Inl (ValueError _) \<Rightarrow> Inr False
      | Inl e \<Rightarrow> Inl e)"

definition drop_prefix :: "string \<Rightarrow> string \<Rightarrow> string option" where
  "drop_prefix p s = (if startswith s p then Some (drop (length p) s) else None)"

definition parse_required_scope :: "pv \<Rightarrow> (string \<times> string) pyres" where
  \<comment> \<open>\<open>_REQUIRED_SCOPE.fullmatch\<close>: the value classes exclude the slash, so the match splits there\<close>
  "parse_required_scope marker =
     (let scope = (\<lambda>a b.
            case (drop_prefix ''tenant_id='' a, drop_prefix ''workspace_id='' b) of
              (Some t, Some w) \<Rightarrow>
                if scope_value t \<and> scope_value w then Inr (t, w)
                else Inl (ValueError ''required scope marker is malformed'')
            | _ \<Rightarrow> Inl (ValueError ''required scope marker is malformed''))
      in case split_on (CHR ''/'') (str_or marker []) of
           [a, b] \<Rightarrow> scope a b
         | [a, b, []] \<Rightarrow> scope a b
         | _ \<Rightarrow> Inl (ValueError ''required scope marker is malformed''))"

datatype prefixes_arg = OnePrefix string | ManyPrefixes "string list"

definition reader_prefixes :: "prefixes_arg \<Rightarrow> string list" where
  "reader_prefixes prefixes =
     (let values = (case prefixes of OnePrefix p \<Rightarrow> [p] | ManyPrefixes ps \<Rightarrow> ps)
      in map (\<lambda>p. rstrip (\<lambda>c. c = CHR ''/'') p @ ''/'') (filter (\<lambda>p. p \<noteq> []) values))"

definition opt_str :: "string option \<Rightarrow> pv" where
  "opt_str x = (case x of None \<Rightarrow> PNone | Some s \<Rightarrow> PStr s)"

definition require_scoped_reader_uri ::
  "pv \<Rightarrow> prefixes_arg \<Rightarrow> string option \<Rightarrow> string option \<Rightarrow> reader_error + string" where
  "require_scoped_reader_uri uri prefixes tenant workspace =
     (let value = (case uri of PStr s \<Rightarrow> s | _ \<Rightarrow> [])
      in if value = [] \<or> value \<noteq> strip value then Inl (ReaderUriError ''canonical'')
      else if CHR ''?'' \<in> set value \<or> CHR ''#'' \<in> set value then Inl (ReaderUriError ''query'')
      else if list_ex (startswith (lower value)) READER_SCHEME_DENY then Inl (ReaderUriError ''scheme'')
      else if \<not> startswith value ''s3://'' then Inl (ReaderUriError ''prefix'')
      else
        let rest = drop (length ''s3://'') value
        in if ''..'' \<in> set (split_on (CHR ''/'') rest) then Inl (ReaderUriError ''traversal'')
        else case canonical_storage_key (PStr rest) True of
          Inl _ \<Rightarrow> Inl (ReaderUriError ''canonical'')
        | Inr canonical \<Rightarrow>
            if canonical \<noteq> rest \<or> CHR ''/'' \<notin> set canonical then Inl (ReaderUriError ''canonical'')
            else if \<not> list_ex (startswith value) (reader_prefixes prefixes) then Inl (ReaderUriError ''prefix'')
            else if tenant = None \<and> workspace = None then Inr value
            else
              let key = join ''/'' (tl (split_on (CHR ''/'') canonical))
              in if \<not> has_exact_storage_scope (PStr key) (opt_str tenant) (opt_str workspace)
                 then Inl (ReaderUriError ''scope'') else Inr value)"

section \<open>keys.py\<close>

datatype key_error = InvalidObjectKey string | UnsafePrefixDelete string

definition validate_key :: "pv \<Rightarrow> key_error + string" where
  "validate_key key =
     (let value = strip (str_or key [])
      in if value = [] then Inl (InvalidObjectKey ''object key is required'')
      else if str_in ''://'' value then Inl (InvalidObjectKey ''object key must not include a URI scheme'')
      else if startswith value ''/'' then Inl (InvalidObjectKey ''object key must not start with slash'')
      else if CHR 0x5C \<in> set value \<or> str_in ''//'' value \<or> str_in ''..'' value
        then Inl (InvalidObjectKey ''object key contains an unsafe segment'')
      else if has_control_char value then Inl (InvalidObjectKey ''object key contains control characters'')
      else Inr value)"

definition validate_prefix :: "pv \<Rightarrow> bool \<Rightarrow> bool \<Rightarrow> key_error + string" where
  "validate_prefix prefix for_delete trailing_slash =
     (let value = strip (str_or prefix [])
      in if for_delete \<and> value = [] then Inl (UnsafePrefixDelete ''delete_prefix refuses an empty prefix'')
      else rbind
        (if value \<noteq> []
         then validate_key (PStr (if endswith value ''/'' then rstrip (\<lambda>c. c = CHR ''/'') value else value))
         else Inr [])
        (\<lambda>_. if for_delete \<and> trailing_slash \<and> \<not> endswith value ''/''
             then Inl (UnsafePrefixDelete ''delete_prefix requires a trailing slash'')
             else Inr value))"

section \<open>Canonical keys\<close>

text \<open>The specification of a canonical key, free of the order of the checks.\<close>

definition canonical_parts :: "bool \<Rightarrow> string list \<Rightarrow> bool" where
  "canonical_parts glob parts \<longleftrightarrow>
     parts \<noteq> [] \<and> (\<forall>p\<in>set parts. segment_fullmatch glob p \<and> p \<noteq> ''.'' \<and> p \<noteq> ''..'')"

lemma segment_char_safe:
  assumes "segment_char glob c"
  shows "c \<noteq> CHR ''/''" "c \<noteq> CHR ''%''" "c \<noteq> CHR 0x5C" "code c < 127" "32 \<le> code c" "\<not> is_space c"
  using assms
  by (auto simp: segment_char_def is_ascii_alpha_def is_ascii_digit_def is_space_def)

lemma segment_no_slash: "segment_fullmatch glob p \<Longrightarrow> CHR ''/'' \<notin> set p"
  by (auto simp: segment_fullmatch_def list_all_iff dest: segment_char_safe)

lemma canonical_split:
  "canonical_parts glob parts \<Longrightarrow> split_on (CHR ''/'') (join ''/'' parts) = parts"
  by (rule split_on_join) (auto simp: canonical_parts_def dest: segment_no_slash)

lemma canonical_storage_key_Inr:
  "canonical_storage_key v glob = Inr k \<Longrightarrow>
   canonical_parts glob (split_on (CHR ''/'') k)"
proof -
  assume "canonical_storage_key v glob = Inr k"
  then obtain raw where k: "k = join ''/'' (split_on (CHR ''/'') raw)"
    and ok: "\<not> list_ex (\<lambda>part. part = [] \<or> part = ''.'' \<or> part = ''..'' \<or> \<not> segment_fullmatch glob part)
        (split_on (CHR ''/'') raw)"
    by (auto simp: canonical_storage_key_def Let_def split: if_splits)
  from k have "k = raw" by (simp add: join_split_on)
  with ok show ?thesis by (auto simp: canonical_parts_def list_ex_iff)
qed

lemma set_join: "set (join sep ps) \<subseteq> \<Union> (set ` set ps) \<union> set sep"
  by (induction sep ps rule: join.induct) auto

lemma join_hd: "ps \<noteq> [] \<Longrightarrow> hd ps \<noteq> [] \<Longrightarrow> join sep ps \<noteq> [] \<and> hd (join sep ps) = hd (hd ps)"
  by (induction sep ps rule: join.induct) auto

lemma join_last:
  "ps \<noteq> [] \<Longrightarrow> \<forall>p\<in>set ps. p \<noteq> [] \<Longrightarrow> join sep ps \<noteq> [] \<and> last (join sep ps) = last (last ps)"
  by (induction sep ps rule: join.induct) auto

lemma join_no_double_slash:
  "\<forall>p\<in>set ps. p \<noteq> [] \<and> CHR ''/'' \<notin> set p \<Longrightarrow> \<not> str_in ''//'' (join ''/'' ps)"
proof (induction "''/''" ps rule: join.induct)
  case (3 s t ss)
  have no: "\<not> str_in ''//'' (w @ CHR ''/'' # r)"
    if "CHR ''/'' \<notin> set w" "r \<noteq> []" "hd r \<noteq> CHR ''/''" "\<not> str_in ''//'' r" for w r
    using that by (induction w; cases r) (auto simp: startswith_def)
  let ?r = "join ''/'' (t # ss)"
  have "?r \<noteq> [] \<and> hd ?r = hd t" using "3.prems" join_hd [of "t # ss" "''/''"] by simp
  moreover have "hd t \<noteq> CHR ''/''" using "3.prems" by (cases t) auto
  ultimately show ?case using "3.prems" "3.hyps" by (simp add: no)
qed (auto simp: str_in_iff)

lemma canonical_storage_key_canonical:
  assumes "canonical_parts glob ps"
  shows "canonical_storage_key (PStr (join ''/'' ps)) glob = Inr (join ''/'' ps)"
proof -
  let ?k = "join ''/'' ps"
  have ps: "ps \<noteq> []" "\<And>p. p \<in> set ps \<Longrightarrow> p \<noteq> [] \<and> list_all (segment_char glob) p"
    using assms by (auto simp: canonical_parts_def segment_fullmatch_def)
  have chars: "c = CHR ''/'' \<or> segment_char glob c" if "c \<in> set ?k" for c
    using set_join [of "''/''" ps] that ps(2) by (fastforce simp: list_all_iff)
  then have safe: "c = CHR ''/'' \<or> (c \<noteq> CHR ''%'' \<and> c \<noteq> CHR 0x5C \<and> 32 \<le> code c \<and> code c < 127)"
    if "c \<in> set ?k" for c using that segment_char_safe by blast
  have hd: "?k \<noteq> []" "hd ?k = hd (hd ps)" using ps join_hd [of ps "''/''"] by auto
  have last: "last ?k = last (last ps)" using ps join_last [of ps "''/''"] by auto
  have hdc: "segment_char glob (hd ?k)"
    using ps(1) ps(2) [of "hd ps"] hd(2) by (simp add: list_all_iff)
  have lastc: "segment_char glob (last ?k)"
    using ps(1) ps(2) [of "last ps"] last by (simp add: list_all_iff)
  have "strip ?k = ?k"
    unfolding strip_def using hdc lastc by (intro strip_by_id) (auto dest: segment_char_safe)
  moreover have "\<not> startswith ?k ''/''"
    using hd(1) segment_char_safe(1) [OF hdc] by (cases ?k) (auto simp: startswith_def)
  moreover have "\<not> endswith ?k ''/''"
    using hd(1) segment_char_safe(1) [OF lastc] by (cases ?k rule: rev_cases) (auto simp: endswith_def)
  moreover have "CHR ''%'' \<notin> set ?k" "CHR 0x5C \<notin> set ?k" "is_ascii ?k" "\<not> has_control_char ?k"
    using safe by (fastforce simp: is_ascii_def has_control_char_def list_all_iff list_ex_iff)+
  moreover have "\<not> str_in ''//'' ?k"
    using ps(2) by (intro join_no_double_slash) (auto simp: list_all_iff dest: segment_char_safe)
  ultimately show ?thesis
    using canonical_split [OF assms] assms hd(1) ps(2)
    by (simp add: canonical_storage_key_def Let_def list_ex_iff canonical_parts_def)
qed

lemma canonical_parts_glob: "canonical_parts glob ps \<Longrightarrow> canonical_parts True ps"
proof -
  have "segment_char glob c \<Longrightarrow> segment_char True c" for c
    unfolding segment_char_def by blast
  then show "canonical_parts glob ps \<Longrightarrow> canonical_parts True ps"
    by (auto simp: canonical_parts_def segment_fullmatch_def list_all_iff)
qed

lemma has_exact_storage_scope_D:
  assumes "has_exact_storage_scope (PStr k) tenant workspace"
    and "canonical_parts glob (split_on (CHR ''/'') k)"
  obtains i where "map_of SCOPE_INDEX_BY_ROOT (hd (split_on (CHR ''/'') k)) = Some i"
    and "i + 1 < length (split_on (CHR ''/'') k)"
    and "positions ''tenant_id='' (split_on (CHR ''/'') k) = [i]"
    and "positions ''workspace_id='' (split_on (CHR ''/'') k) = [i + 1]"
    and "split_on (CHR ''/'') k ! i = ''tenant_id='' @ strip (str_or tenant [])"
    and "split_on (CHR ''/'') k ! (i + 1) = ''workspace_id='' @ strip (str_or workspace [])"
    and "\<not> list_ex has_glob (take (i + 2) (split_on (CHR ''/'') k))"
proof -
  from assms(2) have "canonical_parts True (split_on (CHR ''/'') k)" by (rule canonical_parts_glob)
  then have "canonical_storage_key (PStr k) True = Inr k"
    using canonical_storage_key_canonical [of True "split_on (CHR ''/'') k"] by (simp add: join_split_on)
  note can = this
  show ?thesis
  proof (cases "map_of SCOPE_INDEX_BY_ROOT (hd (split_on (CHR ''/'') k))")
    case None
    with assms(1) can show ?thesis by (simp add: has_exact_storage_scope_def Let_def split: if_splits)
  next
    case (Some i)
    note sc = assms(1) [unfolded has_exact_storage_scope_def can Let_def sum.case Some option.case]
    show ?thesis by (rule that [OF Some]) (use sc in \<open>simp_all split: if_splits\<close>)
  qed
qed

lemma positions_iff: "j \<in> set (positions p parts) \<longleftrightarrow> j < length parts \<and> startswith (parts ! j) p"
  by (auto simp: positions_def)

text \<open>What a granted key looks like, and what was checked for it.\<close>

lemma scoped_storage_key_D:
  assumes "scoped_storage_key v (PDict ctx) bucket glob = Inr k"
  shows "canonical_parts glob (split_on (CHR ''/'') k)"
    and "hd (split_on (CHR ''/'') k) \<in> set READABLE_SCOPED_ROOTS"
    and "has_exact_storage_scope (PStr k) (PStr (strip (str_or (dget ctx ''tenant_id'') [])))
           (PStr (strip (str_or (dget ctx ''workspace_id'') [])))"
    and "\<exists>allowed. stripped_items (dget ctx ''allowed_cartridges'') = Inr allowed \<and>
           (split_on (CHR ''/'') k ! 1 \<in> set allowed \<or> ''*'' \<in> set allowed)"
    and "strip (str_or (dget ctx ''tenant_id'') []) \<noteq> []" "strip (str_or (dget ctx ''workspace_id'') []) \<noteq> []"
proof -
  obtain key where key: "canonical_storage_key v glob = Inr key"
    using assms by (cases "canonical_storage_key v glob") (auto simp: scoped_storage_key_def)
  define parts where "parts = split_on (CHR ''/'') key"
  define t where "t = strip (str_or (dget ctx ''tenant_id'') [])"
  define w where "w = strip (str_or (dget ctx ''workspace_id'') [])"
  note body = assms [unfolded scoped_storage_key_def key rbind_simps Let_def as_dict.simps option.case,
    folded parts_def t_def w_def]
  have root: "hd parts \<in> set READABLE_SCOPED_ROOTS" and tw: "t \<noteq> []" "w \<noteq> []"
    and scope: "has_exact_storage_scope (PStr key) (PStr t) (PStr w)"
    using body by (auto split: if_splits)
  obtain allowed where al: "stripped_items (dget ctx ''allowed_cartridges'') = Inr allowed"
    using body root tw scope by (cases "stripped_items (dget ctx ''allowed_cartridges'')") auto
  obtain r c rest where parts: "parts = r # c # rest"
    using body root tw scope al by (auto split: list.splits)
  have cart: "c \<in> set allowed \<or> ''*'' \<in> set allowed"
    using body root tw scope al parts by (auto split: if_splits)
  obtain buckets where "stripped_items (dget ctx ''allowed_buckets'') = Inr buckets"
    using body root tw scope al parts cart by (cases "stripped_items (dget ctx ''allowed_buckets'')") auto
  then have "k = key"
    using body root tw scope al parts cart by (auto split: option.splits if_splits)
  with key show "canonical_parts glob (split_on (CHR ''/'') k)" by (simp add: canonical_storage_key_Inr)
  from root scope tw al cart parts \<open>k = key\<close>
  show "hd (split_on (CHR ''/'') k) \<in> set READABLE_SCOPED_ROOTS"
    "has_exact_storage_scope (PStr k) (PStr (strip (str_or (dget ctx ''tenant_id'') [])))
           (PStr (strip (str_or (dget ctx ''workspace_id'') [])))"
    "\<exists>allowed. stripped_items (dget ctx ''allowed_cartridges'') = Inr allowed \<and>
           (split_on (CHR ''/'') k ! 1 \<in> set allowed \<or> ''*'' \<in> set allowed)"
    "strip (str_or (dget ctx ''tenant_id'') []) \<noteq> []" "strip (str_or (dget ctx ''workspace_id'') []) \<noteq> []"
    by (simp_all add: t_def w_def parts_def [symmetric])
qed

section \<open>Properties\<close>

text \<open>
  C20: Tenant isolation: if the same object key is granted under two caller contexts, the two
  contexts name the same tenant and the same workspace.
\<close>
theorem scoped_key_isolates_tenants:
  assumes "scoped_storage_key v1 (PDict ctx1) bucket1 glob1 = Inr k"
    and "scoped_storage_key v2 (PDict ctx2) bucket2 glob2 = Inr k"
  shows "strip (str_or (dget ctx1 ''tenant_id'') []) = strip (str_or (dget ctx2 ''tenant_id'') []) \<and>
    strip (str_or (dget ctx1 ''workspace_id'') []) = strip (str_or (dget ctx2 ''workspace_id'') [])"
proof -
  note g1 = scoped_storage_key_D [OF assms(1)] and g2 = scoped_storage_key_D [OF assms(2)]
  show ?thesis
    by (rule has_exact_storage_scope_D [OF g1(3,1)], rule has_exact_storage_scope_D [OF g2(3,1)])
      (use g1(5,6) g2(5,6) in auto)
qed

definition tenant_a :: pdict where
  "tenant_a = pdict_of [(''tenant_id'', PStr ''acme''), (''workspace_id'', PStr ''w1''),
     (''allowed_cartridges'', PList [PStr ''sap''])]"

definition key_a :: string where
  "key_a = ''raw/sap/Orders/tenant_id=acme/workspace_id=w1/part-0.parquet''"

lemma key_a_granted: "scoped_storage_key (PStr (key_a @ ''/'')) (PDict tenant_a) None False = Inr key_a"
  by code_simp

theorem scoped_key_isolates_tenants_witness:
  "scoped_storage_key (PStr (key_a @ ''/'')) (PDict tenant_a) None False = Inr key_a \<and>
   strip (str_or (dget tenant_a ''tenant_id'') []) = strip (str_or (dget tenant_a ''tenant_id'') [])"
  using scoped_key_isolates_tenants [OF key_a_granted key_a_granted] key_a_granted by simp

text \<open>
  A granted key is canonical and scoped: its segments are non-empty, free of dot segments and
  of characters outside the allowed class; exactly one segment starts with \<open>tenant_id=\<close> and
  exactly one with \<open>workspace_id=\<close>, both at the positions the root prescribes, both equal to the
  caller's scope; no wildcard occurs up to them; and the cartridge segment is one the caller may
  read.
\<close>
theorem scoped_key_is_scoped:
  assumes "scoped_storage_key v (PDict ctx) bucket glob = Inr k"
  shows "let parts = split_on (CHR ''/'') k in
    canonical_parts glob parts \<and> k = join ''/'' parts \<and>
    (\<exists>i. map_of SCOPE_INDEX_BY_ROOT (hd parts) = Some i \<and> i + 1 < length parts \<and>
       (\<forall>j<length parts. startswith (parts ! j) ''tenant_id='' \<longleftrightarrow> j = i) \<and>
       (\<forall>j<length parts. startswith (parts ! j) ''workspace_id='' \<longleftrightarrow> j = i + 1) \<and>
       parts ! i = ''tenant_id='' @ strip (str_or (dget ctx ''tenant_id'') []) \<and>
       parts ! (i + 1) = ''workspace_id='' @ strip (str_or (dget ctx ''workspace_id'') []) \<and>
       (\<forall>j<i + 2. \<not> has_glob (parts ! j))) \<and>
    (\<exists>allowed. stripped_items (dget ctx ''allowed_cartridges'') = Inr allowed \<and>
       (parts ! 1 \<in> set allowed \<or> ''*'' \<in> set allowed))"
proof -
  note g = scoped_storage_key_D [OF assms]
  define parts where "parts = split_on (CHR ''/'') k"
  obtain i where i: "map_of SCOPE_INDEX_BY_ROOT (hd parts) = Some i" "i + 1 < length parts"
    "positions ''tenant_id='' parts = [i]" "positions ''workspace_id='' parts = [i + 1]"
    "parts ! i = ''tenant_id='' @ strip (str_or (dget ctx ''tenant_id'') [])"
    "parts ! (i + 1) = ''workspace_id='' @ strip (str_or (dget ctx ''workspace_id'') [])"
    "\<not> list_ex has_glob (take (i + 2) parts)"
    by (rule has_exact_storage_scope_D [OF g(3,1)]) (use g(5,6) parts_def in auto)
  have "startswith (parts ! j) ''tenant_id='' \<longleftrightarrow> j = i" if "j < length parts" for j
    using positions_iff [of j "''tenant_id=''" parts] i(3) that by simp
  moreover have "startswith (parts ! j) ''workspace_id='' \<longleftrightarrow> j = i + 1" if "j < length parts" for j
    using positions_iff [of j "''workspace_id=''" parts] i(4) that by simp
  moreover have "\<not> has_glob (parts ! j)" if "j < i + 2" for j
  proof -
    from that i(2) have "take (i + 2) parts ! j = parts ! j" "j < length (take (i + 2) parts)" by auto
    then have "parts ! j \<in> set (take (i + 2) parts)" by (metis nth_mem)
    with i(7) show ?thesis by (auto simp: list_ex_iff)
  qed
  moreover have "k = join ''/'' parts" by (simp add: parts_def join_split_on)
  ultimately show ?thesis
    unfolding Let_def parts_def [symmetric] using i g(1,4) [folded parts_def] by blast
qed

theorem scoped_key_is_scoped_witness:
  "\<exists>i. map_of SCOPE_INDEX_BY_ROOT (hd (split_on (CHR ''/'') key_a)) = Some i \<and>
     split_on (CHR ''/'') key_a ! i = ''tenant_id=acme''"
proof -
  have "strip (str_or (dget tenant_a ''tenant_id'') []) = ''acme''"
    by (simp add: tenant_a_def str_eval)
  then show ?thesis
    using scoped_key_is_scoped [OF key_a_granted] by (auto simp: Let_def)
qed

text \<open>
  Canonicalisation is stable: whatever it returns, it returns again unchanged for the same mode,
  so a key checked once may be stored and checked later.
\<close>
theorem canonical_storage_key_idempotent:
  assumes "canonical_storage_key v glob = Inr k"
  shows "canonical_storage_key (PStr k) glob = Inr k"
  using canonical_storage_key_canonical [OF canonical_storage_key_Inr [OF assms]]
  by (simp add: join_split_on)

theorem canonical_storage_key_idempotent_witness:
  "canonical_storage_key (PStr ''raw/sap/x'') False = Inr ''raw/sap/x''"
proof -
  have "canonical_storage_key (PStr '' raw/sap/x/ '') False = Inr ''raw/sap/x''" by code_simp
  then show ?thesis by (rule canonical_storage_key_idempotent)
qed

lemma drop_prefix_Some_iff: "drop_prefix p s = Some t \<longleftrightarrow> s = p @ t"
  by (auto simp: drop_prefix_def startswith_iff)

lemma scope_value_no_slash: "scope_value t \<Longrightarrow> CHR ''/'' \<notin> set t"
  by (auto simp: scope_value_def list_all_iff is_ascii_alpha_def is_ascii_digit_def)

lemma scope_marker_split:
  assumes "scope_value t" and "scope_value w"
  shows "split_on (CHR ''/'') (''tenant_id='' @ t @ ''/workspace_id='' @ w @ suffix) =
    (''tenant_id='' @ t) # split_on (CHR ''/'') (''workspace_id='' @ w @ suffix)"
proof -
  have "CHR ''/'' \<notin> set (''tenant_id='' @ t)" using scope_value_no_slash [OF assms(1)] by simp
  from split_on_append [OF this, of "''workspace_id='' @ w @ suffix"] show ?thesis by simp
qed

text \<open>
  The scope marker round-trips: a marker is accepted exactly when it is
  \<open>tenant_id=t/workspace_id=w\<close> with values of the allowed class, with or without a trailing slash, and
  parsing gives back the two values it was built from.
\<close>
theorem parse_required_scope_iff:
  "parse_required_scope (PStr marker) = Inr (t, w) \<longleftrightarrow>
     scope_value t \<and> scope_value w \<and>
     (marker = ''tenant_id='' @ t @ ''/workspace_id='' @ w \<or>
      marker = ''tenant_id='' @ t @ ''/workspace_id='' @ w @ ''/'')"
  (is "?lhs \<longleftrightarrow> ?rhs")
proof
  assume ?rhs
  then have tw: "scope_value t" "scope_value w" by auto
  have w: "CHR ''/'' \<notin> set (''workspace_id='' @ w)" using scope_value_no_slash [OF tw(2)] by simp
  from scope_marker_split [OF tw, of "[]"] scope_marker_split [OF tw, of "''/''"]
    split_on_single [OF w] split_on_append [OF w, of "[]"] \<open>?rhs\<close>
  have "split_on (CHR ''/'') marker = [''tenant_id='' @ t, ''workspace_id='' @ w] \<or>
    split_on (CHR ''/'') marker = [''tenant_id='' @ t, ''workspace_id='' @ w, []]"
    by auto
  moreover have "drop_prefix ''tenant_id='' (''tenant_id='' @ t) = Some t"
    "drop_prefix ''workspace_id='' (''workspace_id='' @ w) = Some w"
    by (simp_all only: drop_prefix_Some_iff)
  moreover have "str_or (PStr marker) [] = marker" by simp
  ultimately show ?lhs using tw unfolding parse_required_scope_def Let_def by (elim disjE) simp_all
next
  assume ?lhs
  then obtain a b rest where sp: "split_on (CHR ''/'') marker = a # b # rest" "rest = [] \<or> rest = [[]]"
    and ab: "drop_prefix ''tenant_id='' a = Some t" "drop_prefix ''workspace_id='' b = Some w"
    and tw: "scope_value t" "scope_value w"
    unfolding parse_required_scope_def Let_def
    by (auto split: list.splits option.splits if_splits)
  have "marker = join ''/'' (a # b # rest)" using join_split_on [of "CHR ''/''" marker] sp(1) by simp
  with sp(2) ab tw show ?rhs by (auto simp only: drop_prefix_Some_iff) simp_all
qed

text \<open>
  A reader literal that passes the guard is handed on unchanged; it is an \<open>s3://\<close> URI below one
  of the allowed prefixes, without query, fragment or dot segments, and, when a scope is given, its
  object key carries exactly that tenant and workspace.
\<close>
theorem reader_uri_guard:
  assumes "require_scoped_reader_uri uri prefixes tenant workspace = Inr u"
  shows "uri = PStr u \<and> (\<exists>p\<in>set (reader_prefixes prefixes). startswith u p) \<and>
    CHR ''?'' \<notin> set u \<and> CHR ''#'' \<notin> set u \<and>
    (\<exists>bucket key. u = ''s3://'' @ bucket @ ''/'' @ key \<and>
       canonical_parts True (bucket # split_on (CHR ''/'') key) \<and>
       (tenant = None \<and> workspace = None \<or>
        has_exact_storage_scope (PStr key) (opt_str tenant) (opt_str workspace)))"
proof -
  obtain v where v: "uri = PStr v" "u = v"
    using assms by (cases uri) (auto simp: require_scoped_reader_uri_def Let_def split: if_splits sum.splits)
  note g = assms [unfolded require_scoped_reader_uri_def v Let_def pv.case]
  have q: "CHR ''?'' \<notin> set v" "CHR ''#'' \<notin> set v" and s3: "startswith v ''s3://''"
    using g by (auto split: if_splits)
  then obtain rest where rest: "v = ''s3://'' @ rest" by (auto simp only: startswith_iff)
  obtain can where can: "canonical_storage_key (PStr rest) True = Inr can" "can = rest"
    "CHR ''/'' \<in> set can" "\<exists>p\<in>set (reader_prefixes prefixes). startswith v p"
    using g rest by (auto simp: list_ex_iff split: if_splits sum.splits)
  define parts where "parts = split_on (CHR ''/'') rest"
  have cp: "canonical_parts True parts" using can canonical_storage_key_Inr by (simp add: parts_def)
  obtain b ps where ps: "parts = b # ps" by (cases parts) (auto simp: parts_def)
  have jp: "rest = join ''/'' parts" by (simp add: parts_def join_split_on)
  have "ps \<noteq> []"
  proof
    assume "ps = []"
    with jp ps have "rest = b" by simp
    with cp ps can(2,3) show False by (auto simp: canonical_parts_def dest: segment_no_slash)
  qed
  then have jrest: "rest = b @ ''/'' @ join ''/'' ps" using jp ps by (cases ps) auto
  have key: "split_on (CHR ''/'') (join ''/'' ps) = ps"
    using cp ps \<open>ps \<noteq> []\<close> by (intro canonical_split [of True]) (auto simp: canonical_parts_def)
  have sc: "tenant = None \<and> workspace = None \<or>
      has_exact_storage_scope (PStr (join ''/'' ps)) (opt_str tenant) (opt_str workspace)"
    using g rest can ps by (auto simp: parts_def split: if_splits sum.splits)
  have "\<exists>bucket key. u = ''s3://'' @ bucket @ ''/'' @ key \<and>
       canonical_parts True (bucket # split_on (CHR ''/'') key) \<and>
       (tenant = None \<and> workspace = None \<or>
        has_exact_storage_scope (PStr key) (opt_str tenant) (opt_str workspace))"
    by (rule exI [of _ b], rule exI [of _ "join ''/'' ps"]) (use rest jrest key cp ps sc v in simp)
  with v q can(4) show ?thesis by blast
qed

theorem reader_uri_guard_witness:
  "\<exists>p\<in>set (reader_prefixes (OnePrefix ''s3://lake'')). startswith (''s3://lake/'' @ key_a) p"
proof -
  have "require_scoped_reader_uri (PStr (''s3://lake/'' @ key_a)) (OnePrefix ''s3://lake'')
      (Some ''acme'') (Some ''w1'') = Inr (''s3://lake/'' @ key_a)"
    by code_simp
  from reader_uri_guard [OF this] show ?thesis by blast
qed

end
