(* ===== verification/Permissions.thy ===== *)
theory Permissions
  imports Py_Base
begin

text \<open>
  Role-based access control of the console: \<open>permission_catalog.py\<close>, \<open>permission_roles.py\<close> and
  \<open>permissions.py\<close> under \<open>console/app/services\<close>.

  The tables list the permission keys, the roles and the permissions each role grants; the
  functions resolve a user's global and workspace role, collect the effective permissions and decide
  a request. The labels and descriptions of the tables carry no decision and are left out.
\<close>

section \<open>Tables\<close>

definition AUTHORITY_PERMISSIONS :: "string list" where
  "AUTHORITY_PERMISSIONS = [''control_room.approve'']"

definition PLATFORM_ADMIN_ROLES :: "string list" where
  "PLATFORM_ADMIN_ROLES = [''owner'', ''super_admin'', ''admin'']"

definition GLOBAL_ROLES :: "string list" where
  "GLOBAL_ROLES = PLATFORM_ADMIN_ROLES @ [''security_admin'', ''auditor'']"

definition is_platform_admin_role :: "pv \<Rightarrow> bool" where
  "is_platform_admin_role role \<longleftrightarrow> strip (str_or role []) \<in> set PLATFORM_ADMIN_ROLES"

definition minus_keys :: "string list \<Rightarrow> string list \<Rightarrow> string list" where
  "minus_keys xs ys = filter (\<lambda>x. x \<notin> set ys) xs"

definition PERMISSION_KEYS :: "string list" where
  "PERMISSION_KEYS =
     [''iam.users.read'', ''iam.users.write'', ''iam.roles.read'', ''iam.roles.write'',
      ''iam.policies.read'', ''iam.policies.write'', ''security.audit.read'',
      ''security.sessions.read'', ''security.sessions.revoke'', ''security.login_attempts.read'',
      ''vault.connections.read'', ''vault.connections.write'', ''vault.secrets.read_masked'',
      ''vault.secrets.reveal'', ''datasets.read'', ''datasets.write'', ''datasets.delete'',
      ''pipelines.read'', ''pipelines.run'', ''pipelines.write'', ''studio.read'',
      ''studio.write'', ''monitor.read'', ''workspace.access'', ''control_room.write'',
      ''control_room.approve'', ''control_room.execute'', ''mcp.registry.read'', ''mcp.invoke'',
      ''agents.read'', ''agents.write'', ''agents.execute'', ''apps.read'', ''apps.write'',
      ''settings.read'', ''settings.write'', ''operations.read'', ''operations.write'',
      ''llm.keys.read'', ''llm.keys.write'', ''cartridges.read'', ''cartridges.write'',
      ''cartridges.execute'', ''marketplace.read'', ''marketplace.request'', ''marketplace.write'',
      ''marketplace.admin'', ''copilot.use'', ''copilot.write'', ''copilot.execute'']"

definition RESOURCE_ACTION_PERMISSIONS :: "((string \<times> string) \<times> string) list" where
  "RESOURCE_ACTION_PERMISSIONS =
     [((''/iam'', ''read''), ''iam.users.read''),
      ((''/security'', ''read''), ''security.audit.read''),
      ((''/security/audit'', ''read''), ''security.audit.read''),
      ((''/security/sessions'', ''read''), ''security.sessions.read''),
      ((''/security/sessions'', ''revoke''), ''security.sessions.revoke''),
      ((''/security/permissions'', ''read''), ''iam.roles.read''),
      ((''/security/login-attempts'', ''read''), ''security.login_attempts.read''),
      ((''/api/admin/users'', ''read''), ''iam.users.read''),
      ((''/api/admin/users'', ''write''), ''iam.users.write''),
      ((''/viewer/vault'', ''read''), ''monitor.read''),
      ((''/api/vault/connections/replicon'', ''read''), ''vault.connections.read''),
      ((''/api/vault/connections/replicon'', ''write''), ''vault.connections.write''),
      ((''/api/vault/secrets/replicon'', ''read''), ''vault.secrets.read_masked''),
      ((''/api/vault/secrets/replicon'', ''reveal''), ''vault.secrets.reveal''),
      ((''/api/vault/connections/hubspot'', ''read''), ''vault.connections.read''),
      ((''/api/vault/connections/hubspot'', ''write''), ''vault.connections.write''),
      ((''/api/vault/secrets/hubspot'', ''read''), ''vault.secrets.read_masked''),
      ((''/api/vault/secrets/hubspot'', ''reveal''), ''vault.secrets.reveal''),
      ((''/api/pipeline'', ''read''), ''pipelines.read''),
      ((''/api/pipeline/run'', ''run''), ''pipelines.run''),
      ((''/datasets'', ''read''), ''datasets.read''),
      ((''/api/datasets'', ''write''), ''datasets.write''),
      ((''/api/datasets'', ''delete''), ''datasets.delete''),
      ((''/studio'', ''read''), ''studio.read''), ((''/studio'', ''write''), ''studio.write''),
      ((''/monitor'', ''read''), ''monitor.read''),
      ((''/workspace'', ''access''), ''workspace.access''),
      ((''/agents'', ''read''), ''agents.read''), ((''/api/agents'', ''read''), ''agents.read''),
      ((''/api/agents'', ''write''), ''agents.write''),
      ((''/api/agents'', ''execute''), ''agents.execute''),
      ((''/copilot/tokens'', ''read''), ''copilot.use''),
      ((''/api/copilot/llm-key'', ''read''), ''llm.keys.read''),
      ((''/api/copilot/llm-key'', ''write''), ''llm.keys.write''),
      ((''/marketplace'', ''read''), ''marketplace.read''),
      ((''/marketplace'', ''request''), ''marketplace.request''),
      ((''/admin/installations'', ''read''), ''marketplace.admin''),
      ((''/admin/installations'', ''write''), ''marketplace.admin'')]"

definition ROLE_NAMES :: "string list" where
  \<comment> \<open>the keys of \<open>ROLE_DEFINITIONS\<close>\<close>
  "ROLE_NAMES =
     [''owner'', ''super_admin'', ''admin'', ''security_admin'', ''workspace_admin'',
      ''tenant_admin'', ''control_room_approver'', ''analyst'', ''auditor'', ''viewer'',
      ''workspace_user'', ''user'']"

definition ROLE_PERMISSIONS :: "(string \<times> string list) list" where
  "ROLE_PERMISSIONS =
     [(''owner'', minus_keys PERMISSION_KEYS AUTHORITY_PERMISSIONS),
      (''super_admin'', minus_keys PERMISSION_KEYS AUTHORITY_PERMISSIONS),
      (''admin'', minus_keys PERMISSION_KEYS [''iam.roles.write'', ''iam.policies.write'', ''control_room.approve'']),
      (''security_admin'',
        [''iam.users.read'', ''iam.users.write'', ''iam.roles.read'', ''iam.policies.read'',
         ''security.audit.read'', ''security.sessions.read'', ''security.sessions.revoke'',
         ''security.login_attempts.read'', ''vault.connections.read'',
         ''vault.secrets.read_masked'', ''monitor.read'']),
      (''workspace_admin'',
        [''iam.users.read'', ''iam.users.write'', ''iam.roles.read'', ''datasets.read'',
         ''datasets.write'', ''datasets.delete'', ''pipelines.read'', ''pipelines.run'',
         ''pipelines.write'', ''studio.read'', ''studio.write'', ''monitor.read'',
         ''workspace.access'', ''control_room.write'', ''control_room.approve'',
         ''control_room.execute'', ''vault.connections.read'', ''vault.connections.write'',
         ''vault.secrets.read_masked'', ''apps.read'', ''apps.write'', ''agents.read'',
         ''agents.write'', ''agents.execute'', ''cartridges.read'', ''cartridges.write'',
         ''cartridges.execute'', ''marketplace.read'', ''marketplace.request'', ''copilot.use'',
         ''copilot.write'', ''copilot.execute'', ''llm.keys.read'', ''llm.keys.write'']),
      (''tenant_admin'',
        [''iam.users.read'', ''iam.users.write'', ''iam.roles.read'', ''security.audit.read'',
         ''vault.connections.read'', ''vault.connections.write'', ''vault.secrets.read_masked'',
         ''datasets.read'', ''pipelines.read'', ''pipelines.run'', ''monitor.read'',
         ''operations.read'', ''workspace.access'', ''control_room.write'',
         ''control_room.approve'', ''control_room.execute'', ''apps.read'', ''apps.write'',
         ''cartridges.read'', ''cartridges.write'', ''cartridges.execute'', ''marketplace.read'',
         ''marketplace.request'', ''agents.read'', ''agents.write'', ''agents.execute'',
         ''copilot.use'', ''copilot.write'', ''llm.keys.read'', ''llm.keys.write'']),
      (''control_room_approver'',
        [''workspace.access'', ''datasets.read'', ''control_room.approve'',
         ''control_room.execute'', ''copilot.use'']),
      (''analyst'',
        [''datasets.read'', ''pipelines.read'', ''monitor.read'', ''workspace.access'',
         ''apps.read'', ''cartridges.read'', ''marketplace.read'', ''marketplace.request'',
         ''agents.read'', ''agents.execute'', ''copilot.use'']),
      (''auditor'',
        [''iam.roles.read'', ''iam.policies.read'', ''security.audit.read'',
         ''security.sessions.read'', ''security.login_attempts.read'', ''monitor.read'',
         ''copilot.use'']),
      (''viewer'',
        [''monitor.read'', ''workspace.access'', ''apps.read'', ''pipelines.read'',
         ''datasets.read'', ''cartridges.read'', ''marketplace.read'', ''copilot.use'']),
      (''workspace_user'',
        [''workspace.access'', ''apps.read'', ''marketplace.read'', ''marketplace.request'',
         ''copilot.use'']),
      (''user'',
        [''monitor.read'', ''workspace.access'', ''apps.read'', ''marketplace.read'',
         ''copilot.use''])]"

section \<open>Functions\<close>

definition canonical_role :: "pv \<Rightarrow> string pyres" where
  "canonical_role role =
     (case py_or role (PStr ''user'') of
        PStr s \<Rightarrow>
          let v = strip s; value = (if v = [] then ''user'' else v)
          in Inr (if value \<in> set ROLE_NAMES then value else ''__unknown__'')
      | _ \<Rightarrow> Inl AttributeError)"

definition user_role :: "pdict option \<Rightarrow> string pyres" where
  "user_role user =
     (case user of
        None \<Rightarrow> Inr ''anonymous''
      | Some u \<Rightarrow> if u = [] then Inr ''anonymous'' else canonical_role (dget u ''role''))"

definition role_permissions :: "string \<Rightarrow> string list" where
  \<comment> \<open>\<open>ROLE_PERMISSIONS.get(role, set())\<close>\<close>
  "role_permissions role = (case map_of ROLE_PERMISSIONS role of None \<Rightarrow> [] | Some ps \<Rightarrow> ps)"

definition canonical_workspace_role :: "pv \<Rightarrow> string option pyres" where
  "canonical_workspace_role role =
     (if \<not> truthy role then Inr None
      else rbind (canonical_role role) (\<lambda>resolved.
        if resolved \<in> set PLATFORM_ADMIN_ROLES \<or> resolved = ''security_admin'' then Inr (Some ''workspace_admin'')
        else if map_of ROLE_PERMISSIONS resolved \<noteq> None then Inr (Some resolved)
        else Inr None))"

definition workspace_role :: "pdict option \<Rightarrow> string option pyres" where
  "workspace_role user =
     (case user of
        None \<Rightarrow> Inr None
      | Some u \<Rightarrow> if u = [] then Inr None else canonical_workspace_role (dget u ''workspace_role''))"

definition get_effective_permissions :: "pdict option \<Rightarrow> pv \<Rightarrow> string list pyres" where
  "get_effective_permissions user role =
     (if truthy role then rbind (canonical_role role) (\<lambda>resolved. Inr (role_permissions resolved))
      else case user of
        None \<Rightarrow> Inr []
      | Some u \<Rightarrow>
          if u = [] then Inr []
          else rbind (user_role user) (\<lambda>global. rbind (workspace_role user) (\<lambda>scoped.
            Inr (role_permissions global @
                 (case scoped of None \<Rightarrow> [] | Some s \<Rightarrow> if s = [] then [] else role_permissions s)))))"

definition has_permission :: "pdict option \<Rightarrow> string \<Rightarrow> bool pyres" where
  "has_permission user permission =
     (if permission \<notin> set PERMISSION_KEYS then Inr False
      else rbind (get_effective_permissions user PNone) (\<lambda>effective. Inr (permission \<in> set effective)))"

datatype http_error = HTTPException int string | Raised pyexc


definition require_any_permission :: "string list \<Rightarrow> pdict option \<Rightarrow> http_error + pdict" where
  "require_any_permission permissions user =
     (case user of
        None \<Rightarrow> Inl (HTTPException 401 ''authentication required'')
      | Some u \<Rightarrow>
          if u = [] then Inl (HTTPException 401 ''authentication required'')
          else case get_effective_permissions user PNone of
            Inl e \<Rightarrow> Inl (Raised e)
          | Inr effective \<Rightarrow>
              if \<not> list_ex (\<lambda>p. p \<in> set effective) permissions
              then Inl (HTTPException 403 ''required permission missing'') else Inr u)"

definition matrix_payload :: "(string \<times> (string \<times> bool) list) list" where
  "matrix_payload =
     map (\<lambda>role. (role, map (\<lambda>permission. (permission, permission \<in> set (role_permissions role)))
                         (sort PERMISSION_KEYS))) ROLE_NAMES"

definition permission_for_resource :: "string \<Rightarrow> string \<Rightarrow> string option" where
  "permission_for_resource resource action =
     (case map_of RESOURCE_ACTION_PERMISSIONS (resource, action) of
        Some p \<Rightarrow> Some p
      | None \<Rightarrow>
          if action = ''read'' \<and> startswith resource ''/security/audit'' then Some ''security.audit.read''
          else if action = ''read'' \<and> startswith resource ''/security/sessions'' then Some ''security.sessions.read''
          else if action = ''read'' \<and> startswith resource ''/api/admin/users'' then Some ''iam.users.read''
          else if action \<in> set [''write'', ''create'', ''update'', ''delete''] \<and> startswith resource ''/api/admin/users''
            then Some ''iam.users.write''
          else if startswith resource ''/api/vault/connections''
            then Some (if action \<in> set [''write'', ''create'', ''update'', ''delete'']
                       then ''vault.connections.write'' else ''vault.connections.read'')
          else if startswith resource ''/api/vault/secrets'' \<and> action = ''reveal'' then Some ''vault.secrets.reveal''
          else if startswith resource ''/api/vault/secrets''
            then Some (if action = ''read'' then ''vault.secrets.read_masked'' else ''vault.connections.write'')
          else None)"

definition access_check :: "pv \<Rightarrow> string \<Rightarrow> string \<Rightarrow> pdict pyres" where
  "access_check role resource action =
     rbind (canonical_role role) (\<lambda>resolved_role.
       let permission = permission_for_resource resource action;
           allowed = (case permission of None \<Rightarrow> False | Some p \<Rightarrow> p \<noteq> [] \<and> p \<in> set (role_permissions resolved_role))
       in Inr (pdict_of
         [(''role'', PStr resolved_role), (''resource'', PStr resource), (''action'', PStr action),
          (''allowed'', PBool allowed),
          (''permission'', case permission of None \<Rightarrow> PNone | Some p \<Rightarrow> PStr p),
          (''source'', PStr ''backend_permission_registry''),
          (''reason'', PStr (case permission of
             None \<Rightarrow> ''No permission mapped for this resource/action.''
           | Some p \<Rightarrow> resolved_role @ (if allowed then '' includes '' else '' does not include '') @ p @ ''.''))]))"

section \<open>Lemmas\<close>

lemma ROLE_PERMISSIONS_keys: "map fst ROLE_PERMISSIONS = ROLE_NAMES"
  by (simp add: ROLE_PERMISSIONS_def ROLE_NAMES_def)

lemma role_permissions_known: "list_all (\<lambda>(r, ps). list_all (\<lambda>p. p \<in> set PERMISSION_KEYS) ps) ROLE_PERMISSIONS"
  by code_simp

lemma role_permissions_subset: "set (role_permissions r) \<subseteq> set PERMISSION_KEYS"
proof (cases "map_of ROLE_PERMISSIONS r")
  case None
  then show ?thesis by (simp add: role_permissions_def)
next
  case (Some ps)
  with role_permissions_known show ?thesis
    by (auto simp: role_permissions_def list_all_iff dest!: map_of_SomeD)
qed

lemma role_permissions_member:
  "p \<in> set (role_permissions r) \<longleftrightarrow> r \<in> set (map fst (filter (\<lambda>(r', ps). p \<in> set ps) ROLE_PERMISSIONS))"
proof -
  have d: "distinct (map fst ROLE_PERMISSIONS)" by (simp add: ROLE_PERMISSIONS_keys ROLE_NAMES_def)
  show ?thesis
    using d by (auto simp: role_permissions_def split: option.splits dest: map_of_SomeD
      simp del: map_map) (force simp: map_of_eq_None_iff)+
qed

lemma has_permission_D:
  assumes "has_permission user p = Inr True"
  obtains u g w where "user = Some u" "u \<noteq> []" "user_role user = Inr g" "workspace_role user = Inr w"
    "p \<in> set PERMISSION_KEYS" "p \<in> set (role_permissions g) \<or> (\<exists>s. w = Some s \<and> p \<in> set (role_permissions s))"
proof (cases user)
  case None
  with assms show ?thesis by (simp add: has_permission_def get_effective_permissions_def split: if_splits)
next
  case (Some u)
  with assms obtain g w where "u \<noteq> []" "user_role user = Inr g" "workspace_role user = Inr w"
    "p \<in> set PERMISSION_KEYS"
    "p \<in> set (role_permissions g @ (case w of None \<Rightarrow> [] | Some s \<Rightarrow> if s = [] then [] else role_permissions s))"
    by (auto simp: has_permission_def get_effective_permissions_def rbind_Inr_iff split: if_splits)
  with Some that show ?thesis by (auto split: option.splits if_splits)
qed

lemma approve_roles:
  "p = ''control_room.approve'' \<Longrightarrow> p \<in> set (role_permissions r) \<longleftrightarrow>
     r \<in> set [''workspace_admin'', ''tenant_admin'', ''control_room_approver'']"
proof -
  have "map fst (filter (\<lambda>(r', ps). ''control_room.approve'' \<in> set ps) ROLE_PERMISSIONS) =
      [''workspace_admin'', ''tenant_admin'', ''control_room_approver'']"
    by (simp add: ROLE_PERMISSIONS_def minus_keys_def AUTHORITY_PERMISSIONS_def)
  then show "p = ''control_room.approve'' \<Longrightarrow> ?thesis" by (simp only: role_permissions_member)
qed

lemma approve_is_key: "''control_room.approve'' \<in> set PERMISSION_KEYS"
  by (simp add: PERMISSION_KEYS_def)

lemma canonical_role_known: "canonical_role v = Inr g \<Longrightarrow> g \<in> set ROLE_NAMES \<or> g = ''__unknown__''"
  by (auto simp: canonical_role_def Let_def split: pv.splits if_splits)

lemma canonical_role_PStr: "s \<in> set ROLE_NAMES \<Longrightarrow> canonical_role (PStr s) = Inr s"
proof -
  assume s: "s \<in> set ROLE_NAMES"
  have "list_all (\<lambda>s. s \<noteq> [] \<and> strip s = s) ROLE_NAMES" by code_simp
  with s have "s \<noteq> []" "strip s = s" by (auto simp: list_all_iff)
  with s show ?thesis by (simp add: canonical_role_def)
qed

section \<open>Properties\<close>





lemma role_keys_distinct: "distinct (map fst ROLE_PERMISSIONS)"
  by (simp add: ROLE_PERMISSIONS_keys ROLE_NAMES_def)








text \<open>
  Separation of duties at platform level: a platform administrator (owner, super admin or
  administrator) who holds no workspace role cannot approve Control Room actions.
\<close>
theorem platform_admin_cannot_approve:
  assumes "user_role user = Inr g" and "g \<in> set PLATFORM_ADMIN_ROLES" and "workspace_role user = Inr None"
  shows "has_permission user ''control_room.approve'' = Inr False"
proof -
  have "''control_room.approve'' \<notin> set (role_permissions g)"
    using assms(2) by (auto simp: approve_roles PLATFORM_ADMIN_ROLES_def)
  with assms show ?thesis
    by (auto simp: has_permission_def get_effective_permissions_def split: option.split)
qed

theorem platform_admin_cannot_approve_witness:
  "has_permission (Some (pdict_of [(''role'', PStr ''owner'')])) ''control_room.approve'' = Inr False"
proof (rule platform_admin_cannot_approve)
  show "user_role (Some (pdict_of [(''role'', PStr ''owner'')])) = Inr ''owner''"
    by (simp add: user_role_def canonical_role_PStr ROLE_NAMES_def)
  show "workspace_role (Some (pdict_of [(''role'', PStr ''owner'')])) = Inr None"
    by (simp add: workspace_role_def canonical_workspace_role_def)
qed (simp add: PLATFORM_ADMIN_ROLES_def)

text \<open>
  An administrative workspace role does imply approval authority: whatever the global role, a
  user whose workspace role is an administrative one may approve Control Room actions. (The role
  table describes the approver role as never implied by an administrative role.)
\<close>
theorem admin_workspace_role_approves:
  assumes "g \<in> set ROLE_NAMES"
    and "w \<in> set (PLATFORM_ADMIN_ROLES @ [''security_admin'', ''workspace_admin'', ''tenant_admin''])"
  shows "has_permission (Some (pdict_of [(''role'', PStr g), (''workspace_role'', PStr w)]))
    ''control_room.approve'' = Inr True"
proof -
  let ?u = "pdict_of [(''role'', PStr g), (''workspace_role'', PStr w)]"
  have w: "w \<in> set ROLE_NAMES" "w \<noteq> []"
    using assms(2) by (auto simp: PLATFORM_ADMIN_ROLES_def ROLE_NAMES_def)
  have "canonical_workspace_role (PStr w) =
      Inr (Some (if w = ''tenant_admin'' then ''tenant_admin'' else ''workspace_admin''))"
    using assms(2) w canonical_role_PStr [OF w(1)]
    by (auto simp: canonical_workspace_role_def PLATFORM_ADMIN_ROLES_def ROLE_PERMISSIONS_def)
  then show ?thesis
    using canonical_role_PStr [OF assms(1)] approve_is_key
    by (simp add: has_permission_def get_effective_permissions_def user_role_def workspace_role_def approve_roles)
qed

theorem admin_workspace_role_approves_witness:
  "has_permission (Some (pdict_of [(''role'', PStr ''viewer''), (''workspace_role'', PStr ''owner'')]))
    ''control_room.approve'' = Inr True"
  by (rule admin_workspace_role_approves) (simp_all add: ROLE_NAMES_def PLATFORM_ADMIN_ROLES_def)

end
