(* ===== verification/Tool_Policy.thy ===== *)
theory Tool_Policy
  imports Permissions
begin

text \<open>
  What an assistant may pass to a tool: \<open>tool_manifest.py\<close> (risk classes of the tools) and
  \<open>tool_policy.py\<close> under \<open>console/app/services\<close>.

  \<open>validate_tool_args\<close> admits an argument object only when it is shallow and small JSON, carries no
  key that the backend owns, contains no prompt-injection language (for tools that are not read-only)
  and fits the tool's input schema; \<open>scrub_args\<close> masks secrets before arguments are shown or stored.
  The theorems give both guarantees at every depth of the value.
\<close>

section \<open>tool\_manifest.py\<close>

record tool_meta =
  risk_level :: string
  requires_approval :: bool
  freshness_minutes :: "int option"

definition READ_ONLY_TOOLS :: "string list" where
  "READ_ONLY_TOOLS =
     [''airflow_list_dags'', ''airflow_get_run_status'', ''airflow_get_task_logs'',
      ''airflow_list_task_instances'', ''airflow_list_dag_runs'', ''airflow_describe_dag'',
      ''view_job'', ''view_jobs'', ''view_schema'', ''view_dataset'', ''view_datasets'',
      ''view_semantic'', ''view_pipeline'', ''postgres_list_schemas'', ''postgres_list_tables'',
      ''postgres_get_table_schema'', ''postgres_get_sample'', ''postgres_describe_table'',
      ''postgres_select'', ''minio_list_objects'', ''minio_get_parquet_schema'',
      ''minio_get_sample_rows'', ''minio_list_cartridge_specs'', ''minio_read_spec'',
      ''search_rag'', ''list_rag_sources'', ''list_apps'', ''get_app_details'', ''get_app_html'',
      ''get_data_catalog'', ''describe_source'', ''describe_silver'', ''list_sources'',
      ''preview_source'', ''get_source_partitions'', ''generate_transform'', ''preview_transform'',
      ''list_datasets'', ''list_datasets_with_schemas'', ''query_dataset'', ''get_lineage'',
      ''superset_list_databases'', ''superset_list_datasets'', ''agent_list'', ''agent_get'',
      ''calibration__bayesian_state'', ''control_room__summary_read'',
      ''control_room__dashboard_read'', ''control_room__ops_summary_read'',
      ''control_room__alerts_read'', ''control_room__agents_ops_read'',
      ''control_room__sap_successfactors_gold_kpis_read'', ''control_room__talent_kpis_read'',
      ''control_room__talent_overview_read'', ''control_room__talent_9box_read'',
      ''control_room__talent_metadata_readiness_read'',
      ''control_room__decision_intelligence_runs_read'', ''control_room__finance_kpis_read'',
      ''control_room__operations_kpis_read'', ''control_room__risk_kpis_read'',
      ''control_room__sap_b1_kpis_read'', ''control_room__agent_memory_read'',
      ''market_context_read'', ''watermark_get'', ''list_entities'', ''get_entity_logs'',
      ''get_schema'', ''preview'', ''get_run_status'', ''list_kbs'', ''get_watermarks'',
      ''cartridge_get_semantic'', ''cartridge_search_term'', ''cartridge_get_manifest'',
      ''cartridge_list_entities'', ''cartridge_get_schema'', ''cartridge_preview'',
      ''cartridge_get_run_logs'', ''cartridge_get_job_status'', ''cartridge_list_jobs'',
      ''cartridge_list_kbs'', ''generate_dag_code'', ''autopilot_build_cartridge'',
      ''cartridge_self_check'', ''get_goal_run_status'', ''introspect_source'',
      ''validate_dag_code'', ''list_cartridges'', ''vault_list_connections'',
      ''vault_get_connection'', ''vault_list_secrets'']"

definition DESTRUCTIVE_TOOLS :: "string list" where
  "DESTRUCTIVE_TOOLS =
     [''airflow_delete_dag'', ''airflow_create_dag'', ''airflow_set_variable'',
      ''postgres_execute_query'', ''postgres_execute_ddl'', ''agent_delete'', ''delete_app'',
      ''delete_dataset'', ''delete_entity'', ''vault_delete_connection'']"

definition ADVISORY_WRITE_TOOLS :: "string list" where
  "ADVISORY_WRITE_TOOLS =
     [''control_room__raise_alert'', ''control_room__raise_analysis_alert'',
      ''simulation__monte_carlo_run'', ''decision__orchestrate'', ''wisdom_bits__run'',
      ''control_room__agent_memory_write'']"

definition DEFAULT_FRESHNESS_MINUTES :: int where
  "DEFAULT_FRESHNESS_MINUTES = 60"

definition classify_tool :: "string \<Rightarrow> tool_meta" where
  "classify_tool tool_name =
     (if tool_name \<in> set READ_ONLY_TOOLS
      then \<lparr>risk_level = ''read'', requires_approval = False, freshness_minutes = Some DEFAULT_FRESHNESS_MINUTES\<rparr>
      else if tool_name \<in> set DESTRUCTIVE_TOOLS
      then \<lparr>risk_level = ''destructive'', requires_approval = True, freshness_minutes = None\<rparr>
      else if tool_name \<in> set ADVISORY_WRITE_TOOLS
      then \<lparr>risk_level = ''write'', requires_approval = False, freshness_minutes = None\<rparr>
      else \<lparr>risk_level = ''write'', requires_approval = True, freshness_minutes = None\<rparr>)"

definition tool_requires_approval :: "string \<Rightarrow> bool" where
  "tool_requires_approval tool_name =
     (if tool_name \<in> set READ_ONLY_TOOLS then False
      else if tool_name \<in> set ADVISORY_WRITE_TOOLS then False
      else if tool_name \<in> set DESTRUCTIVE_TOOLS then True
      else True)"

section \<open>tool\_policy.py\<close>

definition RISK_PERMISSION :: "(string \<times> string) list" where
  "RISK_PERMISSION =
     [(''read'', ''copilot.use''), (''write'', ''copilot.write''), (''destructive'', ''copilot.execute'')]"

definition SECRET_KEYS :: "string list" where
  "SECRET_KEYS =
     [''password'', ''passwd'', ''pass'', ''token'', ''secret'', ''api_key'', ''apikey'', ''api-key'',
      ''client_secret'', ''private_key'', ''auth_token'', ''bearer'', ''x-api-key'', ''internal_api_key'']"

definition BACKEND_CONTEXT_KEYS :: "string list" where
  "BACKEND_CONTEXT_KEYS =
     [''security_context'', ''user_context'', ''_trusted_admin'', ''_server_trusted_context'',
      ''_server_metadata_patch'', ''_server_event_kind'', ''_server_event_metadata'']"

definition MAX_TOOL_ARGS_BYTES :: nat where
  "MAX_TOOL_ARGS_BYTES = 16000"

definition MAX_STRING_VALUE_CHARS :: nat where
  "MAX_STRING_VALUE_CHARS = 8000"

definition MAX_ARRAY_ITEMS :: nat where
  "MAX_ARRAY_ITEMS = 500"

definition MAX_OBJECT_KEYS :: nat where
  "MAX_OBJECT_KEYS = 200"

definition MAX_NESTING_DEPTH :: nat where
  "MAX_NESTING_DEPTH = 8"

datatype tool_error = ToolPolicyError string

text \<open>
  \<open>_PROMPT_INJECTION_RE\<close> with \<open>IGNORECASE | DOTALL\<close>, searched in the lower-cased text: a verb, at
  most 80 characters, an object; or \<open>exfiltrat\<close>; or \<open>filtra(r)\<close> / \<open>revela(r)\<close>, blanks, a secret
  word.
\<close>

definition INJECTION_VERBS :: "string list" where
  "INJECTION_VERBS =
     [''ignore'', ''ignora'', ''bypass'', ''saltate'', ''salt'' @ [CHR 0xE1] @ ''te'', ''override'', ''sobrescribe'']"

definition INJECTION_OBJECTS :: "string list" where
  "INJECTION_OBJECTS =
     [''system'', ''developer'', ''approval'', ''aprobacion'', ''aprobaci'' @ [CHR 0xF3] @ ''n'', ''policy'',
      ''politica'', ''pol'' @ [CHR 0xED] @ ''tica'', ''permiso'']"

fun gap_then :: "nat \<Rightarrow> string list \<Rightarrow> string \<Rightarrow> bool" where
  \<comment> \<open>one of the words starts within the next \<open>n\<close> characters\<close>
  "gap_then n ws [] = False"
| "gap_then n ws (c # s) =
     (list_ex (startswith (c # s)) ws \<or> (case n of 0 \<Rightarrow> False | Suc m \<Rightarrow> gap_then m ws s))"

definition verb_then :: "string \<Rightarrow> string list \<Rightarrow> string \<Rightarrow> bool" where
  \<comment> \<open>\<open>verb(?:r)?\s+(?:w1|w2|...)\<close> at the start of the text\<close>
  "verb_then verb ws s \<longleftrightarrow>
     startswith s verb \<and>
     (let rest = drop (length verb) s;
          blanks = (\<lambda>t. t \<noteq> [] \<and> is_space (hd t) \<and> list_ex (startswith (dropWhile is_space t)) ws)
      in blanks rest \<or> (startswith rest ''r'' \<and> blanks (tl rest)))"

definition injection_at :: "string \<Rightarrow> bool" where
  "injection_at s \<longleftrightarrow>
     list_ex (\<lambda>v. startswith s v \<and> gap_then 80 INJECTION_OBJECTS (drop (length v) s)) INJECTION_VERBS
     \<or> startswith s ''exfiltrat''
     \<or> verb_then ''filtra'' [''secret''] s
     \<or> verb_then ''revela'' [''secret'', ''token'', ''password''] s"

fun injection_search :: "string \<Rightarrow> bool" where
  "injection_search [] = False"
| "injection_search (c # s) = (injection_at (c # s) \<or> injection_search s)"

definition prompt_injection :: "string \<Rightarrow> bool" where
  "prompt_injection value = injection_search (lower value)"

definition classify :: "string \<Rightarrow> tool_meta" where
  "classify tool_name =
     (let meta = classify_tool tool_name;
          risk = (if risk_level meta = [] then ''write'' else risk_level meta);
          risk' = (if map_of RISK_PERMISSION risk = None then ''destructive'' else risk)
      in meta\<lparr>risk_level := risk', requires_approval := requires_approval meta\<rparr>)"

definition required_permission :: "string \<Rightarrow> string" where
  "required_permission risk =
     (case map_of RISK_PERMISSION risk of Some p \<Rightarrow> p | None \<Rightarrow> ''copilot.execute'')"

definition tool_has_permission :: "pdict option \<Rightarrow> string \<Rightarrow> bool pyres" where
  "tool_has_permission user risk = has_permission user (required_permission risk)"

definition is_secret_key :: "string \<Rightarrow> bool" where
  "is_secret_key key \<longleftrightarrow> lower key \<in> set SECRET_KEYS \<or> list_ex (\<lambda>s. str_in s (lower key)) SECRET_KEYS"

primrec scrub_args :: "pv \<Rightarrow> pv"
  and scrub_list :: "pv list \<Rightarrow> pv list"
  and scrub_items :: "(pv \<times> pv) list \<Rightarrow> (string \<times> pv) list"
  and scrub_item :: "pv \<times> pv \<Rightarrow> string \<times> pv" where
  "scrub_args PNone = PNone"
| "scrub_args (PBool b) = PBool b"
| "scrub_args (PInt i) = PInt i"
| "scrub_args (PFloat s) = PFloat s"
| "scrub_args (PStr s) = PStr s"
| "scrub_args (PDt t z) = PDt t z"
| "scrub_args (PList xs) = PList (scrub_list xs)"
| "scrub_args (PDict d) = PDict (foldl (\<lambda>out (k, v). dset out k v) [] (scrub_items d))"
| "scrub_list [] = []"
| "scrub_list (x # xs) = scrub_args x # scrub_list xs"
| "scrub_items [] = []"
| "scrub_items (kv # kvs) = scrub_item kv # scrub_items kvs"
| "scrub_item (k, v) = (py_str k, if is_secret_key (py_str k) then PStr ''***'' else scrub_args v)"

definition clip_args :: "pv \<Rightarrow> nat \<Rightarrow> pv" where
  "clip_args value max_bytes =
     (let raw = (case json_dumps value of Some s \<Rightarrow> s | None \<Rightarrow> py_str value)
      in if length raw \<le> max_bytes then value
         else PDict (pdict_of
           [(''_truncated'', PBool True),
            (''reason'', PStr (''tool args exceeded '' @ str_of_int (int max_bytes) @ '' bytes'')),
            (''preview'', PStr (take 1000 raw))]))"

primrec validate_json_value :: "pv \<Rightarrow> nat \<Rightarrow> tool_error + unit"
  and validate_json_list :: "pv list \<Rightarrow> nat \<Rightarrow> tool_error + unit"
  and validate_json_items :: "(pv \<times> pv) list \<Rightarrow> nat \<Rightarrow> tool_error + unit"
  and validate_json_item :: "pv \<times> pv \<Rightarrow> nat \<Rightarrow> tool_error + unit" where
  "validate_json_value PNone depth =
     (if MAX_NESTING_DEPTH < depth then Inl (ToolPolicyError ''tool args are too deeply nested'') else Inr ())"
| "validate_json_value (PBool b) depth =
     (if MAX_NESTING_DEPTH < depth then Inl (ToolPolicyError ''tool args are too deeply nested'') else Inr ())"
| "validate_json_value (PInt i) depth =
     (if MAX_NESTING_DEPTH < depth then Inl (ToolPolicyError ''tool args are too deeply nested'') else Inr ())"
| "validate_json_value (PFloat s) depth =
     (if MAX_NESTING_DEPTH < depth then Inl (ToolPolicyError ''tool args are too deeply nested'') else Inr ())"
| "validate_json_value (PStr s) depth =
     (if MAX_NESTING_DEPTH < depth then Inl (ToolPolicyError ''tool args are too deeply nested'')
      else if MAX_STRING_VALUE_CHARS < length s then Inl (ToolPolicyError ''tool args string value is too large'')
      else Inr ())"
| "validate_json_value (PDt t z) depth =
     (if MAX_NESTING_DEPTH < depth then Inl (ToolPolicyError ''tool args are too deeply nested'')
      else Inl (ToolPolicyError ''tool args must be JSON-serializable primitives''))"
| "validate_json_value (PList xs) depth =
     (if MAX_NESTING_DEPTH < depth then Inl (ToolPolicyError ''tool args are too deeply nested'')
      else if MAX_ARRAY_ITEMS < length xs then Inl (ToolPolicyError ''tool args array has too many items'')
      else validate_json_list xs (depth + 1))"
| "validate_json_value (PDict d) depth =
     (if MAX_NESTING_DEPTH < depth then Inl (ToolPolicyError ''tool args are too deeply nested'')
      else if MAX_OBJECT_KEYS < length d then Inl (ToolPolicyError ''tool args object has too many keys'')
      else validate_json_items d (depth + 1))"
| "validate_json_list [] depth = Inr ()"
| "validate_json_list (x # xs) depth =
     rbind (validate_json_value x depth) (\<lambda>_. validate_json_list xs depth)"
| "validate_json_items [] depth = Inr ()"
| "validate_json_items (kv # kvs) depth =
     rbind (validate_json_item kv depth) (\<lambda>_. validate_json_items kvs depth)"
| "validate_json_item (k, v) depth =
     (if \<not> is_str k then Inl (ToolPolicyError ''tool args object keys must be strings'')
      else validate_json_value v depth)"

primrec reject_backend_context :: "pv \<Rightarrow> tool_error + unit"
  and reject_backend_list :: "pv list \<Rightarrow> tool_error + unit"
  and reject_backend_items :: "(pv \<times> pv) list \<Rightarrow> tool_error + unit"
  and reject_backend_item :: "pv \<times> pv \<Rightarrow> tool_error + unit" where
  "reject_backend_context PNone = Inr ()"
| "reject_backend_context (PBool b) = Inr ()"
| "reject_backend_context (PInt i) = Inr ()"
| "reject_backend_context (PFloat s) = Inr ()"
| "reject_backend_context (PStr s) = Inr ()"
| "reject_backend_context (PDt t z) = Inr ()"
| "reject_backend_context (PList xs) = reject_backend_list xs"
| "reject_backend_context (PDict d) = reject_backend_items d"
| "reject_backend_list [] = Inr ()"
| "reject_backend_list (x # xs) = rbind (reject_backend_context x) (\<lambda>_. reject_backend_list xs)"
| "reject_backend_items [] = Inr ()"
| "reject_backend_items (kv # kvs) = rbind (reject_backend_item kv) (\<lambda>_. reject_backend_items kvs)"
| "reject_backend_item (k, v) =
     (if py_str k \<in> set BACKEND_CONTEXT_KEYS
      then Inl (ToolPolicyError (''backend-owned arg is not allowed: '' @ py_str k))
      else reject_backend_context v)"

primrec reject_prompt_injection :: "pv \<Rightarrow> tool_error + unit"
  and reject_injection_list :: "pv list \<Rightarrow> tool_error + unit"
  and reject_injection_items :: "(pv \<times> pv) list \<Rightarrow> tool_error + unit"
  and reject_injection_item :: "pv \<times> pv \<Rightarrow> tool_error + unit" where
  "reject_prompt_injection PNone = Inr ()"
| "reject_prompt_injection (PBool b) = Inr ()"
| "reject_prompt_injection (PInt i) = Inr ()"
| "reject_prompt_injection (PFloat s) = Inr ()"
| "reject_prompt_injection (PStr s) =
     (if prompt_injection s then Inl (ToolPolicyError ''tool args contain prompt-injection language'') else Inr ())"
| "reject_prompt_injection (PDt t z) = Inr ()"
| "reject_prompt_injection (PList xs) = reject_injection_list xs"
| "reject_prompt_injection (PDict d) = reject_injection_items d"
| "reject_injection_list [] = Inr ()"
| "reject_injection_list (x # xs) = rbind (reject_prompt_injection x) (\<lambda>_. reject_injection_list xs)"
| "reject_injection_items [] = Inr ()"
| "reject_injection_items (kv # kvs) = rbind (reject_injection_item kv) (\<lambda>_. reject_injection_items kvs)"
| "reject_injection_item (k, v) = reject_prompt_injection v"

definition expected_types :: "pv \<Rightarrow> string list" where
  "expected_types expected =
     (case expected of
        PList ts \<Rightarrow> map py_str ts
      | _ \<Rightarrow> if truthy expected then [py_str expected] else [])"

definition type_ok :: "string list \<Rightarrow> pv \<Rightarrow> bool" where
  "type_ok ts value \<longleftrightarrow>
     (''object'' \<in> set ts \<and> is_dict value) \<or> (''array'' \<in> set ts \<and> is_list value)
     \<or> (''string'' \<in> set ts \<and> is_str value) \<or> (''integer'' \<in> set ts \<and> is_int value)
     \<or> (''number'' \<in> set ts \<and> (is_int value \<or> (case value of PFloat _ \<Rightarrow> True | _ \<Rightarrow> False)))
     \<or> (''boolean'' \<in> set ts \<and> is_bool value)"

definition validate_schema_value :: "string \<Rightarrow> pv \<Rightarrow> pv \<Rightarrow> pdict \<Rightarrow> tool_error + unit" where
  "validate_schema_value tool_name key value schema =
     (let ts = expected_types (dget schema ''type'')
      in if ts = [] then Inr ()
      else if value = PNone \<and> ''null'' \<in> set ts then Inr ()
      else if \<not> type_ok ts value
        then Inl (ToolPolicyError (tool_name @ ''.'' @ py_str key @ '' has invalid type''))
      else case dget schema ''enum'' of
        PList enum \<Rightarrow>
          if list_ex (\<lambda>e. py_eq value e) enum then Inr ()
          else Inl (ToolPolicyError (tool_name @ ''.'' @ py_str key @ '' is not an allowed value''))
      | _ \<Rightarrow> Inr ())"

definition validate_schema_property :: "string \<Rightarrow> pdict \<Rightarrow> unit \<Rightarrow> pv \<times> pv \<Rightarrow> tool_error + unit" where
  \<comment> \<open>the body of the loop over the schema's properties\<close>
  "validate_schema_property tool_name args _ kp =
     (case kp of (key, prop_schema) \<Rightarrow>
        case (map_of args key, prop_schema) of
          (Some value, PDict schema) \<Rightarrow> validate_schema_value tool_name key value schema
        | _ \<Rightarrow> Inr ())"

definition missing_args :: "pdict \<Rightarrow> pv \<Rightarrow> string list" where
  "missing_args args required =
     (case required of
        PList keys \<Rightarrow> filter (\<lambda>k. \<not> dhas args k) (map py_str keys)
      | _ \<Rightarrow> [])"

definition validate_schema :: "string \<Rightarrow> pdict \<Rightarrow> pv \<Rightarrow> tool_error + unit" where
  "validate_schema tool_name args schema =
     (case schema of
        PDict sd \<Rightarrow>
          let missing = missing_args args (py_or (dget sd ''required'') (PList []))
          in if missing \<noteq> []
             then Inl (ToolPolicyError (tool_name @ '' missing required args: '' @ join '', '' missing))
             else case py_or (dget sd ''properties'') (PDict []) of
               PDict properties \<Rightarrow> rfold (validate_schema_property tool_name args) () properties
             | _ \<Rightarrow> Inr ()
      | _ \<Rightarrow> Inr ())"

definition validate_tool_args :: "string \<Rightarrow> pv \<Rightarrow> pv \<Rightarrow> string \<Rightarrow> tool_error + pdict" where
  "validate_tool_args tool_name args input_schema risk =
     (case (if args = PNone then PDict [] else args) of
        PDict d \<Rightarrow>
          rbind (validate_json_value (PDict d) 0) (\<lambda>_.
          rbind (reject_backend_context (PDict d)) (\<lambda>_.
          rbind (if risk \<noteq> ''read'' then reject_prompt_injection (PDict d) else Inr ()) (\<lambda>_.
          rbind (validate_schema tool_name d (py_or input_schema (PDict []))) (\<lambda>_. Inr d))))
      | _ \<Rightarrow> Inl (ToolPolicyError ''tool args must be a JSON object''))"

section \<open>Values at every depth\<close>

text \<open>\<open>occurs v n w\<close>: \<open>w\<close> is reached from \<open>v\<close> through \<open>n\<close> list items or dictionary values.\<close>

inductive occurs :: "pv \<Rightarrow> nat \<Rightarrow> pv \<Rightarrow> bool" where
  occurs_here: "occurs v 0 v"
| occurs_item: "x \<in> set xs \<Longrightarrow> occurs x n w \<Longrightarrow> occurs (PList xs) (Suc n) w"
| occurs_value: "(k, x) \<in> set d \<Longrightarrow> occurs x n w \<Longrightarrow> occurs (PDict d) (Suc n) w"

inductive_simps occurs_atom:
  "occurs PNone n w" "occurs (PBool b) n w" "occurs (PInt i) n w" "occurs (PFloat r) n w"
  "occurs (PStr s) n w" "occurs (PDt t z) n w"

inductive_simps occurs_list: "occurs (PList xs) n w"

lemma all_occurs_atom [simp]:
  "(\<forall>n w. occurs PNone n w \<longrightarrow> P n w) = P 0 PNone"
  "(\<forall>n w. occurs (PBool b) n w \<longrightarrow> P n w) = P 0 (PBool b)"
  "(\<forall>n w. occurs (PInt i) n w \<longrightarrow> P n w) = P 0 (PInt i)"
  "(\<forall>n w. occurs (PFloat r) n w \<longrightarrow> P n w) = P 0 (PFloat r)"
  "(\<forall>n w. occurs (PStr s) n w \<longrightarrow> P n w) = P 0 (PStr s)"
  "(\<forall>n w. occurs (PDt t z) n w \<longrightarrow> P n w) = P 0 (PDt t z)"
  by (auto simp: occurs_atom)

lemma all_occurs_list [simp]:
  "(\<forall>n w. occurs (PList xs) n w \<longrightarrow> P n w) =
   (P 0 (PList xs) \<and> (\<forall>x\<in>set xs. \<forall>n w. occurs x n w \<longrightarrow> P (Suc n) w))"
  by (auto simp: occurs_list)

lemma all_occurs_dict [simp]:
  "(\<forall>n w. occurs (PDict d) n w \<longrightarrow> P n w) =
   (P 0 (PDict d) \<and> (\<forall>kv\<in>set d. \<forall>n w. occurs (snd kv) n w \<longrightarrow> P (Suc n) w))"
proof -
  have "occurs (PDict d) n w \<longleftrightarrow> (n = 0 \<and> w = PDict d) \<or> (\<exists>kv\<in>set d. \<exists>m. n = Suc m \<and> occurs (snd kv) m w)" for n w
  proof
    assume "occurs (PDict d) n w"
    then show "(n = 0 \<and> w = PDict d) \<or> (\<exists>kv\<in>set d. \<exists>m. n = Suc m \<and> occurs (snd kv) m w)"
      by cases force+
  next
    assume "(n = 0 \<and> w = PDict d) \<or> (\<exists>kv\<in>set d. \<exists>m. n = Suc m \<and> occurs (snd kv) m w)"
    then show "occurs (PDict d) n w"
      by (metis occurs_here occurs_value prod.collapse)
  qed
  then have *: "(\<forall>n w. occurs (PDict d) n w \<longrightarrow> P n w) =
      (\<forall>n w. (n = 0 \<and> w = PDict d) \<or> (\<exists>kv\<in>set d. \<exists>m. n = Suc m \<and> occurs (snd kv) m w) \<longrightarrow> P n w)"
    by simp
  show ?thesis unfolding * by (intro iffI conjI ballI allI impI) metis+
qed

text \<open>The size limits of one node.\<close>

fun node_ok :: "pv \<Rightarrow> bool" where
  "node_ok (PStr s) = (length s \<le> MAX_STRING_VALUE_CHARS)"
| "node_ok (PList xs) = (length xs \<le> MAX_ARRAY_ITEMS)"
| "node_ok (PDict d) = (length d \<le> MAX_OBJECT_KEYS \<and> list_all (\<lambda>kv. is_str (fst kv)) d)"
| "node_ok (PDt t z) = False"
| "node_ok _ = True"

fun keys_ok :: "pv \<Rightarrow> bool" where
  "keys_ok (PDict d) = list_all (\<lambda>kv. py_str (fst kv) \<notin> set BACKEND_CONTEXT_KEYS) d"
| "keys_ok _ = True"

fun text_ok :: "pv \<Rightarrow> bool" where
  "text_ok (PStr s) = (\<not> prompt_injection s)"
| "text_ok _ = True"

lemma rbind_unit_iff: "rbind m (\<lambda>_. f) = Inr () \<longleftrightarrow> m = Inr () \<and> f = Inr ()" for m :: "'e + unit"
  by (cases m) auto

lemma validate_json_value_iff:
  "validate_json_value v depth = Inr () \<longleftrightarrow>
     (\<forall>n w. occurs v n w \<longrightarrow> depth + n \<le> MAX_NESTING_DEPTH \<and> node_ok w)"
  and "validate_json_list xs depth = Inr () \<longleftrightarrow>
     (\<forall>x\<in>set xs. \<forall>n w. occurs x n w \<longrightarrow> depth + n \<le> MAX_NESTING_DEPTH \<and> node_ok w)"
  and "validate_json_items d depth = Inr () \<longleftrightarrow>
     (\<forall>kv\<in>set d. is_str (fst kv) \<and> (\<forall>n w. occurs (snd kv) n w \<longrightarrow> depth + n \<le> MAX_NESTING_DEPTH \<and> node_ok w))"
  and "validate_json_item kv depth = Inr () \<longleftrightarrow>
     is_str (fst kv) \<and> (\<forall>n w. occurs (snd kv) n w \<longrightarrow> depth + n \<le> MAX_NESTING_DEPTH \<and> node_ok w)"
  by (induction v and xs and d and kv arbitrary: depth and depth and depth and depth rule: pv_induct)
     (auto simp: rbind_unit_iff list_all_iff)

lemma reject_backend_context_iff:
  "reject_backend_context v = Inr () \<longleftrightarrow> (\<forall>n w. occurs v n w \<longrightarrow> keys_ok w)"
  and "reject_backend_list xs = Inr () \<longleftrightarrow> (\<forall>x\<in>set xs. \<forall>n w. occurs x n w \<longrightarrow> keys_ok w)"
  and "reject_backend_items d = Inr () \<longleftrightarrow>
     (\<forall>kv\<in>set d. py_str (fst kv) \<notin> set BACKEND_CONTEXT_KEYS \<and> (\<forall>n w. occurs (snd kv) n w \<longrightarrow> keys_ok w))"
  and "reject_backend_item kv = Inr () \<longleftrightarrow>
     py_str (fst kv) \<notin> set BACKEND_CONTEXT_KEYS \<and> (\<forall>n w. occurs (snd kv) n w \<longrightarrow> keys_ok w)"
  by (induction v and xs and d and kv rule: pv_induct)
     (auto simp: rbind_unit_iff list_all_iff)

lemma reject_prompt_injection_iff:
  "reject_prompt_injection v = Inr () \<longleftrightarrow> (\<forall>n w. occurs v n w \<longrightarrow> text_ok w)"
  and "reject_injection_list xs = Inr () \<longleftrightarrow> (\<forall>x\<in>set xs. \<forall>n w. occurs x n w \<longrightarrow> text_ok w)"
  and "reject_injection_items d = Inr () \<longleftrightarrow> (\<forall>kv\<in>set d. \<forall>n w. occurs (snd kv) n w \<longrightarrow> text_ok w)"
  and "reject_injection_item kv = Inr () \<longleftrightarrow> (\<forall>n w. occurs (snd kv) n w \<longrightarrow> text_ok w)"
  by (induction v and xs and d and kv rule: pv_induct)
     (auto simp: rbind_unit_iff list_all_iff)

lemma rfold_unit_iff: "rfold f () xs = Inr () \<longleftrightarrow> (\<forall>x\<in>set xs. f () x = Inr ())"
  by (induction xs) (simp_all add: rbind_unit_iff)

text \<open>What an input schema asks of the arguments: required keys, types and enumerations.\<close>

definition value_fits :: "pdict \<Rightarrow> pv \<Rightarrow> bool" where
  "value_fits schema value \<longleftrightarrow>
     (let ts = expected_types (dget schema ''type'') in
      ts = [] \<or> (value = PNone \<and> ''null'' \<in> set ts) \<or>
      (type_ok ts value \<and>
       (case dget schema ''enum'' of PList enum \<Rightarrow> \<exists>e\<in>set enum. py_eq value e | _ \<Rightarrow> True)))"

definition schema_fits :: "pdict \<Rightarrow> pdict \<Rightarrow> bool" where
  "schema_fits args schema \<longleftrightarrow>
     (case py_or (dget schema ''required'') (PList []) of
        PList keys \<Rightarrow> \<forall>k\<in>set keys. dhas args (py_str k) | _ \<Rightarrow> True) \<and>
     (case py_or (dget schema ''properties'') (PDict []) of
        PDict props \<Rightarrow> \<forall>(key, ps)\<in>set props. case (map_of args key, ps) of
            (Some value, PDict s) \<Rightarrow> value_fits s value | _ \<Rightarrow> True
      | _ \<Rightarrow> True)"

lemma validate_schema_value_iff:
  "validate_schema_value tool_name key value schema = Inr () \<longleftrightarrow> value_fits schema value"
  by (auto simp: validate_schema_value_def value_fits_def Let_def list_ex_iff split: pv.splits)

lemma missing_args_Nil_iff:
  "missing_args args required = [] \<longleftrightarrow>
     (case required of PList keys \<Rightarrow> \<forall>k\<in>set keys. dhas args (py_str k) | _ \<Rightarrow> True)"
  by (auto simp: missing_args_def filter_empty_conv split: pv.split)

lemma validate_schema_iff:
  "validate_schema tool_name args (PDict schema) = Inr () \<longleftrightarrow> schema_fits args schema"
proof -
  have each: "validate_schema_property tool_name args () (key, ps) = Inr () \<longleftrightarrow>
      (case (map_of args key, ps) of (Some value, PDict s) \<Rightarrow> value_fits s value | _ \<Rightarrow> True)" for key ps
    by (auto simp: validate_schema_property_def validate_schema_value_iff split: option.split pv.split)
  have body: "rfold (validate_schema_property tool_name args) () props = Inr () \<longleftrightarrow>
      (\<forall>(key, ps)\<in>set props. case (map_of args key, ps) of
         (Some value, PDict s) \<Rightarrow> value_fits s value | _ \<Rightarrow> True)" for props
    unfolding rfold_unit_iff
  proof (intro ball_cong refl)
    fix kp assume "kp \<in> set props"
    show "validate_schema_property tool_name args () kp = Inr () \<longleftrightarrow>
        (case kp of (key, ps) \<Rightarrow> case (map_of args key, ps) of
           (Some value, PDict s) \<Rightarrow> value_fits s value | _ \<Rightarrow> True)"
      using each [of "fst kp" "snd kp"] by (simp add: split_beta)
  qed
  have "validate_schema tool_name args (PDict schema) = Inr () \<longleftrightarrow>
      missing_args args (py_or (dget schema ''required'') (PList [])) = [] \<and>
      (case py_or (dget schema ''properties'') (PDict []) of
         PDict props \<Rightarrow> rfold (validate_schema_property tool_name args) () props = Inr () | _ \<Rightarrow> True)"
    by (simp add: validate_schema_def Let_def split: pv.split)
  then show ?thesis
    unfolding schema_fits_def missing_args_Nil_iff body .
qed

lemma validate_schema_no_schema: "\<not> is_dict schema \<Longrightarrow> validate_schema tool_name args schema = Inr ()"
  by (cases schema) (simp_all add: validate_schema_def)

section \<open>The guarantees\<close>

text \<open>
  C12: \<open>validate_tool_args\<close> accepts exactly the argument objects whose values all lie at most eight
  levels deep and within the size limits (with string keys, no datetime), that carry no backend-owned
  key at any level, hold no prompt-injection text at any level unless the tool is read-only, and fit
  the tool's schema; the accepted object is the one given (an absent one counts as empty).
\<close>

theorem validate_tool_args_iff:
  "validate_tool_args tool_name args (PDict schema) risk = Inr d \<longleftrightarrow>
     (args = PDict d \<or> (args = PNone \<and> d = [])) \<and>
     (\<forall>n w. occurs (PDict d) n w \<longrightarrow>
        n \<le> MAX_NESTING_DEPTH \<and> node_ok w \<and> keys_ok w \<and> (risk \<noteq> ''read'' \<longrightarrow> text_ok w)) \<and>
     schema_fits d schema"
proof -
  let ?checks = "\<lambda>d. validate_json_value (PDict d) 0 = Inr () \<and> reject_backend_context (PDict d) = Inr () \<and>
    (risk \<noteq> ''read'' \<longrightarrow> reject_prompt_injection (PDict d) = Inr ()) \<and> schema_fits d schema"
  have py: "py_or (PDict schema) (PDict []) = PDict schema" by (simp add: py_or_def)
  have "validate_tool_args tool_name args (PDict schema) risk = Inr d \<longleftrightarrow>
      (args = PDict d \<or> (args = PNone \<and> d = [])) \<and> ?checks d"
    by (cases args) (auto simp: validate_tool_args_def rbind_Inr_iff py validate_schema_iff)
  also have "?checks d \<longleftrightarrow>
     (\<forall>n w. occurs (PDict d) n w \<longrightarrow>
        n \<le> MAX_NESTING_DEPTH \<and> node_ok w \<and> keys_ok w \<and> (risk \<noteq> ''read'' \<longrightarrow> text_ok w)) \<and>
     schema_fits d schema"
    unfolding validate_json_value_iff reject_backend_context_iff reject_prompt_injection_iff by auto
  finally show ?thesis .
qed

theorem validate_tool_args_iff_witness:
  "validate_tool_args ''postgres_execute_ddl'' (PDict [(PStr ''sql'', PStr ''drop'')])
     (PDict [(PStr ''required'', PList [PStr ''sql''])]) ''destructive'' = Inr [(PStr ''sql'', PStr ''drop'')] \<and>
   node_ok (PDict [(PStr ''sql'', PStr ''drop'')]) \<and> text_ok (PStr ''drop'') \<and>
   schema_fits [(PStr ''sql'', PStr ''drop'')] [(PStr ''required'', PList [PStr ''sql''])]"
proof -
  have "validate_tool_args ''postgres_execute_ddl'' (PDict [(PStr ''sql'', PStr ''drop'')])
     (PDict [(PStr ''required'', PList [PStr ''sql''])]) ''destructive'' = Inr [(PStr ''sql'', PStr ''drop'')]"
    by code_simp
  then show ?thesis
    using validate_tool_args_iff [of "''postgres_execute_ddl''" "PDict [(PStr ''sql'', PStr ''drop'')]"
      "[(PStr ''required'', PList [PStr ''sql''])]" "''destructive''" "[(PStr ''sql'', PStr ''drop'')]"]
    by simp
qed

lemma update_new: "k \<notin> fst ` set d \<Longrightarrow> AList.update k v d = d @ [(k, v)]"
  by (induction d) auto

lemma set_update_subset: "set (AList.update k v d) \<subseteq> insert (k, v) (set d)"
  by (induction d) auto

lemma dset_foldl_distinct:
  "distinct (map fst d @ map (\<lambda>kv. PStr (fst kv)) items) \<Longrightarrow>
   foldl (\<lambda>out (k, v). dset out k v) d items = d @ pdict_of items"
proof (induction items arbitrary: d)
  case (Cons kv items)
  obtain k v where kv: "kv = (k, v)" by (cases kv)
  with Cons.prems have "dset d k v = d @ [(PStr k, v)]"
    by (auto simp: dset_def intro!: update_new)
  with Cons kv show ?case by simp
qed simp

lemma dset_foldl_items:
  "set (foldl (\<lambda>out (k, v). dset out k v) d items) \<subseteq> set d \<union> set (pdict_of items)"
proof (induction items arbitrary: d)
  case (Cons kv items)
  obtain k v where kv: "kv = (k, v)" by (cases kv)
  have "set (dset d k v) \<subseteq> insert (PStr k, v) (set d)"
    unfolding dset_def by (rule set_update_subset)
  with Cons [of "dset d k v"] kv show ?case by auto
qed simp

lemma dset_foldl_keys: "distinct (map fst d) \<Longrightarrow>
    distinct (map fst (foldl (\<lambda>out (k, v). dset out k v) d items))"
  by (induction items arbitrary: d) (simp_all add: split_beta dset_def distinct_update)

lemma scrub_items_map: "scrub_items d = map scrub_item d"
  by (induction d) simp_all

text \<open>A scrubbed value: string keys, each once, and every secret masked.\<close>

fun masked :: "pv \<Rightarrow> bool" where
  "masked (PDict d) =
     (distinct (map fst d) \<and>
      (\<forall>(k, v)\<in>set d. is_str k \<and> (is_secret_key (py_str k) \<longrightarrow> v = PStr ''***'')))"
| "masked _ = True"

lemma scrub_args_masked:
  "occurs (scrub_args v) n w \<Longrightarrow> masked w"
proof -
  have "\<forall>n w. occurs (scrub_args v) n w \<longrightarrow> masked w"
    and "\<forall>x\<in>set (scrub_list xs). \<forall>n w. occurs x n w \<longrightarrow> masked w"
    and "\<forall>kv\<in>set (scrub_items d). \<forall>n w. occurs (snd kv) n w \<longrightarrow> masked w"
    and "\<forall>n w. occurs (snd (scrub_item kv)) n w \<longrightarrow> masked w" for xs d kv
  proof (induction v and xs and d and kv rule: pv_induct)
    case (Dict d)
    let ?e = "foldl (\<lambda>out (k, v). dset out k v) [] (scrub_items d)"
    have sub: "set ?e \<subseteq> set (pdict_of (scrub_items d))"
      using dset_foldl_items [of "[]" "scrub_items d"] by simp
    have "masked (PDict ?e)"
      using sub by (auto simp: dset_foldl_keys pdict_of_def scrub_items_map split: if_splits)
    moreover have "\<forall>n w. occurs (snd kv) n w \<longrightarrow> masked w" if "kv \<in> set ?e" for kv
      using that sub Dict by (fastforce simp: pdict_of_def)
    ultimately show ?case by simp
  qed auto
  then show "occurs (scrub_args v) n w \<Longrightarrow> masked w" by blast
qed


lemma scrub_args_idem:
  "scrub_args (scrub_args v) = scrub_args v"
proof -
  have "scrub_args (scrub_args v) = scrub_args v"
    and "scrub_list (scrub_list xs) = scrub_list xs"
    and "\<forall>(k, w)\<in>set (scrub_items d). scrub_item (PStr k, w) = (k, w)"
    and "case scrub_item kv of (k, w) \<Rightarrow> scrub_item (PStr k, w) = (k, w)" for xs d kv
  proof (induction v and xs and d and kv rule: pv_induct)
    case (Dict d)
    let ?e = "foldl (\<lambda>out (k, v). dset out k v) [] (scrub_items d)"
    have sub: "set ?e \<subseteq> set (pdict_of (scrub_items d))"
      using dset_foldl_items [of "[]" "scrub_items d"] by simp
    then have strs: "fst kv = PStr (fst (scrub_item kv)) \<and> snd (scrub_item kv) = snd kv" if "kv \<in> set ?e" for kv
      using that Dict by (fastforce simp: pdict_of_def)
    have fsts: "map (\<lambda>kv. PStr (fst kv)) (map scrub_item ?e) = map fst ?e"
      using strs by (simp add: comp_def)
    have "foldl (\<lambda>out (k, v). dset out k v) [] (map scrub_item ?e) = [] @ pdict_of (map scrub_item ?e)"
      by (rule dset_foldl_distinct)
         (simp only: fsts list.map append_Nil dset_foldl_keys [of "[]"] distinct.simps)
    also have "\<dots> = ?e"
      using strs by (auto simp: pdict_of_def comp_def intro!: map_idI prod_eqI)
    finally show ?case by (simp add: scrub_items_map)
  qed (auto simp: split_beta)
  then show "scrub_args (scrub_args v) = scrub_args v" by blast
qed

lemma scrub_args_string_keys:
  "list_all (\<lambda>kv. is_str (fst kv)) d \<Longrightarrow> distinct (map fst d) \<Longrightarrow>
   scrub_args (PDict d) =
     PDict (map (\<lambda>(k, v). (k, if is_secret_key (py_str k) then PStr ''***'' else scrub_args v)) d)"
proof -
  assume str: "list_all (\<lambda>kv. is_str (fst kv)) d" and dist: "distinct (map fst d)"
  have fsts: "map (\<lambda>kv. PStr (fst kv)) (map scrub_item d) = map fst d"
    using str by (induction d) (auto simp: is_str_iff)
  have "foldl (\<lambda>out (k, v). dset out k v) [] (map scrub_item d) = [] @ pdict_of (map scrub_item d)"
    by (rule dset_foldl_distinct) (simp only: fsts dist list.map append_Nil)
  moreover have "pdict_of (map scrub_item d) =
      map (\<lambda>(k, v). (k, if is_secret_key (py_str k) then PStr ''***'' else scrub_args v)) d"
    using str by (induction d) (auto simp: is_str_iff)
  ultimately show ?thesis by (simp add: scrub_items_map)
qed

text \<open>
  C32: after \<open>scrub_args\<close>, at every depth, every dictionary has distinct string keys and every value
  under a key that looks like a secret is the mask; scrubbing again changes nothing; and on an object
  with string keys the other entries keep their place, their key and their (scrubbed) value.
\<close>

theorem scrub_args_hides_secrets:
  assumes "list_all (\<lambda>kv. is_str (fst kv)) d" and "distinct (map fst d)"
  shows "(\<forall>n w. occurs (scrub_args v) n w \<longrightarrow> masked w) \<and>
    scrub_args (scrub_args v) = scrub_args v \<and>
    scrub_args (PDict d) =
      PDict (map (\<lambda>(k, v). (k, if is_secret_key (py_str k) then PStr ''***'' else scrub_args v)) d)"
  using scrub_args_masked scrub_args_idem scrub_args_string_keys [OF assms] by blast

theorem scrub_args_hides_secrets_witness:
  "scrub_args (PDict [(PStr ''user'', PStr ''ana''), (PStr ''API_TOKEN'', PInt 3)]) =
     PDict [(PStr ''user'', PStr ''ana''), (PStr ''API_TOKEN'', PStr ''***'')] \<and>
   masked (scrub_args (PDict [(PStr ''pass'', PInt 1)]))"
proof -
  have "is_secret_key ''API_TOKEN''" and "\<not> is_secret_key ''user''" by code_simp+
  then show ?thesis
    using scrub_args_hides_secrets [of "[(PStr ''user'', PStr ''ana''), (PStr ''API_TOKEN'', PInt 3)]"
      "PDict [(PStr ''pass'', PInt 1)]"] occurs_here
    by simp
qed

text \<open>
  a tool that is not on the read-only list never runs on the \<open>copilot.use\<close> permission: it needs
  \<open>copilot.write\<close> or, on the destructive list, \<open>copilot.execute\<close>, and it needs an approval
  unless it is one of the advisory writers; the two classifiers agree on approvals for every name.
\<close>

theorem tool_risk_permission:
  "required_permission (risk_level (classify tool_name)) =
     (if tool_name \<in> set READ_ONLY_TOOLS then ''copilot.use''
      else if tool_name \<in> set DESTRUCTIVE_TOOLS then ''copilot.execute'' else ''copilot.write'') \<and>
   requires_approval (classify tool_name) = tool_requires_approval tool_name \<and>
   tool_requires_approval tool_name =
     (tool_name \<notin> set READ_ONLY_TOOLS \<and> tool_name \<notin> set ADVISORY_WRITE_TOOLS)"
proof -
  have "tool_name \<in> set DESTRUCTIVE_TOOLS \<Longrightarrow> tool_name \<notin> set ADVISORY_WRITE_TOOLS"
    by (auto simp: DESTRUCTIVE_TOOLS_def ADVISORY_WRITE_TOOLS_def)
  then show ?thesis
    by (auto simp: classify_def classify_tool_def tool_requires_approval_def required_permission_def
      RISK_PERMISSION_def Let_def)
qed

end
