(* ===== verification/Sync_Steps.thy ===== *)
theory Sync_Steps
  imports Py_Base
begin

text \<open>
  Progress of a synchronisation, first part: the steps (\<open>console/app/services/sync_progress.py\<close>).

  A sync run shows five steps; each is a dictionary with a status, counters and a percentage. The
  functions build step updates from what the child runs report, normalise them, merge them into the
  run and derive the status of the run. Steps are kept as Python dictionaries, since they are stored
  as JSON and come back from the database.

  The theorems: every step that leaves the merge has consistent counters and a percentage between 0
  and 100, in the fixed order of the steps; normalising is idempotent; and the status of the run is
  what the statuses of the steps demand.
\<close>

section \<open>Steps\<close>

definition SYNC_STEP_RECOMPUTE_PERCENT_STATUSES :: "string list" where
  "SYNC_STEP_RECOMPUTE_PERCENT_STATUSES =
     [''success'', ''partial'', ''blocked'', ''failed'', ''skipped'', ''skipped_explicit'']"

definition SYNC_CHILD_BLOCKED_STATUSES :: "string list" where
  "SYNC_CHILD_BLOCKED_STATUSES = [''blocked'', ''skipped'', ''skipped_explicit'']"

definition SYNC_AGGREGATE_READY_KEYS :: "string list" where
  "SYNC_AGGREGATE_READY_KEYS =
     [''summary'', ''result_status'', ''gold_refresh'', ''selected'', ''attempted'', ''outcomes'']"

definition SYNC_STEP_ORDER :: "string list" where
  "SYNC_STEP_ORDER = [''connection'', ''bronze'', ''silver_gold'', ''control_room'', ''agents_intelligence'']"

definition clamp_percent :: "int \<Rightarrow> int" where
  \<comment> \<open>\<open>max(0, min(percent, 100))\<close>\<close>
  "clamp_percent p = max 0 (min p 100)"

definition sync_step ::
    "string \<Rightarrow> string \<Rightarrow> string \<Rightarrow> string \<Rightarrow> int \<Rightarrow> string option \<Rightarrow> int option \<Rightarrow> int option \<Rightarrow> int option \<Rightarrow> pdict option \<Rightarrow> pdict" where
  "sync_step step_id label status detail attempts error completed total_count percent metrics =
     (let normalized_total = max (case total_count of None \<Rightarrow> 0 | Some t \<Rightarrow> t) 0;
          c = max (case completed of None \<Rightarrow> 0 | Some t \<Rightarrow> t) 0;
          normalized_completed = (if normalized_total \<noteq> 0 then min c normalized_total else c);
          normalized_percent = (case percent of
              Some p \<Rightarrow> p
            | None \<Rightarrow> if normalized_total \<noteq> 0 then round_percent normalized_completed normalized_total
                      else if status \<in> {''success'', ''skipped''} then 100 else 0)
      in pdict_of (
        [(''id'', PStr step_id), (''label'', PStr label), (''status'', PStr status), (''detail'', PStr detail),
         (''attempts'', PInt attempts), (''completed'', PInt normalized_completed),
         (''total'', PInt normalized_total), (''percent'', PInt (clamp_percent normalized_percent))] @
        (case error of Some e \<Rightarrow> if e = [] then [] else [(''error'', PStr e)] | None \<Rightarrow> []) @
        (case metrics of Some m \<Rightarrow> if m = [] then [] else [(''metrics'', PDict m)] | None \<Rightarrow> [])))"

definition step_status :: "pdict \<Rightarrow> string \<Rightarrow> string" where
  \<comment> \<open>\<open>str(step.get("status") or default)\<close>\<close>
  "step_status step dflt = str_or (dget step ''status'') dflt"

definition done_statuses :: "string list" where
  "done_statuses = [''success'', ''skipped'', ''skipped_explicit'']"

definition step_totals :: "string \<Rightarrow> int \<Rightarrow> int \<Rightarrow> int \<times> int" where
  \<comment> \<open>\<open>(completed, total)\<close> after the defaults of finished steps and the cap\<close>
  "step_totals status completed0 total0 =
     (let (completed1, total1) = (if status \<in> set done_statuses \<and> total0 = 0 then (1, 1) else (completed0, total0));
          total2 = (if status \<in> {''failed'', ''blocked''} \<and> total1 = 0 then 1 else total1)
      in (if total2 \<noteq> 0 then min completed1 total2 else completed1, total2))"

definition step_percent :: "string list \<Rightarrow> pdict \<Rightarrow> string \<Rightarrow> int \<Rightarrow> int \<Rightarrow> int pyres" where
  "step_percent recompute step status completed total1 =
     (if total1 \<noteq> 0 \<and> status \<in> set recompute then Inr (round_percent completed total1)
      else if dhas step ''percent'' \<and> dget step ''percent'' \<noteq> PNone then int_or0 (dget step ''percent'')
      else if total1 \<noteq> 0 then Inr (round_percent completed total1)
      else if status \<in> set done_statuses then Inr 100
      else if status = ''running'' then Inr 50
      else Inr 0)"

definition normalize_sync_step_payload :: "string list \<Rightarrow> pdict \<Rightarrow> pdict pyres" where
  "normalize_sync_step_payload recompute_statuses step =
     (let recompute = (if recompute_statuses = [] then SYNC_STEP_RECOMPUTE_PERCENT_STATUSES else recompute_statuses);
          status = step_status step ''queued''
      in rbind (int_or0 (dget step ''total'')) (\<lambda>total0.
         rbind (int_or0 (dget step ''completed'')) (\<lambda>completed0.
           let (completed, total1) = step_totals status (max completed0 0) (max total0 0) in
         rbind (step_percent recompute step status completed total1) (\<lambda>percent.
           Inr (dset (dset (dset step ''completed'' (PInt completed)) ''total'' (PInt total1))
                  ''percent'' (PInt (clamp_percent percent)))))))"

definition es_connection :: string where "es_connection = ''Conexi'' @ [CHR 0xF3] @ ''n''"
definition es_extraction :: string where "es_extraction = ''xtracci'' @ [CHR 0xF3] @ ''n''"
definition es_materialization :: string where "es_materialization = ''aterializaci'' @ [CHR 0xF3] @ ''n''"

definition queued_step :: "string \<Rightarrow> string \<Rightarrow> string \<Rightarrow> pdict" where
  "queued_step step_id label detail = sync_step step_id label ''queued'' detail 0 None None None None None"

definition initial_sync_steps :: "pdict list" where
  "initial_sync_steps =
     [queued_step ''connection'' es_connection (''Esperando preflight de e'' @ es_extraction @ ''.''),
      queued_step ''bronze'' ''Bronze'' (''E'' @ es_extraction @ '' pendiente.''),
      queued_step ''silver_gold'' ''Silver/Gold'' (''M'' @ es_materialization @ '' pendiente.''),
      queued_step ''control_room'' ''Control Room'' ''Refresh pendiente.'',
      queued_step ''agents_intelligence'' ''Agentes/IA'' ''Monitores y simulaciones pendientes.'']"

definition base_steps :: "pv list \<Rightarrow> (string \<times> pdict) list" where
  \<comment> \<open>the current steps by id; entries that are no dictionary or have no id are dropped\<close>
  "base_steps current =
     foldl (\<lambda>base step. case step of
         PDict d \<Rightarrow> if truthy (dget d ''id'') then AList.update (py_str (dget d ''id'')) d base else base
       | _ \<Rightarrow> base) []
       (if current = [] then map PDict initial_sync_steps else current)"

definition merge_update ::
    "(pdict \<Rightarrow> pdict pyres) \<Rightarrow> (string \<times> pdict) list \<Rightarrow> string \<times> pdict \<Rightarrow> (string \<times> pdict) list pyres" where
  "merge_update normalizer base update =
     (case update of (step_id, fields) \<Rightarrow>
        let merged = dset (dmerge (case map_of base step_id of None \<Rightarrow> [] | Some d \<Rightarrow> d) fields) ''id'' (PStr step_id)
        in rbind (normalizer merged) (\<lambda>d. Inr (AList.update step_id d base)))"

definition merge_sync_steps ::
    "string list \<Rightarrow> (pdict \<Rightarrow> pdict pyres) \<Rightarrow> pv list \<Rightarrow> (string \<times> pdict) list \<Rightarrow> pdict list pyres" where
  "merge_sync_steps step_order normalizer current updates =
     rbind (rfold (merge_update normalizer) (base_steps current) updates) (\<lambda>base.
       rmap normalizer (List.map_filter (\<lambda>item. map_of base item) step_order))"

definition sync_status_from_steps :: "pdict list \<Rightarrow> string" where
  "sync_status_from_steps steps =
     (let statuses = map (\<lambda>step. step_status step []) steps
      in if ''failed'' \<in> set statuses then ''failed''
         else if ''running'' \<in> set statuses \<or> ''queued'' \<in> set statuses then ''running''
         else if list_ex (\<lambda>s. s \<in> set [''partial'', ''blocked'', ''skipped_explicit'']) statuses then ''partial''
         else ''success'')"

section \<open>Step updates\<close>

definition CONNECTION_INVALID_DETAIL_ES :: string where
  "CONNECTION_INVALID_DETAIL_ES =
     ''Credenciales no v'' @ [CHR 0xE1] @ ''lidas o incompletas en la B'' @ [CHR 0xF3] @ ''veda de Accesos''"

definition CONNECTION_PROBE_FAILED_DETAIL_ES :: string where
  "CONNECTION_PROBE_FAILED_DETAIL_ES = ''No se pudo validar la conexi'' @ [CHR 0xF3] @ ''n con el origen''"

definition CONNECTION_UNVERIFIED_DETAIL_ES :: string where
  "CONNECTION_UNVERIFIED_DETAIL_ES = ''No se pudo verificar la conexi'' @ [CHR 0xF3] @ ''n a tiempo; continuando''"

definition CONNECTION_VERIFIED_DETAIL_ES :: string where
  "CONNECTION_VERIFIED_DETAIL_ES = ''Credenciales verificadas con el origen de datos.''"

definition CONNECTION_CONFIRMED_BY_DATA_DETAIL_ES :: string where
  "CONNECTION_CONFIRMED_BY_DATA_DETAIL_ES =
     es_connection @ '' confirmada por la e'' @ es_extraction @ '' de datos.''"

definition step_update :: "string \<Rightarrow> string \<Rightarrow> string \<Rightarrow> int \<Rightarrow> int \<Rightarrow> (string \<times> pv) list \<Rightarrow> pdict" where
  \<comment> \<open>the fields that every update has, then the others\<close>
  "step_update label status detail completed total_count more = pdict_of (
     [(''label'', PStr label), (''status'', PStr status), (''detail'', PStr detail),
      (''completed'', PInt completed), (''total'', PInt total_count)] @ more)"

definition sync_connection_step_update :: "bool \<Rightarrow> bool \<Rightarrow> int \<Rightarrow> pv \<Rightarrow> pdict" where
  \<comment> \<open>\<open>triggered\<close> and \<open>child_rows\<close> only count as non-empty or empty\<close>
  "sync_connection_step_update triggered child_rows bronze_ready connection_check =
     (let check = (case connection_check of PDict d \<Rightarrow> d | _ \<Rightarrow> []);
          check_status = lower (str_or (dget check ''status'') [])
      in if check_status = ''failed'' then
           let message = strip (str_or (dget check ''message'') []);
               failure_kind = str_or (dget check ''failure_kind'') []
           in step_update es_connection ''failed''
                (if failure_kind = ''source'' then CONNECTION_PROBE_FAILED_DETAIL_ES else CONNECTION_INVALID_DETAIL_ES)
                0 1 (if message = [] then [] else [(''error'', PStr (take 300 message))])
         else if check_status = ''verified'' then
           step_update es_connection ''success'' CONNECTION_VERIFIED_DETAIL_ES 1 1 [(''percent'', PInt 100)]
         else if check_status = ''unverified'' then
           (if bronze_ready \<noteq> 0
            then step_update es_connection ''success'' CONNECTION_CONFIRMED_BY_DATA_DETAIL_ES 1 1 [(''percent'', PInt 100)]
            else step_update es_connection ''partial'' CONNECTION_UNVERIFIED_DETAIL_ES 0 1 [])
         else
           let started = (triggered \<or> child_rows \<or> bronze_ready \<noteq> 0)
           in step_update es_connection (if started then ''success'' else ''running'')
                (if started then ''Scope y conexi'' @ [CHR 0xF3] @ ''n aceptados por el pipeline.''
                 else ''Validando al iniciar e'' @ es_extraction @ ''.'')
                (if started then 1 else 0) 1 [(''percent'', PInt (if started then 100 else 20))])"

definition sync_bronze_step_update ::
    "bool \<Rightarrow> bool \<Rightarrow> int \<Rightarrow> int \<Rightarrow> int \<Rightarrow> int \<Rightarrow> int \<Rightarrow> int \<Rightarrow> int \<Rightarrow> int \<Rightarrow> int \<Rightarrow> pdict \<Rightarrow> pdict option" where
  \<comment> \<open>\<open>errors\<close> is the length of the list of errors\<close>
  "sync_bronze_step_update running_children aggregate_summary_pending progress_count failed_children
     success_children partial_children blocked_children errors child_done child_total bronze_ready entity_summary =
     (let entities = (if dhas entity_summary ''entities'' then dget entity_summary ''entities'' else PList []);
          blockers = (if dhas entity_summary ''blockers'' then dget entity_summary ''blockers'' else PList []);
          more = [(''entities'', entities), (''blockers'', blockers)]
      in if running_children then
           Some (step_update ''Bronze'' ''running''
             (if aggregate_summary_pending then ''Esperando resumen final del DAG agregado.''
              else str_of_int progress_count @ '' corridas del sync actual en curso.'')
             child_done child_total more)
         else if failed_children \<noteq> 0 \<and> success_children = 0 \<and> partial_children = 0 then
           Some (step_update ''Bronze'' ''failed'' ''Las extracciones fallaron antes de completar Bronze.''
             (if child_done \<noteq> 0 then child_done else failed_children) child_total more)
         else if failed_children \<noteq> 0 \<or> partial_children \<noteq> 0 \<or> blocked_children \<noteq> 0 \<or> errors \<noteq> 0 then
           Some (step_update ''Bronze'' ''partial''
             (str_of_int success_children @ '' OK; '' @ str_of_int partial_children @ '' parciales; '' @
              str_of_int blocked_children @ '' bloqueadas; '' @ str_of_int (failed_children + errors) @ '' con error.'')
             (max (success_children + partial_children + blocked_children) child_done) child_total more)
         else if success_children \<noteq> 0 \<or> bronze_ready \<noteq> 0 then
           let completed = (if bronze_ready \<noteq> 0 then bronze_ready else success_children)
           in Some (step_update ''Bronze'' ''success'' (str_of_int completed @ '' entidades con datos raw.'')
                completed (max completed 1) (more @ [(''percent'', PInt 100)]))
         else None)"

definition sync_silver_gold_step_update ::
    "string \<Rightarrow> bool \<Rightarrow> int \<Rightarrow> int \<Rightarrow> int \<Rightarrow> int \<Rightarrow> int \<Rightarrow> int \<Rightarrow> bool \<Rightarrow> int \<Rightarrow> pdict option" where
  "sync_silver_gold_step_update bronze_status running_children gold_total silver_ready gold_ready failed_children
     partial_children blocked_children gold_partial errors =
     (if bronze_status \<in> {''queued'', ''running''} \<or> running_children then
        Some (step_update ''Silver/Gold'' ''queued'' (''Esperando a que Airflow termine e'' @ es_extraction @ ''.'')
          0 (max (max gold_total silver_ready) 1) [])
      else if gold_ready \<noteq> 0 then
        let gold_detail = (if gold_total \<noteq> 0 \<and> gold_total \<noteq> gold_ready
              then str_of_int gold_ready @ ''/'' @ str_of_int gold_total @ '' Gold materializados o disponibles''
              else str_of_int gold_ready @ '' Gold frescos o disponibles'')
        in Some (step_update ''Silver/Gold''
             (if failed_children = 0 \<and> partial_children = 0 \<and> blocked_children = 0 \<and> \<not> gold_partial
              then ''success'' else ''partial'')
             (str_of_int silver_ready @ '' Silver '' @ [CHR 0xB7] @ '' '' @ gold_detail @ ''.'')
             gold_ready (max (max gold_total gold_ready) 1) [])
      else if silver_ready \<noteq> 0 then
        Some (step_update ''Silver/Gold'' ''partial''
          (str_of_int silver_ready @ '' Silver disponibles; Gold todav'' @ [CHR 0xED] @ ''a incompleto.'')
          silver_ready (max (max (silver_ready + 1) gold_total) 1) [])
      else if failed_children \<noteq> 0 \<or> errors \<noteq> 0 then
        Some (step_update ''Silver/Gold'' ''failed'' (''No se pudo confirmar m'' @ es_materialization @ '' downstream.'')
          0 (max gold_total 1) [])
      else None)"

definition or_empty :: "pv \<Rightarrow> pv" where
  \<comment> \<open>\<open>value or {}\<close>\<close>
  "or_empty v = py_or v (PDict [])"

definition int_field :: "pv \<Rightarrow> string \<Rightarrow> int pyres" where
  \<comment> \<open>\<open>int((value or {}).get(key) or 0)\<close>\<close>
  "int_field v key = rbind (py_get (or_empty v) key) int_or0"

definition sync_control_room_snapshot :: "pv \<Rightarrow> pdict \<Rightarrow> pdict pyres" where
  "sync_control_room_snapshot dashboard_payload control_room_gold_refresh =
     (let meta = (case dashboard_payload of PDict d \<Rightarrow> dget d ''meta'' | _ \<Rightarrow> PDict []);
          summary = (case dashboard_payload of PDict d \<Rightarrow> dget d ''summary'' | _ \<Rightarrow> PDict [])
      in rbind (int_field meta ''source_count'') (\<lambda>source_count.
         rbind (int_field meta ''item_count'') (\<lambda>item_count.
         rbind (int_field summary ''total_items'') (\<lambda>total_items.
         rbind (int_field summary ''data_ready_sources'') (\<lambda>data_ready_sources.
         rbind (int_or0 (dget control_room_gold_refresh ''signals'')) (\<lambda>signals.
           Inr (pdict_of
             [(''source_count'', PInt source_count), (''item_count'', PInt item_count),
              (''total_items'', PInt total_items), (''data_ready_sources'', PInt data_ready_sources),
              (''gold_refresh_signals'', PInt signals),
              (''gold_refresh_status'', PStr (str_or (dget control_room_gold_refresh ''status'') []))])))))))"

definition sync_control_room_step_update :: "pdict \<Rightarrow> bool \<Rightarrow> bool \<Rightarrow> int \<Rightarrow> pdict pyres" where
  "sync_control_room_step_update snapshot control_room_ready publish_failed gold_ready =
     rbind (int_or0 (dget snapshot ''source_count'')) (\<lambda>source_count.
     rbind (int_or0 (dget snapshot ''item_count'')) (\<lambda>item_count.
       let total1 = max (if source_count \<noteq> 0 then source_count else item_count) 1 in
     rbind (if control_room_ready then Inr (total1, 100)
            else rbind (int_or0 (dget snapshot ''data_ready_sources'')) (\<lambda>ready.
              let c = min (if ready \<noteq> 0 then ready else if item_count \<noteq> 0 then source_count else 0) total1
              in Inr (c, min 95 (round_percent c total1)))) (\<lambda>(completed, percent).
       let counts = str_of_int source_count @ '' fuentes, '' @ str_of_int item_count @ '' items'';
           detail =
             (if control_room_ready
              then ''KPIs Gold/Talent disponibles; Control Room materializado ('' @ counts @ '').''
              else if publish_failed
              then ''Gold materializado, pero la publicaci'' @ [CHR 0xF3] @ ''n de se'' @ [CHR 0xF1] @ ''ales fall'' @ [CHR 0xF3] @ ''.''
              else if gold_ready \<noteq> 0
              then ''Control Room materializado ('' @ counts @ ''); Gold parcial o incompleto.''
              else ''Control Room materializado con fuentes Bronze/Silver; esperando Gold.'')
       in Inr (step_update ''Control Room'' (if control_room_ready then ''success'' else ''partial'') detail
            completed total1 [(''percent'', PInt percent), (''metrics'', PDict snapshot)]))))"

definition sync_control_room_error_step_update :: "string \<Rightarrow> pdict" where
  \<comment> \<open>\<open>error\<close> is \<open>str(error)\<close>\<close>
  "sync_control_room_error_step_update error = pdict_of
     [(''label'', PStr ''Control Room''), (''status'', PStr ''partial''),
      (''detail'', PStr (''Gold existe, pero Control Room a'' @ [CHR 0xFA] @ ''n no respondi'' @ [CHR 0xF3] @ '' completo.'')),
      (''error'', PStr (take 300 error)), (''completed'', PInt 0), (''total'', PInt 1)]"

definition sync_control_room_waiting_step_update :: "bool \<Rightarrow> pdict" where
  "sync_control_room_waiting_step_update running_children =
     step_update ''Control Room'' (if running_children then ''queued'' else ''partial'')
       ''Esperando Gold de SuccessFactors.'' 0 1 []"

definition sync_control_room_generic_step_update :: "int \<Rightarrow> pdict" where
  "sync_control_room_generic_step_update gold_ready =
     step_update ''Control Room'' (if gold_ready \<noteq> 0 then ''success'' else ''skipped'')
       (if gold_ready = 0 then ''Control Room espec'' @ [CHR 0xED] @ ''fico no aplica para esta fuente de datos.''
        else ''Gold disponible para consumo.'')
       (if gold_ready \<noteq> 0 then 1 else 0) 1 [(''percent'', PInt (if gold_ready \<noteq> 0 then 100 else 0))]"

definition sync_agents_intelligence_step_update :: "bool \<Rightarrow> bool \<Rightarrow> bool \<Rightarrow> pdict \<Rightarrow> pdict pyres" where
  "sync_agents_intelligence_step_update applies can_run_agentops running_children agentops_refresh =
     (if \<not> applies then
        Inr (step_update ''Agentes/IA'' ''skipped''
          (''Monitores espec'' @ [CHR 0xED] @ ''ficos no aplican para esta fuente de datos.'') 1 1 [(''percent'', PInt 100)])
      else if \<not> can_run_agentops then
        Inr (step_update ''Agentes/IA'' (if running_children then ''queued'' else ''partial'')
          ''Esperando datos materializados para ejecutar monitores reales.'' 0 1 [])
      else
        let agent_status = lower (str_or (dget agentops_refresh ''status'') []) in
        rbind (int_or0 (dget agentops_refresh ''total'')) (\<lambda>agent_total.
        rbind (int_or0 (dget agentops_refresh ''completed'')) (\<lambda>agent_completed.
        rbind (int_or0 (dget agentops_refresh ''failed'')) (\<lambda>agent_failed.
          let ran = str_of_int agent_completed @ ''/'' @ str_of_int (max agent_total 1) @ '' monitores ejecutados'';
              metrics = (''metrics'', PDict agentops_refresh)
          in Inr (
            if agent_status = ''success'' then
              step_update ''Agentes/IA'' ''success'' (ran @ '' con AgentOps.'')
                agent_completed (max (max agent_total agent_completed) 1) [(''percent'', PInt 100), metrics]
            else if agent_status = ''failed'' then
              step_update ''Agentes/IA'' ''failed''
                (str_or (dget agentops_refresh ''reason'') (str_of_int agent_failed @ '' monitores fallaron.''))
                agent_completed (max (max agent_total agent_failed) 1) [metrics]
            else
              step_update ''Agentes/IA'' ''partial''
                (str_or (dget agentops_refresh ''reason'') (ran @ ''; '' @ str_of_int agent_failed @ '' con error.''))
                agent_completed (max (max agent_total (agent_completed + agent_failed)) 1) [metrics])))))"

section \<open>Lemmas\<close>

lemma update_same: "map_of d k = Some v \<Longrightarrow> AList.update k v d = d"
  by (induction d) auto

lemma dset_same: "map_of d (PStr k) = Some v \<Longrightarrow> dset d k v = d"
  by (simp add: dset_def update_same)

lemma map_of_dset: "map_of (dset d k v) (PStr k') = (if k' = k then Some v else map_of d (PStr k'))"
  by (simp add: dset_def AList.update_conv')

lemma step_totals_bounds:
  assumes "step_totals status c0 t0 = (c, t)" "0 \<le> c0" "0 \<le> t0"
  shows "0 \<le> c \<and> 0 \<le> t \<and> (t \<noteq> 0 \<longrightarrow> c \<le> t) \<and> (status \<in> set done_statuses \<longrightarrow> t \<noteq> 0)"
  using assms by (auto simp: step_totals_def Let_def split: if_splits)

lemma step_totals_idem:
  assumes "step_totals status c0 t0 = (c, t)"
  shows "step_totals status c t = (c, t)"
proof -
  have "''failed'' \<notin> set done_statuses" "''blocked'' \<notin> set done_statuses" by (simp_all add: done_statuses_def)
  then show ?thesis using assms by (auto simp: step_totals_def Let_def split: if_splits)
qed

text \<open>A consistent step: counters and percentage are integers within their bounds.\<close>

definition step_ok :: "pdict \<Rightarrow> bool" where
  "step_ok s \<longleftrightarrow> (\<exists>c t p. dget s ''completed'' = PInt c \<and> dget s ''total'' = PInt t \<and> dget s ''percent'' = PInt p \<and>
     0 \<le> c \<and> 0 \<le> t \<and> (t \<noteq> 0 \<longrightarrow> c \<le> t) \<and> 0 \<le> p \<and> p \<le> 100)"

lemma normalize_cases:
  assumes "normalize_sync_step_payload statuses step = Inr s"
  obtains c0 t0 c t p where "step_totals (step_status step ''queued'') (max c0 0) (max t0 0) = (c, t)"
    "step_percent (if statuses = [] then SYNC_STEP_RECOMPUTE_PERCENT_STATUSES else statuses) step
       (step_status step ''queued'') c t = Inr p"
    "s = dset (dset (dset step ''completed'' (PInt c)) ''total'' (PInt t)) ''percent'' (PInt (clamp_percent p))"
proof -
  let ?st = "step_status step ''queued''"
  let ?re = "if statuses = [] then SYNC_STEP_RECOMPUTE_PERCENT_STATUSES else statuses"
  obtain t0 c0 where body: "(case step_totals ?st (max c0 0) (max t0 0) of (c, t) \<Rightarrow>
      rbind (step_percent ?re step ?st c t) (\<lambda>p.
        Inr (dset (dset (dset step ''completed'' (PInt c)) ''total'' (PInt t)) ''percent'' (PInt (clamp_percent p))))) = Inr s"
    using assms unfolding normalize_sync_step_payload_def Let_def rbind_Inr_iff by blast
  obtain c t where tot: "step_totals ?st (max c0 0) (max t0 0) = (c, t)" by (cases "step_totals ?st (max c0 0) (max t0 0)")
  with body obtain p where "step_percent ?re step ?st c t = Inr p"
      "s = dset (dset (dset step ''completed'' (PInt c)) ''total'' (PInt t)) ''percent'' (PInt (clamp_percent p))"
    by (auto simp: rbind_Inr_iff)
  with tot that show ?thesis by blast
qed

lemma clamp_percent_bounds: "0 \<le> clamp_percent p \<and> clamp_percent p \<le> 100"
  by (simp add: clamp_percent_def)

lemma clamp_percent_idem [simp]: "clamp_percent (clamp_percent p) = clamp_percent p"
  by (simp add: clamp_percent_def)

lemma normalize_ok:
  assumes "normalize_sync_step_payload statuses step = Inr s"
  shows "step_ok s \<and> (\<forall>k. k \<notin> {''completed'', ''total'', ''percent''} \<longrightarrow> dget s k = dget step k)"
proof -
  obtain c0 t0 c t p where tot: "step_totals (step_status step ''queued'') (max c0 0) (max t0 0) = (c, t)"
    and s: "s = dset (dset (dset step ''completed'' (PInt c)) ''total'' (PInt t)) ''percent'' (PInt (clamp_percent p))"
    using normalize_cases [OF assms] by metis
  show ?thesis
    using step_totals_bounds [OF tot] clamp_percent_bounds
    by (auto simp: s step_ok_def dget_dset)
qed

lemma normalize_idem:
  assumes "normalize_sync_step_payload statuses step = Inr s"
  shows "normalize_sync_step_payload statuses s = Inr s"
proof -
  let ?st = "step_status step ''queued''"
  let ?re = "if statuses = [] then SYNC_STEP_RECOMPUTE_PERCENT_STATUSES else statuses"
  obtain c0 t0 c t p where tot: "step_totals ?st (max c0 0) (max t0 0) = (c, t)"
    and s: "s = dset (dset (dset step ''completed'' (PInt c)) ''total'' (PInt t)) ''percent'' (PInt (clamp_percent p))"
    and p: "step_percent ?re step ?st c t = Inr p"
    using normalize_cases [OF assms] by metis
  have st: "step_status s ''queued'' = ?st" by (simp add: s step_status_def dget_dset)
  have get: "dget s ''completed'' = PInt c" "dget s ''total'' = PInt t" "dget s ''percent'' = PInt (clamp_percent p)"
      "dhas s ''percent''"
    by (simp_all add: s dget_dset dhas_dset)
  have map: "map_of s (PStr ''completed'') = Some (PInt c)" "map_of s (PStr ''total'') = Some (PInt t)"
      "map_of s (PStr ''percent'') = Some (PInt (clamp_percent p))"
    by (simp_all add: s map_of_dset)
  have "0 \<le> c" "0 \<le> t" using step_totals_bounds [OF tot] by auto
  then have "step_totals ?st (max c 0) (max t 0) = (c, t)" using step_totals_idem [OF tot] by simp
  moreover have "\<exists>q. step_percent ?re s ?st c t = Inr q \<and> clamp_percent q = clamp_percent p"
    using p by (auto simp: step_percent_def get split: if_splits)
  ultimately show ?thesis
    by (auto simp: normalize_sync_step_payload_def Let_def st get dset_same map)
qed

text \<open>
  Normalising a step yields counters that are not negative, a completed count within the total
  and a percentage between 0 and 100, touches no other field, and is idempotent.
\<close>

lemma normalize_sync_step_sound:
  assumes "normalize_sync_step_payload statuses step = Inr s"
  shows "step_ok s \<and> (\<forall>k. k \<notin> {''completed'', ''total'', ''percent''} \<longrightarrow> dget s k = dget step k) \<and>
    normalize_sync_step_payload statuses s = Inr s"
  using normalize_ok [OF assms] normalize_idem [OF assms] by blast

abbreviation normalize :: "pdict \<Rightarrow> pdict pyres" where
  "normalize \<equiv> normalize_sync_step_payload []"

definition ids_ok :: "(string \<times> pdict) list \<Rightarrow> bool" where
  "ids_ok base \<longleftrightarrow> (\<forall>k d. map_of base k = Some d \<longrightarrow> py_str (dget d ''id'') = k)"

lemma ids_ok_update: "ids_ok base \<Longrightarrow> py_str (dget d ''id'') = k \<Longrightarrow> ids_ok (AList.update k d base)"
  by (simp add: ids_ok_def AList.update_conv')

lemma base_steps_ids: "ids_ok (base_steps current)"
proof -
  have step: "ids_ok base \<Longrightarrow> ids_ok (foldl (\<lambda>base step. case step of
         PDict d \<Rightarrow> if truthy (dget d ''id'') then AList.update (py_str (dget d ''id'')) d base else base
       | _ \<Rightarrow> base) base xs)" for base xs
    by (induction xs arbitrary: base) (simp_all add: ids_ok_update split: pv.split)
  have "ids_ok []" by (simp add: ids_ok_def)
  then show ?thesis unfolding base_steps_def by (rule step)
qed

lemma normalize_id: "normalize_sync_step_payload statuses d = Inr s \<Longrightarrow> dget s ''id'' = dget d ''id''"
  by (drule normalize_ok) simp

definition has_update :: "string \<Rightarrow> pdict \<Rightarrow> pdict \<Rightarrow> bool" where
  \<comment> \<open>the step carries the id and the fields of the update\<close>
  "has_update i fields d \<longleftrightarrow> dget d ''id'' = PStr i \<and>
     (\<forall>k. dhas fields k \<and> k \<notin> {''id'', ''completed'', ''total'', ''percent''} \<longrightarrow> dget d k = dget fields k)"

lemma merge_update_Inr:
  assumes "merge_update normalize base (i, fields) = Inr base'" "distinct (map fst fields)"
  obtains d where "base' = AList.update i d base" "step_ok d" "has_update i fields d"
proof -
  let ?old = "case map_of base i of None \<Rightarrow> [] | Some d \<Rightarrow> d"
  obtain d where d: "normalize (dset (dmerge ?old fields) ''id'' (PStr i)) = Inr d" "base' = AList.update i d base"
    using assms(1) by (auto simp: merge_update_def Let_def rbind_Inr_iff)
  note ok = normalize_ok [OF d(1)]
  then have "dget d ''id'' = PStr i" by (simp add: dget_dset)
  moreover have "dget d k = dget fields k"
    if "dhas fields k" "k \<notin> {''id'', ''completed'', ''total'', ''percent''}" for k
    using that ok assms(2) by (simp add: dget_dset dget_dmerge)
  ultimately show ?thesis using that d(2) ok by (auto simp: has_update_def)
qed

lemma merge_updates_Inr:
  assumes "rfold (merge_update normalize) base us = Inr base'" "distinct (map fst us)"
    "\<forall>(i, f)\<in>set us. distinct (map fst f)" "ids_ok base"
  shows "ids_ok base' \<and> (\<forall>(i, f)\<in>set us. \<exists>d. map_of base' i = Some d \<and> has_update i f d) \<and>
    (\<forall>j. j \<notin> fst ` set us \<longrightarrow> map_of base' j = map_of base j)"
  using assms
proof (induction us arbitrary: base)
  case (Cons u us)
  obtain i f where u: "u = (i, f)" by (cases u)
  with Cons.prems obtain base1 where one: "merge_update normalize base (i, f) = Inr base1"
    and rest: "rfold (merge_update normalize) base1 us = Inr base'"
    by (auto simp: rbind_Inr_iff)
  obtain d where d: "base1 = AList.update i d base" "has_update i f d"
    using merge_update_Inr [OF one] Cons.prems(3) u by auto
  then have "ids_ok base1" using Cons.prems(4) by (auto simp: ids_ok_def AList.update_conv' has_update_def)
  with Cons.IH [OF rest] Cons.prems u have IH: "ids_ok base'"
      "\<forall>(i, f)\<in>set us. \<exists>d. map_of base' i = Some d \<and> has_update i f d"
      "\<forall>j. j \<notin> fst ` set us \<longrightarrow> map_of base' j = map_of base1 j"
    by auto
  have "i \<notin> fst ` set us" using Cons.prems(2) u by simp
  then have "map_of base' i = Some d" using IH(3) d(1) by (simp add: AList.update_conv')
  with IH d u show ?case by (auto simp: AList.update_conv')
qed simp

lemma map_filter_ids:
  assumes "ids_ok base"
  shows "map (\<lambda>d. py_str (dget d ''id'')) (List.map_filter (map_of base) order) = filter (\<lambda>i. map_of base i \<noteq> None) order"
  using assms by (induction order) (auto simp: List.map_filter_simps ids_ok_def split: option.split)

text \<open>
  C34: the merged steps come in the fixed order of the steps, no step twice; all of them are
  consistent; and every update for a known step is there, with the id and the fields it set (the
  counters and the percentage after normalisation).
\<close>

theorem merge_sync_steps_sound:
  assumes run: "merge_sync_steps SYNC_STEP_ORDER (normalize_sync_step_payload []) current updates = Inr steps"
    and dist: "distinct (map fst updates)" "\<forall>(i, f)\<in>set updates. distinct (map fst f)"
  shows "(\<exists>P. map (\<lambda>s. py_str (dget s ''id'')) steps = filter P SYNC_STEP_ORDER) \<and>
    (\<forall>s\<in>set steps. step_ok s) \<and>
    (\<forall>(i, f)\<in>set updates. i \<in> set SYNC_STEP_ORDER \<longrightarrow> (\<exists>s\<in>set steps. has_update i f s))"
proof -
  obtain base where base: "rfold (merge_update normalize) (base_steps current) updates = Inr base"
    and steps: "rmap normalize (List.map_filter (map_of base) SYNC_STEP_ORDER) = Inr steps"
    using run by (auto simp: merge_sync_steps_def rbind_Inr_iff)
  note merged = merge_updates_Inr [OF base dist base_steps_ids]
  let ?ds = "List.map_filter (map_of base) SYNC_STEP_ORDER"
  have all: "list_all2 (\<lambda>d s. normalize d = Inr s) ?ds steps" using steps by (simp add: rmap_Inr_iff)
  then have "map (\<lambda>s. py_str (dget s ''id'')) steps = map (\<lambda>d. py_str (dget d ''id'')) ?ds"
    by (induction rule: list_all2_induct) (simp_all add: normalize_id)
  then have ids: "map (\<lambda>s. py_str (dget s ''id'')) steps = filter (\<lambda>i. map_of base i \<noteq> None) SYNC_STEP_ORDER"
    using merged map_filter_ids by simp
  have "step_ok s" if "s \<in> set steps" for s
  proof -
    from that obtain i where "i < length steps" "s = steps ! i" by (auto simp: in_set_conv_nth)
    with all have "normalize (?ds ! i) = Inr s" by (simp add: list_all2_conv_all_nth)
    then show ?thesis using normalize_ok by blast
  qed
  moreover have "\<exists>s\<in>set steps. has_update i f s" if mem: "(i, f) \<in> set updates" and ord: "i \<in> set SYNC_STEP_ORDER" for i f
  proof -
    obtain d where d: "map_of base i = Some d" "has_update i f d"
      using bspec [OF conjunct1 [OF conjunct2 [OF merged]] mem] by auto
    then have "d \<in> set ?ds" using ord by (auto simp: set_map_filter)
    then obtain s where s: "s \<in> set steps" "normalize d = Inr s"
      using all unfolding list_all2_conv_all_nth in_set_conv_nth by metis
    then have "has_update i f s"
      using d(2) conjunct2 [OF normalize_ok [OF s(2)]] unfolding has_update_def by simp
    with s(1) show ?thesis by blast
  qed
  ultimately show ?thesis using ids by blast
qed

theorem merge_sync_steps_sound_witness:
  "\<exists>steps. merge_sync_steps SYNC_STEP_ORDER (normalize_sync_step_payload []) []
      [(''bronze'', pdict_of [(''status'', PStr ''success''), (''completed'', PInt 4), (''total'', PInt 4)])] = Inr steps \<and>
    length steps = 5 \<and> (\<exists>P. map (\<lambda>s. py_str (dget s ''id'')) steps = filter P SYNC_STEP_ORDER)"
proof -
  let ?us = "[(''bronze'', pdict_of [(''status'', PStr ''success''), (''completed'', PInt 4), (''total'', PInt 4)])]"
  have "map_sum id length (merge_sync_steps SYNC_STEP_ORDER (normalize_sync_step_payload []) [] ?us) = Inr 5"
    by code_simp
  then obtain steps where steps: "merge_sync_steps SYNC_STEP_ORDER (normalize_sync_step_payload []) [] ?us = Inr steps"
      "length steps = 5"
    by (cases "merge_sync_steps SYNC_STEP_ORDER (normalize_sync_step_payload []) [] ?us") auto
  from merge_sync_steps_sound [OF steps(1)] steps show ?thesis by auto
qed

end
