(* ===== verification/Sync_Runs.thy ===== *)
theory Sync_Runs
  imports Sync_Steps
begin

text \<open>
  Progress of a synchronisation, second part: the runs (\<open>console/app/services/sync_progress.py\<close>).

  Rows of \<open>pipeline_runs\<close> come as dictionaries; their \<open>extra\<close> column is a dictionary or a JSON text.
  \<open>json.loads\<close> (None for a decode error), \<open>uuid5\<close>, \<open>uuid4\<close> and \<open>datetime.fromisoformat\<close> are
  parameters. The theorems concern what the console shows: percentages stay within bounds, a run
  counts as settled only when every step is, and while the summary of an aggregate run is outstanding
  none of its rows counts as finished.
\<close>

section \<open>Rows\<close>

definition sync_extra_from_row :: "(string \<Rightarrow> pv option) \<Rightarrow> pdict \<Rightarrow> pdict" where
  "sync_extra_from_row json_loads row =
     (case dget row ''extra'' of
        PDict d \<Rightarrow> d
      | PStr raw \<Rightarrow>
          if strip raw = [] then []
          else (case json_loads raw of Some (PDict d) \<Rightarrow> d | _ \<Rightarrow> [])
      | _ \<Rightarrow> [])"

definition clean_sync_mode :: "pv \<Rightarrow> string list \<Rightarrow> string pyres" where
  "clean_sync_mode value valid_modes =
     (let mode = lower (strip (str_or value ''incremental''))
      in if mode \<notin> set valid_modes then Inl (ValueError ''mode must be incremental or full'') else Inr mode)"

definition clean_sync_target :: "pv \<Rightarrow> string list \<Rightarrow> string pyres" where
  "clean_sync_target value valid_targets =
     (let target = lower (strip (str_or value ''all''))
      in if target \<notin> set valid_targets then Inl (ValueError ''target must be all, foundation or talent'')
         else Inr target)"

definition on_value_error :: "'a pyres \<Rightarrow> string \<Rightarrow> 'a pyres" where
  \<comment> \<open>\<open>except ValueError as exc: raise ValueError(message) from exc\<close>\<close>
  "on_value_error m message = (case m of Inl (ValueError _) \<Rightarrow> Inl (ValueError message) | _ \<Rightarrow> m)"

definition pipeline_extract_all_mode_target ::
    "pdict \<Rightarrow> string list \<Rightarrow> string list \<Rightarrow> (string \<times> string) pyres" where
  "pipeline_extract_all_mode_target body valid_modes valid_targets =
     rbind (on_value_error (clean_sync_mode (dget body ''mode'') valid_modes) ''invalid extract mode'') (\<lambda>mode.
     rbind (on_value_error (clean_sync_target (dget body ''target'') valid_targets) ''invalid extract target'') (\<lambda>target.
       Inr (mode, target)))"

definition first_truthy :: "pv list \<Rightarrow> pv" where
  "first_truthy vs = (case find truthy vs of Some v \<Rightarrow> v | None \<Rightarrow> PNone)"

definition sync_child_reason :: "(string \<Rightarrow> pv option) \<Rightarrow> pdict \<Rightarrow> string option" where
  "sync_child_reason json_loads row =
     (let extra = sync_extra_from_row json_loads row;
          value = first_truthy (map (dget extra)
            [''reason'', ''blocked_reason'', ''metadata_status'', ''status_reason'', ''error_code''])
      in if truthy value then Some (take 240 (py_str value))
         else if truthy (dget row ''error_message'') then Some (take 240 (py_str (dget row ''error_message'')))
         else
           let raw_conf = (case dget extra ''raw_conf'' of PDict d \<Rightarrow> d | _ \<Rightarrow> []);
               reason = py_or (dget raw_conf ''reason'') (dget raw_conf ''metadata_status'')
           in if truthy reason then Some (take 240 (py_str reason)) else None)"

section \<open>Keys and identifiers\<close>

definition sync_entity_idempotency_key :: "(string \<Rightarrow> string) \<Rightarrow> pv \<Rightarrow> pv \<Rightarrow> string option" where
  "sync_entity_idempotency_key uuid5 base_key entity =
     (if base_key = PNone then None
      else
        let base = strip (py_str base_key) in
        if base = [] then None
        else
          let name = strip (str_or entity []);
              entity_name = (if name = [] then ''entity'' else name);
              candidate = base @ '':'' @ entity_name
          in if length candidate \<le> 160 then Some candidate
             else Some (take 100 base @ '':'' @ uuid5 candidate))"

definition blank_default :: "pv \<Rightarrow> string \<Rightarrow> string" where
  \<comment> \<open>\<open>str(value or default).strip() or default\<close>\<close>
  "blank_default value dflt = (let s = strip (str_or value dflt) in if s = [] then dflt else s)"

definition sync_now_lock_key :: "string \<Rightarrow> string \<Rightarrow> string \<Rightarrow> pv \<Rightarrow> pv \<Rightarrow> pv \<Rightarrow> string" where
  "sync_now_lock_key cartridge mode target conn_id tenant_id workspace_id =
     join '':'' [''sync-now'', blank_default tenant_id ''platform'', blank_default workspace_id ''global'',
       cartridge, mode, target, blank_default conn_id ''__default__'']"

definition request_id_char :: "char \<Rightarrow> bool" where
  "request_id_char c \<longleftrightarrow> is_ascii_alpha c \<or> is_ascii_digit c \<or> c \<in> set ''_.:-''"

definition normalize_sync_now_request_id :: "pv \<Rightarrow> string option pyres" where
  "normalize_sync_now_request_id value =
     (if value = PNone then Inr None
      else
        let request_id = strip (py_str value) in
        if request_id = [] then Inr None
        else if 128 < length request_id \<or> \<not> list_all request_id_char request_id
          then Inl (ValueError ''invalid sync request id'')
        else Inr (Some request_id))"

definition extract_all_run_id ::
    "(string \<Rightarrow> string) \<Rightarrow> string \<Rightarrow> string \<Rightarrow> string \<Rightarrow> string \<Rightarrow> string option \<Rightarrow> pv \<Rightarrow> string pyres" where
  "extract_all_run_id uuid5 uuid4 cartridge mode target conn_id idempotency_key =
     (if idempotency_key \<noteq> PNone then
        let key = strip (py_str idempotency_key) in
        if key = [] then Inl (ValueError ''invalid idempotency_key'')
        else if 160 < length key then Inl (ValueError ''idempotency_key is too long'')
        else
          let conn = (case conn_id of None \<Rightarrow> ''__default__'' | Some c \<Rightarrow> if c = [] then ''__default__'' else c);
              material = join '':'' [cartridge, mode, target, conn, key]
          in Inr (''extract_all:'' @ cartridge @ '':'' @ uuid5 material)
      else Inr (''extract_all:'' @ cartridge @ '':'' @ uuid4))"

definition sync_now_run_id_from_request_id ::
    "(string \<Rightarrow> string) \<Rightarrow> string \<Rightarrow> string \<Rightarrow> string option \<Rightarrow> string \<Rightarrow> string" where
  "sync_now_run_id_from_request_id uuid5 uuid4 cartridge request_id lock_key =
     (case request_id of
        None \<Rightarrow> ''sync_now:'' @ cartridge @ '':'' @ uuid4
      | Some r \<Rightarrow>
          if r = [] then ''sync_now:'' @ cartridge @ '':'' @ uuid4
          else ''sync_now:'' @ cartridge @ '':'' @ uuid5 (lock_key @ '':'' @ r))"

definition sync_run_age_seconds ::
    "(string \<Rightarrow> (int \<times> int option) option) \<Rightarrow> pdict \<Rightarrow> int \<Rightarrow> int option pyres" where
  \<comment> \<open>the age in microseconds; \<open>now\<close> in microseconds since the epoch\<close>
  "sync_run_age_seconds fromisoformat row now =
     (let age = (\<lambda>t z. Inr (Some (max (now - (t - (case z of None \<Rightarrow> 0 | Some off \<Rightarrow> off) * 1000000)) 0)))
      in case dget row ''started_at'' of
        PStr s \<Rightarrow> (case fromisoformat (replace_z s) of None \<Rightarrow> Inr None | Some (t, z) \<Rightarrow> age t z)
      | PDt t z \<Rightarrow> age t z
      | v \<Rightarrow> if truthy v then Inl AttributeError else Inr None)"

section \<open>Settled runs\<close>

definition lower_status :: "pdict \<Rightarrow> string" where
  \<comment> \<open>\<open>str(row.get("status") or "").lower()\<close>\<close>
  "lower_status row = lower (str_or (dget row ''status'') [])"

definition dicts_of :: "pv \<Rightarrow> pdict list" where
  \<comment> \<open>the dictionaries of a list; a value that is no list counts as empty\<close>
  "dicts_of v = (case v of PList xs \<Rightarrow> List.map_filter as_dict xs | _ \<Rightarrow> [])"

definition sync_run_needs_final_reconcile ::
    "pdict \<Rightarrow> pdict \<Rightarrow> string list \<Rightarrow> nat \<Rightarrow> string \<Rightarrow> bool" where
  "sync_run_needs_final_reconcile row extra terminal_statuses initial_step_count aggregate_entity =
     (let status = lower_status row;
          steps = (case dget extra ''steps'' of PList xs \<Rightarrow> xs | _ \<Rightarrow> []);
          triggered = dget extra ''triggered_entities''
      in if status \<notin> set terminal_statuses then True
         else if length steps < initial_step_count then True
         else if list_ex (\<lambda>d. lower_status d \<in> {''queued'', ''running'', []}) (List.map_filter as_dict steps) then True
         else if status = ''failed'' \<and> \<not> (is_list triggered \<and> truthy triggered) then False
         else if str_or (dget row ''cartridge_id'') [] = ''sap_successfactors'' then
           let has_aggregate_child = list_ex (\<lambda>item.
                 str_or (dget item ''entity'') [] = aggregate_entity \<and>
                 strip (py_str (py_or (py_or (dget item ''dag_run_id'') (dget item ''job_id'')) (PStr []))) \<noteq> [])
               (dicts_of triggered)
           in if status \<noteq> ''failed'' \<and> has_aggregate_child \<and> \<not> truthy (dget extra ''extract_all_summary_seen'')
              then True
              else \<not> truthy (dget extra ''control_room_checked_at'')
         else False)"

definition retryable_error :: "pdict \<Rightarrow> bool pyres" where
  "retryable_error error =
     rbind (int_or0 (dget error ''status_code'')) (\<lambda>status_code.
       let message = lower (str_or (dget error ''error'') [])
       in Inr (500 \<le> status_code \<or> lower (str_or (dget error ''reason'') []) = ''airflow_trigger_failed'' \<or>
            list_ex (\<lambda>token. str_in token message)
              [''timeout'', ''tempor'', ''airflow trigger failed'', ''connection reset'']))"

fun all_retryable :: "pdict list \<Rightarrow> bool pyres" where
  "all_retryable [] = Inr True"
| "all_retryable (error # errors) =
     rbind (retryable_error error) (\<lambda>ok. if ok then all_retryable errors else Inr False)"

definition sync_errors_retryable :: "pdict list \<Rightarrow> bool pyres" where
  "sync_errors_retryable errors = (if errors = [] then Inr False else all_retryable errors)"

section \<open>Child runs\<close>

record child_progress =
  aggregate_child_rows :: "pdict list"
  aggregate_payload_ready :: bool
  entity_child_rows :: "pdict list"
  aggregate_summary_pending :: bool
  progress_rows :: "pdict list"

definition row_entity :: "pdict \<Rightarrow> string" where
  "row_entity row = str_or (dget row ''entity'') []"

definition sync_child_progress_rows ::
    "(string \<Rightarrow> pv option) \<Rightarrow> pdict list \<Rightarrow> string \<Rightarrow> string \<Rightarrow> string list \<Rightarrow> child_progress" where
  "sync_child_progress_rows json_loads child_rows aggregate_entity sync_now_entity ready_keys =
     (let keys = (if ready_keys = [] then SYNC_AGGREGATE_READY_KEYS else ready_keys);
          aggregate = filter (\<lambda>item. row_entity item = aggregate_entity) child_rows;
          ready = list_ex (\<lambda>item. list_ex (dhas (sync_extra_from_row json_loads item)) keys) aggregate;
          entities = filter (\<lambda>item. row_entity item \<notin> {aggregate_entity, sync_now_entity}) child_rows;
          pending = (aggregate \<noteq> [] \<and> \<not> ready \<and> entities = []);
          progress = (if pending
            then map (\<lambda>item. dset item ''status''
                   (if lower_status item \<in> {''success'', ''partial''} then PStr ''running'' else dget item ''status''))
                 aggregate
            else if entities \<noteq> [] then entities else child_rows)
      in \<lparr>aggregate_child_rows = aggregate, aggregate_payload_ready = ready, entity_child_rows = entities,
          aggregate_summary_pending = pending, progress_rows = progress\<rparr>)"

record child_counts =
  cc_statuses :: "string list"
  cc_running :: bool
  cc_failed :: int
  cc_success :: int
  cc_partial :: int
  cc_blocked :: int
  cc_terminal :: int

definition count_if :: "('a \<Rightarrow> bool) \<Rightarrow> 'a list \<Rightarrow> int" where
  "count_if p xs = int (length (filter p xs))"

definition sync_child_status_counts :: "pdict list \<Rightarrow> string list \<Rightarrow> string list \<Rightarrow> child_counts" where
  "sync_child_status_counts rows blocked_statuses terminal_statuses =
     (let statuses = map lower_status rows
      in \<lparr>cc_statuses = statuses,
          cc_running = list_ex (\<lambda>s. s \<in> {''queued'', ''running'', ''unknown''}) statuses,
          cc_failed = count_if (\<lambda>s. s \<in> {''failed'', ''error''}) statuses,
          cc_success = count_if (\<lambda>s. s = ''success'') statuses,
          cc_partial = count_if (\<lambda>s. s = ''partial'') statuses,
          cc_blocked = count_if (\<lambda>s. s \<in> set blocked_statuses) statuses,
          cc_terminal = count_if (\<lambda>s. s \<in> set terminal_statuses) statuses\<rparr>)"

section \<open>Materialisation\<close>

definition fresh_or_stale :: "pv \<Rightarrow> bool" where
  "fresh_or_stale status \<longleftrightarrow> str_or status [] \<in> {''fresh'', ''stale''}"

definition layer_nodes :: "string \<Rightarrow> pdict list \<Rightarrow> pdict list pyres" where
  \<comment> \<open>the dictionaries among \<open>item.get(layer) or []\<close>, over all items\<close>
  "layer_nodes layer rows =
     rbind (rmap (\<lambda>item. py_iter (py_or (dget item layer) (PList []))) rows) (\<lambda>nodes.
       Inr (List.map_filter as_dict (concat nodes)))"

record gold_summary =
  gs_bronze_rows :: "pdict list"
  gs_bronze_ready :: int
  gs_silver_nodes :: "pdict list"
  gs_silver_ready :: int
  gs_gold_nodes :: "pdict list"
  gs_gold_ready :: int
  gs_gold_total :: int
  gs_gold_partial :: bool

definition sync_pipeline_materialization_summary :: "pv list \<Rightarrow> pdict \<Rightarrow> gold_summary pyres" where
  "sync_pipeline_materialization_summary pipeline_rows gold_refresh =
     (let bronze_rows = List.map_filter as_dict pipeline_rows in
      rbind (rmap (\<lambda>item. rbind (py_get (or_empty (dget item ''bronze'')) ''status'') (\<lambda>st. Inr (fresh_or_stale st)))
          bronze_rows) (\<lambda>bronze_flags.
      rbind (layer_nodes ''silver'' bronze_rows) (\<lambda>silver_nodes.
      rbind (layer_nodes ''gold'' bronze_rows) (\<lambda>gold_nodes.
      rbind (int_or0 (dget gold_refresh ''materialized'')) (\<lambda>materialized.
      rbind (int_or0 (dget gold_refresh ''total'')) (\<lambda>refresh_total.
        let silver_ready = count_if (\<lambda>n. fresh_or_stale (dget n ''status'')) silver_nodes;
            ready0 = count_if (\<lambda>n. fresh_or_stale (dget n ''status'')) gold_nodes;
            gold_ready = (if refresh_total \<noteq> 0 then materialized
                          else if ready0 < materialized then materialized else ready0);
            gold_total = max (max (int (length gold_nodes)) refresh_total) gold_ready;
            refresh_status = lower_status gold_refresh
        in Inr \<lparr>gs_bronze_rows = bronze_rows, gs_bronze_ready = count_if (\<lambda>b. b) bronze_flags,
                gs_silver_nodes = silver_nodes, gs_silver_ready = silver_ready, gs_gold_nodes = gold_nodes,
                gs_gold_ready = gold_ready, gs_gold_total = gold_total,
                gs_gold_partial = ((refresh_total \<noteq> 0 \<and> materialized < refresh_total) \<or> refresh_status = ''partial'')\<rparr>))))))"

record gold_acc =
  ga_materialized :: int
  ga_total :: int
  ga_results :: "pdict list"
  ga_statuses :: "string list"

fun as_int :: "pv \<Rightarrow> int option" where
  \<comment> \<open>\<open>isinstance(value, int)\<close>, which a bool is too\<close>
  "as_int (PInt i) = Some i"
| "as_int (PBool b) = Some (if b then 1 else 0)"
| "as_int _ = None"

definition gold_row :: "(string \<Rightarrow> pv option) \<Rightarrow> gold_acc \<Rightarrow> pdict \<Rightarrow> gold_acc pyres" where
  \<comment> \<open>the body of the loop over the child rows\<close>
  "gold_row json_loads acc row =
     (case dget (sync_extra_from_row json_loads row) ''gold_refresh'' of
        PDict payload \<Rightarrow>
          let status = lower (strip (str_or (dget payload ''status'') [])) in
          rbind (py_iter (py_or (dget payload ''results'') (PList []))) (\<lambda>items.
            let results = List.map_filter as_dict items;
                add_total = (case as_int (dget payload ''total'') of Some n \<Rightarrow> n | None \<Rightarrow> int (length results));
                add_mat = (case as_int (dget payload ''materialized'') of
                    Some n \<Rightarrow> n
                  | None \<Rightarrow> count_if (\<lambda>item. dget item ''status'' = PStr ''ok'') results)
            in Inr \<lparr>ga_materialized = ga_materialized acc + add_mat, ga_total = ga_total acc + add_total,
                    ga_results = ga_results acc @ results,
                    ga_statuses = ga_statuses acc @ (if status = [] then [] else [status])\<rparr>)
      | _ \<Rightarrow> Inr acc)"

definition gold_status :: "int \<Rightarrow> int \<Rightarrow> string list \<Rightarrow> string" where
  "gold_status materialized total_count statuses =
     (let status = (if total_count \<noteq> 0 \<and> total_count \<le> materialized then ''success''
                    else if materialized \<noteq> 0 then ''partial'' else ''failed'')
      in if ''failed'' \<in> set statuses \<and> materialized = 0 then ''failed''
         else if ''partial'' \<in> set statuses \<and> status = ''success'' then ''partial''
         else status)"

definition child_gold_refresh_summary :: "(string \<Rightarrow> pv option) \<Rightarrow> pdict list \<Rightarrow> pdict pyres" where
  "child_gold_refresh_summary json_loads child_rows =
     rbind (rfold (gold_row json_loads) \<lparr>ga_materialized = 0, ga_total = 0, ga_results = [], ga_statuses = []\<rparr> child_rows)
       (\<lambda>acc.
         if ga_total acc = 0 \<and> ga_results acc = [] then Inr []
         else
           let n = (if ga_total acc \<noteq> 0 then ga_total acc else int (length (ga_results acc)))
           in Inr (pdict_of
             [(''status'', PStr (gold_status (ga_materialized acc) (ga_total acc) (ga_statuses acc))),
              (''materialized'', PInt (ga_materialized acc)), (''total'', PInt n),
              (''failed'', PInt (max (n - ga_materialized acc) 0)),
              (''results'', PList (map PDict (ga_results acc)))]))"

definition gold_refresh_dataset_names :: "pdict \<Rightarrow> string list pyres" where
  "gold_refresh_dataset_names summary =
     rbind (py_iter (py_or (dget summary ''results'') (PList []))) (\<lambda>items.
       Inr (sort (remdups (filter (\<lambda>n. n \<noteq> [])
         (map (\<lambda>item. strip (str_or (dget item ''name'') []))
           (filter (\<lambda>item. lower (strip (str_or (dget item ''status'') [])) = ''ok'') (List.map_filter as_dict items)))))))"

definition control_room_gold_refresh_terminal :: "pv \<Rightarrow> bool" where
  "control_room_gold_refresh_terminal payload =
     (case payload of
        PDict d \<Rightarrow> lower (strip (str_or (dget d ''status'') [])) \<in>
          {''success'', ''partial'', ''failed'', ''skipped'', ''not_ready'', ''completed''}
      | _ \<Rightarrow> False)"

section \<open>Summaries and payloads\<close>

definition sync_run_error_message :: "pv list \<Rightarrow> string option" where
  "sync_run_error_message errors =
     (let message = join ''; '' (map (\<lambda>d. str_or (dget d ''error'') []) (List.map_filter as_dict (take 3 errors)))
      in if message = [] then None else Some message)"

definition opt_pv :: "string option \<Rightarrow> pv" where
  "opt_pv s = (case s of None \<Rightarrow> PNone | Some t \<Rightarrow> PStr t)"

definition or_previous :: "pdict \<Rightarrow> pdict \<Rightarrow> string \<Rightarrow> pv" where
  \<comment> \<open>\<open>value or previous_extra.get(key) or {}\<close>\<close>
  "or_previous value previous key = or_empty (py_or (PDict value) (dget previous key))"

definition keep_dict :: "pdict \<Rightarrow> string \<Rightarrow> (string \<times> pv) list" where
  "keep_dict previous key = (if is_dict (dget previous key) then [(key, dget previous key)] else [])"

definition sync_updated_extra ::
    "pdict list \<Rightarrow> pdict list \<Rightarrow> pdict list \<Rightarrow> bool \<Rightarrow> string option \<Rightarrow> pdict \<Rightarrow> pdict \<Rightarrow> pdict \<Rightarrow> pdict \<Rightarrow> bool \<Rightarrow> bool
     \<Rightarrow> int \<Rightarrow> int \<Rightarrow> pdict \<Rightarrow> pdict \<Rightarrow> string option \<Rightarrow> pdict" where
  "sync_updated_extra steps triggered errors control_room_ready control_room_checked_at control_room_snapshot
     agentops_refresh gold_refresh control_room_gold_refresh payload_ready summary_pending child_run_count
     entity_child_run_count entity_summary previous row_mode = pdict_of (
     [(''steps'', PList (map PDict steps)), (''triggered_entities'', PList (map PDict triggered)),
      (''errors'', PList (map PDict errors)), (''control_room_ready'', PBool control_room_ready),
      (''control_room_checked_at'', py_or (opt_pv control_room_checked_at) (dget previous ''control_room_checked_at'')),
      (''control_room_snapshot'', or_previous control_room_snapshot previous ''control_room_snapshot''),
      (''agentops_refresh'', or_previous agentops_refresh previous ''agentops_refresh''),
      (''gold_refresh'', or_previous gold_refresh previous ''gold_refresh''),
      (''control_room_gold_refresh'', or_previous control_room_gold_refresh previous ''control_room_gold_refresh''),
      (''extract_all_summary_seen'', PBool (payload_ready \<or> truthy (dget previous ''extract_all_summary_seen''))),
      (''aggregate_summary_pending'', PBool summary_pending), (''child_run_count'', PInt child_run_count),
      (''entity_child_run_count'', PInt entity_child_run_count),
      (''entity_outcomes'', py_or (dget entity_summary ''entities'') (PList [])),
      (''blockers'', py_or (dget entity_summary ''blockers'') (PList [])),
      (''target'', py_or (dget previous ''target'') (PStr ''all'')),
      (''mode'', py_or (py_or (dget previous ''mode'') (opt_pv row_mode)) (PStr ''incremental''))] @
     keep_dict previous ''automation'' @ keep_dict previous ''connection_check'')"

definition entity_item :: "(string \<Rightarrow> pv option) \<Rightarrow> pdict \<Rightarrow> pdict pyres" where
  "entity_item json_loads row =
     (let st = lower (strip (str_or (dget row ''status'') ''unknown''));
          status = (if st = [] then ''unknown'' else st);
          extra = sync_extra_from_row json_loads row
      in rbind (int_or0 (dget row ''row_count'')) (\<lambda>row_count.
           Inr (pdict_of (
             [(''entity'', PStr (strip (row_entity row))), (''status'', PStr status), (''row_count'', PInt row_count)] @
             (case sync_child_reason json_loads row of Some r \<Rightarrow> if r = [] then [] else [(''reason'', PStr r)] | None \<Rightarrow> []) @
             (if truthy (dget extra ''metadata_status'')
              then [(''metadata_status'', PStr (take 120 (py_str (dget extra ''metadata_status''))))] else []) @
             (if is_list (dget extra ''fields_missing'') then [(''fields_missing'', dget extra ''fields_missing'')] else []) @
             (if is_list (dget extra ''fields_used'') then [(''fields_used'', dget extra ''fields_used'')] else [])))))"

definition item_status_in :: "string list \<Rightarrow> pdict \<Rightarrow> bool" where
  "item_status_in statuses item \<longleftrightarrow> dget item ''status'' \<in> PStr ` set statuses"

definition sync_step_entity_summary ::
    "(string \<Rightarrow> pv option) \<Rightarrow> pdict list \<Rightarrow> string \<Rightarrow> string \<Rightarrow> string list \<Rightarrow> pdict pyres" where
  "sync_step_entity_summary json_loads rows aggregate_entity sync_now_entity blocked_statuses =
     rbind (rmap (entity_item json_loads)
        (filter (\<lambda>row. let e = strip (row_entity row) in e \<noteq> [] \<and> e \<notin> {aggregate_entity, sync_now_entity}) rows))
       (\<lambda>entities.
         let blockers = filter (item_status_in (blocked_statuses @ [''failed'', ''error''])) entities
         in Inr (pdict_of
           [(''entities'', PList (map PDict entities)), (''blockers'', PList (map PDict blockers)),
            (''counts'', PDict (pdict_of
              [(''success'', PInt (count_if (item_status_in [''success'']) entities)),
               (''partial'', PInt (count_if (item_status_in [''partial'']) entities)),
               (''blocked'', PInt (count_if (item_status_in blocked_statuses) entities)),
               (''failed'', PInt (count_if (item_status_in [''failed'', ''error'']) entities))]))]))"

definition iso_or_none :: "pv \<Rightarrow> pv pyres" where
  \<comment> \<open>\<open>value.isoformat() if value else None\<close>\<close>
  "iso_or_none v =
     (if \<not> truthy v then Inr PNone
      else case v of PDt t z \<Rightarrow> Inr (PStr (isoformat t z)) | _ \<Rightarrow> Inl AttributeError)"

definition public_sync_payload :: "pdict \<Rightarrow> pdict \<Rightarrow> string list \<Rightarrow> (pdict \<Rightarrow> pdict pyres) \<Rightarrow> pdict pyres" where
  "public_sync_payload row extra terminal_statuses normalizer =
     (let raw = (case dget extra ''steps'' of PList xs \<Rightarrow> xs | _ \<Rightarrow> map PDict initial_sync_steps) in
      rbind (rmap normalizer (List.map_filter as_dict raw)) (\<lambda>steps.
      rbind (rmap (\<lambda>step. rbind (int_or0 (dget step ''percent'')) (\<lambda>p. Inr (clamp_percent p))) steps) (\<lambda>percents.
        let status = py_str (py_or (py_or (dget row ''status'') (dget extra ''status'')) (PStr ''running''));
            n = int (length steps);
            progress = (if n \<noteq> 0 then round_div (sum_list percents) (max n 1) else 0)
        in
      rbind (iso_or_none (dget row ''started_at'')) (\<lambda>started_at.
      rbind (iso_or_none (dget row ''finished_at'')) (\<lambda>finished_at.
        Inr (pdict_of
          [(''run_id'', dget row ''run_id''), (''cartridge_id'', dget row ''cartridge_id''), (''status'', PStr status),
           (''active'', PBool (lower status \<notin> set terminal_statuses)),
           (''mode'', py_or (py_or (dget row ''mode'') (dget extra ''mode'')) (PStr ''incremental'')),
           (''target'', py_or (dget extra ''target'') (PStr ''all'')),
           (''progress_percent'', PInt (clamp_percent progress)), (''steps'', PList (map PDict steps)),
           (''triggered_entities'', py_or (dget extra ''triggered_entities'') (PList [])),
           (''errors'', py_or (dget extra ''errors'') (PList [])),
           (''control_room_ready'', PBool (truthy (dget extra ''control_room_ready''))),
           (''control_room_snapshot'', or_empty (dget extra ''control_room_snapshot'')),
           (''agentops_refresh'', or_empty (dget extra ''agentops_refresh'')),
           (''started_at'', started_at), (''finished_at'', finished_at),
           (''error_message'', dget row ''error_message''),
           (''automation'', if is_dict (dget extra ''automation'') then dget extra ''automation'' else PNone)]))))))"

definition inactive_sync_run_payload :: "string \<Rightarrow> string \<Rightarrow> string \<Rightarrow> string option \<Rightarrow> pdict" where
  "inactive_sync_run_payload cartridge mode target conn_id = pdict_of
     [(''run_id'', PNone), (''cartridge_id'', PStr cartridge), (''status'', PStr ''skipped''), (''active'', PBool False),
      (''mode'', PStr mode), (''target'', PStr target), (''progress_percent'', PInt 0), (''steps'', PList []),
      (''triggered_entities'', PList []), (''errors'', PList []), (''control_room_ready'', PBool False),
      (''control_room_snapshot'', PDict []), (''agentops_refresh'', PDict []), (''started_at'', PNone),
      (''finished_at'', PNone), (''error_message'', PNone), (''reason'', PStr ''no_active_sync_run''),
      (''conn_id'', opt_pv conn_id)]"

definition blocked_code :: "pdict \<Rightarrow> bool pyres" where
  \<comment> \<open>\<open>item.get("status_code") in {400, 403, 404}\<close>\<close>
  "blocked_code item =
     (let v = dget item ''status_code''
      in if is_list v \<or> is_dict v then Inl TypeError
         else Inr (py_eq v (PInt 400) \<or> py_eq v (PInt 403) \<or> py_eq v (PInt 404)))"

definition list_field :: "pdict \<Rightarrow> string \<Rightarrow> pv list pyres" where
  "list_field d key = py_iter (py_or (dget d key) (PList []))"

definition extract_all_public_response :: "pdict \<Rightarrow> pdict pyres" where
  "extract_all_public_response result =
     rbind (list_field result ''triggered'') (\<lambda>triggered.
     rbind (list_field result ''errors'') (\<lambda>errors.
     rbind (list_field result ''partial'') (\<lambda>partial.
     rbind (list_field result ''skipped_explicit'') (\<lambda>skipped_explicit.
     rbind (rmap (\<lambda>e. case e of PDict d \<Rightarrow> rbind (blocked_code d) (\<lambda>b. Inr (e, b)) | _ \<Rightarrow> Inl AttributeError) errors) (\<lambda>flagged.
       let blocked = map fst (filter snd flagged); failed = map fst (filter (\<lambda>x. \<not> snd x) flagged);
           len = (\<lambda>xs :: pv list. PInt (int (length xs)));
           attempted = PInt (int (length triggered + length errors + length partial + length skipped_explicit))
       in Inr (dmerge result (pdict_of
         [(''attempted'', attempted), (''triggered'', PList triggered), (''errors'', PList errors),
          (''blocked'', PList blocked), (''failed'', PList failed), (''partial'', PList partial),
          (''skipped_explicit'', PList skipped_explicit),
          (''summary'', PDict (pdict_of
            [(''attempted'', attempted), (''triggered'', len triggered), (''errors'', len errors),
             (''blocked'', len blocked), (''failed'', len failed), (''partial'', len partial),
             (''skipped_explicit'', len skipped_explicit)])),
          (''count'', len triggered), (''error_count'', len errors)])))))))"

section \<open>Guarantees\<close>

lemma nbits_double: "0 < x \<Longrightarrow> nbits (2 * x) = nbits x + 1"
  by (subst nbits.simps) simp

lemma nbits_mono: "x \<le> y \<Longrightarrow> nbits x \<le> nbits y"
proof (induction x arbitrary: y rule: nbits.induct)
  case (1 n)
  have nonneg: "0 \<le> nbits y" for y :: int
    by (induction y rule: nbits.induct) (subst nbits.simps, simp)
  show ?case
  proof (cases "n \<le> 0")
    case True
    then show ?thesis using nonneg by (subst nbits.simps) simp
  next
    case False
    then have "nbits (n div 2) \<le> nbits (y div 2)" using 1 by (simp add: zdiv_mono1)
    then show ?thesis using False 1(2) by (subst nbits.simps, subst (2) nbits.simps) simp
  qed
qed

lemma nbits_hundred: "0 < b \<Longrightarrow> nbits (100 * b) \<le> nbits b + 7"
proof -
  assume b: "0 < b"
  have "nbits (100 * b) \<le> nbits (2 * (2 * (2 * (2 * (2 * (2 * (2 * b)))))))"
    using b by (intro nbits_mono) simp
  also have "\<dots> = nbits b + 7" using b by (simp only: nbits_double zero_less_mult_iff zero_less_numeral simp_thms)
  finally show ?thesis .
qed

lemma round_div_hundred:
  assumes "0 < b"
  shows "round_div (100 * b) b = 100"
proof -
  define s0 where "s0 = 53 - (nbits (100 * b) - nbits b)"
  define s where "s = (case scaled (100 * b) b s0 of (x, y) \<Rightarrow> if 2 ^ 53 \<le> x div y then s0 - 1 else s0)"
  have "46 \<le> s0" using nbits_hundred [OF assms] by (simp add: s0_def)
  then have s: "45 \<le> s" by (simp add: s_def split: prod.splits)
  then have sc: "scaled (100 * b) b s = (100 * b * 2 ^ nat s, b)" by (simp add: scaled_def)
  have "div_half_even (100 * b * 2 ^ nat s) b = 100 * 2 ^ nat s"
    using assms by (simp add: div_half_even_def Let_def)
  then have fl: "fl_pos (100 * b) b = (100 * 2 ^ nat s, - s)"
    unfolding fl_pos_def Let_def s0_def [symmetric] s_def [symmetric] sc by simp
  have "div_half_even (100 * 2 ^ nat s) (2 ^ nat s) = 100"
    by (simp add: div_half_even_def Let_def)
  then show ?thesis using assms s by (simp add: round_div_def fl round_pos_def)
qed

lemma percents_of:
  assumes "rmap (\<lambda>step. rbind (int_or0 (dget step ''percent'')) (\<lambda>p. Inr (clamp_percent p))) steps = Inr percents"
    and "\<forall>s\<in>set steps. dget s ''percent'' = PInt 100"
  shows "sum_list percents = 100 * int (length steps)"
  using assms by (induction steps arbitrary: percents) (auto simp: rbind_Inr_iff clamp_percent_def)

text \<open>
  what the console shows of a run is within bounds: the overall progress is a percentage between
  0 and 100 and is 100 when every step shows 100; all the steps shown are consistent; and the run is
  shown as active exactly when its status is not terminal.
\<close>

theorem public_sync_payload_bounds:
  assumes "public_sync_payload row extra terminal (normalize_sync_step_payload []) = Inr out"
  shows "\<exists>steps p status. dget out ''steps'' = PList (map PDict steps) \<and> (\<forall>s\<in>set steps. step_ok s) \<and>
    dget out ''progress_percent'' = PInt p \<and> 0 \<le> p \<and> p \<le> 100 \<and>
    (steps \<noteq> [] \<and> (\<forall>s\<in>set steps. dget s ''percent'' = PInt 100) \<longrightarrow> p = 100) \<and>
    dget out ''status'' = PStr status \<and> dget out ''active'' = PBool (lower status \<notin> set terminal)"
proof -
  let ?raw = "case dget extra ''steps'' of PList xs \<Rightarrow> xs | _ \<Rightarrow> map PDict initial_sync_steps"
  let ?progress = "\<lambda>steps percents. if int (length steps) \<noteq> 0
      then round_div (sum_list percents) (max (int (length steps)) 1) else 0"
  let ?status = "py_str (py_or (py_or (dget row ''status'') (dget extra ''status'')) (PStr ''running''))"
  obtain steps percents where steps: "rmap normalize (List.map_filter as_dict ?raw) = Inr steps"
    and pc: "rmap (\<lambda>step. rbind (int_or0 (dget step ''percent'')) (\<lambda>p. Inr (clamp_percent p))) steps = Inr percents"
    and out: "dget out ''steps'' = PList (map PDict steps)"
      "dget out ''progress_percent'' = PInt (clamp_percent (?progress steps percents))"
      "dget out ''status'' = PStr ?status" "dget out ''active'' = PBool (lower ?status \<notin> set terminal)"
    using assms by (auto simp: public_sync_payload_def Let_def rbind_Inr_iff)
  have ok: "step_ok s" if "s \<in> set steps" for s
  proof -
    from that steps obtain d where "normalize d = Inr s"
      by (auto simp: rmap_Inr_iff list_all2_conv_all_nth in_set_conv_nth)
    then show ?thesis using normalize_ok by blast
  qed
  have "clamp_percent (?progress steps percents) = 100"
    if "steps \<noteq> []" "\<forall>s\<in>set steps. dget s ''percent'' = PInt 100"
  proof -
    have n: "0 < int (length steps)" using that(1) by simp
    have "sum_list percents = 100 * int (length steps)" by (rule percents_of [OF pc that(2)])
    moreover have "max (int (length steps)) 1 = int (length steps)" using n by linarith
    ultimately have "?progress steps percents = 100"
      using n round_div_hundred [OF n] by (simp only: if_True) simp
    then show ?thesis by (simp add: clamp_percent_def)
  qed
  then show ?thesis using out ok clamp_percent_bounds by blast
qed

theorem public_sync_payload_bounds_witness:
  "\<exists>out p. public_sync_payload [] [] [''success''] (normalize_sync_step_payload []) = Inr out \<and>
     dget out ''progress_percent'' = PInt p \<and> 0 \<le> p \<and> p \<le> 100"
proof -
  have "map_sum id (\<lambda>d. dget d ''status'') (public_sync_payload [] [] [''success''] (normalize_sync_step_payload [])) =
      Inr (PStr ''running'')"
    by code_simp
  then obtain out where out: "public_sync_payload [] [] [''success''] (normalize_sync_step_payload []) = Inr out"
    by (cases "public_sync_payload [] [] [''success''] (normalize_sync_step_payload [])") auto
  with public_sync_payload_bounds [OF out] show ?thesis by blast
qed

lemma lower_status_running: "lower_status (dset item ''status'' (PStr ''running'')) = ''running''"
proof -
  have "lower ''running'' = ''running''" by code_simp
  then show ?thesis by (simp add: lower_status_def dget_dset)
qed

lemma lower_status_dset: "lower_status (dset item ''status'' (dget item ''status'')) = lower_status item"
  by (simp add: lower_status_def dget_dset)

text \<open>
  while the summary of an aggregate run is outstanding, no row counts as success or partial, and
  a row that already ended well counts as running; so the run is not taken for finished before its
  summary arrived.
\<close>

theorem pending_summary_not_finished:
  fixes json_loads :: "string \<Rightarrow> pv option" and child_rows :: "pdict list"
    and aggregate_entity sync_now_entity :: string and ready_keys blocked_statuses terminal_statuses :: "string list"
  defines "cp \<equiv> sync_child_progress_rows json_loads child_rows aggregate_entity sync_now_entity ready_keys"
  defines "cc \<equiv> sync_child_status_counts (progress_rows cp) blocked_statuses terminal_statuses"
  assumes "aggregate_summary_pending cp"
  shows "cc_success cc = 0 \<and> cc_partial cc = 0 \<and>
    (\<forall>row\<in>set (aggregate_child_rows cp). lower_status row \<in> {''success'', ''partial''} \<longrightarrow> cc_running cc) \<and>
    length (cc_statuses cc) = length (aggregate_child_rows cp)"
proof -
  let ?agg = "filter (\<lambda>item. row_entity item = aggregate_entity) child_rows"
  let ?hide = "\<lambda>item. dset item ''status''
      (if lower_status item \<in> {''success'', ''partial''} then PStr ''running'' else dget item ''status'')"
  have agg: "aggregate_child_rows cp = ?agg" by (simp add: cp_def sync_child_progress_rows_def Let_def)
  have rows: "progress_rows cp = map ?hide ?agg"
    using assms(3) by (auto simp: cp_def sync_child_progress_rows_def Let_def)
  have st: "lower_status (?hide item) = (if lower_status item \<in> {''success'', ''partial''} then ''running'' else lower_status item)" for item
    by (simp add: lower_status_running lower_status_dset)
  have statuses: "cc_statuses cc = map (\<lambda>item. if lower_status item \<in> {''success'', ''partial''} then ''running'' else lower_status item) ?agg"
    unfolding cc_def sync_child_status_counts_def Let_def rows map_map comp_def st by simp
  have "cc_success cc = count_if (\<lambda>s. s = ''success'') (cc_statuses cc)"
    "cc_partial cc = count_if (\<lambda>s. s = ''partial'') (cc_statuses cc)"
    "cc_running cc = list_ex (\<lambda>s. s \<in> {''queued'', ''running'', ''unknown''}) (cc_statuses cc)"
    by (simp_all add: cc_def sync_child_status_counts_def Let_def)
  then show ?thesis
    unfolding statuses agg by (auto simp: count_if_def filter_empty_conv list_ex_iff)
qed

definition pending_rows :: "pdict list" where
  "pending_rows = [pdict_of [(''entity'', PStr ''ALL''), (''status'', PStr ''success'')]]"

theorem pending_summary_not_finished_witness:
  "aggregate_summary_pending (sync_child_progress_rows (\<lambda>_. None) pending_rows ''ALL'' ''SYNC'' []) \<and>
   cc_success (sync_child_status_counts
     (progress_rows (sync_child_progress_rows (\<lambda>_. None) pending_rows ''ALL'' ''SYNC'' [])) [] [''success'']) = 0"
proof -
  have "aggregate_summary_pending (sync_child_progress_rows (\<lambda>_. None) pending_rows ''ALL'' ''SYNC'' [])"
    by code_simp
  then show ?thesis using pending_summary_not_finished by blast
qed

end
