(* ===== verification/Refresh_Outcome.thy ===== *)
theory Refresh_Outcome
  imports Py_Base
begin

text \<open>
  How a refresh is judged: \<open>airflow/dags/dataset_refresh_outcome.py\<close>.

  The functions check the answer of the refinement service for one dataset, classify it as \<open>ok\<close> or
  \<open>degraded\<close>, recognise the errors that mean a missing input, and derive the status of a whole
  materialisation from the list of its per-dataset results. The lemmas relate the counts to the list;
  the theorems say when a run counts as a success and that an accepted answer is about the dataset that
  was asked for.
\<close>

section \<open>Classes and errors\<close>

definition RESULT_OK :: string where "RESULT_OK = ''ok''"
definition RESULT_DEGRADED :: string where "RESULT_DEGRADED = ''degraded''"
definition RESULT_SKIPPED :: string where "RESULT_SKIPPED = ''skipped''"
definition RESULT_FAILED :: string where "RESULT_FAILED = ''failed''"

definition RESULT_CLASSES :: "string list" where
  "RESULT_CLASSES = [RESULT_OK, RESULT_DEGRADED, RESULT_SKIPPED, RESULT_FAILED]"

definition MISSING_SOURCE_ERROR_CODES :: "string list" where
  "MISSING_SOURCE_ERROR_CODES = [''source_files_missing'', ''dependency_not_materialized'']"

definition OUTDATED_DEPENDENCY_CODE :: string where
  "OUTDATED_DEPENDENCY_CODE = ''dependency_not_materialized''"

definition FALLBACK_REASON :: string where
  "FALLBACK_REASON = ''missing_materialized_dependency''"

definition OUTCOME_KEYS :: "string list" where
  "OUTCOME_KEYS = [''name'', ''layer'', ''row_count'']"

definition STATUS_KEYS :: "string list" where
  "STATUS_KEYS = OUTCOME_KEYS @ [''status'', ''degraded'']"

definition PUBLISHED_CLASSES :: "string list" where
  "PUBLISHED_CLASSES = [RESULT_OK, RESULT_DEGRADED]"

lemmas result_defs = RESULT_OK_def RESULT_DEGRADED_def RESULT_SKIPPED_def RESULT_FAILED_def

text \<open>
  An exception as the handlers see it: a failed service job carries the status code and the result
  of the job, the others only their type.
\<close>

datatype mat_exc =
    ServiceJobError pv pv
  | HTTPStatusError int
  | PyExc pyexc
  | OtherException string

fun exc_status_code :: "mat_exc \<Rightarrow> pv" where
  "exc_status_code (ServiceJobError status result) = status"
| "exc_status_code _ = PNone"

fun exc_result :: "mat_exc \<Rightarrow> pv" where
  "exc_result (ServiceJobError status result) = result"
| "exc_result _ = PNone"

definition error_detail :: "mat_exc \<Rightarrow> pdict option" where
  "error_detail exc =
     (case exc_result exc of PDict result \<Rightarrow> as_dict (dget result ''detail'') | _ \<Rightarrow> None)"

definition missing_source_error_code :: "mat_exc \<Rightarrow> string option" where
  "missing_source_error_code exc =
     (if \<not> py_eq (exc_status_code exc) (PInt 409) then None
      else
        let err = (case error_detail exc of Some d \<Rightarrow> str_or (dget d ''code'') [] | None \<Rightarrow> [])
        in if err \<in> set MISSING_SOURCE_ERROR_CODES then Some err else None)"

definition outdated_dependency :: "mat_exc \<Rightarrow> string option" where
  "outdated_dependency exc =
     (if missing_source_error_code exc \<noteq> Some OUTDATED_DEPENDENCY_CODE then None
      else case error_detail exc of
        Some d \<Rightarrow> (case dget d ''dependency'' of
            PStr dependency \<Rightarrow> if strip dependency = [] then None else Some dependency
          | _ \<Rightarrow> None)
      | None \<Rightarrow> None)"

section \<open>The answer for one dataset\<close>

definition outcome_unavailable :: pyexc where
  "outcome_unavailable = RuntimeError ''materialization outcome unavailable''"

definition dependency_unavailable :: pyexc where
  "dependency_unavailable = RuntimeError ''operational dependency unavailable''"

definition row_count_of :: "pdict \<Rightarrow> int pyres" where
  "row_count_of payload =
     (case dget payload ''row_count'' of
        PInt n \<Rightarrow> if n < 0 then Inl outcome_unavailable else Inr n
      | _ \<Rightarrow> Inl outcome_unavailable)"

definition in_str_set :: "pv \<Rightarrow> string list \<Rightarrow> bool pyres" where
  \<comment> \<open>\<open>value in {...}\<close>: a list or a dictionary cannot be hashed\<close>
  "in_str_set value strs =
     (case value of
        PStr s \<Rightarrow> Inr (s \<in> set strs)
      | PList _ \<Rightarrow> Inl TypeError
      | PDict _ \<Rightarrow> Inl TypeError
      | _ \<Rightarrow> Inr False)"

definition LAYERS :: "string list" where
  "LAYERS = [''silver'', ''gold'']"

definition fallback_payload :: "pdict \<Rightarrow> string \<Rightarrow> (string \<times> pdict) pyres" where
  "fallback_payload payload expected_name =
     (if str_or (dget payload ''fallback_reason'') [] \<noteq> FALLBACK_REASON then Inl outcome_unavailable
      else if str_or (dget payload ''name'') [] \<noteq> expected_name then Inl outcome_unavailable
      else rbind (in_str_set (dget payload ''layer'') LAYERS) (\<lambda>known.
        if \<not> known then Inl outcome_unavailable
        else case dget payload ''degraded'' of
          PBool degraded \<Rightarrow>
            rbind (row_count_of payload) (\<lambda>row_count.
              Inr (if \<not> degraded \<and> 0 < row_count then RESULT_OK else RESULT_DEGRADED,
                   pdict_of [(''name'', PStr expected_name), (''layer'', dget payload ''layer''),
                             (''row_count'', PInt row_count)]))
        | _ \<Rightarrow> Inl outcome_unavailable))"

definition checked :: "pv \<Rightarrow> pdict pyres" where
  "checked payload =
     (case payload of
        PDict d \<Rightarrow>
          if truthy (dget d ''error'') then Inl dependency_unavailable
          else if dhas d ''ok'' \<and> dget d ''ok'' \<noteq> PBool True then Inl dependency_unavailable
          else Inr d
      | _ \<Rightarrow> Inl dependency_unavailable)"

definition same_keys :: "pdict \<Rightarrow> string list \<Rightarrow> bool" where
  \<comment> \<open>\<open>set(payload) == keys\<close>\<close>
  "same_keys d keys \<longleftrightarrow> list_all (\<lambda>kv. fst kv \<in> set (map PStr keys)) d \<and> list_all (dhas d) keys"

definition require_successful_materialization_payload :: "pv \<Rightarrow> string \<Rightarrow> pdict pyres" where
  "require_successful_materialization_payload payload expected_name =
     rbind (checked payload) (\<lambda>d.
       if \<not> same_keys d OUTCOME_KEYS then Inl outcome_unavailable
       else if str_or (dget d ''name'') [] \<noteq> expected_name then Inl outcome_unavailable
       else rbind (in_str_set (dget d ''layer'') LAYERS) (\<lambda>known.
         if \<not> known then Inl outcome_unavailable
         else rbind (row_count_of d) (\<lambda>_. Inr d)))"

definition status_payload :: "pdict \<Rightarrow> string \<Rightarrow> (string \<times> pdict) pyres" where
  "status_payload payload expected_name =
     (if \<not> same_keys payload STATUS_KEYS then Inl outcome_unavailable
      else case (dget payload ''degraded'', dget payload ''status'') of
        (PBool degraded, PStr status) \<Rightarrow>
          if strip status = [] then Inl outcome_unavailable
          else
            rbind (require_successful_materialization_payload
                (PDict (pdict_of (map (\<lambda>key. (key, dget payload key)) OUTCOME_KEYS))) expected_name) (\<lambda>outcome.
              Inr (if degraded then RESULT_DEGRADED else RESULT_OK, outcome))
      | _ \<Rightarrow> Inl outcome_unavailable)"

definition classify_materialization_payload :: "pv \<Rightarrow> string \<Rightarrow> (string \<times> pdict) pyres" where
  "classify_materialization_payload payload expected_name =
     rbind (checked payload) (\<lambda>d.
       if dget d ''fallback'' = PBool True then fallback_payload d expected_name
       else if dhas d ''degraded'' then status_payload d expected_name
       else rbind (require_successful_materialization_payload (PDict d) expected_name) (\<lambda>outcome.
         Inr (RESULT_OK, outcome)))"

text \<open>A response: its status code and its decoded body, None when decoding fails.\<close>

record response =
  status_code :: int
  body :: "pv option"

definition response_payload :: "response \<Rightarrow> pdict pyres" where
  "response_payload r =
     (if \<not> (200 \<le> status_code r \<and> status_code r < 300) then Inl dependency_unavailable
      else case body r of None \<Rightarrow> Inl dependency_unavailable | Some payload \<Rightarrow> checked payload)"

definition require_successful_materialization_response :: "response \<Rightarrow> string \<Rightarrow> pdict pyres" where
  "require_successful_materialization_response r expected_name =
     rbind (response_payload r) (\<lambda>payload.
       require_successful_materialization_payload (PDict payload) expected_name)"

definition require_successful_registry_response :: "response \<Rightarrow> string \<Rightarrow> pdict pyres" where
  "require_successful_registry_response r expected_status =
     rbind (response_payload r) (\<lambda>payload.
       case dget payload ''result'' of
         PDict result \<Rightarrow>
           if dget result ''saved'' \<noteq> PBool True
             then Inl (RuntimeError ''pipeline run registry unavailable'')
           else if lower (str_or (dget result ''status'') []) \<noteq> expected_status
             then Inl (RuntimeError ''pipeline run registry unavailable'')
           else Inr result
       | _ \<Rightarrow> Inl (RuntimeError ''pipeline run registry unavailable''))"

definition require_successful_intelligence_response :: "response \<Rightarrow> pdict pyres" where
  "require_successful_intelligence_response r =
     rbind (response_payload r) (\<lambda>payload.
       if dget payload ''ok'' \<noteq> PBool True \<or> dget payload ''status'' \<noteq> PStr ''completed''
       then Inl (RuntimeError ''Gold intelligence trigger unavailable'')
       else case dget payload ''signals'' of
         PInt signals \<Rightarrow>
           if signals \<le> 0 then Inl (RuntimeError ''Gold intelligence trigger unavailable'') else Inr payload
       | _ \<Rightarrow> Inl (RuntimeError ''Gold intelligence trigger unavailable''))"

section \<open>The outcome of a run\<close>

definition result_classification :: "pdict \<Rightarrow> string option" where
  "result_classification item =
     (case dget item ''ok'' of
        PBool ok \<Rightarrow>
          (case dget item ''classification'' of
             PNone \<Rightarrow> Some (if ok then RESULT_OK else RESULT_FAILED)
           | PStr c \<Rightarrow>
               if c \<notin> set RESULT_CLASSES then None
               else if (c \<in> set PUBLISHED_CLASSES) \<noteq> ok then None
               else Some c
           | _ \<Rightarrow> None)
      | _ \<Rightarrow> None)"

fun count_results :: "pv list \<Rightarrow> (string \<times> int) list \<Rightarrow> (string \<times> int) list option" where
  \<comment> \<open>the loop over the results; None when an item is malformed\<close>
  "count_results [] counts = Some counts"
| "count_results (item # items) counts =
     (case item of
        PDict d \<Rightarrow>
          if strip (str_or (dget d ''name'') []) = [] then None
          else (case result_classification d of
              None \<Rightarrow> None
            | Some c \<Rightarrow> count_results items (map (\<lambda>(k, n). (k, if k = c then n + 1 else n)) counts))
      | _ \<Rightarrow> None)"

definition zero_counts :: "(string \<times> int) list" where
  \<comment> \<open>\<open>dict.fromkeys(RESULT_CLASSES, 0)\<close>\<close>
  "zero_counts = map (\<lambda>c. (c, 0)) RESULT_CLASSES"

definition count_of :: "(string \<times> int) list \<Rightarrow> string \<Rightarrow> int" where
  "count_of counts c = (case map_of counts c of None \<Rightarrow> 0 | Some n \<Rightarrow> n)"

definition counts_dict :: "(string \<times> int) list \<Rightarrow> pdict" where
  "counts_dict counts = pdict_of (map (\<lambda>(k, n). (k, PInt n)) counts)"

definition breakdown_matches :: "pv \<Rightarrow> (string \<times> int) list \<Rightarrow> bool" where
  "breakdown_matches declared counts \<longleftrightarrow>
     (case declared of
        PNone \<Rightarrow> True
      | PDict d \<Rightarrow> list_all (\<lambda>kv. is_int (snd kv)) d \<and> py_eq (PDict d) (PDict (counts_dict counts))
      | _ \<Rightarrow> False)"

definition classified_counts :: "pv \<Rightarrow> ((string \<times> int) list \<times> int) option" where
  "classified_counts invocation =
     (case invocation of
        PDict iv \<Rightarrow>
          if dhas iv ''error'' then None
          else (case (dget iv ''results'', dget iv ''materialized'') of
              (PList results, PInt completed) \<Rightarrow>
                if completed < 0 then None
                else (case count_results results zero_counts of
                    None \<Rightarrow> None
                  | Some counts \<Rightarrow>
                      if completed \<noteq> count_of counts RESULT_OK + count_of counts RESULT_DEGRADED then None
                      else if \<not> breakdown_matches (dget iv ''breakdown'') counts then None
                      else Some (counts, int (length results)))
            | _ \<Rightarrow> None)
      | _ \<Rightarrow> None)"

definition materialization_breakdown :: "pv \<Rightarrow> (string \<times> int) list option" where
  "materialization_breakdown invocation = map_option fst (classified_counts invocation)"

definition materialization_status :: "pv \<Rightarrow> string \<Rightarrow> string" where
  "materialization_status invocation task_state =
     (if task_state \<noteq> ''success'' then ''failed''
      else case classified_counts invocation of
        None \<Rightarrow> ''failed''
      | Some (counts, n_results) \<Rightarrow>
          let reported = (case invocation of PDict iv \<Rightarrow> dget iv ''status'' | _ \<Rightarrow> PNone);
              published = count_of counts RESULT_OK + count_of counts RESULT_DEGRADED
          in if reported = PStr ''no_downstream_datasets''
               then (if n_results = 0 then ''noop'' else ''failed'')
             else if reported \<noteq> PStr ''completed'' \<or> n_results = 0 then ''failed''
             else if count_of counts RESULT_FAILED \<noteq> 0
               then (if published \<noteq> 0 then ''partial'' else ''failed'')
             else if count_of counts RESULT_OK = 0 \<and> count_of counts RESULT_SKIPPED \<noteq> 0 then ''blocked''
             else if count_of counts RESULT_SKIPPED \<noteq> 0 \<or> count_of counts RESULT_DEGRADED \<noteq> 0 then ''partial''
             else ''success'')"

section \<open>Lemmas\<close>

lemma in_str_set_True: "in_str_set v ss = Inr True \<longleftrightarrow> (\<exists>s\<in>set ss. v = PStr s)"
  by (cases v) (auto simp: in_str_set_def)

lemma row_count_of_Inr: "row_count_of d = Inr n \<longleftrightarrow> dget d ''row_count'' = PInt n \<and> 0 \<le> n"
  by (auto simp: row_count_of_def outcome_unavailable_def split: pv.splits if_splits)

lemma checked_Inr: "checked payload = Inr d \<longleftrightarrow>
    payload = PDict d \<and> \<not> truthy (dget d ''error'') \<and> (dhas d ''ok'' \<longrightarrow> dget d ''ok'' = PBool True)"
  by (cases payload) (auto simp: checked_def)

text \<open>What an accepted answer says: the dataset that was asked for, a known layer, a row count.\<close>

definition outcome_for :: "string \<Rightarrow> pdict \<Rightarrow> bool" where
  "outcome_for name d \<longleftrightarrow>
     str_or (dget d ''name'') [] = name \<and> (\<exists>l\<in>set LAYERS. dget d ''layer'' = PStr l) \<and>
     (\<exists>n\<ge>0. dget d ''row_count'' = PInt n)"

lemma require_payload_Inr:
  assumes "require_successful_materialization_payload payload name = Inr d"
  shows "payload = PDict d \<and> outcome_for name d"
proof -
  from assms obtain n where "checked payload = Inr d" "str_or (dget d ''name'') [] = name"
      "in_str_set (dget d ''layer'') LAYERS = Inr True" "row_count_of d = Inr n"
    by (auto simp: require_successful_materialization_payload_def rbind_Inr_iff split: if_splits)
  then show ?thesis by (auto simp: checked_Inr in_str_set_True row_count_of_Inr outcome_for_def)
qed

lemma fallback_payload_Inr:
  assumes "fallback_payload d name = Inr (c, out)"
  shows "outcome_for name out \<and> outcome_for name d \<and> c \<in> set PUBLISHED_CLASSES \<and>
    (c = RESULT_OK \<longleftrightarrow> dget d ''degraded'' = PBool False \<and> (\<exists>n>0. dget d ''row_count'' = PInt n))"
proof -
  from assms obtain degraded n where *: "str_or (dget d ''name'') [] = name"
      "in_str_set (dget d ''layer'') LAYERS = Inr True" "dget d ''degraded'' = PBool degraded" "row_count_of d = Inr n"
      "c = (if \<not> degraded \<and> 0 < n then RESULT_OK else RESULT_DEGRADED)"
      "out = pdict_of [(''name'', PStr name), (''layer'', dget d ''layer''), (''row_count'', PInt n)]"
    unfolding fallback_payload_def by (auto simp: rbind_Inr_iff split: if_splits pv.splits)
  have "dget d ''row_count'' = PInt n" "0 \<le> n" using *(4) by (auto simp: row_count_of_Inr)
  with * show ?thesis
    by (auto simp: in_str_set_True outcome_for_def PUBLISHED_CLASSES_def result_defs)
qed

lemma status_payload_Inr:
  assumes "status_payload d name = Inr (c, out)"
  shows "outcome_for name out \<and> (\<exists>degraded. dget d ''degraded'' = PBool degraded \<and>
    c = (if degraded then RESULT_DEGRADED else RESULT_OK))"
  using assms unfolding status_payload_def
  by (auto simp: rbind_Inr_iff split: if_splits pv.splits dest!: require_payload_Inr)

text \<open>
  an answer that is accepted for a dataset names that dataset, a known layer and a row count that
  is not negative, and it is classified as \<open>ok\<close> or \<open>degraded\<close>; an answer that says it is degraded is
  never classified as \<open>ok\<close>, nor is a fallback without rows.
\<close>

theorem classify_payload_sound:
  assumes "classify_materialization_payload payload expected_name = Inr (classification, outcome)"
  shows "outcome_for expected_name outcome \<and> classification \<in> set PUBLISHED_CLASSES \<and>
    (\<exists>d. payload = PDict d \<and> \<not> truthy (dget d ''error'') \<and>
       (classification = RESULT_OK \<longrightarrow> dget d ''degraded'' \<noteq> PBool True \<and>
          (dget d ''fallback'' = PBool True \<longrightarrow> dget d ''row_count'' \<noteq> PInt 0)))"
proof -
  from assms obtain d where d: "checked payload = Inr d"
    by (auto simp: classify_materialization_payload_def rbind_Inr_iff)
  then have payload: "payload = PDict d" "\<not> truthy (dget d ''error'')" by (auto simp: checked_Inr)
  consider (fallback) "dget d ''fallback'' = PBool True" "fallback_payload d expected_name = Inr (classification, outcome)"
    | (status) "dget d ''fallback'' \<noteq> PBool True" "dhas d ''degraded''" "status_payload d expected_name = Inr (classification, outcome)"
    | (plain) "dget d ''fallback'' \<noteq> PBool True" "\<not> dhas d ''degraded''" "classification = RESULT_OK"
        "require_successful_materialization_payload (PDict d) expected_name = Inr outcome"
    using assms d by (auto simp: classify_materialization_payload_def rbind_Inr_iff split: if_splits)
  then show ?thesis
  proof cases
    case fallback
    with fallback_payload_Inr [OF fallback(2)] payload show ?thesis by auto
  next
    case status
    with status_payload_Inr [OF status(3)] payload show ?thesis
      by (auto simp: PUBLISHED_CLASSES_def result_defs split: if_splits)
  next
    case plain
    with require_payload_Inr [OF plain(4)] payload show ?thesis
      by (auto simp: PUBLISHED_CLASSES_def dget_not_dhas)
  qed
qed

definition sample_payload :: pv where
  "sample_payload = PDict (pdict_of [(''name'', PStr ''hc''), (''layer'', PStr ''gold''), (''row_count'', PInt 7)])"

theorem classify_payload_sound_witness:
  "classify_materialization_payload sample_payload ''hc'' =
     Inr (RESULT_OK, pdict_of [(''name'', PStr ''hc''), (''layer'', PStr ''gold''), (''row_count'', PInt 7)]) \<and>
   outcome_for ''hc'' (pdict_of [(''name'', PStr ''hc''), (''layer'', PStr ''gold''), (''row_count'', PInt 7)])"
proof -
  have "classify_materialization_payload sample_payload ''hc'' =
     Inr (RESULT_OK, pdict_of [(''name'', PStr ''hc''), (''layer'', PStr ''gold''), (''row_count'', PInt 7)])"
    by code_simp
  with classify_payload_sound [OF this] show ?thesis by simp
qed

text \<open>The class of one result, None when the result is malformed.\<close>

definition item_class :: "pv \<Rightarrow> string option" where
  "item_class item =
     (case item of
        PDict d \<Rightarrow> if strip (str_or (dget d ''name'') []) = [] then None else result_classification d
      | _ \<Rightarrow> None)"

definition class_count :: "string \<Rightarrow> pv list \<Rightarrow> int" where
  "class_count c items = int (length (filter (\<lambda>i. item_class i = Some c) items))"

lemma count_results_eq:
  "count_results items counts =
     (if list_all (\<lambda>i. item_class i \<noteq> None) items
      then Some (map (\<lambda>(k, n). (k, n + class_count k items)) counts) else None)"
proof (induction items arbitrary: counts)
  case Nil
  then show ?case by (auto simp: class_count_def intro!: map_idI [symmetric])
next
  case (Cons item items)
  show ?case
  proof (cases "item_class item")
    case None
    then show ?thesis by (auto simp: item_class_def split: pv.splits if_splits option.splits)
  next
    case (Some c)
    then have "count_results (item # items) counts =
        count_results items (map (\<lambda>(k, n). (k, if k = c then n + 1 else n)) counts)"
      by (auto simp: item_class_def split: pv.splits if_splits)
    with Some Cons show ?thesis by (auto simp: class_count_def split: if_splits)
  qed
qed

lemma result_classification_in: "result_classification d = Some c \<Longrightarrow> c \<in> set RESULT_CLASSES"
  by (auto simp: result_classification_def RESULT_CLASSES_def split: pv.splits if_splits)

lemma item_class_in: "item_class i = Some c \<Longrightarrow> c \<in> set RESULT_CLASSES"
  by (auto simp: item_class_def result_classification_in split: pv.splits if_splits)

lemma class_count_nonneg [simp]: "0 \<le> class_count c items"
  by (simp add: class_count_def)

lemma class_count_zero_iff: "class_count c items = 0 \<longleftrightarrow> (\<forall>i\<in>set items. item_class i \<noteq> Some c)"
  by (simp add: class_count_def filter_empty_conv)

lemma class_count_sum:
  "list_all (\<lambda>i. item_class i \<noteq> None) items \<Longrightarrow>
   class_count RESULT_OK items + class_count RESULT_DEGRADED items + class_count RESULT_SKIPPED items +
   class_count RESULT_FAILED items = int (length items)"
proof (induction items)
  case (Cons i items)
  then obtain c where c: "item_class i = Some c" by auto
  then have "c \<in> set RESULT_CLASSES" by (rule item_class_in)
  with c Cons show ?case by (auto simp: class_count_def RESULT_CLASSES_def result_defs)
qed (simp add: class_count_def)

lemma count_of_zero_counts:
  "c \<in> set RESULT_CLASSES \<Longrightarrow>
   count_of (map (\<lambda>(k, n). (k, n + class_count k items)) zero_counts) c = class_count c items"
  by (auto simp: count_of_def zero_counts_def RESULT_CLASSES_def result_defs)

text \<open>A report that is believed: every result is well-formed and the declared numbers agree.\<close>

definition believed :: "pdict \<Rightarrow> pv list \<Rightarrow> bool" where
  "believed report results \<longleftrightarrow>
     \<not> dhas report ''error'' \<and> dget report ''results'' = PList results \<and>
     list_all (\<lambda>i. item_class i \<noteq> None) results \<and>
     dget report ''materialized'' = PInt (class_count RESULT_OK results + class_count RESULT_DEGRADED results) \<and>
     breakdown_matches (dget report ''breakdown'') (map (\<lambda>c. (c, class_count c results)) RESULT_CLASSES)"

lemma classified_counts_eq:
  "classified_counts (PDict report) = Some (counts, n) \<longleftrightarrow>
   (\<exists>results. believed report results \<and> counts = map (\<lambda>c. (c, class_count c results)) RESULT_CLASSES \<and>
      n = int (length results))"
proof -
  have z: "map (\<lambda>(k, n). (k, n + class_count k items)) zero_counts =
      map (\<lambda>c. (c, class_count c items)) RESULT_CLASSES" for items
    by (simp add: zero_counts_def)
  have c: "count_of (map (\<lambda>c. (c, class_count c items)) RESULT_CLASSES) k = class_count k items"
    if "k \<in> set RESULT_CLASSES" for k items
    using count_of_zero_counts [OF that, of items] unfolding z .
  have ok: "RESULT_OK \<in> set RESULT_CLASSES" "RESULT_DEGRADED \<in> set RESULT_CLASSES"
    by (auto simp: RESULT_CLASSES_def)
  have nonneg: "\<not> class_count RESULT_OK items + class_count RESULT_DEGRADED items < 0" for items
    by (simp add: not_less)
  show ?thesis
    unfolding classified_counts_def believed_def
    by (auto simp: count_results_eq z c ok nonneg split: pv.splits if_splits)
qed

lemma classified_counts_dict: "classified_counts iv = Some x \<Longrightarrow> \<exists>report. iv = PDict report"
  by (auto simp: classified_counts_def split: pv.splits)

lemma count_of_classes:
  "c \<in> set RESULT_CLASSES \<Longrightarrow> count_of (map (\<lambda>c. (c, class_count c items)) RESULT_CLASSES) c = class_count c items"
  by (auto simp: count_of_def RESULT_CLASSES_def result_defs)

lemma result_distinct:
  "RESULT_SKIPPED \<noteq> RESULT_OK" "RESULT_DEGRADED \<noteq> RESULT_OK" "RESULT_FAILED \<noteq> RESULT_OK"
  by (simp_all add: result_defs)

text \<open>The status of a believed report, in terms of its results.\<close>

lemma materialization_status_believed:
  assumes "believed report results"
  shows "materialization_status (PDict report) ''success'' =
    (if dget report ''status'' = PStr ''no_downstream_datasets'' then (if results = [] then ''noop'' else ''failed'')
     else if dget report ''status'' \<noteq> PStr ''completed'' \<or> results = [] then ''failed''
     else if \<exists>i\<in>set results. item_class i = Some RESULT_FAILED
       then (if \<exists>i\<in>set results. item_class i \<in> Some ` set PUBLISHED_CLASSES then ''partial'' else ''failed'')
     else if (\<forall>i\<in>set results. item_class i \<noteq> Some RESULT_OK) \<and> (\<exists>i\<in>set results. item_class i = Some RESULT_SKIPPED)
       then ''blocked''
     else if \<exists>i\<in>set results. item_class i \<noteq> Some RESULT_OK then ''partial''
     else ''success'')"
proof -
  let ?n = "\<lambda>c. class_count c results"
  have all: "\<forall>i\<in>set results. item_class i \<in> Some ` set RESULT_CLASSES"
    using assms item_class_in by (fastforce simp: believed_def list_all_iff)
  have cc: "classified_counts (PDict report) = Some (map (\<lambda>c. (c, ?n c)) RESULT_CLASSES, int (length results))"
    unfolding classified_counts_eq using assms by blast
  have n: "count_of (map (\<lambda>c. (c, ?n c)) RESULT_CLASSES) RESULT_OK = ?n RESULT_OK"
    "count_of (map (\<lambda>c. (c, ?n c)) RESULT_CLASSES) RESULT_DEGRADED = ?n RESULT_DEGRADED"
    "count_of (map (\<lambda>c. (c, ?n c)) RESULT_CLASSES) RESULT_SKIPPED = ?n RESULT_SKIPPED"
    "count_of (map (\<lambda>c. (c, ?n c)) RESULT_CLASSES) RESULT_FAILED = ?n RESULT_FAILED"
    by (rule count_of_classes, simp add: RESULT_CLASSES_def)+
  have pub: "?n RESULT_OK + ?n RESULT_DEGRADED \<noteq> 0 \<longleftrightarrow> (\<exists>i\<in>set results. item_class i \<in> Some ` set PUBLISHED_CLASSES)"
  proof -
    have "?n RESULT_OK + ?n RESULT_DEGRADED = 0 \<longleftrightarrow> ?n RESULT_OK = 0 \<and> ?n RESULT_DEGRADED = 0"
      using class_count_nonneg [of RESULT_OK results] class_count_nonneg [of RESULT_DEGRADED results] by linarith
    then show ?thesis by (auto simp: class_count_zero_iff PUBLISHED_CLASSES_def)
  qed
  have sk: "(?n RESULT_SKIPPED \<noteq> 0 \<or> ?n RESULT_DEGRADED \<noteq> 0) \<longleftrightarrow> (\<exists>i\<in>set results. item_class i \<noteq> Some RESULT_OK)"
    if "?n RESULT_FAILED = 0"
    using that all result_distinct unfolding class_count_zero_iff RESULT_CLASSES_def by fastforce
  have "materialization_status (PDict report) ''success'' =
    (if dget report ''status'' = PStr ''no_downstream_datasets'' then (if results = [] then ''noop'' else ''failed'')
     else if dget report ''status'' \<noteq> PStr ''completed'' \<or> results = [] then ''failed''
     else if ?n RESULT_FAILED \<noteq> 0 then (if ?n RESULT_OK + ?n RESULT_DEGRADED \<noteq> 0 then ''partial'' else ''failed'')
     else if ?n RESULT_OK = 0 \<and> ?n RESULT_SKIPPED \<noteq> 0 then ''blocked''
     else if ?n RESULT_SKIPPED \<noteq> 0 \<or> ?n RESULT_DEGRADED \<noteq> 0 then ''partial'' else ''success'')"
    by (simp add: materialization_status_def cc n Let_def)
  moreover have F: "?n RESULT_FAILED \<noteq> 0 \<longleftrightarrow> (\<exists>i\<in>set results. item_class i = Some RESULT_FAILED)"
    and O: "?n RESULT_OK = 0 \<longleftrightarrow> (\<forall>i\<in>set results. item_class i \<noteq> Some RESULT_OK)"
    and K: "?n RESULT_SKIPPED \<noteq> 0 \<longleftrightarrow> (\<exists>i\<in>set results. item_class i = Some RESULT_SKIPPED)"
    by (auto simp: class_count_zero_iff)
  ultimately show ?thesis
  proof (cases "?n RESULT_FAILED = 0")
    case True
    show ?thesis using \<open>materialization_status _ _ = _\<close> unfolding sk [OF True, unfolded K] pub F O K
      by (simp only: sk [OF True, unfolded K])
  next
    case False
    then show ?thesis using \<open>materialization_status _ _ = _\<close> F by (simp only: pub if_True not_False_eq_True)
  qed
qed

text \<open>
  the status \<open>success\<close> is reported exactly for a successful task whose report is believed, is
  \<open>completed\<close>, holds at least one result and only results of class \<open>ok\<close>; and \<open>partial\<close> is reported
  only when at least one dataset was published.
\<close>

theorem materialization_status_success_iff:
  "(materialization_status invocation task_state = ''success'' \<longleftrightarrow>
     task_state = ''success'' \<and>
     (\<exists>report results. invocation = PDict report \<and> believed report results \<and> results \<noteq> [] \<and>
        dget report ''status'' = PStr ''completed'' \<and> (\<forall>i\<in>set results. item_class i = Some RESULT_OK))) \<and>
   (materialization_status invocation task_state = ''partial'' \<longrightarrow>
     (\<exists>report results. invocation = PDict report \<and> believed report results \<and>
        (\<exists>i\<in>set results. item_class i \<in> Some ` set PUBLISHED_CLASSES)))"
proof (cases "task_state = ''success'' \<and> classified_counts invocation \<noteq> None")
  case False
  moreover have "\<not> believed report results" if "classified_counts (PDict report) = None" for report results
    using that classified_counts_eq [of report] by (metis option.distinct(1))
  ultimately show ?thesis
    by (cases "classified_counts invocation") (auto simp: materialization_status_def)
next
  case True
  then obtain report results where r: "invocation = PDict report" "believed report results"
    using classified_counts_dict classified_counts_eq by (metis not_None_eq surj_pair)
  have unique: "results' = results" if "believed report results'" for results'
    using that r(2) by (simp add: believed_def)
  have all: "\<forall>i\<in>set results. item_class i \<in> Some ` set RESULT_CLASSES"
    using r(2) item_class_in by (fastforce simp: believed_def list_all_iff)
  have some_ok: "\<exists>i\<in>set results. item_class i \<in> Some ` set PUBLISHED_CLASSES"
    if "\<forall>i\<in>set results. item_class i \<noteq> Some RESULT_FAILED" "results \<noteq> []"
      "\<not> ((\<forall>i\<in>set results. item_class i \<noteq> Some RESULT_OK) \<and> (\<exists>i\<in>set results. item_class i = Some RESULT_SKIPPED))"
    using that all by (cases results) (auto simp: RESULT_CLASSES_def PUBLISHED_CLASSES_def)
  let ?S = "materialization_status (PDict report) ''success''"
  note S = materialization_status_believed [OF r(2)]
  have "?S = ''success'' \<longleftrightarrow> results \<noteq> [] \<and> dget report ''status'' = PStr ''completed'' \<and>
      (\<forall>i\<in>set results. item_class i = Some RESULT_OK)"
    unfolding S using result_distinct by (simp split: if_split)
  moreover have "\<exists>i\<in>set results. item_class i \<in> Some ` set PUBLISHED_CLASSES" if "?S = ''partial''"
    using that some_ok unfolding S by (simp split: if_splits)
  ultimately show ?thesis
    using True r unique by blast
qed

definition sample_report :: pv where
  "sample_report = PDict (pdict_of
     [(''materialized'', PInt 1), (''status'', PStr ''completed''),
      (''results'', PList [PDict (pdict_of [(''name'', PStr ''hc''), (''ok'', PBool True)])])])"

theorem materialization_status_success_iff_witness:
  "materialization_status sample_report ''success'' = ''success'' \<and>
   (\<exists>report results. sample_report = PDict report \<and> believed report results \<and> results \<noteq> [])"
proof -
  have "materialization_status sample_report ''success'' = ''success''" by code_simp
  with materialization_status_success_iff [of sample_report "''success''"] show ?thesis by blast
qed

end
