(* ===== verification/Service_Job.thy ===== *)
theory Service_Job
  imports Refresh_Outcome
begin

text \<open>
  The client of the services' asynchronous jobs: \<open>airflow/dags/service_job_client.py\<close>.

  \<open>run_service_job\<close> submits a request, then polls the job that the service answers with until it
  succeeds, fails or the deadline passes; a job the service has forgotten is submitted again, at most
  twice. The outside is given per round by a \<open>poll_env\<close>: the clock, the answer to the status
  request, and the answer to a submission should one be made. Times are integers of one unit. The loop
  is a partial function on purpose: that it returns is a theorem, and needs that the clock moves on.

  The theorems: with a clock that advances by the polling interval the client returns within the
  deadline's number of rounds and submits at most three times; and a result it returns is one that the
  service reported.
\<close>

section \<open>Keys\<close>

definition MAX_RESUBMITS :: nat where "MAX_RESUBMITS = 2"

definition job_key :: "(string \<Rightarrow> string) \<Rightarrow> pv list \<Rightarrow> string" where
  "job_key sha256 parts = ''airflow:'' @ sha256 (join [CHR 0x00] (map (\<lambda>part. str_or part []) parts))"

text \<open>The attributes of the DAG run and the task are None when the object or the attribute is absent.\<close>

definition idempotency_key ::
    "(string \<Rightarrow> string) \<Rightarrow> pdict \<Rightarrow> pv \<Rightarrow> pv \<Rightarrow> pv \<Rightarrow> pv \<Rightarrow> pv list \<Rightarrow> string" where
  "idempotency_key sha256 ctx run_dag_id run_run_id task_id map_index parts =
     job_key sha256 ([py_or run_dag_id (dget ctx ''dag_id''), py_or run_run_id (dget ctx ''run_id''), task_id, map_index] @ parts)"

definition ambient_idempotency_key ::
    "(string \<Rightarrow> string) \<Rightarrow> (string \<Rightarrow> pv) \<Rightarrow> string \<Rightarrow> pv list \<Rightarrow> string" where
  "ambient_idempotency_key sha256 environ token parts =
     (let run_id = environ ''AIRFLOW_CTX_DAG_RUN_ID'' in
      if \<not> truthy run_id then ''adhoc:'' @ token
      else job_key sha256 ([environ ''AIRFLOW_CTX_DAG_ID'', run_id, environ ''AIRFLOW_CTX_TASK_ID'',
             environ ''AIRFLOW_CTX_TRY_NUMBER''] @ parts))"

section \<open>The tracker\<close>

text \<open>A status request: a transport error, another exception, or an answer.\<close>

datatype poll_answer = TransportError | Raised mat_exc | Answered response

record poll_env =
  pe_clock :: int
  pe_on_poll :: "mat_exc option"
  pe_get :: poll_answer
  pe_submit :: "mat_exc + response"

record tracker =
  tr_job :: pv
  tr_direct :: pv
  tr_resubmits :: nat

definition raise_for_status :: "response \<Rightarrow> mat_exc + unit" where
  "raise_for_status r = (if 200 \<le> status_code r \<and> status_code r < 300 then Inr () else Inl (HTTPStatusError (status_code r)))"

definition response_json :: "response \<Rightarrow> mat_exc + pv" where
  "response_json r = (case body r of Some v \<Rightarrow> Inr v | None \<Rightarrow> Inl (OtherException ''JSONDecodeError''))"

definition accept :: "response \<Rightarrow> mat_exc + (pv \<times> pv)" where
  \<comment> \<open>the job, or None and the direct answer\<close>
  "accept r =
     (if status_code r \<noteq> 202
      then rbind (raise_for_status r) (\<lambda>_. rbind (response_json r) (\<lambda>v. Inr (PNone, v)))
      else rbind (response_json r) (\<lambda>v. Inr (v, PNone)))"

definition submit :: "mat_exc + response \<Rightarrow> mat_exc + (pv \<times> pv)" where
  "submit posted = rbind posted accept"

definition settle :: "int \<Rightarrow> int \<Rightarrow> pv \<Rightarrow> mat_exc + pv option" where
  \<comment> \<open>\<open>Some result\<close> when the job is done\<close>
  "settle clock deadline job =
     (case job of
        PDict d \<Rightarrow>
          let status = dget d ''status'' in
          if status = PStr ''succeeded'' then Inr (Some (dget d ''result''))
          else if status = PStr ''failed'' then Inl (ServiceJobError (dget d ''status_code'') (dget d ''result''))
          else if deadline \<le> clock then Inl (ServiceJobError PNone PNone)
          else Inr None
      | _ \<Rightarrow> Inl (PyExc AttributeError))"

definition status_url :: "pv \<Rightarrow> mat_exc + pv" where
  "status_url job =
     (case job of
        PDict d \<Rightarrow> (case dindex d ''status_url'' of Inl e \<Rightarrow> Inl (PyExc e) | Inr u \<Rightarrow> Inr u)
      | _ \<Rightarrow> Inl (PyExc TypeError))"

datatype step = Wait | Resubmit | Update response

definition next_step :: "nat \<Rightarrow> response option \<Rightarrow> mat_exc + step" where
  "next_step resubmits r =
     (case r of
        None \<Rightarrow> Inr Wait
      | Some resp \<Rightarrow>
          if 500 \<le> status_code resp then Inr Wait
          else if status_code resp = 404 \<and> resubmits < MAX_RESUBMITS then Inr Resubmit
          else rbind (raise_for_status resp) (\<lambda>_. Inr (Update resp)))"

section \<open>The loop\<close>

definition status_request :: "pv \<Rightarrow> poll_answer \<Rightarrow> mat_exc + response option" where
  "status_request job answer =
     rbind (status_url job) (\<lambda>_.
       case answer of TransportError \<Rightarrow> Inr None | Raised e \<Rightarrow> Inl e | Answered r \<Rightarrow> Inr (Some r))"

definition poll_round :: "int \<Rightarrow> poll_env \<Rightarrow> tracker \<Rightarrow> (mat_exc + pv) + tracker" where
  \<comment> \<open>one iteration: \<open>Inl\<close> the outcome of the call, or \<open>Inr\<close> the state of the next iteration\<close>
  "poll_round deadline env t =
     (if tr_job t = PNone then Inl (Inr (tr_direct t))
      else case settle (pe_clock env) deadline (tr_job t) of
        Inl e \<Rightarrow> Inl (Inl e)
      | Inr (Some result) \<Rightarrow> Inl (Inr result)
      | Inr None \<Rightarrow>
          (case pe_on_poll env of
             Some e \<Rightarrow> Inl (Inl e)
           | None \<Rightarrow>
               (case rbind (status_request (tr_job t) (pe_get env)) (next_step (tr_resubmits t)) of
                  Inl e \<Rightarrow> Inl (Inl e)
                | Inr Wait \<Rightarrow> Inr t
                | Inr Resubmit \<Rightarrow>
                    (case submit (pe_submit env) of
                       Inl e \<Rightarrow> Inl (Inl e)
                     | Inr (job, direct) \<Rightarrow>
                         Inr \<lparr>tr_job = job, tr_direct = direct, tr_resubmits = Suc (tr_resubmits t)\<rparr>)
                | Inr (Update r) \<Rightarrow>
                    (case response_json r of
                       Inl e \<Rightarrow> Inl (Inl e)
                     | Inr job \<Rightarrow> Inr (t\<lparr>tr_job := job\<rparr>)))))"

text \<open>The result carries the round in which the call returned and the state of the tracker then.\<close>

partial_function (option) poll_loop ::
    "int \<Rightarrow> (nat \<Rightarrow> poll_env) \<Rightarrow> nat \<Rightarrow> tracker \<Rightarrow> ((mat_exc + pv) \<times> nat \<times> nat) option" where
  "poll_loop deadline env n t =
     (case poll_round deadline (env n) t of
        Inl outcome \<Rightarrow> Some (outcome, n, tr_resubmits t)
      | Inr t' \<Rightarrow> poll_loop deadline env (Suc n) t')"

declare poll_loop.simps [code]

definition run_service_job ::
    "int \<Rightarrow> int \<Rightarrow> mat_exc + response \<Rightarrow> (nat \<Rightarrow> poll_env) \<Rightarrow> ((mat_exc + pv) \<times> nat \<times> nat) option" where
  "run_service_job start deadline_seconds posted env =
     (case submit posted of
        Inl e \<Rightarrow> Some (Inl e, 0, 0)
      | Inr (job, direct) \<Rightarrow>
          poll_loop (start + deadline_seconds) env 0 \<lparr>tr_job = job, tr_direct = direct, tr_resubmits = 0\<rparr>)"

definition run_service_job_async ::
    "int \<Rightarrow> int \<Rightarrow> mat_exc + response \<Rightarrow> (nat \<Rightarrow> poll_env) \<Rightarrow> ((mat_exc + pv) \<times> nat \<times> nat) option" where
  \<comment> \<open>the same protocol, awaited; there is no \<open>on_poll\<close>\<close>
  "run_service_job_async start deadline_seconds posted env =
     run_service_job start deadline_seconds posted (\<lambda>n. env n\<lparr>pe_on_poll := None\<rparr>)"

section \<open>The client returns\<close>

lemma poll_round_deadline:
  assumes "poll_round deadline env t = Inr t'"
  shows "pe_clock env < deadline"
  using assms
  by (auto simp: poll_round_def settle_def Let_def split: if_splits sum.splits option.splits pv.splits)

lemma poll_round_resubmits:
  assumes "poll_round deadline env t = Inr t'" "tr_resubmits t \<le> 2"
  shows "tr_resubmits t' \<le> 2"
  using assms
  by (auto simp: poll_round_def next_step_def MAX_RESUBMITS_def rbind_Inr_iff
      split: if_splits sum.splits option.splits step.splits prod.splits)

lemma poll_loop_returns:
  assumes advance: "\<And>i. pe_clock (env i) + poll \<le> pe_clock (env (Suc i))" and "0 < poll"
    and "tr_resubmits t \<le> 2"
  shows "\<exists>outcome k m. poll_loop deadline env n t = Some (outcome, k, m) \<and> n \<le> k \<and> m \<le> 2 \<and>
    (\<forall>i. n \<le> i \<and> i < k \<longrightarrow> pe_clock (env i) < deadline)"
  using assms(3)
proof (induction "nat (deadline - pe_clock (env n))" arbitrary: n t rule: less_induct)
  case less
  show ?case
  proof (cases "poll_round deadline (env n) t")
    case (Inl outcome)
    then show ?thesis using less.prems by (subst poll_loop.simps) simp
  next
    case (Inr t')
    have before: "pe_clock (env n) < deadline" using poll_round_deadline [OF Inr] .
    then have "nat (deadline - pe_clock (env (Suc n))) < nat (deadline - pe_clock (env n))"
      using advance [of n] \<open>0 < poll\<close> by linarith
    then obtain outcome k m where "poll_loop deadline env (Suc n) t' = Some (outcome, k, m)" "Suc n \<le> k" "m \<le> 2"
        "\<forall>i. Suc n \<le> i \<and> i < k \<longrightarrow> pe_clock (env i) < deadline"
      using less.hyps poll_round_resubmits [OF Inr less.prems] by blast
    moreover from this have "\<forall>i. n \<le> i \<and> i < k \<longrightarrow> pe_clock (env i) < deadline"
      using before by (metis le_antisym not_less_eq_eq)
    ultimately show ?thesis using Inr by (subst poll_loop.simps) auto
  qed
qed

lemma clock_after:
  assumes "\<And>i. pe_clock (env i) + poll \<le> pe_clock (env (Suc i))"
  shows "pe_clock (env 0) + int n * poll \<le> pe_clock (env n)"
proof (induction n)
  case (Suc n)
  then show ?case using assms [of n] by (simp add: algebra_simps)
qed simp

text \<open>
  C23: when every round moves the clock on by the polling interval, as sleeping does, the client
  returns: it never hangs. It polls no more rounds than fit into the deadline (and one), only while
  the deadline has not passed, and submits the request at most three times in all.
\<close>

theorem service_job_returns:
  assumes "\<And>i. pe_clock (env i) + poll \<le> pe_clock (env (Suc i))" and "0 < poll" and "start \<le> pe_clock (env 0)"
  shows "\<exists>outcome rounds resubmits.
    run_service_job start deadline_seconds posted env = Some (outcome, rounds, resubmits) \<and> resubmits \<le> 2 \<and>
    (\<forall>i<rounds. pe_clock (env i) < start + deadline_seconds) \<and> int rounds * poll < max deadline_seconds 0 + poll"
proof (cases "submit posted")
  case (Inl e)
  then show ?thesis using assms(2) by (simp add: run_service_job_def)
next
  case (Inr jd)
  obtain job direct where jd: "jd = (job, direct)" by (cases jd)
  let ?t = "\<lparr>tr_job = job, tr_direct = direct, tr_resubmits = 0\<rparr>"
  obtain outcome k m where run: "poll_loop (start + deadline_seconds) env 0 ?t = Some (outcome, k, m)" "m \<le> 2"
      "\<forall>i. 0 \<le> i \<and> i < k \<longrightarrow> pe_clock (env i) < start + deadline_seconds"
    using poll_loop_returns [of env poll ?t "start + deadline_seconds" 0] assms(1,2) by auto
  have "int k * poll < max deadline_seconds 0 + poll"
  proof (cases k)
    case 0
    then show ?thesis using assms(2) by simp
  next
    case (Suc j)
    then have "pe_clock (env j) < start + deadline_seconds" using run(3) by simp
    then have "int j * poll < deadline_seconds" using clock_after [of env poll j] assms(1,3) by fastforce
    then show ?thesis using Suc by (simp add: algebra_simps)
  qed
  then show ?thesis using run Inr jd by (simp add: run_service_job_def)
qed

section \<open>What it returns was reported\<close>

definition success :: "response \<Rightarrow> bool" where
  "success r \<longleftrightarrow> 200 \<le> status_code r \<and> status_code r < 300"

text \<open>The successful answers up to a round: to submissions, and to any request.\<close>

definition submission :: "mat_exc + response \<Rightarrow> (nat \<Rightarrow> poll_env) \<Rightarrow> nat \<Rightarrow> response \<Rightarrow> bool" where
  "submission posted env k r \<longleftrightarrow> success r \<and> (posted = Inr r \<or> (\<exists>i<k. pe_submit (env i) = Inr r))"

definition answer :: "mat_exc + response \<Rightarrow> (nat \<Rightarrow> poll_env) \<Rightarrow> nat \<Rightarrow> response \<Rightarrow> bool" where
  "answer posted env k r \<longleftrightarrow> submission posted env k r \<or> (success r \<and> (\<exists>i<k. pe_get (env i) = Answered r))"

definition job_reported :: "mat_exc + response \<Rightarrow> (nat \<Rightarrow> poll_env) \<Rightarrow> nat \<Rightarrow> pdict \<Rightarrow> bool" where
  "job_reported posted env k d \<longleftrightarrow> (\<exists>r. answer posted env k r \<and> body r = Some (PDict d))"

definition direct_reported :: "mat_exc + response \<Rightarrow> (nat \<Rightarrow> poll_env) \<Rightarrow> nat \<Rightarrow> pv \<Rightarrow> bool" where
  "direct_reported posted env k v \<longleftrightarrow> (\<exists>r. submission posted env k r \<and> status_code r \<noteq> 202 \<and> body r = Some v)"

definition null_reported :: "mat_exc + response \<Rightarrow> (nat \<Rightarrow> poll_env) \<Rightarrow> nat \<Rightarrow> bool" where
  \<comment> \<open>a job document that is JSON null ends the loop\<close>
  "null_reported posted env k \<longleftrightarrow> (\<exists>r. answer posted env k r \<and> body r = Some PNone)"

definition tracked :: "mat_exc + response \<Rightarrow> (nat \<Rightarrow> poll_env) \<Rightarrow> nat \<Rightarrow> tracker \<Rightarrow> bool" where
  "tracked posted env k t \<longleftrightarrow>
     (tr_job t = PNone \<and> direct_reported posted env k (tr_direct t)) \<or>
     (tr_direct t = PNone \<and> (\<exists>r. answer posted env k r \<and> body r = Some (tr_job t)))"

lemma submission_Suc: "submission posted env k r \<Longrightarrow> submission posted env (Suc k) r"
  by (auto simp: submission_def less_Suc_eq)

lemma answer_Suc: "answer posted env k r \<Longrightarrow> answer posted env (Suc k) r"
  by (auto simp: answer_def less_Suc_eq intro: submission_Suc)

lemma submit_tracked:
  assumes "submit p = Inr (job, direct)" "\<And>r. p = Inr r \<Longrightarrow> success r \<Longrightarrow> submission posted env k r"
  shows "tracked posted env k \<lparr>tr_job = job, tr_direct = direct, tr_resubmits = n\<rparr>"
proof -
  obtain r where r: "p = Inr r" "accept r = Inr (job, direct)" using assms(1) by (auto simp: submit_def rbind_Inr_iff)
  then have "success r"
    by (auto simp: accept_def success_def raise_for_status_def rbind_Inr_iff split: if_splits)
  with r assms(2) have "submission posted env k r" by blast
  then show ?thesis
    using r(2) by (auto simp: accept_def response_json_def tracked_def direct_reported_def answer_def rbind_Inr_iff
        split: if_splits option.splits)
qed

lemma poll_round_tracked:
  assumes "poll_round deadline (env k) t = Inr t'" "tracked posted env k t"
  shows "tracked posted env (Suc k) t'"
proof -
  have "t' = t \<or> (\<exists>job direct n. submit (pe_submit (env k)) = Inr (job, direct) \<and>
        t' = \<lparr>tr_job = job, tr_direct = direct, tr_resubmits = n\<rparr>) \<or>
      (tr_job t \<noteq> PNone \<and> (\<exists>r job. pe_get (env k) = Answered r \<and> success r \<and> body r = Some job \<and> t' = t\<lparr>tr_job := job\<rparr>))"
    using assms(1)
    by (auto simp: poll_round_def status_request_def next_step_def rbind_Inr_iff raise_for_status_def response_json_def
        success_def split: if_splits sum.splits option.splits step.splits prod.splits poll_answer.splits)
  then show ?thesis
  proof (elim disjE exE conjE)
    assume "t' = t"
    then show ?thesis using assms(2) submission_Suc answer_Suc unfolding tracked_def direct_reported_def by blast
  next
    fix job direct n
    assume "submit (pe_submit (env k)) = Inr (job, direct)" "t' = \<lparr>tr_job = job, tr_direct = direct, tr_resubmits = n\<rparr>"
    then show ?thesis using submit_tracked [of "pe_submit (env k)" job direct posted env "Suc k" n]
      by (auto simp: submission_def)
  next
    fix r job
    assume "tr_job t \<noteq> PNone" "pe_get (env k) = Answered r" "success r" "body r = Some job" "t' = t\<lparr>tr_job := job\<rparr>"
    then show ?thesis using assms(2) by (auto simp: tracked_def answer_def)
  qed
qed

lemma poll_loop_tracked:
  assumes "poll_loop deadline env n t = Some res" "tracked posted env n t"
  shows "\<exists>t'. tracked posted env (fst (snd res)) t' \<and> poll_round deadline (env (fst (snd res))) t' = Inl (fst res)"
proof -
  have "tracked posted env n t \<longrightarrow> (\<exists>t'. tracked posted env (fst (snd res)) t' \<and>
      poll_round deadline (env (fst (snd res))) t' = Inl (fst res))"
  proof (rule poll_loop.raw_induct [of "\<lambda>deadline env n t res. tracked posted env n t \<longrightarrow> (\<exists>t'.
      tracked posted env (fst (snd res)) t' \<and> poll_round deadline (env (fst (snd res))) t' = Inl (fst res))", OF _ assms(1)])
    fix loop deadline env n t res
    assume IH: "\<And>deadline env n t res. loop deadline env n t = Some res \<Longrightarrow> tracked posted env n t \<longrightarrow>
        (\<exists>t'. tracked posted env (fst (snd res)) t' \<and> poll_round deadline (env (fst (snd res))) t' = Inl (fst res))"
      and step: "(case poll_round deadline (env n) t of Inl outcome \<Rightarrow> Some (outcome, n, tr_resubmits t)
        | Inr t' \<Rightarrow> loop deadline env (Suc n) t') = Some res"
    show "tracked posted env n t \<longrightarrow>
        (\<exists>t'. tracked posted env (fst (snd res)) t' \<and> poll_round deadline (env (fst (snd res))) t' = Inl (fst res))"
      using IH [of deadline env "Suc n"] step poll_round_tracked [of deadline env n t]
      by (cases "poll_round deadline (env n) t") auto
  qed
  then show ?thesis using assms(2) by blast
qed

lemma settle_outcomes:
  "settle clock deadline job = Inr (Some result) \<Longrightarrow>
     \<exists>d. job = PDict d \<and> dget d ''status'' = PStr ''succeeded'' \<and> dget d ''result'' = result"
  "settle clock deadline job = Inl (ServiceJobError c result) \<Longrightarrow>
     deadline \<le> clock \<or> (\<exists>d. job = PDict d \<and> dget d ''status'' = PStr ''failed'' \<and> dget d ''status_code'' = c \<and>
       dget d ''result'' = result)"
  by (auto simp: settle_def Let_def split: pv.splits if_splits)

lemma accept_error: "accept r \<noteq> Inl (ServiceJobError c x)"
  by (auto simp: accept_def raise_for_status_def response_json_def rbind_def split: if_splits option.splits)

lemma poll_round_outcome:
  assumes "poll_round deadline env t = Inl outcome" "tr_job t \<noteq> PNone"
  shows "(\<exists>x. settle (pe_clock env) deadline (tr_job t) = Inr (Some x) \<and> outcome = Inr x) \<or>
    (\<exists>e. outcome = Inl e \<and> (settle (pe_clock env) deadline (tr_job t) = Inl e \<or> pe_on_poll env = Some e \<or>
       pe_get env = Raised e \<or> pe_submit env = Inl e \<or> (\<forall>c x. e \<noteq> ServiceJobError c x)))"
proof -
  have request: "pe_get env = Raised e \<or> (\<forall>c x. e \<noteq> ServiceJobError c x)"
    if "rbind (status_request (tr_job t) (pe_get env)) (next_step (tr_resubmits t)) = Inl e" for e
    using that by (auto simp: status_request_def status_url_def next_step_def raise_for_status_def rbind_def
        split: sum.splits option.splits pv.splits poll_answer.splits if_splits)
  have sub: "pe_submit env = Inl e \<or> (\<forall>c x. e \<noteq> ServiceJobError c x)" if "submit (pe_submit env) = Inl e" for e
    using that accept_error by (auto simp: submit_def rbind_def split: sum.splits)
  have json: "response_json r = Inl e \<Longrightarrow> \<forall>c x. e \<noteq> ServiceJobError c x" for r e
    by (auto simp: response_json_def split: option.splits)
  show ?thesis
  proof (cases "settle (pe_clock env) deadline (tr_job t)")
    case (Inl e)
    then show ?thesis using assms by (auto simp: poll_round_def)
  next
    case settled: (Inr x)
    show ?thesis
    proof (cases "x = None \<and> pe_on_poll env = None")
      case False
      then show ?thesis using assms settled by (cases x) (auto simp: poll_round_def)
    next
      case True
      let ?next = "rbind (status_request (tr_job t) (pe_get env)) (next_step (tr_resubmits t))"
      consider (error) e where "?next = Inl e" "outcome = Inl e"
        | (submit) e where "submit (pe_submit env) = Inl e" "outcome = Inl e"
        | (json) r e where "response_json r = Inl e" "outcome = Inl e"
        using assms settled True
        by (cases ?next) (auto simp: poll_round_def split: step.splits sum.splits prod.splits, metis)
      then show ?thesis
        by cases (use request sub json in blast)+
    qed
  qed
qed

text \<open>
  a result the client returns is one that the service reported: the body of a successful answer
  to a submission, or the result of a job document with status succeeded (a null document counts as no
  result). A job error is a reported failure of the job or means that the deadline had passed.
\<close>

theorem service_job_result_was_reported:
  assumes "run_service_job start deadline_seconds posted env = Some (outcome, rounds, resubmits)"
  shows "case outcome of
      Inr result \<Rightarrow> direct_reported posted env rounds result \<or>
        (\<exists>d. job_reported posted env rounds d \<and> dget d ''status'' = PStr ''succeeded'' \<and> dget d ''result'' = result) \<or>
        (null_reported posted env rounds \<and> result = PNone)
    | Inl (ServiceJobError c result) \<Rightarrow> posted = Inl (ServiceJobError c result) \<or>
        (\<exists>d. job_reported posted env rounds d \<and> dget d ''status'' = PStr ''failed'' \<and>
           dget d ''status_code'' = c \<and> dget d ''result'' = result) \<or>
        start + deadline_seconds \<le> pe_clock (env rounds) \<or> pe_on_poll (env rounds) = Some (ServiceJobError c result) \<or>
        pe_get (env rounds) = Raised (ServiceJobError c result) \<or> pe_submit (env rounds) = Inl (ServiceJobError c result)
    | Inl e \<Rightarrow> True"
proof (cases "submit posted")
  case (Inl e)
  then show ?thesis using assms
    by (auto simp: run_service_job_def submit_def accept_def rbind_def raise_for_status_def response_json_def
        split: sum.splits if_splits option.splits mat_exc.splits)
next
  case (Inr jd)
  obtain job direct where jd: "jd = (job, direct)" by (cases jd)
  have "tracked posted env 0 \<lparr>tr_job = job, tr_direct = direct, tr_resubmits = 0\<rparr>"
    by (rule submit_tracked [OF Inr [unfolded jd]]) (simp add: submission_def)
  moreover have "poll_loop (start + deadline_seconds) env 0 \<lparr>tr_job = job, tr_direct = direct, tr_resubmits = 0\<rparr> =
      Some (outcome, rounds, resubmits)"
    using assms Inr jd by (simp add: run_service_job_def)
  ultimately obtain t where t: "tracked posted env rounds t"
      "poll_round (start + deadline_seconds) (env rounds) t = Inl outcome"
    using poll_loop_tracked by fastforce
  show ?thesis
  proof (cases "tr_job t = PNone")
    case True
    then have "outcome = Inr (tr_direct t)" using t(2) by (simp add: poll_round_def)
    then show ?thesis using t(1) True by (auto simp: tracked_def null_reported_def)
  next
    case False
    then have job: "job_reported posted env rounds d" if "tr_job t = PDict d" for d
      using t(1) that by (auto simp: tracked_def job_reported_def)
    from poll_round_outcome [OF t(2) False] show ?thesis
      using settle_outcomes(1) [of "pe_clock (env rounds)" "start + deadline_seconds" "tr_job t"]
        settle_outcomes(2) [of "pe_clock (env rounds)" "start + deadline_seconds" "tr_job t"] job
      by (elim disjE exE conjE) (fastforce split: mat_exc.splits)+
  qed
qed

section \<open>Witnesses\<close>

definition running_job :: pv where
  "running_job = PDict (pdict_of [(''job_id'', PStr ''j''), (''status'', PStr ''running''), (''status_url'', PStr ''/jobs/j'')])"

definition done_job :: pv where
  "done_job = PDict (pdict_of [(''job_id'', PStr ''j''), (''status'', PStr ''succeeded''), (''result'', PInt 7)])"

definition sample_polls :: "nat \<Rightarrow> poll_env" where
  \<comment> \<open>the service forgets the job once, then finishes it\<close>
  "sample_polls n = \<lparr>pe_clock = 10 * int n, pe_on_poll = None,
     pe_get = (if n = 0 then Answered \<lparr>status_code = 404, body = None\<rparr>
               else Answered \<lparr>status_code = 200, body = Some done_job\<rparr>),
     pe_submit = Inr \<lparr>status_code = 202, body = Some running_job\<rparr>\<rparr>"

definition sample_post :: "mat_exc + response" where
  "sample_post = Inr \<lparr>status_code = 202, body = Some running_job\<rparr>"

lemma sample_run: "run_service_job 0 60 sample_post sample_polls = Some (Inr (PInt 7), 2, 1)"
  by code_simp

theorem service_job_returns_witness:
  "\<exists>outcome rounds resubmits. run_service_job 0 60 sample_post sample_polls = Some (outcome, rounds, resubmits) \<and>
     resubmits \<le> 2 \<and> int rounds * 10 < 70"
proof -
  have "pe_clock (sample_polls i) + 10 \<le> pe_clock (sample_polls (Suc i))" "0 \<le> pe_clock (sample_polls 0)" for i
    by (simp_all add: sample_polls_def)
  from service_job_returns [OF this(1) _ this(2), of 60 sample_post] show ?thesis by fastforce
qed

theorem service_job_result_was_reported_witness:
  "direct_reported sample_post sample_polls 2 (PInt 7) \<or>
   (\<exists>d. job_reported sample_post sample_polls 2 d \<and> dget d ''status'' = PStr ''succeeded'' \<and> dget d ''result'' = PInt 7)"
  using service_job_result_was_reported [OF sample_run] by simp

end
