(* ===== verification/Refresh_Graph.thy ===== *)
theory Refresh_Graph
  imports Py_Base "HOL-Library.Product_Lexorder" "HOL-Library.Multiset_Order"
begin

text \<open>
  The refresh plan of the DAG \<open>dataset_refresh_chain\<close>: \<open>airflow/dags/dataset_refresh_graph.py\<close>.

  The graph maps a dataset name to its row; it is an association list in the dictionary's order. The
  two queries of \<open>_load_graph\<close> are given by the rows they select. \<open>json.loads\<close> is a parameter
  (None for a decode error). \<open>visit\<close> recurses on the Python stack, so its depth is bounded by the
  number \<open>stack\<close> of frames that are left; running out of them is Python's \<open>RecursionError\<close>.

  The theorems show what the plan is for: it holds exactly the datasets downstream of the seed, each
  once and after all its planned upstreams, ranked by the longest dependency chain; cycles and plans
  deeper than \<open>max_depth\<close> are refused and nothing else is.
\<close>

section \<open>Data\<close>

record dataset_info =
  ds_layer :: string
  ds_cartridge :: string
  ds_sources :: "pv list"
  ds_materialized :: bool
  ds_unextracted_raw :: "string list"

type_synonym graph = "(string \<times> dataset_info) list"

record plan_item =
  item_name :: string
  item_layer :: string
  item_cartridge :: string
  item_rank :: int
  item_upstreams :: "string list"
  item_materialized :: bool
  item_never_materialized :: "string list"

text \<open>A row of \<open>pipeline_runs\<close> of the tenant and workspace, as the extraction query reads it.\<close>

record run_row =
  run_cartridge_id :: string
  run_entity :: string
  run_dag_id :: string
  run_status :: string
  run_record_count :: "int option"
  run_storage_uri :: "string option"

section \<open>Reading the graph\<close>

definition required_scope :: "pdict \<Rightarrow> (string \<times> string) pyres" where
  "required_scope conf =
     (let tenant = strip (str_or (dget conf ''tenant_id'') []);
          workspace = strip (str_or (dget conf ''workspace_id'') [])
      in if tenant = [] \<or> workspace = []
         then Inl (ValueError ''tenant_id and workspace_id are required for dataset_refresh_chain'')
         else Inr (tenant, workspace))"

definition cartridge_from_seed_raw :: "string \<Rightarrow> string" where
  "cartridge_from_seed_raw seed_raw =
     (let parts = split_on (CHR ''/'') (strip_slash seed_raw)
      in if 3 \<le> length parts \<and> lower (parts ! 0) = ''raw'' then parts ! 1 else [])"

definition raw_key :: "pv \<Rightarrow> string option" where
  "raw_key source =
     (let parts = split_on (CHR ''/'') (lower (strip_slash (strip (str_or source []))))
      in if 3 \<le> length parts \<and> parts ! 0 = ''raw'' \<and> parts ! 1 \<noteq> [] \<and> parts ! 2 \<noteq> []
         then Some (parts ! 1 @ ''/'' @ parts ! 2) else None)"

definition sorted_set :: "string list \<Rightarrow> string list" where
  \<comment> \<open>\<open>sorted({...})\<close>\<close>
  "sorted_set xs = sort (remdups xs)"

definition key_cartridge :: "string \<Rightarrow> string" where
  \<comment> \<open>\<open>key.split("/", 1)[0]\<close>\<close>
  "key_cartridge key = takeWhile (\<lambda>c. c \<noteq> CHR ''/'') key"

definition key_entity :: "string \<Rightarrow> string" where
  \<comment> \<open>\<open>key.split("/", 1)[1]\<close>\<close>
  "key_entity key = drop 1 (dropWhile (\<lambda>c. c \<noteq> CHR ''/'') key)"

definition run_extracted :: "run_row \<Rightarrow> bool" where
  "run_extracted r \<longleftrightarrow>
     run_dag_id r \<noteq> ''dataset_refresh_chain'' \<and> lower (run_status r) \<in> {''success'', ''partial''} \<and>
     (0 < (case run_record_count r of None \<Rightarrow> 0 | Some n \<Rightarrow> n)
      \<or> (case run_storage_uri r of None \<Rightarrow> [] | Some u \<Rightarrow> u) \<noteq> [])"

definition extracted_raw :: "run_row list \<Rightarrow> string list \<Rightarrow> string list" where
  "extracted_raw runs keys =
     (if keys = [] then []
      else
        let cartridges = sorted_set (map key_cartridge keys);
            entities = sorted_set (map key_entity keys);
            rows = remdups (map (\<lambda>r. (lower (run_cartridge_id r), lower (run_entity r)))
              (filter (\<lambda>r. lower (run_cartridge_id r) \<in> set cartridges \<and> lower (run_entity r) \<in> set entities
                 \<and> run_extracted r) runs))
        in filter (\<lambda>k. k \<in> set keys) (map (\<lambda>(c, e). c @ ''/'' @ e) rows))"

type_synonym dataset_row = "pv \<times> pv \<times> pv \<times> pv \<times> pv"

definition read_sources :: "(string \<Rightarrow> pv option) \<Rightarrow> pv \<Rightarrow> pv list pyres" where
  \<comment> \<open>a JSON text is decoded, an undecodable one counts as no sources\<close>
  "read_sources json_loads value =
     py_iter (py_or (case value of
         PStr s \<Rightarrow> (case json_loads s of Some v \<Rightarrow> v | None \<Rightarrow> PList [])
       | _ \<Rightarrow> value) (PList []))"

definition read_row :: "(string \<Rightarrow> pv option) \<Rightarrow> graph \<Rightarrow> dataset_row \<Rightarrow> graph pyres" where
  "read_row json_loads graph row =
     (case row of (name, layer, cartridge, srcs, mat) \<Rightarrow>
        rbind (read_sources json_loads srcs) (\<lambda>s.
          Inr (AList.update (py_str name)
            \<lparr>ds_layer = py_str layer, ds_cartridge = str_or cartridge [], ds_sources = s,
             ds_materialized = (mat = PBool True), ds_unextracted_raw = []\<rparr> graph)))"

definition with_unextracted :: "string list \<Rightarrow> dataset_info \<Rightarrow> dataset_info" where
  "with_unextracted extracted info =
     info\<lparr>ds_unextracted_raw :=
       sorted_set (map (\<lambda>k. ''raw/'' @ k)
         (filter (\<lambda>k. k \<notin> set extracted) (List.map_filter raw_key (ds_sources info))))\<rparr>"

definition load_graph ::
    "(string \<Rightarrow> pv option) \<Rightarrow> dataset_row list \<Rightarrow> run_row list \<Rightarrow> graph pyres" where
  "load_graph json_loads rows runs =
     rbind (rfold (read_row json_loads) [] rows) (\<lambda>graph.
       let raw_keys = concat (map (\<lambda>(n, info). List.map_filter raw_key (ds_sources info)) graph);
           extracted = extracted_raw runs raw_keys
       in Inr (map (\<lambda>(n, info). (n, with_unextracted extracted info)) graph))"

section \<open>Dependencies\<close>

definition source_matches :: "string \<Rightarrow> string \<Rightarrow> string \<Rightarrow> bool" where
  "source_matches source name cartridge \<longleftrightarrow>
     (let value = lower (strip source); dataset = lower name; owner = lower cartridge
      in value = dataset \<or> value = ''silver_'' @ dataset \<or> value = ''gold_'' @ dataset
         \<or> value = ''silver/'' @ owner @ ''/'' @ dataset \<or> value = ''gold/'' @ owner @ ''/'' @ dataset)"

definition source_text :: "pv \<Rightarrow> string" where
  "source_text source = lower (strip (py_str source))"

definition source_dataset :: "graph \<Rightarrow> pv \<Rightarrow> string option" where
  \<comment> \<open>the first dataset that matches a source, in the dictionary's order\<close>
  "source_dataset graph source =
     (if startswith (source_text source) ''raw/'' then None
      else map_option fst (find (\<lambda>(candidate, info). source_matches (py_str source) candidate (ds_cartridge info)) graph))"

definition upstream_datasets :: "graph \<Rightarrow> dataset_info \<Rightarrow> string list" where
  \<comment> \<open>\<open>_upstream_datasets(graph, name)\<close>, with \<open>graph[name]\<close> looked up by the caller\<close>
  "upstream_datasets graph info = List.map_filter (source_dataset graph) (ds_sources info)"

definition rget :: "(string \<times> string list) list \<Rightarrow> string \<Rightarrow> string list" where
  "rget reverse key = (case map_of reverse key of None \<Rightarrow> [] | Some xs \<Rightarrow> xs)"

definition radd :: "string \<Rightarrow> (string \<times> string list) list \<Rightarrow> string \<Rightarrow> (string \<times> string list) list" where
  \<comment> \<open>\<open>reverse[key].append(downstream)\<close> on a \<open>defaultdict(list)\<close>\<close>
  "radd downstream reverse key = AList.update key (rget reverse key @ [downstream]) reverse"

definition reverse_keys :: "graph \<Rightarrow> dataset_info \<Rightarrow> string list" where
  \<comment> \<open>the keys under which a dataset is filed: its raw sources, then its upstream datasets\<close>
  "reverse_keys graph info =
     filter (\<lambda>s. startswith s ''raw/'') (map source_text (ds_sources info)) @ upstream_datasets graph info"

definition reverse_index :: "graph \<Rightarrow> (string \<times> string list) list" where
  "reverse_index graph =
     foldl (\<lambda>reverse (downstream, info). foldl (radd downstream) reverse (reverse_keys graph info)) [] graph"

definition never_materialized_upstreams :: "graph \<Rightarrow> dataset_info \<Rightarrow> string list \<Rightarrow> string list pyres" where
  "never_materialized_upstreams graph info upstreams =
     rbind (rmap (\<lambda>u. case map_of graph u of None \<Rightarrow> Inl (KeyError u) | Some i \<Rightarrow> Inr (u, ds_materialized i)) upstreams)
       (\<lambda>us. Inr (sorted_set (map fst (filter (\<lambda>(u, m). \<not> m) us)) @ ds_unextracted_raw info))"

definition resolve_cartridge :: "pdict \<Rightarrow> graph \<Rightarrow> string \<Rightarrow> string \<Rightarrow> string pyres" where
  "resolve_cartridge conf graph seed_raw seed_dataset =
     (let requested = strip (str_or (dget conf ''cartridge_id'') []);
          inferred = (case (if seed_dataset = [] then None else map_of graph seed_dataset) of
              None \<Rightarrow> cartridge_from_seed_raw seed_raw
            | Some info \<Rightarrow> strip (ds_cartridge info))
      in if requested \<noteq> [] \<and> inferred \<noteq> [] \<and> requested \<noteq> inferred
         then Inl (ValueError ''cartridge_id does not match the scoped seed'')
         else
           let cartridge = (if requested = [] then inferred else requested)
           in if cartridge = []
              then Inl (ValueError ''cartridge_id is required or must be inferable from the seed'')
              else Inr cartridge)"

section \<open>The plan\<close>

definition plan_roots :: "graph \<Rightarrow> string \<Rightarrow> string \<Rightarrow> (string list \<times> (string \<times> int) list \<times> int) pyres" where
  \<comment> \<open>the roots, the initial ranks and the depth of the roots\<close>
  "plan_roots graph seed_raw seed_dataset =
     (let reverse = reverse_index graph in
      if seed_raw \<noteq> [] then
        let seed_key = lower (strip_slash (strip seed_raw)) in
        if endswith seed_key ''/*'' then
          let cartridge_prefix = butlast seed_key in
          if count_list cartridge_prefix (CHR ''/'') \<noteq> 2
          then Inl (ValueError ''cartridge raw seed must be raw/<cartridge>/*'')
          else
            let roots = sorted_set (concat (map snd (filter (\<lambda>(key, cs). startswith key cartridge_prefix) reverse)))
            in if roots = [] then Inl (ValueError ''raw seed does not exist in the active workspace graph'')
               else Inr (roots, [], 1)
        else (case map_of reverse seed_key of
            None \<Rightarrow> Inl (ValueError ''raw seed does not exist in the active workspace graph'')
          | Some roots \<Rightarrow> Inr (roots, [], 1))
      else if map_of graph seed_dataset = None
        then Inl (ValueError ''seed dataset does not exist in the active workspace'')
      else Inr ([seed_dataset], [(seed_dataset, 0)], 0))"

definition cycle_error :: pyexc where
  "cycle_error = ValueError ''dataset dependency cycle detected''"

definition depth_error :: pyexc where
  "depth_error = ValueError ''dataset dependency plan exceeded max_depth''"

definition recursion_error :: pyexc where
  "recursion_error = RuntimeError ''maximum recursion depth exceeded''"

fun visit :: "nat \<Rightarrow> (string \<Rightarrow> string list) \<Rightarrow> string list \<times> string list \<Rightarrow> string
    \<Rightarrow> (string list \<times> string list) pyres" where
  \<comment> \<open>the state is \<open>(visiting, visited)\<close>\<close>
  "visit 0 children s name = Inl recursion_error"
| "visit (Suc stack) children s name =
     (if name \<in> set (fst s) then Inl cycle_error
      else if name \<in> set (snd s) then Inr s
      else rbind (rfold (visit stack children) (name # fst s, snd s) (children name)) (\<lambda>s'.
        Inr (removeAll name (fst s'), name # snd s')))"

function bfs :: "int \<Rightarrow> (string \<Rightarrow> string list) \<Rightarrow> (string \<times> int) list \<Rightarrow> (string \<times> int) list
    \<Rightarrow> (string \<times> int) list pyres" where
  \<comment> \<open>the loop over \<open>frontier\<close>, with \<open>ranks\<close>\<close>
  "bfs maximum_depth children [] ranks = Inr ranks"
| "bfs maximum_depth children ((name, depth) # frontier) ranks =
     (if maximum_depth < depth then Inl depth_error
      else bfs maximum_depth children (frontier @ map (\<lambda>child. (child, depth + 1)) (children name))
        (AList.update name
          (max (case map_of ranks name of None \<Rightarrow> -1 | Some r \<Rightarrow> r) depth) ranks))"
  by pat_completeness auto

text \<open>
  Each round replaces one entry of the frontier by entries that are one step closer to the depth
  limit, so the multiset of the distances to the limit decreases.
\<close>

termination
proof (relation "inv_image {(M, N). M < N} (\<lambda>(m, c, f, r). image_mset (\<lambda>x. nat (m + 1 - snd x)) (mset f))")
  show "wf (inv_image {(M, N :: nat multiset). M < N} (\<lambda>(m, c, f, r). image_mset (\<lambda>x. nat (m + 1 - snd x)) (mset f)))"
    by (rule wf_inv_image) (metis wfp_def wfp_on_less)
next
  fix maximum_depth :: int and children :: "string \<Rightarrow> string list" and name :: string and depth :: int
    and ranks :: "(string \<times> int) list" and frontier :: "(string \<times> int) list"
  assume "\<not> maximum_depth < depth"
  let ?w = "\<lambda>x. nat (maximum_depth + 1 - snd x) :: nat"
  let ?kids = "image_mset ?w (mset (map (\<lambda>child. (child, depth + 1)) (children name)))"
  have "?kids < {#?w (name, depth)#}"
    using \<open>\<not> maximum_depth < depth\<close> by (intro ex_gt_imp_less_multiset) auto
  then have "image_mset ?w (mset frontier) + ?kids < image_mset ?w (mset frontier) + {#?w (name, depth)#}"
    by simp
  then show "((maximum_depth, children, frontier @ map (\<lambda>child. (child, depth + 1)) (children name),
        AList.update name (max (case map_of ranks name of None \<Rightarrow> -1 | Some r \<Rightarrow> r) depth) ranks),
      maximum_depth, children, (name, depth) # frontier, ranks)
     \<in> inv_image {(M, N). M < N} (\<lambda>(m, c, f, r). image_mset (\<lambda>x. nat (m + 1 - snd x)) (mset f))"
    by simp
qed

definition make_item :: "graph \<Rightarrow> string \<times> int \<Rightarrow> plan_item pyres" where
  "make_item graph name_rank =
     (case name_rank of (name, rank) \<Rightarrow>
        case map_of graph name of
          None \<Rightarrow> Inl (KeyError name)
        | Some info \<Rightarrow>
            let upstreams = sorted_set (upstream_datasets graph info)
            in rbind (never_materialized_upstreams graph info upstreams) (\<lambda>never.
              Inr \<lparr>item_name = name, item_layer = ds_layer info, item_cartridge = ds_cartridge info,
                   item_rank = rank, item_upstreams = upstreams, item_materialized = ds_materialized info,
                   item_never_materialized = never\<rparr>))"

definition build_plan :: "nat \<Rightarrow> graph \<Rightarrow> string \<Rightarrow> string \<Rightarrow> int \<Rightarrow> plan_item list pyres" where
  "build_plan stack graph seed_raw seed_dataset maximum_depth =
     (let children = rget (reverse_index graph) in
      rbind (plan_roots graph seed_raw seed_dataset) (\<lambda>(roots, ranks, root_depth).
      rbind (rfold (visit stack children) ([], []) roots) (\<lambda>_.
      rbind (bfs maximum_depth children (map (\<lambda>name. (name, root_depth)) roots) ranks) (\<lambda>ranks'.
        rmap (make_item graph) (sort_key (\<lambda>(name, rank). (rank, name)) ranks')))))"

text \<open>The plan as it is handed to the next task: a list of JSON objects.\<close>

definition str_list :: "string list \<Rightarrow> pv" where
  "str_list xs = PList (map PStr xs)"

definition item_dict :: "plan_item \<Rightarrow> pdict" where
  "item_dict item = pdict_of
     [(''name'', PStr (item_name item)), (''layer'', PStr (item_layer item)),
      (''cartridge'', PStr (item_cartridge item)), (''rank'', PInt (item_rank item)),
      (''upstreams'', str_list (item_upstreams item)), (''materialized'', PBool (item_materialized item)),
      (''never_materialized_upstreams'', str_list (item_never_materialized item))]"

fun validate_plan :: "pv list \<Rightarrow> string \<Rightarrow> unit pyres" where
  "validate_plan [] cartridge = Inr ()"
| "validate_plan (item # plan) cartridge =
     rbind (py_get item ''cartridge'') (\<lambda>c.
       if str_or c [] \<noteq> cartridge then Inl (ValueError ''dataset_refresh_chain crossed a cartridge boundary'')
       else validate_plan plan cartridge)"

definition resolve_chain ::
    "nat \<Rightarrow> (string \<Rightarrow> pv option) \<Rightarrow> (string \<Rightarrow> string \<Rightarrow> dataset_row list) \<Rightarrow> (string \<Rightarrow> string \<Rightarrow> run_row list)
     \<Rightarrow> pdict \<Rightarrow> (pv list \<times> string) pyres" where
  \<comment> \<open>the plan and the cartridge that are pushed to XCom; the task returns the plan's length\<close>
  "resolve_chain stack json_loads datasets runs conf =
     rbind (required_scope conf) (\<lambda>(tenant_id, workspace_id).
       let seed_raw = strip (str_or (dget conf ''seed_raw'') []);
           seed_dataset = strip (str_or (dget conf ''seed_dataset'') [])
       in if seed_raw = [] \<and> seed_dataset = []
          then Inl (ValueError ''conf must include seed_raw or seed_dataset'')
          else
            rbind (load_graph json_loads (datasets tenant_id workspace_id) (runs tenant_id workspace_id)) (\<lambda>graph.
            rbind (resolve_cartridge conf graph seed_raw seed_dataset) (\<lambda>cartridge.
            rbind (py_int (py_or (dget conf ''max_depth'') (PInt 10))) (\<lambda>max_depth.
              let maximum_depth = max 1 (min max_depth 50) in
            rbind (build_plan stack graph seed_raw seed_dataset maximum_depth) (\<lambda>plan.
            rbind (validate_plan (map (\<lambda>i. PDict (item_dict i)) plan) cartridge) (\<lambda>_.
              Inr (map (\<lambda>i. PDict (item_dict i)) plan, cartridge)))))))"

section \<open>Walks in a finite graph\<close>

text \<open>\<open>walk children m k n\<close>: a walk of \<open>k\<close> steps leads from \<open>m\<close> to \<open>n\<close>.\<close>

inductive walk :: "('a \<Rightarrow> 'a list) \<Rightarrow> 'a \<Rightarrow> nat \<Rightarrow> 'a \<Rightarrow> bool" for children where
  walk_0: "walk children n 0 n"
| walk_Suc: "c \<in> set (children m) \<Longrightarrow> walk children c k n \<Longrightarrow> walk children m (Suc k) n"

inductive_simps walk_0_iff [simp]: "walk children m 0 n"
inductive_simps walk_Suc_iff: "walk children m (Suc k) n"

lemma walk_trans: "walk f l j m \<Longrightarrow> walk f m k n \<Longrightarrow> walk f l (j + k) n"
  by (induction rule: walk.induct) (auto intro: walk.intros)

lemma walk_snoc: "walk f l j m \<Longrightarrow> n \<in> set (f m) \<Longrightarrow> walk f l (Suc j) n"
  using walk_trans [of f l j m 1 n] by (simp add: walk_Suc_iff)

lemma walk_closed: "walk f m k n \<Longrightarrow> (\<And>l. set (f l) \<subseteq> V) \<Longrightarrow> m \<in> V \<Longrightarrow> n \<in> V"
  by (induction rule: walk.induct) auto

definition cyclic_from :: "('a \<Rightarrow> 'a list) \<Rightarrow> 'a list \<Rightarrow> bool" where
  "cyclic_from f roots \<longleftrightarrow> (\<exists>r\<in>set roots. \<exists>j m k. walk f r j m \<and> walk f m (Suc k) m)"

text \<open>
  The ranking loop: it succeeds exactly when no walk from the frontier exceeds the depth limit, and
  then ranks every node it reaches by the longest walk.
\<close>

definition frontier_walk :: "(string \<Rightarrow> string list) \<Rightarrow> (string \<times> int) list \<Rightarrow> string \<Rightarrow> int \<Rightarrow> bool" where
  "frontier_walk f fr n d \<longleftrightarrow> (\<exists>(m, d0)\<in>set fr. \<exists>k. walk f m k n \<and> d = d0 + int k)"

lemma frontier_walk_Nil [simp]: "\<not> frontier_walk f [] n d"
  by (simp add: frontier_walk_def)

lemma frontier_walk_Cons:
  "frontier_walk f ((m, d0) # fr) n d \<longleftrightarrow> (\<exists>k. walk f m k n \<and> d = d0 + int k) \<or> frontier_walk f fr n d"
  by (simp add: frontier_walk_def)

lemma frontier_walk_append:
  "frontier_walk f (fr @ fr') n d \<longleftrightarrow> frontier_walk f fr n d \<or> frontier_walk f fr' n d"
  by (auto simp: frontier_walk_def)

lemma frontier_walk_map:
  "frontier_walk f (map (\<lambda>c. (c, e)) cs) n d \<longleftrightarrow> (\<exists>c\<in>set cs. \<exists>k. walk f c k n \<and> d = e + int k)"
  by (simp add: frontier_walk_def)

lemma frontier_walk_step:
  "frontier_walk f ((m, d0) # fr) n d \<longleftrightarrow>
     (n = m \<and> d = d0) \<or> frontier_walk f (fr @ map (\<lambda>c. (c, d0 + 1)) (f m)) n d"
proof -
  have "(\<exists>k. walk f m k n \<and> d = d0 + int k) \<longleftrightarrow>
      (n = m \<and> d = d0) \<or> (\<exists>c\<in>set (f m). \<exists>k. walk f c k n \<and> d = d0 + 1 + int k)"
    (is "?l = ?r")
  proof
    assume ?l
    then obtain k where k: "walk f m k n" "d = d0 + int k" by blast
    then show ?r by (cases k) (auto simp: walk_Suc_iff)
  next
    assume ?r
    then show ?l
      by (auto intro: exI [of _ 0]) (metis add.assoc add.commute of_nat_Suc walk_Suc)
  qed
  then show ?thesis unfolding frontier_walk_Cons frontier_walk_append frontier_walk_map by blast
qed

lemma bfs_total:
  "(\<And>n d. frontier_walk f fr n d \<Longrightarrow> d \<le> M) \<Longrightarrow> \<exists>r. bfs M f fr ranks = Inr r"
proof (induction M f fr ranks rule: bfs.induct)
  case (2 M f name depth fr ranks)
  have "\<not> M < depth" using 2(2) [of name depth] by (auto simp: frontier_walk_step)
  with 2 show ?case by (auto simp: frontier_walk_step)
qed simp

lemma bfs_error:
  "bfs M f fr ranks = Inl e \<Longrightarrow> e = depth_error \<and> (\<exists>n d. frontier_walk f fr n d \<and> M < d)"
proof (induction M f fr ranks rule: bfs.induct)
  case (2 M f name depth fr ranks)
  then show ?case by (cases "M < depth") (auto simp: frontier_walk_step)
qed simp

lemma bfs_result:
  assumes "bfs M f fr ranks = Inr ranks'" "\<forall>(m, d)\<in>set fr. 0 \<le> d"
  shows "(frontier_walk f fr n d \<longrightarrow> d \<le> M \<and> (\<exists>v. map_of ranks' n = Some v \<and> d \<le> v)) \<and>
    (\<forall>v. map_of ranks n = Some v \<longrightarrow> (\<exists>v'. map_of ranks' n = Some v' \<and> v \<le> v')) \<and>
    (\<forall>v. map_of ranks' n = Some v \<longrightarrow> map_of ranks n = Some v \<or> frontier_walk f fr n v)"
  using assms
proof (induction M f fr ranks rule: bfs.induct)
  case (2 M f name depth fr ranks)
  let ?fr = "fr @ map (\<lambda>c. (c, depth + 1)) (f name)"
  let ?v = "max (case map_of ranks name of None \<Rightarrow> -1 | Some r \<Rightarrow> r) depth"
  from 2(2,3) have le: "\<not> M < depth" and run: "bfs M f ?fr (AList.update name ?v ranks) = Inr ranks'"
    and pos: "\<forall>(m, d)\<in>set ?fr. 0 \<le> d" and depth: "0 \<le> depth"
    by (auto split: if_splits)
  note IH = 2(1) [OF le run pos]
  show ?case
  proof (cases "n = name")
    case True
    with IH obtain w where w: "map_of ranks' n = Some w" "?v \<le> w"
      by (auto simp: AList.update_conv')
    with True IH le depth show ?thesis
      by (auto simp: AList.update_conv' frontier_walk_step max_def split: option.splits if_splits)
  next
    case False
    with IH show ?thesis by (auto simp: AList.update_conv' frontier_walk_step)
  qed
qed simp

lemma bfs_distinct:
  "bfs M f fr ranks = Inr ranks' \<Longrightarrow> distinct (map fst ranks) \<Longrightarrow> distinct (map fst ranks')"
  by (induction M f fr ranks rule: bfs.induct) (auto simp: distinct_update split: if_splits)

text \<open>
  The interface of the plan's graph algorithms: a successor function into a finite set of nodes.
\<close>

locale finite_successors =
  fixes children :: "string \<Rightarrow> string list" and nodes :: "string set"
  assumes finite_nodes: "finite nodes"
    and children_nodes: "set (children n) \<subseteq> nodes"
begin

text \<open>The list of visited nodes is in topological order: the children of a node stand behind it.\<close>

fun topo :: "string list \<Rightarrow> bool" where
  "topo [] = True"
| "topo (v # vs) = (set (children v) \<subseteq> set vs \<and> v \<notin> set vs \<and> topo vs)"

lemma topo_closed: "topo vs \<Longrightarrow> walk children v k m \<Longrightarrow> v \<in> set vs \<Longrightarrow> m \<in> set vs"
proof (induction vs arbitrary: v k)
  case (Cons u vs)
  show ?case
  proof (cases "v \<in> set vs")
    case True
    with Cons show ?thesis by auto
  next
    case False
    with Cons.prems have "v = u" by simp
    with Cons show ?thesis by (cases k) (auto simp: walk_Suc_iff)
  qed
qed simp

lemma topo_acyclic: "topo vs \<Longrightarrow> v \<in> set vs \<Longrightarrow> \<not> walk children v (Suc k) v"
proof (induction vs)
  case (Cons u vs)
  then show ?case
    by (auto simp: walk_Suc_iff dest: topo_closed)
qed simp

lemma topo_bound: "topo vs \<Longrightarrow> walk children v k m \<Longrightarrow> v \<in> set vs \<Longrightarrow> k < length vs"
proof (induction vs arbitrary: v k)
  case (Cons u vs)
  show ?case
  proof (cases k)
    case (Suc k')
    with Cons.prems obtain c where c: "c \<in> set (children v)" "walk children c k' m"
      by (auto simp: walk_Suc_iff)
    show ?thesis
    proof (cases "v = u")
      case True
      with c Cons Suc show ?thesis by (auto dest: Cons.IH)
    next
      case False
      with Cons show ?thesis by (auto dest: Cons.IH less_SucI)
    qed
  qed simp
qed simp

lemma topo_distinct: "topo vs \<Longrightarrow> distinct vs"
  by (induction vs) auto

abbreviation keeps :: "string list \<times> string list \<Rightarrow> string list \<times> string list \<Rightarrow> bool" where
  "keeps s s' \<equiv> set (fst s') = set (fst s) \<and> set (snd s) \<subseteq> set (snd s') \<and> topo (snd s')
     \<and> set (fst s') \<inter> set (snd s') = {}"

lemma fold_keeps:
  assumes step: "\<And>t m u. f t m = Inr u \<Longrightarrow> topo (snd t) \<Longrightarrow> set (fst t) \<inter> set (snd t) = {} \<Longrightarrow>
      keeps t u \<and> m \<in> set (snd u) \<and> set (snd u) \<subseteq> insert m (set (snd t)) \<union> nodes"
    and "rfold f s ns = Inr s'" "topo (snd s)" "set (fst s) \<inter> set (snd s) = {}"
  shows "keeps s s' \<and> set ns \<subseteq> set (snd s') \<and> set (snd s') \<subseteq> set ns \<union> set (snd s) \<union> nodes"
  using assms(2-)
proof (induction ns arbitrary: s)
  case (Cons m ns)
  then obtain u where u: "f s m = Inr u" "rfold f u ns = Inr s'"
    by (auto simp: rbind_Inr_iff)
  have A: "keeps s u \<and> m \<in> set (snd u) \<and> set (snd u) \<subseteq> insert m (set (snd s)) \<union> nodes"
    using step [OF u(1)] Cons.prems by blast
  then have "keeps u s' \<and> set ns \<subseteq> set (snd s') \<and> set (snd s') \<subseteq> set ns \<union> set (snd u) \<union> nodes"
    by (intro Cons.IH u(2)) auto
  with A show ?case by simp blast
qed simp

lemma visit_keeps:
  assumes "visit stack children s n = Inr s'" "topo (snd s)" "set (fst s) \<inter> set (snd s) = {}"
  shows "keeps s s' \<and> n \<in> set (snd s') \<and> set (snd s') \<subseteq> insert n (set (snd s)) \<union> nodes"
  using assms
proof (induction stack arbitrary: s n s')
  case (Suc stack)
  show ?case
  proof (cases "n \<in> set (fst s) \<or> n \<in> set (snd s)")
    case True
    with Suc.prems show ?thesis by (auto split: if_splits)
  next
    case False
    with Suc.prems(1) obtain t where t: "rfold (visit stack children) (n # fst s, snd s) (children n) = Inr t"
        "s' = (removeAll n (fst t), n # snd t)"
      by (auto simp: rbind_Inr_iff)
    have A: "keeps (n # fst s, snd s) t \<and> set (children n) \<subseteq> set (snd t) \<and>
        set (snd t) \<subseteq> set (children n) \<union> set (snd (n # fst s, snd s)) \<union> nodes"
    proof (rule fold_keeps [OF _ t(1)])
      show "keeps u v \<and> m \<in> set (snd v) \<and> set (snd v) \<subseteq> insert m (set (snd u)) \<union> nodes"
        if "visit stack children u m = Inr v" "topo (snd u)" "set (fst u) \<inter> set (snd u) = {}" for u m v
        using Suc.IH that by blast
    qed (use Suc.prems False in auto)
    have "n \<notin> set (snd t)" using A by auto
    with A t(2) False children_nodes [of n] show ?thesis by auto
  qed
qed simp

text \<open>An error of the search: the stack ran out, or the open nodes close a cycle.\<close>

lemma fold_error:
  "rfold f s ns = Inl e \<Longrightarrow> \<exists>t m us vs. ns = us @ m # vs \<and> rfold f s us = Inr t \<and> f t m = Inl e"
proof (induction ns arbitrary: s)
  case (Cons n ns)
  show ?case
  proof (cases "f s n")
    case (Inl e')
    with Cons.prems show ?thesis by (intro exI [of _ s] exI [of _ n] exI [of _ "[]"] exI [of _ ns]) auto
  next
    case (Inr u)
    with Cons.prems have "rfold f u ns = Inl e" by simp
    then obtain t m us vs where "ns = us @ m # vs" "rfold f u us = Inr t" "f t m = Inl e"
      using Cons.IH by blast
    with Inr show ?thesis by (intro exI [of _ t] exI [of _ m] exI [of _ "n # us"] exI [of _ vs]) auto
  qed
qed simp

lemma visit_error:
  assumes "visit stack children s n = Inl e" "topo (snd s)" "set (fst s) \<inter> set (snd s) = {}"
    "\<forall>v\<in>set (fst s). \<exists>k. walk children v (Suc k) n"
  shows "e = recursion_error \<or> (e = cycle_error \<and> cyclic_from children [n])"
  using assms
proof (induction stack arbitrary: s n)
  case (Suc stack)
  show ?case
  proof (cases "n \<in> set (fst s) \<or> n \<in> set (snd s)")
    case True
    with Suc.prems(1) have "n \<in> set (fst s)" "e = cycle_error" by (auto split: if_splits)
    moreover from this Suc.prems(4) obtain k where "walk children n (Suc k) n" by blast
    ultimately show ?thesis unfolding cyclic_from_def using walk_0 [of children n] by auto
  next
    case False
    with Suc.prems(1) have "rfold (visit stack children) (n # fst s, snd s) (children n) = Inl e"
      by (cases "rfold (visit stack children) (n # fst s, snd s) (children n)") auto
    from fold_error [OF this] obtain t m us vs where t: "children n = us @ m # vs"
        "rfold (visit stack children) (n # fst s, snd s) us = Inr t" "visit stack children t m = Inl e"
      by blast
    have keep: "keeps (n # fst s, snd s) t"
      by (rule fold_keeps [OF visit_keeps t(2), THEN conjunct1]) (use Suc.prems False in auto)
    have m: "m \<in> set (children n)" using t(1) by simp
    have "\<exists>k. walk children v (Suc k) m" if "v \<in> set (fst t)" for v
    proof -
      from that keep have "v = n \<or> v \<in> set (fst s)" by auto
      with Suc.prems(4) show ?thesis using m by (metis walk_0 walk_snoc)
    qed
    then have "e = recursion_error \<or> (e = cycle_error \<and> cyclic_from children [m])"
      using Suc.IH [OF t(3)] keep by blast
    then show ?thesis using m by (auto simp: cyclic_from_def intro: walk_Suc)
  qed
qed simp

lemma visit_stack:
  assumes "card (nodes - set (fst s)) < stack" "n \<in> nodes" "topo (snd s)" "set (fst s) \<inter> set (snd s) = {}"
  shows "visit stack children s n \<noteq> Inl recursion_error"
  using assms
proof (induction stack arbitrary: s n)
  case (Suc stack)
  show ?case
  proof (cases "n \<in> set (fst s) \<or> n \<in> set (snd s)")
    case True
    then show ?thesis by (auto simp: cycle_error_def recursion_error_def)
  next
    case False
    show ?thesis
    proof
      assume "visit (Suc stack) children s n = Inl recursion_error"
      with False have "rfold (visit stack children) (n # fst s, snd s) (children n) = Inl recursion_error"
        by (cases "rfold (visit stack children) (n # fst s, snd s) (children n)") auto
      from fold_error [OF this] obtain t m us vs where t: "children n = us @ m # vs"
          "rfold (visit stack children) (n # fst s, snd s) us = Inr t"
          "visit stack children t m = Inl recursion_error"
        by blast
      have keep: "keeps (n # fst s, snd s) t"
        by (rule fold_keeps [OF visit_keeps t(2), THEN conjunct1]) (use Suc.prems False in auto)
      have "card (nodes - insert n (set (fst s))) < card (nodes - set (fst s))"
        using finite_nodes Suc.prems(2) False by (intro psubset_card_mono) auto
      then have "card (nodes - set (fst t)) < stack" using keep Suc.prems(1) by simp
      moreover have "m \<in> nodes" using children_nodes [of n] t(1) by auto
      ultimately show False using Suc.IH [of t m] keep t(3) by auto
    qed
  qed
qed simp

text \<open>With a frame for every node, the search ends well exactly when no cycle is reachable.\<close>

lemma visit_all:
  assumes "card nodes < stack" "set roots \<subseteq> nodes"
  shows "(\<exists>s. rfold (visit stack children) ([], []) roots = Inr s \<and> \<not> cyclic_from children roots \<and>
      (\<forall>r\<in>set roots. \<forall>k m. walk children r k m \<longrightarrow> k < card nodes))
    \<or> (rfold (visit stack children) ([], []) roots = Inl cycle_error \<and> cyclic_from children roots)"
proof (cases "rfold (visit stack children) ([], []) roots")
  case (Inr s)
  have keep: "keeps ([], []) s \<and> set roots \<subseteq> set (snd s) \<and> set (snd s) \<subseteq> set roots \<union> nodes"
    using fold_keeps [of "visit stack children", OF visit_keeps Inr] by simp
  then have topo: "topo (snd s)" and roots: "set roots \<subseteq> set (snd s)" and "set (snd s) \<subseteq> nodes"
    using assms(2) by auto
  then have len: "length (snd s) \<le> card nodes"
    using topo_distinct [OF topo] finite_nodes by (metis card_mono distinct_card)
  have "\<not> cyclic_from children roots"
    unfolding cyclic_from_def using roots topo_closed [OF topo] topo_acyclic [OF topo] by blast
  moreover have "k < card nodes" if "r \<in> set roots" "walk children r k m" for r k m
    using topo_bound [OF topo that(2)] that(1) roots len by auto
  ultimately show ?thesis using Inr by blast
next
  case (Inl e)
  from fold_error [OF this] obtain t m us vs where t: "roots = us @ m # vs"
      "rfold (visit stack children) ([], []) us = Inr t" "visit stack children t m = Inl e"
    by blast
  have keep: "keeps ([], []) t"
    by (rule fold_keeps [OF visit_keeps t(2), THEN conjunct1]) auto
  then have "e \<noteq> recursion_error"
    using visit_stack [of t stack m] t assms by auto
  then have "e = cycle_error \<and> cyclic_from children [m]"
    using visit_error [OF t(3)] keep by auto
  with Inl t(1) show ?thesis by (auto simp: cyclic_from_def)
qed

end

section \<open>The graph of the datasets\<close>

lemma rget_radd: "rget (radd d idx k) k' = (if k' = k then rget idx k @ [d] else rget idx k')"
  by (auto simp: rget_def radd_def AList.update_conv')

lemma set_rget_radds:
  "set (rget (foldl (radd d) idx ks) k) = set (rget idx k) \<union> (if k \<in> set ks then {d} else {})"
  by (induction ks arbitrary: idx) (auto simp: rget_radd)

lemma radds_distinct: "distinct (map fst idx) \<Longrightarrow> distinct (map fst (foldl (radd d) idx ks))"
  by (induction ks arbitrary: idx) (auto simp: radd_def distinct_update)

lemma set_rget_index:
  "set (rget (foldl (\<lambda>idx (d, info). foldl (radd d) idx (keys info)) idx xs) k) =
     set (rget idx k) \<union> {d. \<exists>info. (d, info) \<in> set xs \<and> k \<in> set (keys info)}"
  by (induction xs arbitrary: idx) (auto simp: set_rget_radds split: if_splits)

lemma index_distinct:
  "distinct (map fst idx) \<Longrightarrow>
   distinct (map fst (foldl (\<lambda>idx (d, info). foldl (radd d) idx (keys info)) idx xs))"
  by (induction xs arbitrary: idx) (auto simp: radds_distinct)

text \<open>The reverse index lists, under a key, exactly the datasets that name this key as a source.\<close>

lemma reverse_index_iff:
  "c \<in> set (rget (reverse_index graph) n) \<longleftrightarrow> (\<exists>info. (c, info) \<in> set graph \<and> n \<in> set (reverse_keys graph info))"
  unfolding reverse_index_def set_rget_index by (simp add: rget_def)

lemma reverse_index_distinct: "distinct (map fst (reverse_index graph))"
  unfolding reverse_index_def by (rule index_distinct) simp

lemma reverse_index_nodes: "set (rget (reverse_index graph) n) \<subseteq> fst ` set graph"
  by (force simp: reverse_index_iff)

interpretation chain: finite_successors "rget (reverse_index graph)" "fst ` set graph" for graph
  by unfold_locales (auto intro: reverse_index_nodes [THEN subsetD])

lemma source_dataset_in: "source_dataset graph source = Some u \<Longrightarrow> u \<in> fst ` set graph"
  by (auto simp: source_dataset_def find_Some_iff split: if_splits) (metis fst_conv image_eqI nth_mem)

lemma upstream_datasets_in: "u \<in> set (upstream_datasets graph info) \<Longrightarrow> u \<in> fst ` set graph"
  by (auto simp: upstream_datasets_def map_filter_def dest: source_dataset_in)

lemma set_sorted_set [simp]: "set (sorted_set xs) = set xs"
  by (simp add: sorted_set_def)

lemma never_materialized_ok:
  assumes "set us \<subseteq> fst ` set graph"
  shows "\<exists>xs. never_materialized_upstreams graph info us = Inr xs"
proof -
  have "rmap (\<lambda>u. case map_of graph u of None \<Rightarrow> Inl (KeyError u) | Some i \<Rightarrow> Inr (u, ds_materialized i)) us =
      Inr (map (\<lambda>u. (u, ds_materialized (the (map_of graph u)))) us)"
  proof (rule rmap_total)
    fix u assume "u \<in> set us"
    with assms obtain i where "map_of graph u = Some i"
      by (metis map_of_eq_None_iff not_Some_eq subsetD)
    then show "(case map_of graph u of None \<Rightarrow> Inl (KeyError u) | Some i \<Rightarrow> Inr (u, ds_materialized i)) =
        Inr (u, ds_materialized (the (map_of graph u)))" by simp
  qed
  then show ?thesis by (simp add: never_materialized_upstreams_def)
qed

lemma make_item_ok: "name \<in> fst ` set graph \<Longrightarrow> \<exists>item. make_item graph (name, rank) = Inr item"
proof -
  assume "name \<in> fst ` set graph"
  then obtain info where info: "map_of graph name = Some info"
    by (metis map_of_eq_None_iff not_Some_eq)
  obtain xs where "never_materialized_upstreams graph info (sorted_set (upstream_datasets graph info)) = Inr xs"
    using never_materialized_ok [of "sorted_set (upstream_datasets graph info)" graph info]
      upstream_datasets_in [of _ graph info] by fastforce
  with info show ?thesis by (simp add: make_item_def Let_def)
qed

lemma plan_roots_ok:
  assumes "plan_roots graph seed_raw seed_dataset = Inr (roots, ranks, root_depth)"
  shows "set roots \<subseteq> fst ` set graph \<and>
    ((root_depth = 1 \<and> ranks = []) \<or> (root_depth = 0 \<and> ranks = map (\<lambda>r. (r, 0)) roots \<and> roots = [seed_dataset]))"
proof (cases "seed_raw = []")
  case True
  with assms show ?thesis
    by (auto simp: plan_roots_def Let_def split: if_splits) (metis domI dom_map_of_conv_image_fst)
next
  case False
  have in_nodes: "set cs \<subseteq> fst ` set graph" if "(key, cs) \<in> set (reverse_index graph)" for key cs
  proof -
    have "rget (reverse_index graph) key = cs"
      using that reverse_index_distinct by (simp add: rget_def)
    then show ?thesis using reverse_index_nodes by blast
  qed
  with False assms show ?thesis
    by (auto simp: plan_roots_def Let_def split: if_splits option.splits dest!: map_of_SomeD) blast+
qed

text \<open>What a successful plan is made of: the ranking and one item per ranked dataset.\<close>

definition reaches :: "graph \<Rightarrow> string list \<Rightarrow> nat \<Rightarrow> string \<Rightarrow> bool" where
  \<comment> \<open>the dataset lies \<open>k\<close> dependency steps downstream of a root\<close>
  "reaches graph roots k n \<longleftrightarrow> (\<exists>r\<in>set roots. walk (rget (reverse_index graph)) r k n)"

lemma frontier_reaches:
  "frontier_walk (rget (reverse_index graph)) (map (\<lambda>name. (name, d0)) roots) n d \<longleftrightarrow>
   (\<exists>k. reaches graph roots k n \<and> d = d0 + int k)"
  by (auto simp: frontier_walk_map reaches_def)

lemma reaches_nodes:
  assumes "reaches graph roots k n" "set roots \<subseteq> fst ` set graph"
  shows "n \<in> fst ` set graph"
proof -
  from assms obtain r where "r \<in> fst ` set graph" "walk (rget (reverse_index graph)) r k n"
    unfolding reaches_def by blast
  then show ?thesis by - (rule walk_closed [where f = "rget (reverse_index graph)", OF _ reverse_index_nodes])
qed

lemma bfs_ranks:
  assumes roots: "plan_roots graph seed_raw seed_dataset = Inr (roots, ranks0, root_depth)"
    and run: "bfs M (rget (reverse_index graph)) (map (\<lambda>name. (name, root_depth)) roots) ranks0 = Inr ranks"
  shows "distinct (map fst ranks)"
    and "map_of ranks n = Some v \<longleftrightarrow>
      (\<exists>k. reaches graph roots k n \<and> v = root_depth + int k) \<and> (\<forall>k. reaches graph roots k n \<longrightarrow> root_depth + int k \<le> v)"
    and "reaches graph roots k n \<Longrightarrow> root_depth + int k \<le> M \<and> (\<exists>v. map_of ranks n = Some v)"
proof -
  let ?fr = "map (\<lambda>name. (name, root_depth)) roots"
  let ?f = "rget (reverse_index graph)"
  note ok = plan_roots_ok [OF roots]
  then have pos: "\<forall>(m, d)\<in>set ?fr. 0 \<le> d" by auto
  from ok show "distinct (map fst ranks)" by (intro bfs_distinct [OF run]) auto
  have init: "\<exists>k. reaches graph roots k n \<and> w = root_depth + int k" if "map_of ranks0 n = Some w" for n w
    using that ok by (auto simp: reaches_def split: if_splits intro!: exI [of _ 0])
  note res = bfs_result [OF run pos, unfolded frontier_reaches]
  have lower: "root_depth + int k \<le> M \<and> (\<exists>v. map_of ranks n = Some v \<and> root_depth + int k \<le> v)"
    if "reaches graph roots k n" for n k
    using that res by blast
  have upper: "\<exists>k. reaches graph roots k n \<and> v = root_depth + int k" if "map_of ranks n = Some v" for n v
    using that res init by blast
  show "map_of ranks n = Some v \<longleftrightarrow>
      (\<exists>k. reaches graph roots k n \<and> v = root_depth + int k) \<and> (\<forall>k. reaches graph roots k n \<longrightarrow> root_depth + int k \<le> v)"
    using lower upper by (smt (verit) option.inject)
  show "reaches graph roots k n \<Longrightarrow> root_depth + int k \<le> M \<and> (\<exists>v. map_of ranks n = Some v)"
    using lower by blast
qed

lemma build_plan_steps:
  assumes "build_plan stack graph seed_raw seed_dataset M = Inr plan"
  obtains roots ranks0 root_depth ranks where
    "plan_roots graph seed_raw seed_dataset = Inr (roots, ranks0, root_depth)"
    "bfs M (rget (reverse_index graph)) (map (\<lambda>name. (name, root_depth)) roots) ranks0 = Inr ranks"
    "rmap (make_item graph) (sort_key (\<lambda>(name, rank). (rank, name)) ranks) = Inr plan"
  using assms by (auto simp: build_plan_def Let_def rbind_Inr_iff)

lemma make_item_fields:
  assumes "make_item graph nr = Inr item"
  shows "item_name item = fst nr \<and> item_rank item = snd nr \<and>
    (\<exists>info. map_of graph (fst nr) = Some info \<and> item_cartridge item = ds_cartridge info \<and>
       item_upstreams item = sorted_set (upstream_datasets graph info))"
  using assms by (cases nr) (auto simp: make_item_def Let_def rbind_Inr_iff split: option.splits)

lemma plan_ranks:
  assumes "rmap (make_item graph) xs = Inr plan"
  shows "map (\<lambda>i. (item_name i, item_rank i)) plan = xs"
proof (rule nth_equalityI)
  from assms have len: "length xs = length plan" and
    item: "i < length plan \<Longrightarrow> make_item graph (xs ! i) = Inr (plan ! i)" for i
    by (auto simp: rmap_Inr_iff list_all2_conv_all_nth)
  then show "length (map (\<lambda>i. (item_name i, item_rank i)) plan) = length xs" by simp
  fix i assume "i < length (map (\<lambda>i. (item_name i, item_rank i)) plan)"
  then show "map (\<lambda>i. (item_name i, item_rank i)) plan ! i = xs ! i"
    using make_item_fields [OF item [of i]] by (simp add: prod_eq_iff)
qed

lemma build_plan_distinct:
  assumes "build_plan stack graph seed_raw seed_dataset M = Inr plan"
  shows "distinct (map item_name plan)"
proof -
  obtain roots ranks0 root_depth ranks where
    roots: "plan_roots graph seed_raw seed_dataset = Inr (roots, ranks0, root_depth)" and
    run: "bfs M (rget (reverse_index graph)) (map (\<lambda>name. (name, root_depth)) roots) ranks0 = Inr ranks" and
    items: "rmap (make_item graph) (sort_key (\<lambda>(name, rank). (rank, name)) ranks) = Inr plan"
    using build_plan_steps [OF assms] by metis
  have "mset (map fst (map (\<lambda>i. (item_name i, item_rank i)) plan)) = mset (map fst ranks)"
    unfolding plan_ranks [OF items] by (simp only: mset_map mset_sort)
  from mset_eq_imp_distinct_iff [OF this] show ?thesis
    using bfs_ranks(1) [OF roots run] by (simp add: comp_def)
qed

text \<open>
  C7: the plan holds exactly the datasets that lie downstream of the seed, each once; the rank of a
  dataset is the length of the longest dependency chain from a root (plus one for a raw seed) and is
  within the depth limit.
\<close>

theorem plan_exact:
  assumes "build_plan stack graph seed_raw seed_dataset M = Inr plan"
    and "plan_roots graph seed_raw seed_dataset = Inr (roots, ranks0, root_depth)"
  shows "distinct (map item_name plan) \<and>
    (\<forall>n. n \<in> item_name ` set plan \<longleftrightarrow> (\<exists>k. reaches graph roots k n)) \<and>
    (\<forall>i\<in>set plan. item_rank i \<le> M \<and>
       (\<exists>k. reaches graph roots k (item_name i) \<and> item_rank i = root_depth + int k) \<and>
       (\<forall>k. reaches graph roots k (item_name i) \<longrightarrow> root_depth + int k \<le> item_rank i))"
proof -
  from build_plan_steps [OF assms(1)] assms(2) obtain ranks where
    run: "bfs M (rget (reverse_index graph)) (map (\<lambda>name. (name, root_depth)) roots) ranks0 = Inr ranks" and
    items: "rmap (make_item graph) (sort_key (\<lambda>(name, rank). (rank, name)) ranks) = Inr plan"
    by auto
  let ?pairs = "map (\<lambda>i. (item_name i, item_rank i)) plan"
  note bfs = bfs_ranks [OF assms(2) run]
  have pairs: "?pairs = sort_key (\<lambda>(name, rank). (rank, name)) ranks" by (rule plan_ranks [OF items])
  have dist: "distinct (map item_name plan)" by (rule build_plan_distinct [OF assms(1)])
  have in_iff: "(n, v) \<in> set ?pairs \<longleftrightarrow> map_of ranks n = Some v" for n v
    using bfs(1) by (simp add: pairs)
  have item: "map_of ranks (item_name i) = Some (item_rank i)" if "i \<in> set plan" for i
    using that in_iff by auto
  have names: "n \<in> item_name ` set plan \<longleftrightarrow> (\<exists>k. reaches graph roots k n)" for n
  proof
    assume "n \<in> item_name ` set plan"
    then show "\<exists>k. reaches graph roots k n" using item bfs(2) by blast
  next
    assume "\<exists>k. reaches graph roots k n"
    then obtain v where "map_of ranks n = Some v" using bfs(3) by blast
    then show "n \<in> item_name ` set plan" using in_iff [of n v] by force
  qed
  have "item_rank i \<le> M \<and>
      (\<exists>k. reaches graph roots k (item_name i) \<and> item_rank i = root_depth + int k) \<and>
      (\<forall>k. reaches graph roots k (item_name i) \<longrightarrow> root_depth + int k \<le> item_rank i)" if "i \<in> set plan" for i
    using item [OF that] bfs(2) [of "item_name i" "item_rank i"] bfs(3) by auto
  with dist names show ?thesis by blast
qed

lemma plan_sorted:
  assumes "build_plan stack graph seed_raw seed_dataset M = Inr plan"
  shows "sorted (map (\<lambda>i. (item_rank i, item_name i)) plan)"
proof -
  from build_plan_steps [OF assms] obtain ranks where
    items: "rmap (make_item graph) (sort_key (\<lambda>(name, rank). (rank, name)) ranks) = Inr plan"
    by metis
  have "sorted (map (\<lambda>(name, rank). (rank, name)) (map (\<lambda>i. (item_name i, item_rank i)) plan))"
    unfolding plan_ranks [OF items] by (rule sorted_sort_key)
  then show ?thesis by (simp add: comp_def)
qed

lemma plan_item_info:
  assumes "build_plan stack graph seed_raw seed_dataset M = Inr plan" "i \<in> set plan"
  obtains info where "map_of graph (item_name i) = Some info" "item_cartridge i = ds_cartridge info"
    "item_upstreams i = sorted_set (upstream_datasets graph info)"
proof -
  from build_plan_steps [OF assms(1)] obtain ranks where
    items: "rmap (make_item graph) (sort_key (\<lambda>(name, rank). (rank, name)) ranks) = Inr plan"
    by metis
  with assms(2) obtain nr where "make_item graph nr = Inr i"
    unfolding rmap_Inr_iff list_all2_conv_all_nth in_set_conv_nth by metis
  from make_item_fields [OF this] that show ?thesis by auto
qed

lemma plan_upstream_rank:
  assumes plan: "build_plan stack graph seed_raw seed_dataset M = Inr plan"
    and "u \<in> set plan" "i \<in> set plan" "item_name u \<in> set (item_upstreams i)"
  shows "item_rank u < item_rank i"
proof -
  obtain roots ranks0 root_depth ranks where
    roots: "plan_roots graph seed_raw seed_dataset = Inr (roots, ranks0, root_depth)" and
    run: "bfs M (rget (reverse_index graph)) (map (\<lambda>name. (name, root_depth)) roots) ranks0 = Inr ranks" and
    items: "rmap (make_item graph) (sort_key (\<lambda>(name, rank). (rank, name)) ranks) = Inr plan"
    using build_plan_steps [OF plan] by metis
  note bfs = bfs_ranks [OF roots run]
  have rank: "map_of ranks (item_name j) = Some (item_rank j)" if "j \<in> set plan" for j
  proof -
    have "(item_name j, item_rank j) \<in> set (map (\<lambda>i. (item_name i, item_rank i)) plan)" using that by auto
    then show ?thesis using bfs(1) unfolding plan_ranks [OF items] by simp
  qed
  obtain info where info: "map_of graph (item_name i) = Some info"
      "item_upstreams i = sorted_set (upstream_datasets graph info)"
    using plan_item_info [OF plan assms(3)] by metis
  obtain k where k: "reaches graph roots k (item_name u)" "item_rank u = root_depth + int k"
    using bfs(2) [of "item_name u"] rank [OF assms(2)] by blast
  have "item_name i \<in> set (rget (reverse_index graph) (item_name u))"
    unfolding reverse_index_iff using info assms(4) map_of_SomeD [OF info(1)] by (auto simp: reverse_keys_def)
  then have "reaches graph roots (Suc k) (item_name i)"
    using k(1) unfolding reaches_def by (meson walk_snoc)
  then have "root_depth + int (Suc k) \<le> item_rank i"
    using bfs(2) [of "item_name i"] rank [OF assms(3)] by blast
  with k(2) show ?thesis by simp
qed

text \<open>
  C14: the plan is ordered by rank and then by name, and a dataset stands strictly after each of its
  upstream datasets that is planned too; so materialising the plan in order refreshes every input
  before it is read.
\<close>

theorem plan_topological:
  assumes plan: "build_plan stack graph seed_raw seed_dataset M = Inr plan"
  shows "sorted (map (\<lambda>i. (item_rank i, item_name i)) plan) \<and>
    (\<forall>i j. i < length plan \<and> j < length plan \<and> item_name (plan ! i) \<in> set (item_upstreams (plan ! j)) \<longrightarrow> i < j)"
proof -
  note sorted = plan_sorted [OF plan]
  have "i < j" if ij: "i < length plan" "j < length plan" "item_name (plan ! i) \<in> set (item_upstreams (plan ! j))" for i j
  proof (rule ccontr)
    assume "\<not> i < j"
    then have "(item_rank (plan ! j), item_name (plan ! j)) \<le> (item_rank (plan ! i), item_name (plan ! i))"
      using sorted_nth_mono [OF sorted, of j i] ij by simp
    moreover have "item_rank (plan ! i) < item_rank (plan ! j)"
      using plan_upstream_rank [OF plan] ij by simp
    ultimately show False by (auto simp: less_eq_prod_def)
  qed
  with sorted show ?thesis by blast
qed

text \<open>
  C33: with enough stack for the datasets, planning fails for a valid seed only in two ways: with the
  cycle error exactly when a dependency cycle is reachable from the seed, and with the depth error
  exactly when there is none but some dependency chain is longer than the limit. An acyclic graph of
  at most \<open>M\<close> datasets is always planned.
\<close>

theorem plan_errors:
  assumes roots: "plan_roots graph seed_raw seed_dataset = Inr (roots, ranks0, root_depth)"
    and stack: "length graph < stack"
  shows "(cyclic_from (rget (reverse_index graph)) roots \<longrightarrow>
        build_plan stack graph seed_raw seed_dataset M = Inl cycle_error) \<and>
    (\<not> cyclic_from (rget (reverse_index graph)) roots \<longrightarrow>
        (if \<exists>k n. reaches graph roots k n \<and> M < root_depth + int k
         then build_plan stack graph seed_raw seed_dataset M = Inl depth_error
         else \<exists>plan. build_plan stack graph seed_raw seed_dataset M = Inr plan)) \<and>
    (\<not> cyclic_from (rget (reverse_index graph)) roots \<and> int (length graph) \<le> M \<longrightarrow>
        (\<exists>plan. build_plan stack graph seed_raw seed_dataset M = Inr plan))"
proof -
  let ?f = "rget (reverse_index graph)"
  let ?run = "bfs M ?f (map (\<lambda>name. (name, root_depth)) roots) ranks0"
  note ok = plan_roots_ok [OF roots]
  have card: "card (fst ` set graph) \<le> length graph"
    by (metis card_length length_map set_map)
  then have "card (fst ` set graph) < stack" using stack by simp
  then have visit: "(\<exists>s. rfold (visit stack ?f) ([], []) roots = Inr s \<and> \<not> cyclic_from ?f roots \<and>
      (\<forall>r\<in>set roots. \<forall>k m. walk ?f r k m \<longrightarrow> k < card (fst ` set graph)))
    \<or> (rfold (visit stack ?f) ([], []) roots = Inl cycle_error \<and> cyclic_from ?f roots)"
    using ok by (intro chain.visit_all) auto
  have items: "\<exists>plan. rmap (make_item graph) (sort_key (\<lambda>(name, rank). (rank, name)) ranks) = Inr plan"
    if "?run = Inr ranks" for ranks
  proof -
    have "n \<in> fst ` set graph" if "(n, v) \<in> set ranks" for n v
      using that bfs_ranks(1,2) [OF roots \<open>?run = Inr ranks\<close>] reaches_nodes ok by (metis map_of_is_SomeI)
    then have "\<exists>y. make_item graph x = Inr y" if "x \<in> set ranks" for x
      using that make_item_ok by (cases x) blast
    then obtain g where "\<And>x. x \<in> set ranks \<Longrightarrow> make_item graph x = Inr (g x)" by metis
    then show ?thesis using rmap_total [of "sort_key (\<lambda>(name, rank). (rank, name)) ranks" "make_item graph" g] by auto
  qed
  have build: "build_plan stack graph seed_raw seed_dataset M =
      rbind (rfold (visit stack ?f) ([], []) roots) (\<lambda>_. rbind ?run (\<lambda>ranks'.
        rmap (make_item graph) (sort_key (\<lambda>(name, rank). (rank, name)) ranks')))"
    by (simp add: build_plan_def roots Let_def)
  have long: "e = depth_error \<and> (\<exists>k n. reaches graph roots k n \<and> M < root_depth + int k)" if "?run = Inl e" for e
    using bfs_error [OF that] unfolding frontier_reaches by auto
  have bounded: "root_depth + int k \<le> M" if "?run = Inr ranks" "reaches graph roots k n" for ranks k n
    using bfs_ranks(3) [OF roots that(1)] that(2) by blast
  show ?thesis
  proof (cases "cyclic_from ?f roots")
    case True
    with visit show ?thesis by (auto simp: build)
  next
    case False
    with visit obtain s where s: "rfold (visit stack ?f) ([], []) roots = Inr s"
      and short: "\<And>r k m. r \<in> set roots \<Longrightarrow> walk ?f r k m \<Longrightarrow> k < card (fst ` set graph)" by blast
    have fits: "root_depth + int k \<le> M" if "reaches graph roots k n" "int (length graph) \<le> M" for k n
      using that short card ok unfolding reaches_def by fastforce
    show ?thesis
    proof (cases ?run)
      case (Inl e)
      with long [OF Inl] fits False show ?thesis by (force simp: build s)
    next
      case (Inr ranks)
      with items [OF Inr] bounded [OF Inr] False show ?thesis by (force simp: build s)
    qed
  qed
qed

section \<open>Loading and resolving\<close>

lemma raw_key_form:
  assumes "raw_key source = Some k"
  obtains c e where "k = c @ ''/'' @ e" "CHR ''/'' \<notin> set c" "CHR ''/'' \<notin> set e"
proof -
  define parts where "parts = split_on (CHR ''/'') (lower (strip_slash (strip (str_or source []))))"
  from assms have len: "3 \<le> length parts" and k: "k = parts ! 1 @ ''/'' @ parts ! 2"
    by (auto simp: raw_key_def parts_def Let_def split: if_splits)
  have "CHR ''/'' \<notin> set (parts ! i)" if "i < 3" for i
  proof -
    have "parts ! i \<in> set parts" using that len by (intro nth_mem) simp
    then show ?thesis unfolding parts_def by (rule split_on_no_sep)
  qed
  with k that show ?thesis by simp
qed

lemma slash_split:
  assumes "c' @ ''/'' @ e' = c @ ''/'' @ e" "CHR ''/'' \<notin> set c" "CHR ''/'' \<notin> set e"
  shows "c' = c \<and> e' = e"
proof -
  have "split_on (CHR ''/'') c' @ split_on (CHR ''/'') e' = [c, e]"
    using arg_cong [OF assms(1), of "split_on (CHR ''/'')"] assms(2,3)
    by (simp add: split_on_append_sep split_on_single)
  then have "split_on (CHR ''/'') c' = [c]" "split_on (CHR ''/'') e' = [e]"
    by (auto simp: append_eq_Cons_conv)
  then show ?thesis using join_split_on by (metis join.simps(2))
qed

definition raw_extracted :: "run_row list \<Rightarrow> string \<Rightarrow> bool" where
  \<comment> \<open>some run that is not a refresh chain extracted rows or a file for this raw key\<close>
  "raw_extracted runs k \<longleftrightarrow>
     (\<exists>r\<in>set runs. run_extracted r \<and> lower (run_cartridge_id r) @ ''/'' @ lower (run_entity r) = k)"

lemma extracted_raw_iff:
  assumes "k \<in> set keys" "\<And>k. k \<in> set keys \<Longrightarrow> \<exists>source. raw_key source = Some k"
  shows "k \<in> set (extracted_raw runs keys) \<longleftrightarrow> raw_extracted runs k"
proof -
  obtain c e where k: "k = c @ ''/'' @ e" "CHR ''/'' \<notin> set c" "CHR ''/'' \<notin> set e"
    using assms raw_key_form by metis
  have ke: "key_cartridge k = c" "key_entity k = e"
    using k(2) unfolding k(1) key_cartridge_def key_entity_def
    by (auto simp: takeWhile_append dropWhile_append)
  have mem: "c \<in> key_cartridge ` set keys" "e \<in> key_entity ` set keys"
    using assms(1) ke by force+
  have "k \<in> set (extracted_raw runs keys) \<longleftrightarrow>
      (\<exists>r\<in>set runs. run_extracted r \<and> lower (run_cartridge_id r) \<in> key_cartridge ` set keys \<and>
         lower (run_entity r) \<in> key_entity ` set keys \<and> lower (run_cartridge_id r) @ ''/'' @ lower (run_entity r) = k)"
  proof -
    let ?rows = "filter (\<lambda>r. lower (run_cartridge_id r) \<in> key_cartridge ` set keys \<and>
        lower (run_entity r) \<in> key_entity ` set keys \<and> run_extracted r) runs"
    have "set (extracted_raw runs keys) =
        {k \<in> set keys. \<exists>r\<in>set ?rows. k = lower (run_cartridge_id r) @ ''/'' @ lower (run_entity r)}"
      using assms(1) by (cases keys) (auto simp: extracted_raw_def Let_def image_image)
    then show ?thesis using assms(1) by auto
  qed
  also have "\<dots> \<longleftrightarrow> raw_extracted runs k"
    unfolding raw_extracted_def using slash_split k mem by blast
  finally show ?thesis .
qed

lemma read_row_distinct:
  "rfold (read_row json_loads) graph rows = Inr graph' \<Longrightarrow> distinct (map fst graph) \<Longrightarrow> distinct (map fst graph')"
  by (induction rows arbitrary: graph)
     (auto simp: rbind_Inr_iff read_row_def distinct_update split: prod.splits)

text \<open>
  the loaded graph has one entry per dataset name, and the unextracted raw inputs recorded for a
  dataset are exactly the raw keys among its sources for which no run of the workspace, other than a
  refresh chain, ended in \<open>success\<close> or \<open>partial\<close> with rows or a file.
\<close>

theorem load_graph_unextracted:
  assumes "load_graph json_loads rows runs = Inr graph"
  shows "distinct (map fst graph) \<and>
    (\<forall>(n, info)\<in>set graph. \<forall>x. x \<in> set (ds_unextracted_raw info) \<longleftrightarrow>
       (\<exists>source\<in>set (ds_sources info). \<exists>k. raw_key source = Some k \<and> x = ''raw/'' @ k \<and> \<not> raw_extracted runs k))"
proof -
  obtain g where g: "rfold (read_row json_loads) [] rows = Inr g"
    using assms by (auto simp: load_graph_def rbind_Inr_iff)
  define keys where "keys = concat (map (\<lambda>(n, info). List.map_filter raw_key (ds_sources info)) g)"
  have graph: "graph = map (\<lambda>(n, info). (n, with_unextracted (extracted_raw runs keys) info)) g"
    using assms g by (simp add: load_graph_def Let_def keys_def)
  have keys: "k \<in> set keys \<longleftrightarrow> (\<exists>(n, info)\<in>set g. \<exists>source\<in>set (ds_sources info). raw_key source = Some k)" for k
    by (fastforce simp: keys_def set_map_filter)
  have iff: "k \<in> set (extracted_raw runs keys) \<longleftrightarrow> raw_extracted runs k" if "k \<in> set keys" for k
    using that keys by (intro extracted_raw_iff) auto
  have "x \<in> set (ds_unextracted_raw (with_unextracted (extracted_raw runs keys) info)) \<longleftrightarrow>
      (\<exists>source\<in>set (ds_sources info). \<exists>k. raw_key source = Some k \<and> x = ''raw/'' @ k \<and> \<not> raw_extracted runs k)"
    if "(n, info) \<in> set g" for n info x
    using that iff keys by (fastforce simp: with_unextracted_def set_map_filter)
  moreover have "ds_sources (with_unextracted e info) = ds_sources info" for e info
    by (simp add: with_unextracted_def)
  ultimately show ?thesis
    using read_row_distinct [OF g] by (auto simp: graph comp_def split_beta)
qed

lemma validate_plan_iff:
  "validate_plan (map (\<lambda>i. PDict (item_dict i)) plan) cartridge = Inr () \<longleftrightarrow>
   (\<forall>i\<in>set plan. item_cartridge i = cartridge)"
  by (induction plan) (auto simp: item_dict_def)

lemma build_plan_rank_le:
  assumes "build_plan stack graph seed_raw seed_dataset M = Inr plan" "i \<in> set plan"
  shows "0 \<le> item_rank i \<and> item_rank i \<le> M"
proof -
  obtain roots ranks0 root_depth ranks where
    roots: "plan_roots graph seed_raw seed_dataset = Inr (roots, ranks0, root_depth)" and
    run: "bfs M (rget (reverse_index graph)) (map (\<lambda>name. (name, root_depth)) roots) ranks0 = Inr ranks" and
    items: "rmap (make_item graph) (sort_key (\<lambda>(name, rank). (rank, name)) ranks) = Inr plan"
    using build_plan_steps [OF assms(1)] by metis
  have "(item_name i, item_rank i) \<in> set (map (\<lambda>i. (item_name i, item_rank i)) plan)" using assms(2) by auto
  then have "map_of ranks (item_name i) = Some (item_rank i)"
    using bfs_ranks(1) [OF roots run] unfolding plan_ranks [OF items] by simp
  then obtain k where "reaches graph roots k (item_name i)" "item_rank i = root_depth + int k"
    using bfs_ranks(2) [OF roots run] by blast
  then show ?thesis using bfs_ranks(3) [OF roots run] plan_roots_ok [OF roots] by auto
qed

text \<open>
  what \<open>resolve_chain\<close> hands on stays within one cartridge: the cartridge is named, every item
  of the plan belongs to it, and the ranks lie within a depth limit that \<open>conf\<close> cannot raise above 50.
\<close>

theorem resolve_chain_scoped:
  assumes "resolve_chain stack json_loads datasets runs conf = Inr (plan, cartridge)"
  shows "cartridge \<noteq> [] \<and>
    (\<exists>items. plan = map (\<lambda>i. PDict (item_dict i)) items \<and> distinct (map item_name items) \<and>
       (\<forall>i\<in>set items. item_cartridge i = cartridge \<and> 0 \<le> item_rank i \<and> item_rank i \<le> 50))"
proof -
  obtain graph seed_raw seed_dataset max_depth items where
    cartridge: "resolve_cartridge conf graph seed_raw seed_dataset = Inr cartridge" and
    items: "build_plan stack graph seed_raw seed_dataset (max 1 (min max_depth 50)) = Inr items" and
    valid: "validate_plan (map (\<lambda>i. PDict (item_dict i)) items) cartridge = Inr ()" and
    plan: "plan = map (\<lambda>i. PDict (item_dict i)) items"
    using assms by (auto simp: resolve_chain_def Let_def rbind_Inr_iff split: if_splits)
  have "cartridge \<noteq> []"
    using cartridge by (auto simp: resolve_cartridge_def Let_def split: if_splits)
  moreover have "0 \<le> item_rank i \<and> item_rank i \<le> 50" if "i \<in> set items" for i
    using build_plan_rank_le [OF items that] by auto
  moreover have "distinct (map item_name items)" by (rule build_plan_distinct [OF items])
  ultimately show ?thesis using valid plan by (auto simp: validate_plan_iff)
qed

section \<open>Concrete instances\<close>

text \<open>A small workspace, for the concrete instances of the theorems.\<close>

definition sample_rows :: "dataset_row list" where
  "sample_rows =
     [(PStr ''emp'', PStr ''silver'', PStr ''hr'', PList [PStr ''raw/hr/e''], PBool True),
      (PStr ''hc'', PStr ''gold'', PStr ''hr'', PList [PStr ''silver/hr/emp''], PBool False)]"

definition sample_runs :: "run_row list" where
  "sample_runs = [\<lparr>run_cartridge_id = ''HR'', run_entity = ''e'', run_dag_id = ''extract'', run_status = ''success'',
     run_record_count = Some 5, run_storage_uri = None\<rparr>]"

definition sample_graph :: graph where
  "sample_graph =
     [(''emp'', \<lparr>ds_layer = ''silver'', ds_cartridge = ''hr'', ds_sources = [PStr ''raw/hr/e''],
                ds_materialized = True, ds_unextracted_raw = []\<rparr>),
      (''hc'', \<lparr>ds_layer = ''gold'', ds_cartridge = ''hr'', ds_sources = [PStr ''silver/hr/emp''],
                ds_materialized = False, ds_unextracted_raw = []\<rparr>)]"

definition sample_plan :: "plan_item list" where
  "sample_plan =
     [\<lparr>item_name = ''emp'', item_layer = ''silver'', item_cartridge = ''hr'', item_rank = 1,
       item_upstreams = [], item_materialized = True, item_never_materialized = []\<rparr>,
      \<lparr>item_name = ''hc'', item_layer = ''gold'', item_cartridge = ''hr'', item_rank = 2,
       item_upstreams = [''emp''], item_materialized = False, item_never_materialized = []\<rparr>]"

definition sample_conf :: pdict where
  "sample_conf = pdict_of [(''tenant_id'', PStr ''t''), (''workspace_id'', PStr ''w''), (''seed_raw'', PStr ''raw/hr/e'')]"

lemma sample_load: "load_graph (\<lambda>_. None) sample_rows sample_runs = Inr sample_graph"
  by code_simp

lemma sample_build: "build_plan 3 sample_graph ''raw/hr/e'' [] 10 = Inr sample_plan"
  by code_simp

lemma sample_roots: "plan_roots sample_graph ''raw/hr/e'' [] = Inr ([''emp''], [], 1)"
  by code_simp

lemma sample_resolve:
  "resolve_chain 3 (\<lambda>_. None) (\<lambda>_ _. sample_rows) (\<lambda>_ _. sample_runs) sample_conf =
   Inr (map (\<lambda>i. PDict (item_dict i)) sample_plan, ''hr'')"
  by code_simp

theorem plan_exact_witness:
  "distinct (map item_name sample_plan) \<and> (\<exists>k. reaches sample_graph [''emp''] k ''hc'')"
proof -
  have "''hc'' \<in> item_name ` set sample_plan" by (simp add: sample_plan_def)
  then show ?thesis using plan_exact [OF sample_build sample_roots] by blast
qed

theorem plan_topological_witness:
  "sorted (map (\<lambda>i. (item_rank i, item_name i)) sample_plan) \<and>
   item_name (sample_plan ! 0) \<in> set (item_upstreams (sample_plan ! 1))"
  using plan_topological [OF sample_build] by (simp add: sample_plan_def)

theorem plan_errors_witness: "\<not> cyclic_from (rget (reverse_index sample_graph)) [''emp'']"
proof
  assume "cyclic_from (rget (reverse_index sample_graph)) [''emp'']"
  moreover have "length sample_graph < 3" by (simp add: sample_graph_def)
  ultimately have "build_plan 3 sample_graph ''raw/hr/e'' [] 10 = Inl cycle_error"
    using plan_errors [OF sample_roots, of 3 10] by blast
  then show False by (simp add: sample_build)
qed

theorem load_graph_unextracted_witness:
  "distinct (map fst sample_graph) \<and> raw_key (PStr ''raw/hr/e'') = Some ''hr/e'' \<and> raw_extracted sample_runs ''hr/e''"
proof -
  have key: "raw_key (PStr ''raw/hr/e'') = Some ''hr/e''" by code_simp
  have "(''emp'', \<lparr>ds_layer = ''silver'', ds_cartridge = ''hr'', ds_sources = [PStr ''raw/hr/e''],
      ds_materialized = True, ds_unextracted_raw = []\<rparr>) \<in> set sample_graph" by (simp add: sample_graph_def)
  then show ?thesis using load_graph_unextracted [OF sample_load] key by fastforce
qed

theorem resolve_chain_scoped_witness:
  "\<exists>items. map (\<lambda>i. PDict (item_dict i)) sample_plan = map (\<lambda>i. PDict (item_dict i)) items \<and>
     distinct (map item_name items)"
  using resolve_chain_scoped [OF sample_resolve] by blast
end
