(* ===== verification/Contracts.thy ===== *)
theory Contracts
  imports Main
begin

text \<open>
  Contracts between a table that several workers change and the code that relies on it. A client sees
  the table only through an observation of a key; the provider's steps are a relation. Two promises
  recur: what was observed stays (\<open>keeps_entries\<close>), and a number attached to a key never falls (\<open>fenced_tokens\<close>).
  The client's facts about arbitrary sequences of steps are proved here once.
\<close>

locale keeps_entries =
  fixes step :: "'st \<Rightarrow> 'st \<Rightarrow> bool" and entry :: "'st \<Rightarrow> 'k \<Rightarrow> 'v option"
  assumes entry_step: "step s t \<Longrightarrow> entry s k = Some v \<Longrightarrow> entry t k = Some v"
begin

lemma entry_stable: "step\<^sup>*\<^sup>* s t \<Longrightarrow> entry s k = Some v \<Longrightarrow> entry t k = Some v"
  by (induction rule: rtranclp_induct) (auto dest: entry_step)

end

locale fenced_tokens =
  fixes step :: "'st \<Rightarrow> 'st \<Rightarrow> bool" and token :: "'st \<Rightarrow> 'k \<Rightarrow> int"
  assumes token_step: "step s t \<Longrightarrow> token s k \<le> token t k"
begin

lemma token_mono: "step\<^sup>*\<^sup>* s t \<Longrightarrow> token s k \<le> token t k"
  by (induction rule: rtranclp_induct) (auto dest: token_step [of _ _ k])

text \<open>Once the token was raised, a holder of an older one is outlived for good.\<close>

lemma outlived:
  assumes "step\<^sup>*\<^sup>* s0 s1" "token s1 k < token s2 k" "step\<^sup>*\<^sup>* s2 s3"
  shows "token s0 k < token s3 k"
  using token_mono [OF assms(1), of k] assms(2) token_mono [OF assms(3), of k] by linarith

end

end
