(* ===== verification/Refresh_Slots.thy ===== *)
theory Refresh_Slots
  imports Py_Base Contracts
begin

text \<open>
  Leases of the materialisation slots: \<open>airflow/dags/dataset_refresh_idempotency.py\<close>.

  One row of \<open>pipeline_runs\<close> per Airflow run, tenant, workspace and dataset is the slot that makes a
  materialisation happen once. Reserving a slot raises its fencing token and opens a lease; a
  heartbeat extends the lease; finishing closes it. The table is a map from the key of a row to the
  row. Every operation is one transaction: an exception leaves the table as it was. The clocks are
  parameters: the host's clock, which \<open>reserve_materialization\<close> compares with the lease, and the
  database's. \<open>slot_digest\<close> stands for SHA-256.

  The operations are the steps of a transition system. Its invariants, for every interleaving of
  workers: tokens never go down and grow with each reservation, a holder whose slot was taken over can
  neither extend nor finish it, and a published result is never lost or changed.
\<close>

section \<open>Model\<close>

record slot =
  slot_status :: string
  slot_extra :: pv
  slot_expires :: "int option"
  slot_token :: int
  slot_error :: "string option"

type_synonym slot_key = "string \<times> string \<times> string"
type_synonym slot_table = "slot_key \<Rightarrow> slot option"

definition MATERIALIZATION_LAYERS :: "string list" where
  "MATERIALIZATION_LAYERS = [''silver'', ''gold'']"

definition MAX_SKIP_REASON_LENGTH :: nat where
  "MAX_SKIP_REASON_LENGTH = 300"

definition slot_id :: "(string \<Rightarrow> string) \<Rightarrow> string \<Rightarrow> string \<Rightarrow> string \<Rightarrow> string \<Rightarrow> string" where
  "slot_id slot_digest run_id tenant_id workspace_id dataset =
     ''dataset_refresh_item:'' @ slot_digest (join [CHR 0x00] [run_id, tenant_id, workspace_id, dataset])"

definition durable_result :: "slot option \<Rightarrow> pdict option" where
  "durable_result existing =
     (case existing of
        None \<Rightarrow> None
      | Some row \<Rightarrow>
          let extra = (case slot_extra row of PDict d \<Rightarrow> d | _ \<Rightarrow> []);
              result = (case dget extra ''result'' of PDict d \<Rightarrow> d | _ \<Rightarrow> [])
          in if slot_status row = ''success'' then Some result
             else if slot_status row = ''partial'' \<and> dget result ''degraded'' = PBool True then Some result
             else None)"

definition finished_state ::
    "bool \<Rightarrow> pdict option \<Rightarrow> bool \<Rightarrow> string option \<Rightarrow> (string \<times> string option \<times> pdict) pyres" where
  "finished_state success result degraded skipped_reason =
     (if success then
        if skipped_reason \<noteq> None then Inl (RuntimeError ''a published materialization cannot be skipped'')
        else
          let r = (case result of None \<Rightarrow> [] | Some d \<Rightarrow> d);
              layer = strip (str_or (dget r ''layer'') [])
          in if layer \<notin> set MATERIALIZATION_LAYERS
             then Inl (RuntimeError ''materialization outcome layer is unavailable'')
             else rbind (int_or0 (dget r ''row_count'')) (\<lambda>row_count.
               let safe_result = pdict_of [(''name'', PStr (str_or (dget r ''name'') [])),
                     (''row_count'', PInt row_count), (''layer'', PStr layer)]
               in if degraded
                  then Inr (''partial'', Some ''degraded_fallback_published'',
                         pdict_of [(''result'', PDict (dset safe_result ''degraded'' (PBool True)))])
                  else Inr (''success'', None, pdict_of [(''result'', PDict safe_result)]))
      else if degraded then Inl (RuntimeError ''a failed materialization cannot be degraded'')
      else case skipped_reason of
        Some text \<Rightarrow>
          let reason = take MAX_SKIP_REASON_LENGTH (strip text)
          in if reason = [] then Inl (RuntimeError ''materialization skip reason is unavailable'')
             else Inr (''skipped'', Some reason, [])
      | None \<Rightarrow> Inr (''failed'', Some ''materialization_failed'', []))"

definition clamp_lease :: "int \<Rightarrow> int" where
  "clamp_lease lease_seconds = max 30 (min lease_seconds 3600)"

datatype reservation = Completed pdict | Reserved string int

text \<open>
  \<open>reserve_materialization\<close>: \<open>storage\<close> tells whether the table exists; times are in seconds.
\<close>

definition reserve_materialization ::
    "bool \<Rightarrow> int \<Rightarrow> int \<Rightarrow> int \<Rightarrow> slot_key \<Rightarrow> slot_table \<Rightarrow> (reservation \<times> slot_table) pyres" where
  "reserve_materialization storage host_now db_now lease_seconds key table =
     (if \<not> storage then Inl (RuntimeError ''materialization idempotency storage unavailable'')
      else
        let expires = Some (db_now + clamp_lease lease_seconds) in
        case durable_result (table key) of
          Some durable \<Rightarrow> Inr (Completed durable, table)
        | None \<Rightarrow>
            (case table key of
               Some row \<Rightarrow>
                 if slot_status row = ''running'' \<and> (case slot_expires row of None \<Rightarrow> False | Some t \<Rightarrow> host_now < t)
                 then Inl (RuntimeError ''materialization idempotency slot is already active'')
                 else
                   let row' = row\<lparr>slot_status := ''running'', slot_error := None, slot_expires := expires,
                         slot_token := slot_token row + 1\<rparr>
                   in Inr (Reserved (fst key) (slot_token row'), table(key \<mapsto> row'))
             | None \<Rightarrow>
                 let row' = \<lparr>slot_status = ''running'', slot_extra = PDict [], slot_expires = expires,
                       slot_token = 1, slot_error = None\<rparr>
                 in Inr (Reserved (fst key) (slot_token row'), table(key \<mapsto> row'))))"

definition holds_lease :: "slot \<Rightarrow> int \<Rightarrow> int \<Rightarrow> bool" where
  \<comment> \<open>the row that the \<open>UPDATE\<close> statements select\<close>
  "holds_lease row lease_token db_now \<longleftrightarrow>
     slot_status row = ''running'' \<and> slot_token row = lease_token \<and>
     (case slot_expires row of None \<Rightarrow> False | Some t \<Rightarrow> db_now < t)"

definition finish_materialization ::
    "int \<Rightarrow> int \<Rightarrow> bool \<Rightarrow> pdict option \<Rightarrow> bool \<Rightarrow> string option \<Rightarrow> slot_key \<Rightarrow> slot_table \<Rightarrow> slot_table pyres" where
  "finish_materialization db_now lease_token success result degraded skipped_reason key table =
     rbind (finished_state success result degraded skipped_reason) (\<lambda>(status, error_message, extra).
       case table key of
         Some row \<Rightarrow>
           if holds_lease row lease_token db_now
           then Inr (table(key \<mapsto> row\<lparr>slot_status := status, slot_error := error_message,
                  slot_extra := PDict extra, slot_expires := None\<rparr>))
           else Inl (RuntimeError ''materialization idempotency slot unavailable'')
       | None \<Rightarrow> Inl (RuntimeError ''materialization idempotency slot unavailable''))"

definition heartbeat_materialization :: "int \<Rightarrow> int \<Rightarrow> int \<Rightarrow> slot_key \<Rightarrow> slot_table \<Rightarrow> slot_table pyres" where
  "heartbeat_materialization db_now lease_token lease_seconds key table =
     (case table key of
        Some row \<Rightarrow>
          if holds_lease row lease_token db_now
          then Inr (table(key \<mapsto> row\<lparr>slot_expires := Some (db_now + clamp_lease lease_seconds)\<rparr>))
          else Inl (RuntimeError ''materialization lease is unavailable'')
      | None \<Rightarrow> Inl (RuntimeError ''materialization lease is unavailable''))"

section \<open>The transition system\<close>

text \<open>Any worker may reserve, keep or finish any slot at any time.\<close>

inductive slot_step :: "slot_table \<Rightarrow> slot_table \<Rightarrow> bool" where
  step_reserve: "reserve_materialization storage host_now db_now lease_seconds key table = Inr (r, table') \<Longrightarrow>
    slot_step table table'"
| step_heartbeat: "heartbeat_materialization db_now lease_token lease_seconds key table = Inr table' \<Longrightarrow>
    slot_step table table'"
| step_finish: "finish_materialization db_now lease_token success result degraded reason key table = Inr table' \<Longrightarrow>
    slot_step table table'"

inductive_cases slot_stepE: "slot_step table table'"

definition token_of :: "slot_table \<Rightarrow> slot_key \<Rightarrow> int" where
  "token_of table key = (case table key of None \<Rightarrow> 0 | Some row \<Rightarrow> slot_token row)"

definition published :: "slot_table \<Rightarrow> slot_key \<Rightarrow> pdict option" where
  "published table key = durable_result (table key)"

text \<open>
  The contract between the slots and the tasks that use them: tokens only grow and a published result
  stays.
\<close>

locale slot_contract = keeps_entries step result + fenced_tokens step token
  for step :: "'st \<Rightarrow> 'st \<Rightarrow> bool" and token :: "'st \<Rightarrow> 'k \<Rightarrow> int" and result :: "'st \<Rightarrow> 'k \<Rightarrow> 'r option"

lemma map_upd_same_iff [simp]: "m(k \<mapsto> x) = m(k \<mapsto> y) \<longleftrightarrow> x = y"
  by (metis map_upd_eqD1)

lemma reserve_cases:
  assumes "reserve_materialization storage host_now db_now lease_seconds key table = Inr (r, table')"
  shows "(\<exists>d. r = Completed d \<and> durable_result (table key) = Some d \<and> table' = table) \<or>
    (\<exists>row. r = Reserved (fst key) (slot_token row) \<and> durable_result (table key) = None \<and> table' = table(key \<mapsto> row) \<and>
       slot_status row = ''running'' \<and> slot_token row = token_of table key + 1 \<and>
       slot_expires row = Some (db_now + clamp_lease lease_seconds))"
  using assms
  by (auto simp: reserve_materialization_def Let_def token_of_def split: if_splits option.splits)

lemma running_not_durable: "slot_status row = ''running'' \<Longrightarrow> durable_result (Some row) = None"
  by (simp add: durable_result_def Let_def)

lemma holds_lease_running: "holds_lease row t now \<Longrightarrow> slot_status row = ''running'' \<and> slot_token row = t"
  by (simp add: holds_lease_def)

lemma heartbeat_cases:
  assumes "heartbeat_materialization db_now lease_token lease_seconds key table = Inr table'"
  obtains row where "table key = Some row" "holds_lease row lease_token db_now"
    "table' = table(key \<mapsto> row\<lparr>slot_expires := Some (db_now + clamp_lease lease_seconds)\<rparr>)"
  using assms by (auto simp: heartbeat_materialization_def split: option.splits if_splits)

lemma finish_cases:
  assumes "finish_materialization db_now lease_token success result degraded reason key table = Inr table'"
  obtains row status error_message extra where "table key = Some row" "holds_lease row lease_token db_now"
    "finished_state success result degraded reason = Inr (status, error_message, extra)"
    "table' = table(key \<mapsto> row\<lparr>slot_status := status, slot_error := error_message,
       slot_extra := PDict extra, slot_expires := None\<rparr>)"
  using assms by (auto simp: finish_materialization_def rbind_Inr_iff split: option.splits if_splits)

lemma step_token: "slot_step table table' \<Longrightarrow> token_of table k \<le> token_of table' k"
proof (elim slot_stepE)
  fix storage host_now db_now lease_seconds key r
  assume "reserve_materialization storage host_now db_now lease_seconds key table = Inr (r, table')"
  from reserve_cases [OF this] show ?thesis by (auto simp: token_of_def)
next
  fix db_now lease_token lease_seconds key
  assume "heartbeat_materialization db_now lease_token lease_seconds key table = Inr table'"
  then show ?thesis by (rule heartbeat_cases) (auto simp: token_of_def)
next
  fix db_now lease_token success result degraded reason key
  assume "finish_materialization db_now lease_token success result degraded reason key table = Inr table'"
  then show ?thesis by (rule finish_cases) (auto simp: token_of_def)
qed

lemma step_published: "slot_step table table' \<Longrightarrow> published table k = Some d \<Longrightarrow> published table' k = Some d"
proof (elim slot_stepE)
  fix storage host_now db_now lease_seconds key r
  assume "published table k = Some d"
    and "reserve_materialization storage host_now db_now lease_seconds key table = Inr (r, table')"
  with reserve_cases [OF this(2)] show ?thesis by (auto simp: published_def)
next
  fix db_now lease_token lease_seconds key
  assume "published table k = Some d"
    and "heartbeat_materialization db_now lease_token lease_seconds key table = Inr table'"
  then show ?thesis
    by (elim heartbeat_cases) (auto simp: published_def running_not_durable dest: holds_lease_running)
next
  fix db_now lease_token success result degraded reason key
  assume "published table k = Some d"
    and "finish_materialization db_now lease_token success result degraded reason key table = Inr table'"
  then show ?thesis
    by (elim finish_cases) (auto simp: published_def running_not_durable dest: holds_lease_running)
qed

interpretation slots: slot_contract slot_step token_of published
  by unfold_locales (auto intro: step_token step_published)

section \<open>Guarantees\<close>

text \<open>
  C9: fencing. When a slot was reserved and, after any steps of any workers, is reserved again, the
  new token is larger; from then on, after any further steps, the first holder can neither extend nor
  finish the slot.
\<close>

theorem stale_holder_is_fenced:
  assumes "reserve_materialization b1 h1 n1 l1 key table0 = Inr (Reserved s1 t1, table1)"
    and "slot_step\<^sup>*\<^sup>* table1 table2"
    and "reserve_materialization b2 h2 n2 l2 key table2 = Inr (Reserved s2 t2, table3)"
    and "slot_step\<^sup>*\<^sup>* table3 table4"
  shows "t1 < t2 \<and>
    (\<exists>e. heartbeat_materialization now t1 lease_seconds key table4 = Inl e) \<and>
    (\<exists>e. finish_materialization now t1 success result degraded reason key table4 = Inl e)"
proof -
  have t1: "token_of table1 key = t1" using reserve_cases [OF assms(1)] by (auto simp: token_of_def)
  have t2: "t2 = token_of table2 key + 1" "token_of table3 key = t2"
    using reserve_cases [OF assms(3)] by (auto simp: token_of_def)
  have less: "t1 < t2" using slots.token_mono [OF assms(2), of key] t1 t2(1) by simp
  have "t1 < token_of table4 key" using slots.outlived [OF assms(2) _ assms(4), of key] t1 t2 by simp
  then have no: "\<not> holds_lease row t1 now" if "table4 key = Some row" for row
    using that by (auto simp: token_of_def holds_lease_def)
  have "heartbeat_materialization now t1 lease_seconds key table4 \<noteq> Inr x" for x
    using no by (auto elim!: heartbeat_cases)
  moreover have "finish_materialization now t1 success result degraded reason key table4 \<noteq> Inr x" for x
    using no by (auto elim!: finish_cases)
  ultimately show ?thesis using less by (metis sum.exhaust)
qed

text \<open>The result a successful finish publishes.\<close>

definition safe_slot_result :: "pdict \<Rightarrow> int \<Rightarrow> bool \<Rightarrow> pdict" where
  "safe_slot_result r n degraded =
     (let safe = pdict_of [(''name'', PStr (str_or (dget r ''name'') [])), (''row_count'', PInt n),
            (''layer'', PStr (strip (str_or (dget r ''layer'') [])))]
      in if degraded then dset safe ''degraded'' (PBool True) else safe)"

lemma finish_success_published:
  assumes "finish_materialization now token True (Some r) degraded None key table = Inr table'"
  obtains n where "int_or0 (dget r ''row_count'') = Inr n"
    "published table' key = Some (safe_slot_result r n degraded)"
proof -
  obtain row status err extra where fin: "finished_state True (Some r) degraded None = Inr (status, err, extra)"
    and t': "table' = table(key \<mapsto> row\<lparr>slot_status := status, slot_error := err,
       slot_extra := PDict extra, slot_expires := None\<rparr>)"
    using assms by (elim finish_cases) blast
  obtain n where n: "int_or0 (dget r ''row_count'') = Inr n"
    and st: "status = (if degraded then ''partial'' else ''success'')"
      "extra = pdict_of [(''result'', PDict (safe_slot_result r n degraded))]"
    using fin by (auto simp: finished_state_def safe_slot_result_def Let_def rbind_Inr_iff split: if_splits)
  have "published table' key = Some (safe_slot_result r n degraded)"
    using st by (auto simp: t' published_def durable_result_def safe_slot_result_def Let_def dget_dset)
  with n that show ?thesis by blast
qed

text \<open>
  C28: a published result is durable. After a successful finish, and whatever any worker does later,
  every reservation of the slot answers with the result that was published (marked as degraded when
  it was) and hands out no new lease.
\<close>

theorem published_result_is_durable:
  assumes "finish_materialization n1 token True (Some r) degraded None key table0 = Inr table1"
    and "slot_step\<^sup>*\<^sup>* table1 table2"
  shows "\<exists>d. reserve_materialization True host_now db_now lease_seconds key table2 = Inr (Completed d, table2) \<and>
    dget d ''name'' = PStr (str_or (dget r ''name'') []) \<and>
    dget d ''layer'' = PStr (strip (str_or (dget r ''layer'') [])) \<and>
    int_or0 (dget r ''row_count'') = (case dget d ''row_count'' of PInt n \<Rightarrow> Inr n | _ \<Rightarrow> Inl TypeError) \<and>
    dget d ''degraded'' = (if degraded then PBool True else PNone)"
proof -
  obtain n where n: "int_or0 (dget r ''row_count'') = Inr n"
    and "published table1 key = Some (safe_slot_result r n degraded)"
    using assms(1) by (rule finish_success_published)
  then have "published table2 key = Some (safe_slot_result r n degraded)"
    by (intro slots.entry_stable [OF assms(2)])
  then have "reserve_materialization True host_now db_now lease_seconds key table2 =
      Inr (Completed (safe_slot_result r n degraded), table2)"
    by (simp add: reserve_materialization_def Let_def published_def)
  then show ?thesis
    using n by (intro exI [of _ "safe_slot_result r n degraded"]) (simp add: safe_slot_result_def dget_dset Let_def)
qed

text \<open>
  exclusion. While a slot is held under a lease that has not run out on the host's clock, every
  further reservation is refused; the holder's own finish within the lease is accepted.
\<close>

theorem active_lease_excludes:
  assumes "reserve_materialization True h1 n1 lease_seconds key table0 = Inr (Reserved s t, table1)"
    and "h2 < n1 + clamp_lease lease_seconds" and "n2 < n1 + clamp_lease lease_seconds"
    and "finished_state success result degraded reason = Inr fin"
  shows "reserve_materialization True h2 n2 lease2 key table1 =
      Inl (RuntimeError ''materialization idempotency slot is already active'') \<and>
    (\<exists>table2. finish_materialization n2 t success result degraded reason key table1 = Inr table2 \<and>
       slot_status (the (table2 key)) = fst fin \<and> (\<forall>k. k \<noteq> key \<longrightarrow> table2 k = table0 k))"
proof -
  obtain row where row: "table1 = table0(key \<mapsto> row)" "slot_status row = ''running''" "slot_token row = t"
      "slot_expires row = Some (n1 + clamp_lease lease_seconds)"
    using reserve_cases [OF assms(1)] by auto
  have "reserve_materialization True h2 n2 lease2 key table1 =
      Inl (RuntimeError ''materialization idempotency slot is already active'')"
    using row assms(2) running_not_durable [OF row(2)]
    by (simp add: reserve_materialization_def Let_def)
  moreover have "holds_lease row t n2" using row assms(3) by (simp add: holds_lease_def)
  ultimately show ?thesis
    using assms(4) row(1) by (auto simp: finish_materialization_def split: prod.splits)
qed

section \<open>Concrete instances\<close>

definition slot_a :: slot_key where
  "slot_a = (''dataset_refresh_item:x'', ''t'', ''w'')"

definition row_a :: "int \<Rightarrow> int \<Rightarrow> slot" where
  "row_a token expires = \<lparr>slot_status = ''running'', slot_extra = PDict [], slot_expires = Some expires,
     slot_token = token, slot_error = None\<rparr>"

lemma reserve_first:
  "reserve_materialization True 0 0 900 slot_a Map.empty =
     Inr (Reserved (fst slot_a) 1, Map.empty(slot_a \<mapsto> row_a 1 900))"
  by (simp add: reserve_materialization_def clamp_lease_def durable_result_def row_a_def Let_def)

lemma reserve_second:
  "reserve_materialization True 1000 1000 900 slot_a (Map.empty(slot_a \<mapsto> row_a 1 900)) =
     Inr (Reserved (fst slot_a) 2, Map.empty(slot_a \<mapsto> row_a 2 1900))"
  by (simp add: reserve_materialization_def clamp_lease_def durable_result_def row_a_def Let_def)

theorem stale_holder_is_fenced_witness:
  "\<exists>e. finish_materialization 1001 1 False None False None slot_a (Map.empty(slot_a \<mapsto> row_a 2 1900)) = Inl e"
  using stale_holder_is_fenced [OF reserve_first rtranclp.rtrancl_refl reserve_second rtranclp.rtrancl_refl]
  by blast

theorem published_result_is_durable_witness:
  "\<exists>table d. reserve_materialization True 5000 5000 900 slot_a table = Inr (Completed d, table) \<and>
     dget d ''name'' = PStr ''hc'' \<and> dget d ''layer'' = PStr ''gold''"
proof -
  let ?r = "pdict_of [(''name'', PStr ''hc''), (''layer'', PStr ''gold''), (''row_count'', PInt 7)]"
  have strip: "strip ''gold'' = ''gold''" by code_simp
  obtain table where "finish_materialization 5 1 True (Some ?r) False None slot_a (Map.empty(slot_a \<mapsto> row_a 1 900)) = Inr table"
    using strip by (simp add: finish_materialization_def finished_state_def MATERIALIZATION_LAYERS_def
      holds_lease_def row_a_def Let_def)
  from published_result_is_durable [OF this rtranclp.rtrancl_refl] show ?thesis
    using strip by force
qed

theorem active_lease_excludes_witness:
  "reserve_materialization True 5 5 900 slot_a (Map.empty(slot_a \<mapsto> row_a 1 900)) =
     Inl (RuntimeError ''materialization idempotency slot is already active'')"
  using active_lease_excludes [OF reserve_first, of 5 5 False None False None "(''failed'', Some ''materialization_failed'', [])"]
  by (simp add: clamp_lease_def finished_state_def)

end
