(* ===== verification/Refresh_Materialize.thy ===== *)
theory Refresh_Materialize
  imports Refresh_Graph Refresh_Outcome Refresh_Slots
begin

text \<open>
  The materialisation task: \<open>airflow/dags/dataset_refresh_materialize.py\<close>.

  \<open>materialize_in_order\<close> walks the plan, reserves the slot of each dataset, skips a dataset whose
  upstream failed, asks the refinement service for the others and records one result per item. The
  world outside is given per plan position by an \<open>item_env\<close>: the clocks, whether the signed context
  could be built, how the service job ended, and what the heartbeats and the other workers did to the
  slot table meanwhile. An exception that leaves the task carries the slot table, since the
  transactions before it are committed.

  The theorems: one result per planned dataset, in order; a report that the outcome rules believe;
  nothing is published downstream of a failure; what was published stays published.
\<close>

section \<open>Results\<close>

definition safe_result :: "string \<Rightarrow> pdict \<Rightarrow> bool \<Rightarrow> string \<Rightarrow> pdict pyres" where
  "safe_result name payload reused classification =
     rbind (int_or0 (dget payload ''row_count'')) (\<lambda>row_count.
       Inr (pdict_of [(''name'', PStr name), (''layer'', PStr (str_or (dget payload ''layer'') [])),
          (''ok'', PBool True), (''classification'', PStr classification), (''reused'', PBool reused),
          (''row_count'', PInt row_count)]))"

definition skipped_result :: "string \<Rightarrow> string \<Rightarrow> pdict" where
  "skipped_result name reason = pdict_of
     [(''name'', PStr name), (''ok'', PBool False), (''classification'', PStr RESULT_SKIPPED), (''reason'', PStr reason)]"

fun type_name :: "mat_exc \<Rightarrow> string" where
  "type_name (ServiceJobError c r) = ''ServiceJobError''"
| "type_name (HTTPStatusError c) = ''HTTPStatusError''"
| "type_name (OtherException n) = n"
| "type_name (PyExc (ValueError m)) = ''ValueError''"
| "type_name (PyExc TypeError) = ''TypeError''"
| "type_name (PyExc (KeyError k)) = ''KeyError''"
| "type_name (PyExc IndexError) = ''IndexError''"
| "type_name (PyExc AttributeError) = ''AttributeError''"
| "type_name (PyExc OverflowError) = ''OverflowError''"
| "type_name (PyExc (RuntimeError m)) = ''RuntimeError''"
| "type_name (PyExc (PermissionError m)) = ''PermissionError''"
| "type_name (PyExc (DatabaseError n)) = n"

definition failed_result :: "string \<Rightarrow> mat_exc \<Rightarrow> pdict" where
  "failed_result name exc = pdict_of
     [(''name'', PStr name), (''ok'', PBool False), (''classification'', PStr RESULT_FAILED),
      (''error_code'', PStr (type_name exc))]"

definition plan_names :: "pdict \<Rightarrow> string \<Rightarrow> string list pyres" where
  "plan_names item key =
     (case py_or (dget item key) (PList []) of
        PList entries \<Rightarrow>
          if list_all (\<lambda>e. is_str e \<and> truthy e) entries then Inr (map py_str entries)
          else Inl (RuntimeError ''dataset refresh plan is malformed'')
      | _ \<Rightarrow> Inl (RuntimeError ''dataset refresh plan is malformed''))"

fun absent_sources :: "bool \<Rightarrow> string list \<Rightarrow> string list \<Rightarrow> string list \<Rightarrow> string list" where
  \<comment> \<open>the loop over \<open>never_materialized\<close>; \<open>settled\<close>: the item's \<open>materialized\<close> is not False\<close>
  "absent_sources settled refreshed absent [] = absent"
| "absent_sources settled refreshed absent (source # never) =
     (if source \<in> set refreshed \<or> source \<in> set absent then absent_sources settled refreshed absent never
      else if startswith source ''raw/'' \<and> settled then absent_sources settled refreshed absent never
      else absent_sources settled refreshed (absent @ [source]) never)"

definition structural_absence ::
    "pdict \<Rightarrow> string list \<Rightarrow> string list \<Rightarrow> string list \<Rightarrow> string list \<Rightarrow> mat_exc \<Rightarrow> string option" where
  "structural_absence item upstreams never_materialized refreshed structurally_skipped exc =
     (if missing_source_error_code exc = None then None
      else
        let absent = absent_sources (dget item ''materialized'' \<noteq> PBool False) refreshed
              (filter (\<lambda>u. u \<in> set structurally_skipped) upstreams) never_materialized
        in if absent \<noteq> [] then Some (''upstream_never_materialized:'' @ hd absent)
           else case outdated_dependency exc of
             Some outdated \<Rightarrow>
               if outdated \<in> set upstreams \<and> outdated \<notin> set refreshed
               then Some (''upstream_outdated:'' @ outdated) else None
           | None \<Rightarrow> None)"

definition reused_layer :: "pdict \<Rightarrow> pdict \<Rightarrow> string pyres" where
  "reused_layer item payload =
     (let planned = strip (str_or (dget item ''layer'') []);
          durable = strip (str_or (dget payload ''layer'') [])
      in if planned \<noteq> [] \<and> durable \<noteq> [] \<and> planned \<noteq> durable
         then Inl (RuntimeError ''reused materialization layer contradicts the plan'')
         else
           let layer = (if durable = [] then planned else durable)
           in if layer \<notin> set MATERIALIZATION_LAYERS
              then Inl (RuntimeError ''reused materialization layer is unavailable'')
              else Inr layer)"

section \<open>Calling the service\<close>

text \<open>How the job ended, as \<open>run_service_job\<close> returns or raises it, and what the caller sees.\<close>

definition is_denied :: "pv \<Rightarrow> bool" where
  "is_denied status \<longleftrightarrow> py_eq status (PInt 401) \<or> py_eq status (PInt 403)"

definition invoke_materialize :: "mat_exc + pv \<Rightarrow> mat_exc + pv" where
  "invoke_materialize job =
     (case job of
        Inr payload \<Rightarrow> Inr payload
      | Inl (ServiceJobError status result) \<Rightarrow>
          if is_list status \<or> is_dict status then Inl (PyExc TypeError)
          else if is_denied status then Inl (PyExc (PermissionError ''refinement rejected runtime authority''))
          else Inl (ServiceJobError status result)
      | Inl (HTTPStatusError status) \<Rightarrow>
          if status \<in> {401, 403} then Inl (PyExc (PermissionError ''refinement rejected runtime authority''))
          else Inl (PyExc (RuntimeError ''operational dependency unavailable''))
      | Inl e \<Rightarrow> Inl e)"

record item_env =
  env_storage :: bool
  env_host_now :: int
  env_reserve_now :: int
  env_context :: "pyexc option"
  env_job :: "mat_exc + pv"
  env_meanwhile :: "slot_table \<Rightarrow> slot_table"
  env_finish_now :: int

record mat_conf =
  mc_run_id :: string
  mc_tenant :: string
  mc_workspace :: string
  mc_digest :: "string \<Rightarrow> string"

record mat_state =
  ms_results :: "pdict list"
  ms_refreshed :: "string list"
  ms_failure_chain :: "string list"
  ms_structurally_skipped :: "string list"
  ms_table :: slot_table

type_synonym 'a mat_res = "(pyexc \<times> slot_table) + 'a"

definition raised :: "slot_table \<Rightarrow> 'a pyres \<Rightarrow> 'a mat_res" where
  "raised table m = (case m of Inl e \<Rightarrow> Inl (e, table) | Inr x \<Rightarrow> Inr x)"

definition item_key :: "mat_conf \<Rightarrow> string \<Rightarrow> slot_key" where
  "item_key conf name =
     (slot_id (mc_digest conf) (mc_run_id conf) (mc_tenant conf) (mc_workspace conf) name,
      mc_tenant conf, mc_workspace conf)"

definition authority_failed :: pyexc where
  "authority_failed = RuntimeError ''runtime materialization authority failed closed''"

fun fails_closed :: "mat_exc \<Rightarrow> bool" where
  \<comment> \<open>\<open>isinstance(exc, (PermissionError, ValueError))\<close>\<close>
  "fails_closed (PyExc (PermissionError m)) = True"
| "fails_closed (PyExc (ValueError m)) = True"
| "fails_closed _ = False"

text \<open>The \<open>except\<close> branch of one item.\<close>

definition handle_exception ::
    "(bool \<Rightarrow> pdict option \<Rightarrow> bool \<Rightarrow> string option \<Rightarrow> slot_table \<Rightarrow> slot_table pyres)
     \<Rightarrow> pdict \<Rightarrow> string \<Rightarrow> string list \<Rightarrow> string list \<Rightarrow> mat_state \<Rightarrow> mat_exc \<Rightarrow> mat_state mat_res" where
  "handle_exception finish item name upstreams never st exc =
     (let table = ms_table st in
      if fails_closed exc
      then rbind (raised table (finish False None False None table)) (\<lambda>table'. Inl (authority_failed, table'))
      else case structural_absence item upstreams never (ms_refreshed st) (ms_structurally_skipped st) exc of
        Some reason \<Rightarrow>
          rbind (raised table (finish False None False (Some reason) table)) (\<lambda>table'.
            Inr (st\<lparr>ms_results := ms_results st @ [skipped_result name reason],
                    ms_structurally_skipped := name # ms_structurally_skipped st, ms_table := table'\<rparr>))
      | None \<Rightarrow>
          rbind (raised table (finish False None False None table)) (\<lambda>table'.
            Inr (st\<lparr>ms_results := ms_results st @ [failed_result name exc],
                    ms_failure_chain := name # ms_failure_chain st, ms_table := table'\<rparr>)))"

text \<open>The \<open>try\<close> block: the job's answer is classified, made safe and recorded in the slot.\<close>

definition as_mat :: "'a pyres \<Rightarrow> mat_exc + 'a" where
  "as_mat m = (case m of Inl e \<Rightarrow> Inl (PyExc e) | Inr x \<Rightarrow> Inr x)"

definition publish ::
    "(bool \<Rightarrow> pdict option \<Rightarrow> bool \<Rightarrow> string option \<Rightarrow> slot_table \<Rightarrow> slot_table pyres)
     \<Rightarrow> string \<Rightarrow> mat_exc + pv \<Rightarrow> slot_table \<Rightarrow> mat_exc + (pdict \<times> slot_table)" where
  "publish finish name job table =
     rbind (invoke_materialize job) (\<lambda>raw_payload.
     rbind (as_mat (classify_materialization_payload raw_payload name)) (\<lambda>(classification, payload).
     rbind (as_mat (safe_result name payload False classification)) (\<lambda>safe.
     rbind (as_mat (finish True (Some safe) (classification = RESULT_DEGRADED) None table)) (\<lambda>table'.
       Inr (safe, table')))))"

section \<open>The loop\<close>

definition blocking_upstream :: "string list \<Rightarrow> string list \<Rightarrow> string option" where
  "blocking_upstream upstreams failure_chain = find (\<lambda>up. up \<in> set failure_chain) upstreams"

text \<open>The rest of the loop body once the slot is reserved.\<close>

definition run_reserved ::
    "item_env \<Rightarrow> slot_key \<Rightarrow> int \<Rightarrow> pdict \<Rightarrow> string \<Rightarrow> string list \<Rightarrow> string list \<Rightarrow> mat_state \<Rightarrow> mat_state mat_res" where
  "run_reserved env key lease_token item name upstreams never st =
     (let finish = (\<lambda>success result degraded reason table.
            finish_materialization (env_finish_now env) lease_token success result degraded reason key table);
          table = ms_table st
      in case blocking_upstream upstreams (ms_failure_chain st) of
        Some blocking \<Rightarrow>
          let reason = ''upstream_not_refreshed:'' @ blocking in
          rbind (raised table (finish False None False (Some reason) table)) (\<lambda>table'.
            Inr (st\<lparr>ms_results := ms_results st @ [skipped_result name reason],
                    ms_failure_chain := name # ms_failure_chain st, ms_table := table'\<rparr>))
      | None \<Rightarrow>
          (case env_context env of
             Some e \<Rightarrow>
               (case e of
                  RuntimeError m \<Rightarrow>
                    rbind (raised table (finish False None False None table)) (\<lambda>table'. Inl (authority_failed, table'))
                | ValueError m \<Rightarrow>
                    rbind (raised table (finish False None False None table)) (\<lambda>table'. Inl (authority_failed, table'))
                | _ \<Rightarrow> Inl (e, table))
           | None \<Rightarrow>
               let table1 = env_meanwhile env table in
               (case publish finish name (env_job env) table1 of
                  Inr (safe, table') \<Rightarrow>
                    Inr (st\<lparr>ms_results := ms_results st @ [safe], ms_refreshed := name # ms_refreshed st,
                            ms_table := table'\<rparr>)
                | Inl exc \<Rightarrow>
                    handle_exception finish item name upstreams never (st\<lparr>ms_table := table1\<rparr>) exc)))"

definition run_item :: "mat_conf \<Rightarrow> item_env \<Rightarrow> mat_state \<Rightarrow> pdict \<Rightarrow> mat_state mat_res" where
  "run_item conf env st item =
     (let table = ms_table st in
      rbind (raised table (dindex item ''name'')) (\<lambda>name_value.
        let name = py_str name_value; key = item_key conf name in
      rbind (raised table (plan_names item ''upstreams'')) (\<lambda>upstreams.
      rbind (raised table (plan_names item ''never_materialized_upstreams'')) (\<lambda>never.
      rbind (raised table (reserve_materialization (env_storage env) (env_host_now env) (env_reserve_now env) 900 key table))
        (\<lambda>(reservation, table').
           case reservation of
             Completed durable \<Rightarrow>
               rbind (raised table' (reused_layer item durable)) (\<lambda>layer.
               rbind (raised table' (safe_result name (dset durable ''layer'' (PStr layer)) True
                   (if dget durable ''degraded'' = PBool True then RESULT_DEGRADED else RESULT_OK))) (\<lambda>safe.
                 Inr (st\<lparr>ms_results := ms_results st @ [safe], ms_refreshed := name # ms_refreshed st,
                         ms_table := table'\<rparr>)))
           | Reserved slot lease_token \<Rightarrow>
               run_reserved env key lease_token item name upstreams never (st\<lparr>ms_table := table'\<rparr>))))))"

fun run_items :: "mat_conf \<Rightarrow> (nat \<Rightarrow> item_env) \<Rightarrow> nat \<Rightarrow> mat_state \<Rightarrow> pv list \<Rightarrow> mat_state mat_res" where
  "run_items conf env n st [] = Inr st"
| "run_items conf env n st (item # plan) =
     (case item of
        PDict d \<Rightarrow> rbind (run_item conf (env n) st d) (\<lambda>st'. run_items conf env (Suc n) st' plan)
      | _ \<Rightarrow> Inl (TypeError, ms_table st))"

definition count_class :: "pdict list \<Rightarrow> string \<Rightarrow> int" where
  "count_class results c = int (length (filter (\<lambda>r. dget r ''classification'' = PStr c) results))"

definition report_of :: "pdict list \<Rightarrow> pdict" where
  "report_of results =
     (let breakdown = map (\<lambda>c. (c, count_class results c)) RESULT_CLASSES
      in pdict_of
        [(''materialized'', PInt (count_of breakdown RESULT_OK + count_of breakdown RESULT_DEGRADED)),
         (''results'', PList (map PDict results)), (''status'', PStr ''completed''),
         (''breakdown'', PDict (counts_dict breakdown))])"

definition empty_report :: pdict where
  "empty_report = pdict_of
     [(''materialized'', PInt 0), (''results'', PList []), (''status'', PStr ''no_downstream_datasets''),
      (''breakdown'', PDict (counts_dict zero_counts))]"

text \<open>
  The task: what it pushes to XCom (None when it raised before), whether it then raises, and the slot
  table it leaves behind.
\<close>

definition materialize_in_order ::
    "(string \<Rightarrow> string) \<Rightarrow> string \<Rightarrow> (nat \<Rightarrow> item_env) \<Rightarrow> pv list \<Rightarrow> pv \<Rightarrow> pdict \<Rightarrow> slot_table
     \<Rightarrow> pdict option \<times> pyexc option \<times> slot_table" where
  "materialize_in_order slot_digest run_id env plan cartridge conf table =
     (case required_scope conf of
        Inl e \<Rightarrow> (None, Some e, table)
      | Inr (tenant_id, workspace_id) \<Rightarrow>
          let cartridge_id = strip (py_str (py_or (py_or cartridge (dget conf ''cartridge_id'')) (PStr []))) in
          if cartridge_id = [] then (None, Some (RuntimeError ''scoped cartridge is unavailable''), table)
          else (case validate_plan plan cartridge_id of
            Inl e \<Rightarrow> (None, Some e, table)
          | Inr _ \<Rightarrow>
              if plan = [] then (Some empty_report, None, table)
              else (case run_items
                    \<lparr>mc_run_id = run_id, mc_tenant = tenant_id, mc_workspace = workspace_id, mc_digest = slot_digest\<rparr> env 0
                    \<lparr>ms_results = [], ms_refreshed = [], ms_failure_chain = [], ms_structurally_skipped = [],
                     ms_table = table\<rparr> plan of
                  Inl (e, table') \<Rightarrow> (None, Some e, table')
                | Inr st \<Rightarrow>
                    (Some (report_of (ms_results st)),
                     if count_class (ms_results st) RESULT_FAILED \<noteq> 0 \<and> \<not> truthy (dget conf ''allow_partial'')
                     then Some (RuntimeError ''dataset_refresh_chain has failed materializations'') else None,
                     ms_table st))))"

section \<open>Specification of one item\<close>

definition published_as :: "string \<Rightarrow> bool \<Rightarrow> string \<Rightarrow> pdict \<Rightarrow> bool" where
  "published_as name reused c r \<longleftrightarrow> c \<in> set PUBLISHED_CLASSES \<and>
     (\<exists>layer n. r = pdict_of [(''name'', PStr name), (''layer'', PStr layer), (''ok'', PBool True),
        (''classification'', PStr c), (''reused'', PBool reused), (''row_count'', PInt n)])"

definition absence_reason :: "string \<Rightarrow> bool" where
  "absence_reason reason \<longleftrightarrow>
     startswith reason ''upstream_never_materialized:'' \<or> startswith reason ''upstream_outdated:''"

text \<open>
  What handling one dataset may do: reuse a durable result, skip because of a failed upstream, or,
  with no failed upstream, publish (and then the slot holds the result), skip for an absent input,
  or fail. The slots only move along their own steps.
\<close>

inductive mat_step :: "mat_conf \<Rightarrow> string \<Rightarrow> string list \<Rightarrow> mat_state \<Rightarrow> mat_state \<Rightarrow> bool"
  for conf name upstreams st where
  reuse: "published (ms_table st) (item_key conf name) = Some d \<Longrightarrow> published_as name True c r \<Longrightarrow>
    mat_step conf name upstreams st
      (st\<lparr>ms_results := ms_results st @ [r], ms_refreshed := name # ms_refreshed st\<rparr>)"
| block: "up \<in> set upstreams \<Longrightarrow> up \<in> set (ms_failure_chain st) \<Longrightarrow> slot_step\<^sup>*\<^sup>* (ms_table st) t \<Longrightarrow>
    mat_step conf name upstreams st
      (st\<lparr>ms_results := ms_results st @ [skipped_result name (''upstream_not_refreshed:'' @ up)],
          ms_failure_chain := name # ms_failure_chain st, ms_table := t\<rparr>)"
| publish: "set upstreams \<inter> set (ms_failure_chain st) = {} \<Longrightarrow> published_as name False c r \<Longrightarrow>
    slot_step\<^sup>*\<^sup>* (ms_table st) t \<Longrightarrow> published t (item_key conf name) = Some d \<Longrightarrow>
    mat_step conf name upstreams st
      (st\<lparr>ms_results := ms_results st @ [r], ms_refreshed := name # ms_refreshed st, ms_table := t\<rparr>)"
| absent: "set upstreams \<inter> set (ms_failure_chain st) = {} \<Longrightarrow> absence_reason reason \<Longrightarrow>
    slot_step\<^sup>*\<^sup>* (ms_table st) t \<Longrightarrow>
    mat_step conf name upstreams st
      (st\<lparr>ms_results := ms_results st @ [skipped_result name reason],
          ms_structurally_skipped := name # ms_structurally_skipped st, ms_table := t\<rparr>)"
| fail: "set upstreams \<inter> set (ms_failure_chain st) = {} \<Longrightarrow> slot_step\<^sup>*\<^sup>* (ms_table st) t \<Longrightarrow>
    mat_step conf name upstreams st
      (st\<lparr>ms_results := ms_results st @ [failed_result name exc],
          ms_failure_chain := name # ms_failure_chain st, ms_table := t\<rparr>)"

lemma raised_Inr [simp]: "raised t m = Inr x \<longleftrightarrow> m = Inr x"
  by (cases m) (simp_all add: raised_def)

lemma as_mat_Inr [simp]: "as_mat m = Inr x \<longleftrightarrow> m = Inr x"
  by (cases m) (simp_all add: as_mat_def)

lemma safe_result_published:
  "safe_result name payload reused c = Inr r \<Longrightarrow> c \<in> set PUBLISHED_CLASSES \<Longrightarrow> published_as name reused c r"
  by (auto simp: safe_result_def published_as_def rbind_Inr_iff)

lemma structural_absence_reason:
  "structural_absence item upstreams never refreshed skipped exc = Some reason \<Longrightarrow> absence_reason reason"
  by (auto simp: structural_absence_def absence_reason_def Let_def startswith_iff split: if_splits option.splits)

lemma finish_step: "finish_materialization now token success result degraded reason key table = Inr table' \<Longrightarrow>
    slot_step\<^sup>*\<^sup>* table table'"
  by (blast intro: step_finish)

lemma reserve_step: "reserve_materialization b h n l key table = Inr (r, table') \<Longrightarrow> slot_step\<^sup>*\<^sup>* table table'"
  by (blast intro: step_reserve)

lemma classify_published:
  assumes "classify_materialization_payload payload name = Inr (c, out)"
  shows "c \<in> set PUBLISHED_CLASSES"
proof -
  from assms obtain d where d: "checked payload = Inr d"
    by (auto simp: classify_materialization_payload_def rbind_Inr_iff)
  with assms show ?thesis
    by (auto simp: classify_materialization_payload_def PUBLISHED_CLASSES_def rbind_Inr_iff split: if_splits
      dest!: fallback_payload_Inr status_payload_Inr)
qed

text \<open>The code implements the specification.\<close>

lemma run_reserved_refines:
  assumes run: "run_reserved env (item_key conf name) token item name upstreams never st = Inr st'"
    and env: "\<And>t. slot_step\<^sup>*\<^sup>* t (env_meanwhile env t)"
    and start: "slot_step\<^sup>*\<^sup>* t0 (ms_table st)"
  shows "mat_step conf name upstreams (st\<lparr>ms_table := t0\<rparr>) st'"
proof (cases "blocking_upstream upstreams (ms_failure_chain st)")
  case (Some up)
  then have "up \<in> set upstreams" "up \<in> set (ms_failure_chain st)"
    by (auto simp: blocking_upstream_def find_Some_iff)
  moreover from run Some obtain t where
    t: "finish_materialization (env_finish_now env) token False None False (Some (''upstream_not_refreshed:'' @ up))
        (item_key conf name) (ms_table st) = Inr t"
    and st': "st' = st\<lparr>ms_results := ms_results st @ [skipped_result name (''upstream_not_refreshed:'' @ up)],
        ms_failure_chain := name # ms_failure_chain st, ms_table := t\<rparr>"
    by (auto simp: run_reserved_def Let_def rbind_Inr_iff)
  moreover have "slot_step\<^sup>*\<^sup>* t0 t" using start finish_step [OF t] by (rule rtranclp_trans)
  ultimately show ?thesis
    using mat_step.block [of up upstreams "st\<lparr>ms_table := t0\<rparr>" t conf name] by simp
next
  case None
  then have free: "set upstreams \<inter> set (ms_failure_chain st) = {}"
    by (auto simp: blocking_upstream_def find_None_iff)
  let ?finish = "\<lambda>success result degraded reason table.
      finish_materialization (env_finish_now env) token success result degraded reason (item_key conf name) table"
  let ?t1 = "env_meanwhile env (ms_table st)"
  have t1: "slot_step\<^sup>*\<^sup>* t0 ?t1" using start env by (rule rtranclp_trans)
  have ctx: "env_context env = None"
    using run None by (auto simp: run_reserved_def Let_def rbind_Inr_iff split: option.splits pyexc.splits)
  show ?thesis
  proof (cases "publish ?finish name (env_job env) ?t1")
    case (Inr st1)
    then obtain safe t where pub: "publish ?finish name (env_job env) ?t1 = Inr (safe, t)" by (cases st1) auto
    then obtain c payload where c: "c \<in> set PUBLISHED_CLASSES"
      and safe: "safe_result name payload False c = Inr safe"
      and fin: "?finish True (Some safe) (c = RESULT_DEGRADED) None ?t1 = Inr t"
      by (auto simp: publish_def rbind_Inr_iff dest: classify_published)
    obtain d where d: "published t (item_key conf name) = Some d"
      using fin by (rule finish_success_published)
    have "slot_step\<^sup>*\<^sup>* t0 t" using t1 finish_step [OF fin] by (rule rtranclp_trans)
    moreover have "st' = st\<lparr>ms_results := ms_results st @ [safe], ms_refreshed := name # ms_refreshed st, ms_table := t\<rparr>"
      using run None ctx pub by (simp add: run_reserved_def Let_def)
    ultimately show ?thesis
      using mat_step.publish [of upstreams "st\<lparr>ms_table := t0\<rparr>" name c safe t conf d] free d
        safe_result_published [OF safe c] by simp
  next
    case (Inl exc)
    then have hdl: "handle_exception ?finish item name upstreams never (st\<lparr>ms_table := ?t1\<rparr>) exc = Inr st'"
      using run None ctx by (simp add: run_reserved_def Let_def)
    then have closed: "\<not> fails_closed exc"
      by (auto simp: handle_exception_def Let_def rbind_Inr_iff split: if_splits)
    show ?thesis
    proof (cases "structural_absence item upstreams never (ms_refreshed st) (ms_structurally_skipped st) exc")
      case None
      with hdl closed obtain t where fin: "?finish False None False None ?t1 = Inr t"
        and st': "st' = st\<lparr>ms_results := ms_results st @ [failed_result name exc],
          ms_failure_chain := name # ms_failure_chain st, ms_table := t\<rparr>"
        by (auto simp: handle_exception_def Let_def rbind_Inr_iff)
      have "slot_step\<^sup>*\<^sup>* t0 t" using t1 finish_step [OF fin] by (rule rtranclp_trans)
      then show ?thesis
        using mat_step.fail [of upstreams "st\<lparr>ms_table := t0\<rparr>" t conf name exc] free st' by simp
    next
      case (Some reason)
      with hdl closed obtain t where fin: "?finish False None False (Some reason) ?t1 = Inr t"
        and st': "st' = st\<lparr>ms_results := ms_results st @ [skipped_result name reason],
          ms_structurally_skipped := name # ms_structurally_skipped st, ms_table := t\<rparr>"
        by (auto simp: handle_exception_def Let_def rbind_Inr_iff)
      have "slot_step\<^sup>*\<^sup>* t0 t" using t1 finish_step [OF fin] by (rule rtranclp_trans)
      then show ?thesis
        using mat_step.absent [of upstreams "st\<lparr>ms_table := t0\<rparr>" reason t conf name]
          free st' structural_absence_reason [OF Some] by simp
    qed
  qed
qed

lemma run_item_refines:
  assumes run: "run_item conf env st item = Inr st'"
    and env: "\<And>t. slot_step\<^sup>*\<^sup>* t (env_meanwhile env t)"
  shows "\<exists>upstreams. plan_names item ''upstreams'' = Inr upstreams \<and>
    mat_step conf (py_str (dget item ''name'')) upstreams st st'"
proof -
  let ?name = "py_str (dget item ''name'')"
  have nm: "dindex item ''name'' = Inr (dget item ''name'')"
    using run by (auto simp: run_item_def Let_def rbind_Inr_iff dindex_def dget_def split: option.splits)
  obtain upstreams never res t where
    ups: "plan_names item ''upstreams'' = Inr upstreams"
    and reserve: "reserve_materialization (env_storage env) (env_host_now env) (env_reserve_now env) 900
      (item_key conf ?name) (ms_table st) = Inr (res, t)"
    and body: "(case res of
             Completed durable \<Rightarrow>
               rbind (raised t (reused_layer item durable)) (\<lambda>layer.
               rbind (raised t (safe_result ?name (dset durable ''layer'' (PStr layer)) True
                   (if dget durable ''degraded'' = PBool True then RESULT_DEGRADED else RESULT_OK))) (\<lambda>safe.
                 Inr (st\<lparr>ms_results := ms_results st @ [safe], ms_refreshed := ?name # ms_refreshed st,
                         ms_table := t\<rparr>)))
           | Reserved slot lease_token \<Rightarrow>
               run_reserved env (item_key conf ?name) lease_token item ?name upstreams never (st\<lparr>ms_table := t\<rparr>)) = Inr st'"
    using run by (auto simp: run_item_def Let_def rbind_Inr_iff nm)
  have step: "slot_step\<^sup>*\<^sup>* (ms_table st) t" by (rule reserve_step [OF reserve])
  show ?thesis
  proof (cases res)
    case (Completed durable)
    with reserve_cases [OF reserve] have t: "t = ms_table st" and d: "published (ms_table st) (item_key conf ?name) = Some durable"
      by (auto simp: published_def)
    let ?c = "if dget durable ''degraded'' = PBool True then RESULT_DEGRADED else RESULT_OK"
    from body Completed obtain layer safe where
      safe: "safe_result ?name (dset durable ''layer'' (PStr layer)) True ?c = Inr safe"
      and st': "st' = st\<lparr>ms_results := ms_results st @ [safe], ms_refreshed := ?name # ms_refreshed st, ms_table := t\<rparr>"
      by (auto simp: rbind_Inr_iff)
    have "published_as ?name True ?c safe"
      by (rule safe_result_published [OF safe]) (simp add: PUBLISHED_CLASSES_def)
    then have "mat_step conf ?name upstreams st (st\<lparr>ms_results := ms_results st @ [safe], ms_refreshed := ?name # ms_refreshed st\<rparr>)"
      by (rule mat_step.reuse [OF d])
    then show ?thesis using ups st' t by simp
  next
    case (Reserved slot token)
    with body have "run_reserved env (item_key conf ?name) token item ?name upstreams never (st\<lparr>ms_table := t\<rparr>) = Inr st'"
      by simp
    from run_reserved_refines [OF this env, of "ms_table st"] step ups show ?thesis by simp
  qed
qed

inductive mat_run :: "mat_conf \<Rightarrow> (string \<times> string list) list \<Rightarrow> mat_state \<Rightarrow> mat_state \<Rightarrow> bool" for conf where
  run_nil: "mat_run conf [] st st"
| run_cons: "mat_step conf name upstreams st st1 \<Longrightarrow> mat_run conf items st1 st2 \<Longrightarrow>
    mat_run conf ((name, upstreams) # items) st st2"

definition plan_item_is :: "pv \<Rightarrow> string \<times> string list \<Rightarrow> bool" where
  \<comment> \<open>the name and the upstreams that a plan entry declares\<close>
  "plan_item_is p nu \<longleftrightarrow>
     (\<exists>d. p = PDict d \<and> fst nu = py_str (dget d ''name'') \<and> plan_names d ''upstreams'' = Inr (snd nu))"

lemma run_items_refines:
  assumes "run_items conf env n st plan = Inr st'" "\<And>i t. slot_step\<^sup>*\<^sup>* t (env_meanwhile (env i) t)"
  shows "\<exists>items. list_all2 plan_item_is plan items \<and> mat_run conf items st st'"
  using assms(1)
proof (induction plan arbitrary: n st)
  case Nil
  then show ?case by (auto intro: run_nil)
next
  case (Cons p plan)
  then obtain d st1 where d: "p = PDict d" and one: "run_item conf (env n) st d = Inr st1"
    and rest: "run_items conf env (Suc n) st1 plan = Inr st'"
    by (auto simp: rbind_Inr_iff split: pv.splits)
  obtain upstreams where ups: "plan_names d ''upstreams'' = Inr upstreams"
    and step: "mat_step conf (py_str (dget d ''name'')) upstreams st st1"
    using run_item_refines [OF one assms(2)] by blast
  from Cons.IH [OF rest] obtain items where "list_all2 plan_item_is plan items" "mat_run conf items st1 st'" by blast
  moreover have "plan_item_is p (py_str (dget d ''name''), upstreams)"
    using d ups by (simp add: plan_item_is_def)
  ultimately show ?case using step
    by (intro exI [of _ "(py_str (dget d ''name''), upstreams) # items"]) (auto intro: run_cons)
qed

section \<open>Invariant of the loop\<close>

definition well_formed :: "string \<Rightarrow> pdict \<Rightarrow> bool" where
  "well_formed name r \<longleftrightarrow> dget r ''name'' = PStr name \<and>
     (\<exists>c\<in>set RESULT_CLASSES. dget r ''classification'' = PStr c \<and> dget r ''ok'' = PBool (c \<in> set PUBLISHED_CLASSES))"

definition in_failure_chain :: "pdict \<Rightarrow> bool" where
  \<comment> \<open>failed, or skipped because of a failed upstream\<close>
  "in_failure_chain r \<longleftrightarrow> dget r ''classification'' = PStr RESULT_FAILED \<or>
     (\<exists>up. dget r ''reason'' = PStr (''upstream_not_refreshed:'' @ up))"

definition not_freshly_published :: "pdict \<Rightarrow> bool" where
  "not_freshly_published r \<longleftrightarrow> dget r ''reused'' = PBool True \<or>
     (dget r ''classification'' = PStr RESULT_SKIPPED \<and> (\<exists>up. dget r ''reason'' = PStr (''upstream_not_refreshed:'' @ up)))"

lemma published_as_result:
  assumes "published_as name reused c r"
  shows "well_formed name r \<and> \<not> in_failure_chain r \<and> dget r ''reused'' = PBool reused"
proof -
  obtain layer n where c: "c \<in> set PUBLISHED_CLASSES" and
    r: "r = pdict_of [(''name'', PStr name), (''layer'', PStr layer), (''ok'', PBool True),
        (''classification'', PStr c), (''reused'', PBool reused), (''row_count'', PInt n)]"
    using assms by (auto simp: published_as_def)
  have "c \<in> set RESULT_CLASSES" "c \<noteq> RESULT_FAILED"
    using c by (auto simp: PUBLISHED_CLASSES_def RESULT_CLASSES_def result_defs)
  with c r show ?thesis by (auto simp: well_formed_def in_failure_chain_def)
qed

lemma skipped_result_wf: "well_formed name (skipped_result name reason)"
  by (auto simp: well_formed_def skipped_result_def RESULT_CLASSES_def PUBLISHED_CLASSES_def result_defs)

lemma failed_result_wf: "well_formed name (failed_result name exc)"
  by (auto simp: well_formed_def failed_result_def RESULT_CLASSES_def PUBLISHED_CLASSES_def result_defs)

lemma absence_not_chain: "absence_reason reason \<Longrightarrow> \<not> in_failure_chain (skipped_result name reason)"
  by (auto simp: in_failure_chain_def skipped_result_def absence_reason_def startswith_iff result_defs)

lemma mat_step_result:
  assumes "mat_step conf name upstreams st st'"
  shows "\<exists>r. ms_results st' = ms_results st @ [r] \<and> well_formed name r \<and>
    slot_step\<^sup>*\<^sup>* (ms_table st) (ms_table st') \<and>
    set (ms_failure_chain st) \<subseteq> set (ms_failure_chain st') \<and>
    (in_failure_chain r \<longrightarrow> name \<in> set (ms_failure_chain st')) \<and>
    (set upstreams \<inter> set (ms_failure_chain st) \<noteq> {} \<longrightarrow> not_freshly_published r) \<and>
    (dget r ''ok'' = PBool True \<longrightarrow> (\<exists>d. published (ms_table st') (item_key conf name) = Some d))"
  using assms
proof cases
  case (reuse d c r)
  then show ?thesis using published_as_result [OF reuse(3)]
    by (auto simp: not_freshly_published_def)
next
  case (block up t)
  then show ?thesis using skipped_result_wf
    by (auto simp: not_freshly_published_def skipped_result_def)
next
  case (publish c r t d)
  then show ?thesis using published_as_result [OF publish(3)] by auto
next
  case (absent reason t)
  then show ?thesis using skipped_result_wf absence_not_chain
    by (auto simp: skipped_result_def)
next
  case (fail t exc)
  then show ?thesis using failed_result_wf by (auto simp: failed_result_def)
qed

definition loop_inv :: "mat_conf \<Rightarrow> (string \<times> string list) list \<Rightarrow> mat_state \<Rightarrow> bool" where
  "loop_inv conf items st \<longleftrightarrow>
     list_all2 (\<lambda>nu r. well_formed (fst nu) r \<and> (in_failure_chain r \<longrightarrow> fst nu \<in> set (ms_failure_chain st)) \<and>
       (dget r ''ok'' = PBool True \<longrightarrow> (\<exists>d. published (ms_table st) (item_key conf (fst nu)) = Some d)))
       items (ms_results st) \<and>
     (\<forall>i j. j < i \<and> i < length items \<and> fst (items ! j) \<in> set (snd (items ! i)) \<and>
        in_failure_chain (ms_results st ! j) \<longrightarrow> not_freshly_published (ms_results st ! i))"

lemma loop_inv_step:
  assumes inv: "loop_inv conf items st" and step: "mat_step conf name upstreams st st'"
  shows "loop_inv conf (items @ [(name, upstreams)]) st'"
proof -
  obtain r where r: "ms_results st' = ms_results st @ [r]" "well_formed name r"
      "slot_step\<^sup>*\<^sup>* (ms_table st) (ms_table st')" "set (ms_failure_chain st) \<subseteq> set (ms_failure_chain st')"
      "in_failure_chain r \<longrightarrow> name \<in> set (ms_failure_chain st')"
      "set upstreams \<inter> set (ms_failure_chain st) \<noteq> {} \<longrightarrow> not_freshly_published r"
      "dget r ''ok'' = PBool True \<longrightarrow> (\<exists>d. published (ms_table st') (item_key conf name) = Some d)"
    using mat_step_result [OF step] by blast
  let ?P = "\<lambda>st nu r. well_formed (fst nu) r \<and> (in_failure_chain r \<longrightarrow> fst nu \<in> set (ms_failure_chain st)) \<and>
       (dget r ''ok'' = PBool True \<longrightarrow> (\<exists>d. published (ms_table st) (item_key conf (fst nu)) = Some d))"
  have old: "list_all2 (?P st) items (ms_results st)" using inv by (simp add: loop_inv_def)
  then have len: "length (ms_results st) = length items" by (simp add: list_all2_lengthD)
  have "list_all2 (?P st') items (ms_results st)"
    using old r(4) slots.entry_stable [OF r(3)] by (elim list_all2_mono) blast
  then have "list_all2 (?P st') (items @ [(name, upstreams)]) (ms_results st')"
    using r by (simp add: list_all2_appendI)
  moreover have "not_freshly_published (ms_results st' ! i)"
    if "j < i" "i < length (items @ [(name, upstreams)])"
      "fst ((items @ [(name, upstreams)]) ! j) \<in> set (snd ((items @ [(name, upstreams)]) ! i))"
      "in_failure_chain (ms_results st' ! j)" for i j
  proof (cases "i < length items")
    case True
    with that inv len r(1) show ?thesis by (auto simp: loop_inv_def nth_append)
  next
    case False
    with that have i: "i = length items" and j: "j < length items" by auto
    have "fst (items ! j) \<in> set (ms_failure_chain st)"
      using old j len that(4) r(1) by (auto simp: list_all2_conv_all_nth nth_append)
    with that(3) i j r(6) show ?thesis by (auto simp: nth_append r(1) len)
  qed
  ultimately show ?thesis unfolding loop_inv_def by blast
qed

lemma loop_inv_run: "mat_run conf items st st' \<Longrightarrow> loop_inv conf done st \<Longrightarrow> loop_inv conf (done @ items) st'"
proof (induction arbitrary: "done" rule: mat_run.induct)
  case (run_cons name upstreams st st1 items st2)
  from run_cons.IH [OF loop_inv_step [OF run_cons.prems run_cons.hyps(1)]] show ?case by simp
qed simp

text \<open>What the task leaves behind when it pushes a report.\<close>

definition quiet :: "(nat \<Rightarrow> item_env) \<Rightarrow> bool" where
  \<comment> \<open>meanwhile, the slots change by the steps of workers only\<close>
  "quiet env \<longleftrightarrow> (\<forall>i t. slot_step\<^sup>*\<^sup>* t (env_meanwhile (env i) t))"

lemma materialize_push:
  assumes "materialize_in_order digest run_id env plan cartridge conf table = (Some report, exc, table')" "quiet env"
  obtains items st mc where "list_all2 plan_item_is plan items" "loop_inv mc items st" "ms_table st = table'"
    "report = (if plan = [] then empty_report else report_of (ms_results st))" "mc_digest mc = digest" "mc_run_id mc = run_id"
    "required_scope conf = Inr (mc_tenant mc, mc_workspace mc)"
proof -
  obtain tenant workspace where scope: "required_scope conf = Inr (tenant, workspace)"
    using assms(1) by (auto simp: materialize_in_order_def split: sum.splits)
  define mc where "mc = \<lparr>mc_run_id = run_id, mc_tenant = tenant, mc_workspace = workspace, mc_digest = digest\<rparr>"
  let ?st0 = "\<lparr>ms_results = [], ms_refreshed = [], ms_failure_chain = [], ms_structurally_skipped = [], ms_table = table\<rparr>"
  have inv0: "loop_inv mc [] ?st0" by (simp add: loop_inv_def)
  show thesis
  proof (cases "plan = []")
    case True
    then have "report = empty_report" "table' = table"
      using assms(1) scope by (auto simp: materialize_in_order_def Let_def split: if_splits)
    with that [of "[]" mc ?st0] inv0 True scope show ?thesis by (simp add: mc_def)
  next
    case False
    then obtain st where run: "run_items mc env 0 ?st0 plan = Inr st" and rep: "report = report_of (ms_results st)"
      and tab: "table' = ms_table st"
      using assms(1) scope by (auto simp: materialize_in_order_def mc_def Let_def split: if_splits sum.splits)
    obtain items where items: "list_all2 plan_item_is plan items" "mat_run mc items ?st0 st"
      using run_items_refines [OF run] assms(2) unfolding quiet_def by blast
    have "loop_inv mc items st" using loop_inv_run [OF items(2) inv0] by simp
    with that [of items mc st] items(1) rep tab False scope show ?thesis by (simp add: mc_def)
  qed
qed

lemma push_results:
  assumes "list_all2 plan_item_is plan items" "loop_inv mc items st"
    and "report = (if plan = [] then empty_report else report_of (ms_results st))"
  shows "length items = length plan" "length (ms_results st) = length plan"
    "dget report ''results'' = PList (map PDict (ms_results st))"
proof -
  from assms(1) show items: "length items = length plan" by (simp add: list_all2_lengthD)
  from assms(2) have "length items = length (ms_results st)"
    unfolding loop_inv_def by (blast dest: list_all2_lengthD)
  with items show len: "length (ms_results st) = length plan" by simp
  show "dget report ''results'' = PList (map PDict (ms_results st))"
    using assms(3) len by (auto simp: empty_report_def report_of_def Let_def)
qed

lemma well_formed_class:
  assumes "well_formed name r" "strip name \<noteq> []"
  shows "\<exists>c\<in>set RESULT_CLASSES. dget r ''classification'' = PStr c \<and> item_class (PDict r) = Some c"
  using assms by (auto simp: well_formed_def item_class_def result_classification_def)

lemma count_class_eq:
  assumes "\<forall>r\<in>set results. \<exists>c\<in>set RESULT_CLASSES. dget r ''classification'' = PStr c \<and> item_class (PDict r) = Some c"
  shows "count_class results c = class_count c (map PDict results)"
proof -
  have "filter (\<lambda>r. dget r ''classification'' = PStr c) results = filter (\<lambda>r. item_class (PDict r) = Some c) results"
    using assms by (intro filter_cong) force+
  then show ?thesis by (simp add: count_class_def class_count_def filter_map comp_def)
qed

lemma breakdown_matches_self: "breakdown_matches (PDict (counts_dict (map (\<lambda>c. (c, f c)) RESULT_CLASSES)))
    (map (\<lambda>c. (c, f c)) RESULT_CLASSES)"
  by (simp add: breakdown_matches_def counts_dict_def RESULT_CLASSES_def result_defs num_eq_def)

lemma report_believed:
  assumes "\<forall>r\<in>set results. \<exists>c\<in>set RESULT_CLASSES. dget r ''classification'' = PStr c \<and> item_class (PDict r) = Some c"
  shows "believed (report_of results) (map PDict results)"
proof -
  have bd: "map (\<lambda>c. (c, count_class results c)) RESULT_CLASSES =
      map (\<lambda>c. (c, class_count c (map PDict results))) RESULT_CLASSES"
    using count_class_eq [OF assms] by simp
  have "list_all (\<lambda>i. item_class i \<noteq> None) (map PDict results)"
    using assms by (force simp: list_all_iff)
  moreover have "count_of (map (\<lambda>c. (c, class_count c (map PDict results))) RESULT_CLASSES) k =
      class_count k (map PDict results)" if "k \<in> {RESULT_OK, RESULT_DEGRADED}" for k
    using that by (intro count_of_classes) (auto simp: RESULT_CLASSES_def)
  ultimately show ?thesis
    unfolding believed_def report_of_def bd Let_def using breakdown_matches_self by simp
qed

lemma empty_report_believed: "believed empty_report []"
  using breakdown_matches_self [of "\<lambda>c. 0"]
  by (simp add: believed_def empty_report_def zero_counts_def class_count_def)

section \<open>Guarantees\<close>

text \<open>
  whatever the task pushes as its report is believed by the outcome rules: it holds one
  well-formed result per planned dataset, in the order of the plan, and its totals and its breakdown
  are the counts of those results.
\<close>

theorem materialize_report_is_believed:
  assumes push: "materialize_in_order digest run_id env plan cartridge conf table = (Some report, exc, table')"
    and quiet: "quiet env"
    and names: "\<forall>p\<in>set plan. \<forall>d. p = PDict d \<longrightarrow> strip (py_str (dget d ''name'')) \<noteq> []"
  shows "\<exists>results. believed report (map PDict results) \<and>
    list_all2 (\<lambda>p r. \<exists>d. p = PDict d \<and> dget r ''name'' = PStr (py_str (dget d ''name''))) plan results"
proof -
  obtain items st mc where items: "list_all2 plan_item_is plan items" and inv: "loop_inv mc items st"
    and rep: "report = (if plan = [] then empty_report else report_of (ms_results st))"
    using materialize_push [OF push quiet] by metis
  let ?rs = "ms_results st"
  have wf: "list_all2 (\<lambda>nu r. well_formed (fst nu) r) items ?rs"
    using inv unfolding loop_inv_def by (auto elim: list_all2_mono)
  have both: "list_all2 (\<lambda>p r. \<exists>d. p = PDict d \<and> well_formed (py_str (dget d ''name'')) r) plan ?rs"
    using list_all2_trans [OF _ items wf] unfolding plan_item_is_def by (smt (verit))
  then have "list_all2 (\<lambda>p r. \<exists>d. p = PDict d \<and> dget r ''name'' = PStr (py_str (dget d ''name''))) plan ?rs"
    by (elim list_all2_mono) (auto simp: well_formed_def)
  moreover have "\<exists>c\<in>set RESULT_CLASSES. dget r ''classification'' = PStr c \<and> item_class (PDict r) = Some c"
    if "r \<in> set ?rs" for r
  proof -
    from that obtain i where i: "i < length ?rs" "r = ?rs ! i" by (auto simp: in_set_conv_nth)
    with both obtain d where "plan ! i = PDict d" "well_formed (py_str (dget d ''name'')) r" "i < length plan"
      by (auto simp: list_all2_conv_all_nth)
    then show ?thesis using names nth_mem [of i plan] by (intro well_formed_class) auto
  qed
  then have "believed report (map PDict ?rs)"
    using rep report_believed empty_report_believed both by (cases "plan = []") auto
  ultimately show ?thesis by blast
qed

text \<open>
  C8: nothing is published downstream of a failure. When a dataset failed, or was skipped because an
  upstream failed, then every later dataset of the plan that names it as an upstream is either
  answered from a result published before this run or skipped for that reason; it is never
  materialised afresh.
\<close>

theorem failure_is_contained:
  assumes push: "materialize_in_order digest run_id env plan cartridge conf table = (Some report, exc, table')"
    and quiet: "quiet env"
  shows "\<exists>results. dget report ''results'' = PList (map PDict results) \<and> length results = length plan \<and>
    (\<forall>i j d d' upstreams. j < i \<and> i < length plan \<and> plan ! i = PDict d \<and> plan ! j = PDict d' \<and>
       plan_names d ''upstreams'' = Inr upstreams \<and> py_str (dget d' ''name'') \<in> set upstreams \<and>
       in_failure_chain (results ! j) \<longrightarrow> not_freshly_published (results ! i))"
proof -
  obtain items st mc where items: "list_all2 plan_item_is plan items" and inv: "loop_inv mc items st"
    and rep: "report = (if plan = [] then empty_report else report_of (ms_results st))"
    using materialize_push [OF push quiet] by metis
  note len = push_results [OF items inv rep]
  have "not_freshly_published (ms_results st ! i)"
    if "j < i" "i < length plan" "plan ! i = PDict d" "plan ! j = PDict d'"
      "plan_names d ''upstreams'' = Inr upstreams" "py_str (dget d' ''name'') \<in> set upstreams"
      "in_failure_chain (ms_results st ! j)" for i j d d' upstreams
  proof -
    have "plan_item_is (plan ! i) (items ! i)" "plan_item_is (plan ! j) (items ! j)"
      using items that(1,2) by (auto simp: list_all2_conv_all_nth)
    with that have "fst (items ! j) \<in> set (snd (items ! i))" by (auto simp: plan_item_is_def)
    with that inv len show ?thesis unfolding loop_inv_def by auto
  qed
  then show ?thesis using len by (intro exI [of _ "ms_results st"]) auto
qed

text \<open>
  C27: a dataset whose result is reported as published holds a durable slot when the task ends, so a
  retry of the task, at any time, is answered with a completed slot and does not call the service again.
\<close>

theorem published_datasets_are_not_repeated:
  assumes push: "materialize_in_order digest run_id env plan cartridge conf table = (Some report, exc, table')"
    and quiet: "quiet env"
    and scope: "required_scope conf = Inr (tenant, workspace)"
  shows "\<exists>results. dget report ''results'' = PList (map PDict results) \<and> length results = length plan \<and>
    (\<forall>i d. i < length plan \<and> plan ! i = PDict d \<and> dget (results ! i) ''ok'' = PBool True \<longrightarrow>
       (\<exists>durable. reserve_materialization True host_now db_now lease_seconds
          (slot_id digest run_id tenant workspace (py_str (dget d ''name'')), tenant, workspace) table' =
          Inr (Completed durable, table')))"
proof -
  obtain items st mc where items: "list_all2 plan_item_is plan items" and inv: "loop_inv mc items st"
    and rep: "report = (if plan = [] then empty_report else report_of (ms_results st))" and tab: "ms_table st = table'"
    and mc: "mc_digest mc = digest" "mc_run_id mc = run_id" "mc_tenant mc = tenant" "mc_workspace mc = workspace"
    using materialize_push [OF push quiet] scope by (metis Pair_inject sum.inject(2))
  note len = push_results [OF items inv rep]
  have "\<exists>durable. reserve_materialization True host_now db_now lease_seconds
          (slot_id digest run_id tenant workspace (py_str (dget d ''name'')), tenant, workspace) table' =
          Inr (Completed durable, table')"
    if i: "i < length plan" and d: "plan ! i = PDict d" and ok: "dget (ms_results st ! i) ''ok'' = PBool True" for i d
  proof -
    have "plan_item_is (plan ! i) (items ! i)" using items i by (auto simp: list_all2_conv_all_nth)
    then have "fst (items ! i) = py_str (dget d ''name'')" using d by (auto simp: plan_item_is_def)
    then obtain durable where "published table' (item_key mc (py_str (dget d ''name''))) = Some durable"
      using inv i ok len tab unfolding loop_inv_def by (auto simp: list_all2_conv_all_nth)
    then show ?thesis
      by (auto simp: reserve_materialization_def Let_def published_def item_key_def mc)
  qed
  then show ?thesis using len by (intro exI [of _ "ms_results st"]) auto
qed

section \<open>A concrete run\<close>

text \<open>Two datasets; the job of the first fails, so the second is skipped.\<close>

definition failing_env :: item_env where
  "failing_env = \<lparr>env_storage = True, env_host_now = 0, env_reserve_now = 0, env_context = None,
     env_job = Inl (OtherException ''TransportError''), env_meanwhile = id, env_finish_now = 5\<rparr>"

definition two_plan :: "pv list" where
  "two_plan = [PDict (pdict_of [(''name'', PStr ''a''), (''cartridge'', PStr ''hr'')]),
     PDict (pdict_of [(''name'', PStr ''b''), (''cartridge'', PStr ''hr''), (''upstreams'', PList [PStr ''a''])])]"

definition two_conf :: pdict where
  "two_conf = pdict_of [(''tenant_id'', PStr ''t''), (''workspace_id'', PStr ''w''), (''allow_partial'', PBool True)]"

definition two_results :: "pdict list" where
  "two_results = [failed_result ''a'' (OtherException ''TransportError''), skipped_result ''b'' ''upstream_not_refreshed:a'']"

definition two_run :: "pdict option \<times> pyexc option \<times> slot_table" where
  "two_run = materialize_in_order id ''r'' (\<lambda>_. failing_env) two_plan (PStr ''hr'') two_conf Map.empty"

lemma two_run_report: "fst two_run = Some (report_of two_results)"
  by code_simp

lemma two_run_push:
  "materialize_in_order id ''r'' (\<lambda>_. failing_env) two_plan (PStr ''hr'') two_conf Map.empty =
   (Some (report_of two_results), fst (snd two_run), snd (snd two_run))"
  using two_run_report by (metis prod.collapse two_run_def)

lemma quiet_failing: "quiet (\<lambda>_. failing_env)"
  by (simp add: quiet_def failing_env_def)

lemma report_of_results: "dget (report_of results) ''results'' = PList (map PDict results)"
  by (simp add: report_of_def Let_def)

lemma map_PDict_eq: "map PDict xs = map PDict ys \<Longrightarrow> xs = ys"
  by (rule map_injective) (auto simp: inj_def)

theorem materialize_report_is_believed_witness:
  "\<exists>results. believed (report_of two_results) (map PDict results) \<and> length two_plan = length results"
proof -
  have "\<forall>p\<in>set two_plan. \<forall>d. p = PDict d \<longrightarrow> strip (py_str (dget d ''name'')) \<noteq> []"
    by (simp add: two_plan_def str_eval)
  from materialize_report_is_believed [OF two_run_push quiet_failing this]
  show ?thesis by (blast dest: list_all2_lengthD)
qed

theorem failure_is_contained_witness: "not_freshly_published (two_results ! 1)"
proof -
  obtain results where r: "dget (report_of two_results) ''results'' = PList (map PDict results)"
    and all: "\<forall>i j d d' upstreams. j < i \<and> i < length two_plan \<and> two_plan ! i = PDict d \<and> two_plan ! j = PDict d' \<and>
       plan_names d ''upstreams'' = Inr upstreams \<and> py_str (dget d' ''name'') \<in> set upstreams \<and>
       in_failure_chain (results ! j) \<longrightarrow> not_freshly_published (results ! i)"
    using failure_is_contained [OF two_run_push quiet_failing] by blast
  have "results = two_results" using r map_PDict_eq by (simp add: report_of_results)
  moreover have "in_failure_chain (two_results ! 0)"
    by (simp add: two_results_def in_failure_chain_def failed_result_def)
  ultimately show ?thesis
    using all [rule_format, of 0 1] by (simp add: two_plan_def plan_names_def)
qed

text \<open>One dataset that is published.\<close>

definition ok_env :: item_env where
  "ok_env = failing_env\<lparr>env_job := Inr (PDict (pdict_of
     [(''name'', PStr ''a''), (''layer'', PStr ''gold''), (''row_count'', PInt 3)]))\<rparr>"

definition ok_results :: "pdict list" where
  "ok_results = [pdict_of [(''name'', PStr ''a''), (''layer'', PStr ''gold''), (''ok'', PBool True),
     (''classification'', PStr RESULT_OK), (''reused'', PBool False), (''row_count'', PInt 3)]]"

definition ok_run :: "pdict option \<times> pyexc option \<times> slot_table" where
  "ok_run = materialize_in_order id ''r'' (\<lambda>_. ok_env) (take 1 two_plan) (PStr ''hr'') two_conf Map.empty"

lemma ok_run_report: "fst ok_run = Some (report_of ok_results)"
  by code_simp

theorem published_datasets_are_not_repeated_witness:
  "\<exists>durable. reserve_materialization True 9000 9000 900 (slot_id id ''r'' ''t'' ''w'' ''a'', ''t'', ''w'') (snd (snd ok_run)) =
     Inr (Completed durable, snd (snd ok_run))"
proof -
  have push: "materialize_in_order id ''r'' (\<lambda>_. ok_env) (take 1 two_plan) (PStr ''hr'') two_conf Map.empty =
     (Some (report_of ok_results), fst (snd ok_run), snd (snd ok_run))"
    using ok_run_report by (metis prod.collapse ok_run_def)
  have quiet: "quiet (\<lambda>_. ok_env)" by (simp add: quiet_def ok_env_def failing_env_def)
  have scope: "required_scope two_conf = Inr (''t'', ''w'')" by code_simp
  obtain results where r: "dget (report_of ok_results) ''results'' = PList (map PDict results)"
    and all: "\<forall>i d. i < length (take 1 two_plan) \<and> take 1 two_plan ! i = PDict d \<and> dget (results ! i) ''ok'' = PBool True \<longrightarrow>
       (\<exists>durable. reserve_materialization True 9000 9000 900
          (slot_id id ''r'' ''t'' ''w'' (py_str (dget d ''name'')), ''t'', ''w'') (snd (snd ok_run)) =
          Inr (Completed durable, snd (snd ok_run)))"
    using published_datasets_are_not_repeated [OF push quiet scope] by blast
  have "results = ok_results" using r map_PDict_eq by (simp add: report_of_results)
  then show ?thesis
    using all [rule_format, of 0] by (simp add: two_plan_def ok_results_def)
qed

end
