(* ===== verification/Canonical_Json.thy ===== *)
theory Canonical_Json
  imports Py_Base
begin

text \<open>
  Canonical JSON, as the services sign and digest it: \<open>json.dumps\<close> with sorted keys and compact
  separators. The text of a value that came out of JSON determines the value up to the order of the
  items of its dictionaries; the proof shows that no text is followed ambiguously (a quoted string
  ends at its quote, a number at the next delimiter).
\<close>

section \<open>The text\<close>

definition json_escape :: "bool \<Rightarrow> char \<Rightarrow> string" where
  \<comment> \<open>\<open>asc\<close>: \<open>ensure_ascii\<close>\<close>
  "json_escape asc c =
     (if c = CHR 0x22 \<or> c = CHR 0x5C then [CHR 0x5C, c]
      else if code c = 10 then [CHR 0x5C, CHR ''n'']
      else if code c = 13 then [CHR 0x5C, CHR ''r'']
      else if code c = 9 then [CHR 0x5C, CHR ''t'']
      else if code c = 12 then [CHR 0x5C, CHR ''f'']
      else if code c = 8 then [CHR 0x5C, CHR ''b'']
      else if code c < 32 \<or> (asc \<and> 126 < code c)
        then [CHR 0x5C] @ ''u00'' @ [hex_digit (code c div 16), hex_digit (code c mod 16)]
      else [c])"

definition json_quote :: "bool \<Rightarrow> string \<Rightarrow> string" where
  "json_quote asc s = [CHR 0x22] @ concat (map (json_escape asc) s) @ [CHR 0x22]"

fun json_key_text :: "bool \<Rightarrow> pv \<Rightarrow> string pyres" where
  "json_key_text asc (PStr s) = Inr (json_quote asc s)"
| "json_key_text asc (PInt i) = Inr (json_quote asc (str_of_int i))"
| "json_key_text asc (PFloat s) = Inr (json_quote asc (json_float s))"
| "json_key_text asc (PBool b) = Inr (json_quote asc (if b then ''true'' else ''false''))"
| "json_key_text asc PNone = Inr (json_quote asc ''null'')"
| "json_key_text asc _ = Inl TypeError"

fun key_number :: "pv \<Rightarrow> int option" where
  "key_number (PInt i) = Some i"
| "key_number (PBool b) = Some (if b then 1 else 0)"
| "key_number _ = None"

definition sort_items :: "(pv \<times> string) list \<Rightarrow> (pv \<times> string) list pyres" where
  \<comment> \<open>\<open>sort_keys=True\<close>: text and numbers do not compare; float keys do not occur\<close>
  "sort_items items =
     (if list_all (\<lambda>kv. is_str (fst kv)) items then Inr (sort_key (\<lambda>kv. py_str (fst kv)) items)
      else if length items \<le> 1 then Inr items
      else if list_all (\<lambda>kv. key_number (fst kv) \<noteq> None) items then Inr (sort_key (\<lambda>kv. the (key_number (fst kv))) items)
      else Inl TypeError)"

text \<open>\<open>json.dumps(value, sort_keys=True, separators=(",", ":"), ensure_ascii=asc)\<close>.\<close>

primrec json_sorted :: "bool \<Rightarrow> pv \<Rightarrow> string pyres"
  and json_sorted_list :: "bool \<Rightarrow> pv list \<Rightarrow> string list pyres"
  and json_sorted_items :: "bool \<Rightarrow> (pv \<times> pv) list \<Rightarrow> (pv \<times> string) list pyres"
  and json_sorted_item :: "bool \<Rightarrow> pv \<times> pv \<Rightarrow> (pv \<times> string) pyres" where
  "json_sorted asc PNone = Inr ''null''"
| "json_sorted asc (PBool b) = Inr (if b then ''true'' else ''false'')"
| "json_sorted asc (PInt i) = Inr (str_of_int i)"
| "json_sorted asc (PFloat s) = Inr (json_float s)"
| "json_sorted asc (PStr s) = Inr (json_quote asc s)"
| "json_sorted asc (PDt t z) = Inl TypeError"
| "json_sorted asc (PList xs) =
     rbind (json_sorted_list asc xs) (\<lambda>ss. Inr (''['' @ join '','' ss @ '']''))"
| "json_sorted asc (PDict d) =
     rbind (json_sorted_items asc d) (\<lambda>items.
     rbind (sort_items items) (\<lambda>sorted. Inr (''{'' @ join '','' (map snd sorted) @ ''}'')))"
| "json_sorted_list asc [] = Inr []"
| "json_sorted_list asc (x # xs) =
     rbind (json_sorted asc x) (\<lambda>s. rbind (json_sorted_list asc xs) (\<lambda>ss. Inr (s # ss)))"
| "json_sorted_items asc [] = Inr []"
| "json_sorted_items asc (kv # kvs) =
     rbind (json_sorted_item asc kv) (\<lambda>s. rbind (json_sorted_items asc kvs) (\<lambda>ss. Inr (s # ss)))"
| "json_sorted_item asc (k, v) =
     rbind (json_key_text asc k) (\<lambda>ks. rbind (json_sorted asc v) (\<lambda>vs. Inr (k, ks @ '':'' @ vs)))"

section \<open>The text determines the value\<close>

text \<open>Values as JSON decoding makes them: no datetimes, string keys without repetition, floats by their \<open>repr\<close>.\<close>

definition int_char :: "char \<Rightarrow> bool" where
  "int_char c \<longleftrightarrow> is_ascii_digit c \<or> c = CHR ''-''"

definition float_char :: "char \<Rightarrow> bool" where
  "float_char c \<longleftrightarrow> is_ascii_digit c \<or> c \<in> set ''-+.e''"

definition float_special :: "string \<Rightarrow> bool" where
  "float_special s \<longleftrightarrow> s = ''nan'' \<or> s = ''inf'' \<or> s = ''-inf''"

definition float_repr :: "string \<Rightarrow> bool" where
  "float_repr s \<longleftrightarrow> float_special s \<or> (s \<noteq> [] \<and> list_all float_char s \<and> \<not> list_all int_char s)"

primrec json_value :: "pv \<Rightarrow> bool"
  and json_values :: "pv list \<Rightarrow> bool"
  and json_entries :: "(pv \<times> pv) list \<Rightarrow> bool"
  and json_entry :: "pv \<times> pv \<Rightarrow> bool" where
  "json_value PNone = True"
| "json_value (PBool b) = True"
| "json_value (PInt i) = True"
| "json_value (PFloat s) = float_repr s"
| "json_value (PStr s) = True"
| "json_value (PDt t z) = False"
| "json_value (PList xs) = json_values xs"
| "json_value (PDict d) = (json_entries d \<and> distinct (map fst d))"
| "json_values [] = True"
| "json_values (x # xs) = (json_value x \<and> json_values xs)"
| "json_entries [] = True"
| "json_entries (kv # kvs) = (json_entry kv \<and> json_entries kvs)"
| "json_entry (k, v) = (is_str k \<and> json_value v)"

text \<open>A value with the items of each dictionary in the order of their keys, and its text in that order.\<close>

primrec sorted_value :: "pv \<Rightarrow> pv"
  and sorted_values :: "pv list \<Rightarrow> pv list"
  and sorted_entries :: "(pv \<times> pv) list \<Rightarrow> (pv \<times> pv) list"
  and sorted_entry :: "pv \<times> pv \<Rightarrow> pv \<times> pv" where
  "sorted_value PNone = PNone"
| "sorted_value (PBool b) = PBool b"
| "sorted_value (PInt i) = PInt i"
| "sorted_value (PFloat s) = PFloat s"
| "sorted_value (PStr s) = PStr s"
| "sorted_value (PDt t z) = PDt t z"
| "sorted_value (PList xs) = PList (sorted_values xs)"
| "sorted_value (PDict d) = PDict (sort_key (\<lambda>kv. py_str (fst kv)) (sorted_entries d))"
| "sorted_values [] = []"
| "sorted_values (x # xs) = sorted_value x # sorted_values xs"
| "sorted_entries [] = []"
| "sorted_entries (kv # kvs) = sorted_entry kv # sorted_entries kvs"
| "sorted_entry (k, v) = (k, sorted_value v)"

primrec json_text :: "bool \<Rightarrow> pv \<Rightarrow> string"
  and json_texts :: "bool \<Rightarrow> pv list \<Rightarrow> string list"
  and json_entry_texts :: "bool \<Rightarrow> (pv \<times> pv) list \<Rightarrow> string list"
  and json_entry_text :: "bool \<Rightarrow> pv \<times> pv \<Rightarrow> string" where
  "json_text asc PNone = ''null''"
| "json_text asc (PBool b) = (if b then ''true'' else ''false'')"
| "json_text asc (PInt i) = str_of_int i"
| "json_text asc (PFloat s) = json_float s"
| "json_text asc (PStr s) = json_quote asc s"
| "json_text asc (PDt t z) = []"
| "json_text asc (PList xs) = ''['' @ join '','' (json_texts asc xs) @ '']''"
| "json_text asc (PDict d) = ''{'' @ join '','' (json_entry_texts asc d) @ ''}''"
| "json_texts asc [] = []"
| "json_texts asc (x # xs) = json_text asc x # json_texts asc xs"
| "json_entry_texts asc [] = []"
| "json_entry_texts asc (kv # kvs) = json_entry_text asc kv # json_entry_texts asc kvs"
| "json_entry_text asc (k, v) = json_quote asc (py_str k) @ '':'' @ json_text asc v"

lemma sorted_values_map: "sorted_values xs = map sorted_value xs"
  by (induction xs) simp_all

lemma sorted_entries_map: "sorted_entries d = map sorted_entry d"
  by (induction d) simp_all

lemma json_entry_texts_map: "json_entry_texts asc d = map (json_entry_text asc) d"
  by (induction d) simp_all

lemma json_entries_all: "json_entries d = list_all json_entry d"
  by (induction d) simp_all

lemma fst_sorted_entry [simp]: "fst (sorted_entry kv) = fst kv"
  by (cases kv) simp

lemma map_sort_key: "map g (sort_key (\<lambda>x. f (g x)) xs) = sort_key f (map g xs)"
proof -
  have "map g (insort_key (\<lambda>x. f (g x)) a ys) = insort_key f (g a) (map g ys)" for a ys
    by (induction ys) simp_all
  then show ?thesis by (induction xs) simp_all
qed

lemma json_sorted_text:
  "json_value v \<Longrightarrow> json_sorted asc v = Inr (json_text asc (sorted_value v))"
  "json_values xs \<Longrightarrow> json_sorted_list asc xs = Inr (json_texts asc (sorted_values xs))"
  "json_entries d \<Longrightarrow> json_sorted_items asc d = Inr (map (\<lambda>kv. (fst kv, json_entry_text asc kv)) (sorted_entries d))"
  "json_entry kv \<Longrightarrow> json_sorted_item asc kv = Inr (fst kv, json_entry_text asc (sorted_entry kv))"
proof (induction v and xs and d and kv rule: pv_induct)
  case (Dict d)
  let ?f = "\<lambda>kv. (fst kv, json_entry_text asc kv)"
  have "list_all (\<lambda>kv. is_str (fst kv)) d"
    using Dict.prems by (auto simp: json_entries_all list_all_iff)
  then have "list_all (\<lambda>kv. is_str (fst kv)) (map ?f (sorted_entries d))"
    by (simp add: sorted_entries_map list_all_iff)
  then have "sort_items (map ?f (sorted_entries d)) = Inr (sort_key (\<lambda>kv. py_str (fst kv)) (map ?f (sorted_entries d)))"
    by (simp add: sort_items_def)
  also have "sort_key (\<lambda>kv. py_str (fst kv)) (map ?f (sorted_entries d)) =
      map ?f (sort_key (\<lambda>kv. py_str (fst kv)) (sorted_entries d))"
    using map_sort_key [of ?f "\<lambda>kv. py_str (fst kv)" "sorted_entries d"] by simp
  finally show ?case using Dict by (simp add: json_entry_texts_map comp_def)
next
  case (Item k v)
  then show ?case by (cases k) simp_all
qed (simp_all)


text \<open>Strings: a decoder of one escaped character shows that the quoted text ends where it should.\<close>

definition hex_value :: "char \<Rightarrow> nat" where
  "hex_value c = (if code c < 58 then code c - 48 else code c - 87)"

definition unescape :: "string \<Rightarrow> char \<times> string" where
  "unescape s =
     (if hd s \<noteq> CHR 0x5C then (hd s, tl s)
      else if s ! 1 = CHR ''n'' then (char_of (10 :: nat), drop 2 s)
      else if s ! 1 = CHR ''r'' then (char_of (13 :: nat), drop 2 s)
      else if s ! 1 = CHR ''t'' then (char_of (9 :: nat), drop 2 s)
      else if s ! 1 = CHR ''f'' then (char_of (12 :: nat), drop 2 s)
      else if s ! 1 = CHR ''b'' then (char_of (8 :: nat), drop 2 s)
      else if s ! 1 = CHR ''u'' then (char_of (16 * hex_value (s ! 4) + hex_value (s ! 5)), drop 6 s)
      else (s ! 1, drop 2 s))"

lemma hex_value_digit: "n < 16 \<Longrightarrow> hex_value (hex_digit n) = n"
proof -
  have "\<forall>n \<in> set [0..<16]. hex_value (hex_digit n) = n" by code_simp
  then show "n < 16 \<Longrightarrow> hex_value (hex_digit n) = n" by simp
qed

lemma char_of_code: "code c = n \<Longrightarrow> c = char_of n"
  by (metis char_of_char)

lemma hex_code: "16 * hex_value (hex_digit (code c div 16)) + hex_value (hex_digit (code c mod 16)) = code c"
proof -
  have "code c < (256 :: nat)" by (rule nat_of_char_less_256)
  then show ?thesis by (simp add: hex_value_digit less_mult_imp_div_less)
qed

lemma unescape_escape: "unescape (json_escape asc c @ s) = (c, s)"
proof -
  have special: "c = char_of n" if "code c = n" for n using char_of_code [OF that] .
  consider (quote) "c = CHR 0x22 \<or> c = CHR 0x5C"
    | (short) "c \<noteq> CHR 0x22" "c \<noteq> CHR 0x5C" "code c \<in> {8, 9, 10, 12, 13}"
    | (long) "c \<noteq> CHR 0x22" "c \<noteq> CHR 0x5C" "code c \<notin> {8, 9, 10, 12, 13}" "code c < 32 \<or> (asc \<and> 126 < code c)"
    | (plain) "c \<noteq> CHR 0x22" "c \<noteq> CHR 0x5C" "code c \<notin> {8, 9, 10, 12, 13}" "\<not> (code c < 32 \<or> (asc \<and> 126 < code c))"
    by auto
  then show ?thesis
  proof cases
    case quote
    then show ?thesis by (auto simp: unescape_def json_escape_def)
  next
    case short
    then show ?thesis
      using special [of 8] special [of 9] special [of 10] special [of 12] special [of 13]
      by (auto simp: unescape_def json_escape_def)
  next
    case long
    then have "json_escape asc c = [CHR 0x5C] @ ''u00'' @ [hex_digit (code c div 16), hex_digit (code c mod 16)]"
      by (simp add: json_escape_def)
    then show ?thesis by (simp add: unescape_def hex_code)
  next
    case plain
    then have "json_escape asc c = [c]" by (auto simp: json_escape_def)
    then show ?thesis using plain by (simp add: unescape_def)
  qed
qed

lemma json_escape_hd: "json_escape asc c \<noteq> [] \<and> hd (json_escape asc c) \<noteq> CHR 0x22"
  by (auto simp: json_escape_def)

lemma json_quote_inj: "json_quote asc s @ x = json_quote asc t @ y \<Longrightarrow> s = t \<and> x = y"
proof -
  let ?e = "\<lambda>s. concat (map (json_escape asc) s)"
  have "?e s @ CHR 0x22 # x = ?e t @ CHR 0x22 # y \<Longrightarrow> s = t \<and> x = y"
  proof (induction s arbitrary: t)
    case Nil
    then show ?case using json_escape_hd by (cases t) (auto, metis append_is_Nil_conv hd_append2 list.sel(1))
  next
    case (Cons c s)
    then obtain d t' where t: "t = d # t'"
      using json_escape_hd by (cases t) (auto, metis append_is_Nil_conv hd_append2 list.sel(1))
    with Cons.prems have "(c, ?e s @ CHR 0x22 # x) = (d, ?e t' @ CHR 0x22 # y)"
      by (metis append.assoc concat.simps(2) list.simps(9) unescape_escape)
    with Cons.IH t show ?case by simp
  qed
  then show "json_quote asc s @ x = json_quote asc t @ y \<Longrightarrow> s = t \<and> x = y"
    by (simp add: json_quote_def)
qed

text \<open>Numbers and constants: their text has no delimiter in it, and determines them.\<close>

definition delimiter :: "char \<Rightarrow> bool" where
  "delimiter c \<longleftrightarrow> c \<in> set ''[]{},:'' \<or> c = CHR 0x22"

definition closed_by :: "string \<Rightarrow> bool" where
  "closed_by x \<longleftrightarrow> x = [] \<or> hd x \<in> set '',]}''"

fun scalar :: "pv \<Rightarrow> bool" where
  "scalar (PStr s) = False"
| "scalar (PList xs) = False"
| "scalar (PDict d) = False"
| "scalar v = True"

definition digits_value :: "string \<Rightarrow> int" where
  "digits_value s = foldl (\<lambda>a c. a * 10 + (int (code c) - 48)) 0 s"

lemma digit_char_code: "0 \<le> n \<Longrightarrow> n < 10 \<Longrightarrow> int (code (digit_char n)) = n + 48"
proof -
  have "\<forall>n \<in> set [0..9]. int (code (digit_char n)) = n + 48" by code_simp
  then show "0 \<le> n \<Longrightarrow> n < 10 \<Longrightarrow> int (code (digit_char n)) = n + 48" by simp
qed

lemma digit_char_digit: "0 \<le> n \<Longrightarrow> n < 10 \<Longrightarrow> is_ascii_digit (digit_char n)"
proof -
  have "\<forall>n \<in> set [0..9]. is_ascii_digit (digit_char n)" by code_simp
  then show "0 \<le> n \<Longrightarrow> n < 10 \<Longrightarrow> is_ascii_digit (digit_char n)" by simp
qed

lemma str_of_pos_digits: "0 \<le> n \<Longrightarrow>
  digits_value (str_of_pos n) = n \<and> list_all is_ascii_digit (str_of_pos n) \<and> str_of_pos n \<noteq> []"
proof (induction n rule: str_of_pos.induct)
  case (1 n)
  show ?case
  proof (cases "n < 10")
    case True
    then show ?thesis using 1 digit_char_digit [of n] digit_char_code [of n]
      by (subst (1 2 3) str_of_pos.simps) (simp add: digits_value_def)
  next
    case False
    then have ih: "digits_value (str_of_pos (n div 10)) = n div 10"
        "list_all is_ascii_digit (str_of_pos (n div 10))"
      using 1 by simp_all
    show ?thesis using ih digit_char_digit [of "n mod 10"] digit_char_code [of "n mod 10"] False
      by (subst (1 2 3) str_of_pos.simps) (simp add: digits_value_def)
  qed
qed

lemma str_of_int_chars: "list_all int_char (str_of_int i) \<and> str_of_int i \<noteq> []"
  using str_of_pos_digits [of i] str_of_pos_digits [of "- i"]
  by (auto simp: str_of_int_def int_char_def list_all_iff)

lemma str_of_int_inj: "str_of_int i = str_of_int j \<Longrightarrow> i = j"
proof -
  assume eq: "str_of_int i = str_of_int j"
  have no_minus: "hd (str_of_pos n) \<noteq> CHR ''-''" if "0 \<le> n" for n
  proof -
    have "is_ascii_digit (hd (str_of_pos n))"
      using str_of_pos_digits [OF that] by (simp add: list_all_iff)
    moreover have "\<not> is_ascii_digit (CHR ''-'')" by code_simp
    ultimately show ?thesis by metis
  qed
  have digits: "0 \<le> n \<Longrightarrow> digits_value (str_of_pos n) = n" for n
    using str_of_pos_digits [of n] by blast
  have minus: "hd (str_of_int k) = CHR ''-'' \<longleftrightarrow> k < 0" for k
    using no_minus [of k] by (auto simp: str_of_int_def)
  have neg: "(i < 0) = (j < 0)" using eq minus [of i] minus [of j] by simp
  show "i = j"
  proof (cases "i < 0")
    case True
    then have "str_of_pos (- i) = str_of_pos (- j)" using eq neg by (simp add: str_of_int_def)
    then have "- i = - j" using True neg digits [of "- i"] digits [of "- j"] by (metis neg_0_le_iff_le less_imp_le)
    then show ?thesis by simp
  next
    case False
    then have "str_of_pos i = str_of_pos j" using eq neg by (simp add: str_of_int_def)
    then show ?thesis using False neg digits [of i] digits [of j] by (metis not_less)
  qed
qed


lemma number_chars:
  "int_char c \<Longrightarrow> float_char c" "float_char c \<Longrightarrow> \<not> delimiter c"
proof -
  have "\<not> float_char d" if "delimiter d" for d
    using that by (auto simp: delimiter_def float_char_def is_ascii_digit_def)
  then show "float_char c \<Longrightarrow> \<not> delimiter c" by blast
qed (auto simp: int_char_def float_char_def)

lemma float_special_cases:
  assumes "float_special s"
  obtains "s = ''nan''" "json_float s = ''NaN''" | "s = ''inf''" "json_float s = ''Infinity''"
    | "s = ''-inf''" "json_float s = ''-Infinity''"
  using assms by (auto simp: float_special_def json_float_def)

lemma float_special_text:
  assumes "float_special s"
  shows "json_float s \<noteq> []" "list_all (\<lambda>c. \<not> delimiter c) (json_float s)" "\<not> list_all float_char (json_float s)"
    "json_float s \<notin> {''null'', ''true'', ''false''}"
  using assms by (cases rule: float_special_cases; simp add: delimiter_def float_char_def is_ascii_digit_def)+

lemma float_plain:
  assumes "float_repr s" "\<not> float_special s"
  shows "json_float s = s" "s \<noteq> []" "list_all float_char s" "\<not> list_all int_char s"
  using assms by (auto simp: json_float_def float_repr_def float_special_def)

lemma int_chars_float: "list_all int_char s \<Longrightarrow> list_all float_char s"
  using number_chars(1) by (simp add: list_all_iff)

lemma scalar_text_chars:
  assumes "json_value v" "scalar v"
  shows "json_text asc v \<noteq> [] \<and> list_all (\<lambda>c. \<not> delimiter c) (json_text asc v)"
proof (cases v)
  case (PInt i)
  then show ?thesis using str_of_int_chars [of i] number_chars by (simp add: list_all_iff)
next
  case (PFloat s)
  then have "float_repr s" using assms by simp
  then show ?thesis using PFloat float_special_text float_plain number_chars(2)
    by (cases "float_special s") (simp_all add: list_all_iff)
qed (use assms in \<open>auto simp: delimiter_def\<close>)

lemma json_float_not_int: "float_repr s \<Longrightarrow> json_float s \<noteq> str_of_int i"
  using float_special_text(3) float_plain(1,4) str_of_int_chars int_chars_float by metis

lemma json_float_inj:
  assumes s: "float_repr s" and t: "float_repr t" and eq: "json_float s = json_float t"
  shows "s = t"
proof (cases "float_special s")
  case True
  then have t': "float_special t" using eq float_special_text(3) float_plain(1,3) [OF t] by metis
  from True show ?thesis
    by (cases rule: float_special_cases; use t' in \<open>cases rule: float_special_cases\<close>) (use eq in simp_all)
next
  case False
  then have "\<not> float_special t" using eq float_special_text(3) float_plain(1,3) [OF s] by metis
  then show ?thesis using False eq float_plain(1) s t by simp
qed

lemma word_not_number:
  assumes "json_value v" "scalar v" "w \<in> {''null'', ''true'', ''false''}" "json_text asc v = w"
  shows "(v = PNone \<and> w = ''null'') \<or> (v = PBool True \<and> w = ''true'') \<or> (v = PBool False \<and> w = ''false'')"
proof -
  have w: "\<not> list_all float_char w"
    using assms(3) by (auto simp: float_char_def is_ascii_digit_def)
  show ?thesis
  proof (cases v)
    case (PInt i)
    then show ?thesis using str_of_int_chars int_chars_float w assms(4) by (metis json_text.simps(3))
  next
    case (PFloat s)
    then have "float_repr s" "json_float s = w" using assms by simp_all
    then show ?thesis using w float_plain(1,3) float_special_text(4) assms(3) by metis
  qed (use assms in \<open>auto split: if_splits\<close>)
qed

lemma scalar_text_inj:
  assumes "json_value v" "json_value w" "scalar v" "scalar w" "json_text asc v = json_text asc w"
  shows "v = w"
proof -
  note word_v = word_not_number [OF assms(1,3) _ assms(5)] and word_w = word_not_number [OF assms(2,4) _ assms(5) [symmetric]]
  show ?thesis
  proof (cases "v = PNone \<or> is_bool v \<or> w = PNone \<or> is_bool w")
    case True
    then consider "v = PNone" | b where "v = PBool b" | "w = PNone" | b where "w = PBool b"
      by (auto simp: is_bool_iff)
    then show ?thesis
    proof cases
      case 1
      then show ?thesis using word_w by simp
    next
      case (2 b)
      then show ?thesis using word_w by (cases b) simp_all
    next
      case 3
      then show ?thesis using word_v by simp
    next
      case (4 b)
      then show ?thesis using word_v by (cases b) simp_all
    qed
  next
    case False
    then consider i j where "v = PInt i" "w = PInt j" | i s where "v = PInt i" "w = PFloat s"
      | s j where "v = PFloat s" "w = PInt j" | s t where "v = PFloat s" "w = PFloat t"
      using assms by (cases v; cases w) auto
    then show ?thesis
    proof cases
      case 1
      then show ?thesis using assms str_of_int_inj by simp
    next
      case 2
      then show ?thesis using assms json_float_not_int by (metis json_text.simps(3,4) json_value.simps(4))
    next
      case 3
      then show ?thesis using assms json_float_not_int by simp
    next
      case 4
      then show ?thesis using assms json_float_inj by simp
    qed
  qed
qed

text \<open>A value's text is followed by the end or by a comma or a closing bracket, and then determines the value.\<close>

lemma scalar_prefix:
  assumes "json_value v" "scalar v" "closed_by x"
  shows "takeWhile (\<lambda>c. \<not> delimiter c) (json_text asc v @ x) = json_text asc v"
proof -
  have "takeWhile (\<lambda>c. \<not> delimiter c) x = []"
    using assms(3) by (cases x) (auto simp: closed_by_def delimiter_def)
  then show ?thesis using scalar_text_chars [OF assms(1,2)] by (simp add: takeWhile_append2 list_all_iff)
qed

lemma text_hd:
  assumes "json_value v"
  shows "json_text asc v \<noteq> [] \<and> hd (json_text asc v) \<notin> set '',:]}'' \<and>
    (scalar v \<longrightarrow> \<not> delimiter (hd (json_text asc v))) \<and>
    (is_str v \<longleftrightarrow> hd (json_text asc v) = CHR 0x22) \<and> (is_list v \<longleftrightarrow> hd (json_text asc v) = CHR ''['') \<and>
    (is_dict v \<longleftrightarrow> hd (json_text asc v) = CHR ''{'')"
proof (cases "scalar v")
  case True
  then have "json_text asc v \<noteq> []" "\<not> delimiter (hd (json_text asc v))"
    using scalar_text_chars [OF assms True, of asc] by (simp_all add: list_all_iff)
  moreover have "\<not> is_str v" "\<not> is_list v" "\<not> is_dict v" using True by (cases v; simp)+
  ultimately show ?thesis by (auto simp: delimiter_def)
next
  case False
  then show ?thesis using assms by (cases v) (auto simp: json_quote_def)
qed

definition rest :: "char \<Rightarrow> string list \<Rightarrow> string" where
  \<comment> \<open>what follows the first text of a list up to its closing bracket\<close>
  "rest c ss = concat (map (\<lambda>s. '','' @ s) ss) @ [c]"

lemma join_rest: "join '','' (s # ss) @ [c] = s @ rest c ss"
  by (induction ss arbitrary: s) (simp_all add: rest_def)

lemma join_rest_append: "join '','' (s # ss) @ c # x = s @ rest c ss @ x"
  using join_rest [of s ss c] by (metis append.assoc append_Cons append_Nil)

lemma rest_closed: "c \<in> set '']}'' \<Longrightarrow> closed_by (rest c ss @ x)"
  by (cases ss) (auto simp: rest_def closed_by_def)

lemma rest_simps: "rest c [] @ x = c # x" "rest c (s # ss) @ x = CHR '','' # s @ rest c ss @ x"
  by (simp_all add: rest_def)

lemma text_not_hd:
  assumes "json_value v" "c \<in> set '',:]}''"
  shows "json_text asc v @ x \<noteq> c # y"
proof
  assume eq: "json_text asc v @ x = c # y"
  have "json_text asc v \<noteq> []" "hd (json_text asc v) \<notin> set '',:]}''" using text_hd [OF assms(1)] by blast+
  moreover from this(1) eq have "hd (json_text asc v) = c" by (metis hd_append2 list.sel(1))
  ultimately show False using assms(2) by blast
qed

lemma scalar_case:
  assumes "json_value v" "json_value w" "closed_by x" "closed_by y" "json_text asc v @ x = json_text asc w @ y" "scalar v"
  shows "v = w \<and> x = y"
proof -
  have "hd (json_text asc v) = hd (json_text asc w)" using assms text_hd by (metis hd_append2)
  moreover have "\<not> delimiter (hd (json_text asc v))" using text_hd [OF assms(1)] assms(6) by blast
  ultimately have "scalar w"
    using text_hd [OF assms(2)] by (cases w) (auto simp: delimiter_def)
  then have "json_text asc v = json_text asc w" using scalar_prefix assms by metis
  then show ?thesis using scalar_text_inj [OF assms(1,2,6) \<open>scalar w\<close>] assms(5) by simp
qed

lemma text_hd_eq:
  assumes "json_value v" "json_value w" "json_text asc v @ x = json_text asc w @ y"
  shows "hd (json_text asc v) = hd (json_text asc w)"
  using assms text_hd by (metis hd_append2)

lemma list_case:
  assumes "\<And>ys x y. json_values xs \<Longrightarrow> json_values ys \<Longrightarrow>
      rest (CHR '']'') (json_texts asc xs) @ x = rest (CHR '']'') (json_texts asc ys) @ y \<Longrightarrow> xs = ys \<and> x = y"
    and "json_value (PList xs)" "json_value w" "json_text asc (PList xs) @ x = json_text asc w @ y"
  shows "PList xs = w \<and> x = y"
proof -
  from text_hd_eq [OF assms(2,3,4)] obtain ys where wx: "w = PList ys"
    using text_hd [OF assms(2)] text_hd [OF assms(3)] by (cases w) auto
  show ?thesis
  proof (cases xs)
    case Nil
    have "ys = []"
    proof (rule ccontr)
      assume "ys \<noteq> []"
      then obtain b bs where ys: "ys = b # bs" by (cases ys) auto
      then have "json_text asc b @ rest (CHR '']'') (json_texts asc bs) @ y = CHR '']'' # x"
        using assms(4) wx Nil by (simp add: join_rest_append)
      then show False using text_not_hd [of b "CHR '']''"] assms(3) wx ys by simp
    qed
    then show ?thesis using assms(4) wx Nil by simp
  next
    case (Cons a as)
    then obtain b bs where ys: "ys = b # bs"
      using assms(2-4) wx text_not_hd [of a "CHR '']''"] by (cases ys) (auto simp: join_rest_append)
    have "rest (CHR '']'') (json_texts asc xs) @ x = rest (CHR '']'') (json_texts asc ys) @ y"
      using assms(4) wx Cons ys by (simp add: join_rest_append rest_simps)
    then have "xs = ys \<and> x = y"
      by (rule assms(1) [rotated 2]) (use assms(2,3) wx in simp_all)
    then show ?thesis using wx by simp
  qed
qed

lemma dict_case:
  assumes "\<And>e x y. json_entries d \<Longrightarrow> json_entries e \<Longrightarrow>
      rest (CHR ''}'') (json_entry_texts asc d) @ x = rest (CHR ''}'') (json_entry_texts asc e) @ y \<Longrightarrow> d = e \<and> x = y"
    and "json_value (PDict d)" "json_value w" "json_text asc (PDict d) @ x = json_text asc w @ y"
  shows "PDict d = w \<and> x = y"
proof -
  from text_hd_eq [OF assms(2,3,4)] obtain e where wx: "w = PDict e"
    using text_hd [OF assms(2)] text_hd [OF assms(3)] by (cases w) auto
  have entry: "json_entry_text asc kv @ z \<noteq> CHR ''}'' # z'" for kv z z'
    by (cases kv) (simp add: json_quote_def)
  show ?thesis
  proof (cases d)
    case Nil
    have "e = []"
    proof (rule ccontr)
      assume "e \<noteq> []"
      then obtain b bs where e: "e = b # bs" by (cases e) auto
      then have "json_entry_text asc b @ rest (CHR ''}'') (json_entry_texts asc bs) @ y = CHR ''}'' # x"
        using assms(4) wx Nil by (simp add: join_rest_append)
      then show False using entry by blast
    qed
    then show ?thesis using assms(4) wx Nil by simp
  next
    case (Cons a as)
    then obtain b bs where e: "e = b # bs"
      using assms(2-4) wx entry by (cases e) (auto simp: join_rest_append)
    have "rest (CHR ''}'') (json_entry_texts asc d) @ x = rest (CHR ''}'') (json_entry_texts asc e) @ y"
      using assms(4) wx Cons e by (simp add: join_rest_append rest_simps)
    then have "d = e \<and> x = y"
      by (rule assms(1) [rotated 2]) (use assms(2,3) wx in simp_all)
    then show ?thesis using wx by simp
  qed
qed

lemma json_text_prefix:
  fixes v :: pv and xs :: "pv list" and d :: pdict and kv :: "pv \<times> pv"
  shows "json_value v \<Longrightarrow> json_value w \<Longrightarrow> closed_by x \<Longrightarrow> closed_by y \<Longrightarrow>
      json_text asc v @ x = json_text asc w @ y \<Longrightarrow> v = w \<and> x = y"
    and "json_values xs \<Longrightarrow> json_values ys \<Longrightarrow>
      rest (CHR '']'') (json_texts asc xs) @ x = rest (CHR '']'') (json_texts asc ys) @ y \<Longrightarrow> xs = ys \<and> x = y"
    and "json_entries d \<Longrightarrow> json_entries e \<Longrightarrow>
      rest (CHR ''}'') (json_entry_texts asc d) @ x = rest (CHR ''}'') (json_entry_texts asc e) @ y \<Longrightarrow> d = e \<and> x = y"
    and "json_entry kv \<Longrightarrow> json_entry kw \<Longrightarrow> closed_by x \<Longrightarrow> closed_by y \<Longrightarrow>
      json_entry_text asc kv @ x = json_entry_text asc kw @ y \<Longrightarrow> kv = kw \<and> x = y"
proof (induction v and xs and d and kv arbitrary: w x y and ys x y and e x y and kw x y rule: pv_induct)
  case (List xs)
  show ?case by (rule list_case [OF List.IH]) (use List.prems in simp_all)
next
  case (Dict d)
  show ?case by (rule dict_case [OF Dict.IH]) (use Dict.prems in simp_all)
next
  case (Str s)
  from text_hd_eq [OF Str.prems(1,2,5)] obtain t where "w = PStr t"
    using text_hd [OF Str.prems(1)] text_hd [OF Str.prems(2)] by (cases w) auto
  then show ?case using Str.prems(5) json_quote_inj [of asc s x t y] by simp
next
  case NilL
  then show ?case by (cases ys) (simp_all add: rest_simps)
next
  case (ConsL a as)
  then obtain b bs where ys: "ys = b # bs" by (cases ys) (simp_all add: rest_simps)
  then have eq: "json_text asc a @ rest (CHR '']'') (json_texts asc as) @ x = json_text asc b @ rest (CHR '']'') (json_texts asc bs) @ y"
    using ConsL.prems(3) by (simp add: rest_simps)
  have "a = b \<and> rest (CHR '']'') (json_texts asc as) @ x = rest (CHR '']'') (json_texts asc bs) @ y"
    by (rule ConsL.IH(1) [OF _ _ _ _ eq]) (use ConsL.prems ys in \<open>simp_all add: rest_closed\<close>)
  moreover from this have "as = bs \<and> x = y"
    by (intro ConsL.IH(2)) (use ConsL.prems ys in simp_all)
  ultimately show ?case using ys by simp
next
  case NilD
  then show ?case by (cases e) (simp_all add: rest_simps)
next
  case (ConsD a as)
  then obtain b bs where e: "e = b # bs" by (cases e) (simp_all add: rest_simps)
  then have eq: "json_entry_text asc a @ rest (CHR ''}'') (json_entry_texts asc as) @ x =
      json_entry_text asc b @ rest (CHR ''}'') (json_entry_texts asc bs) @ y"
    using ConsD.prems(3) by (simp add: rest_simps)
  have "a = b \<and> rest (CHR ''}'') (json_entry_texts asc as) @ x = rest (CHR ''}'') (json_entry_texts asc bs) @ y"
    by (rule ConsD.IH(1) [OF _ _ _ _ eq]) (use ConsD.prems e in \<open>simp_all add: rest_closed\<close>)
  moreover from this have "as = bs \<and> x = y"
    by (intro ConsD.IH(2)) (use ConsD.prems e in simp_all)
  ultimately show ?case using e by simp
next
  case (Item k v)
  obtain l u where kw: "kw = (l, u)" by (cases kw)
  then have keys: "is_str k" "is_str l" using Item.prems by simp_all
  have "json_quote asc (py_str k) @ CHR '':'' # json_text asc v @ x = json_quote asc (py_str l) @ CHR '':'' # json_text asc u @ y"
    using Item.prems(5) kw by simp
  then have "py_str k = py_str l" and eq: "json_text asc v @ x = json_text asc u @ y" using json_quote_inj by blast+
  moreover have "v = u \<and> x = y"
    by (rule Item.IH(2) [OF _ _ _ _ eq]) (use Item.prems kw in simp_all)
  ultimately show ?case using kw keys by (auto simp: is_str_iff)
qed (rule scalar_case; simp)+

lemma json_values_all: "json_values xs = list_all json_value xs"
  by (induction xs) simp_all

lemma sorted_value_json:
  "json_value v \<Longrightarrow> json_value (sorted_value v)"
  "json_values xs \<Longrightarrow> json_values (sorted_values xs)"
  "json_entries d \<Longrightarrow> json_entries (sorted_entries d)"
  "json_entry kv \<Longrightarrow> json_entry (sorted_entry kv)"
proof (induction v and xs and d and kv rule: pv_induct)
  case (Dict d)
  let ?s = "sort_key (\<lambda>kv. py_str (fst kv)) (sorted_entries d)"
  have "json_entries ?s" using Dict by (simp add: json_entries_all list_all_iff)
  moreover have "distinct (map fst (sorted_entries d))"
    using Dict.prems by (simp add: sorted_entries_map comp_def)
  then have "distinct (map fst ?s)" by (simp add: distinct_map distinct_sort)
  ultimately show ?case by simp
qed simp_all

lemma sorted_dict_fields:
  assumes "distinct (map fst d)" "distinct (map fst e)" "sorted_value (PDict d) = sorted_value (PDict e)"
  shows "sorted_value (dget d k) = sorted_value (dget e k)"
proof -
  have "set (sorted_entries d) = set (sorted_entries e)"
    using assms(3) by (metis pv.inject(7) set_sort sorted_value.simps(8))
  moreover have "distinct (map fst (sorted_entries d))" "distinct (map fst (sorted_entries e))"
    using assms(1,2) by (simp_all add: sorted_entries_map comp_def)
  ultimately have eq: "map_of (sorted_entries d) = map_of (sorted_entries e)" by (simp add: map_of_inject_set)
  have "map_of (sorted_entries d) a = map_option sorted_value (map_of d a)" for a and d :: pdict
    by (induction d) auto
  with eq have "map_option sorted_value (map_of d (PStr k)) = map_option sorted_value (map_of e (PStr k))"
    by metis
  then show ?thesis by (auto simp: dget_def split: option.splits)
qed

text \<open>Equal texts come from values that differ at most in the order of dictionary items.\<close>

lemma json_sorted_inj:
  assumes "json_value v" "json_value w" "json_sorted asc v = json_sorted asc w"
  shows "sorted_value v = sorted_value w"
proof -
  have "json_text asc (sorted_value v) = json_text asc (sorted_value w)"
    using assms(3) json_sorted_text(1) [OF assms(1), of asc] json_sorted_text(1) [OF assms(2), of asc] by simp
  then show ?thesis
    using json_text_prefix(1) [OF sorted_value_json(1) [OF assms(1)] sorted_value_json(1) [OF assms(2)], of "[]" "[]" asc]
    by (simp add: closed_by_def)
qed

end
