(* ===== verification/Signed_Context.thy ===== *)
theory Signed_Context
  imports Canonical_Json
begin

text \<open>
  Signed runtime contexts: \<open>airflow/dags/runtime_security_context.py\<close>.

  The DAGs sign the context of each call to another service with an HMAC over its canonical JSON and
  verify the contexts they receive. The environment variables, the clock, the random token and the two
  hash functions come from a \<open>world\<close>; the hashes take the text whose UTF-8 encoding Python hashes
  and return the hexadecimal digest.

  The theorems: a signed context verifies exactly within its time window, and a context that verifies
  with a signature issued for another one agrees with it in every field, so no field can be changed.
\<close>

section \<open>The canonical text of a context\<close>

definition unsigned_fields :: "pdict \<Rightarrow> pdict" where
  "unsigned_fields context = filter (\<lambda>kv. fst kv \<noteq> PStr ''_signature'') context"

definition canonical :: "pdict \<Rightarrow> string pyres" where
  "canonical context = json_sorted False (PDict (unsigned_fields context))"

section \<open>The signing key\<close>

record world =
  w_environ :: "(string \<times> string) list"
  w_hmac :: "string \<Rightarrow> string \<Rightarrow> string"
  w_sha256 :: "string \<Rightarrow> string"
  w_now :: int
  w_token :: string

definition getenv :: "world \<Rightarrow> string \<Rightarrow> string" where
  \<comment> \<open>\<open>os.environ.get(name) or ""\<close>\<close>
  "getenv w name = (case map_of (w_environ w) name of None \<Rightarrow> [] | Some v \<Rightarrow> v)"

definition compare_digest :: "string \<Rightarrow> string \<Rightarrow> bool pyres" where
  \<comment> \<open>on strings it accepts ASCII only\<close>
  "compare_digest a b = (if is_ascii a \<and> is_ascii b then Inr (a = b) else Inl TypeError)"

definition MIN_KEY_LENGTH :: nat where "MIN_KEY_LENGTH = 32"
definition TTL_SECONDS :: int where "TTL_SECONDS = 300"
definition FUTURE_SKEW_SECONDS :: int where "FUTURE_SKEW_SECONDS = 30"
definition MATERIALIZE_PURPOSE :: string where "MATERIALIZE_PURPOSE = ''refinement.mcp.materialize''"
definition PIPELINE_RUN_PURPOSE :: string where "PIPELINE_RUN_PURPOSE = ''mcp.pipeline_run_save''"
definition SCHEDULED_RUN_PURPOSE :: string where "SCHEDULED_RUN_PURPOSE = ''cartridge.run''"
definition SIGNATURE_VERSION :: string where "SIGNATURE_VERSION = ''hmac-sha256-v1''"
definition MATERIALIZE_SIGNATURE_VERSION :: string where "MATERIALIZE_SIGNATURE_VERSION = ''hmac-sha256-v2''"

fun distinct_key :: "string \<Rightarrow> (string \<times> string) list \<Rightarrow> unit pyres" where
  \<comment> \<open>the loop over the environment\<close>
  "distinct_key key [] = Inr ()"
| "distinct_key key ((name, value) # env) =
     (if name \<noteq> ''INTERNAL_API_KEY'' \<and> \<not> startswith name ''INTERNAL_API_KEY_'' then distinct_key key env
      else
        let transport = strip value in
        if transport = [] then distinct_key key env
        else rbind (compare_digest key transport) (\<lambda>same.
          if same then Inl (RuntimeError (''SECURITY_CONTEXT_SIGNING_KEY must be distinct from '' @ name))
          else distinct_key key env))"

definition signing_key :: "world \<Rightarrow> string pyres" where
  "signing_key w =
     (let key = strip (getenv w ''SECURITY_CONTEXT_SIGNING_KEY'') in
      if length key < MIN_KEY_LENGTH then Inl (RuntimeError ''SECURITY_CONTEXT_SIGNING_KEY is required'')
      else rbind (distinct_key key (w_environ w)) (\<lambda>_. Inr key))"

section \<open>Signing and verifying\<close>

definition sign_context :: "world \<Rightarrow> string \<Rightarrow> pdict \<Rightarrow> pdict pyres" where
  "sign_context w version payload =
     (let context = filter (\<lambda>kv. fst kv \<notin> {PStr ''_signature'', PStr ''_signed_at'', PStr ''_signature_version''}) payload;
          context1 = dset (dset context ''_signed_at'' (PInt (w_now w))) ''_signature_version'' (PStr version)
      in rbind (signing_key w) (\<lambda>key.
         rbind (canonical context1) (\<lambda>text.
           Inr (dset context1 ''_signature'' (PStr (w_hmac w key text))))))"

definition sign_runtime_context :: "world \<Rightarrow> pdict \<Rightarrow> pdict pyres" where
  "sign_runtime_context w payload = sign_context w SIGNATURE_VERSION payload"

definition signed_at_of :: "pdict \<Rightarrow> int pyres" where
  "signed_at_of context =
     (case py_int (dget context ''_signed_at'') of
        Inl TypeError \<Rightarrow> Inl (ValueError ''runtime context signed_at is required'')
      | Inl (ValueError _) \<Rightarrow> Inl (ValueError ''runtime context signed_at is required'')
      | m \<Rightarrow> m)"

definition verify_runtime_signature :: "world \<Rightarrow> pdict \<Rightarrow> unit pyres" where
  "verify_runtime_signature w context =
     (if dget context ''_signature_version'' \<noteq> PStr SIGNATURE_VERSION
      then Inl (ValueError ''unsupported runtime context signature version'')
      else
        let signature = str_or (dget context ''_signature'') [] in
        if signature = [] then Inl (ValueError ''runtime context signature is required'')
        else rbind (signed_at_of context) (\<lambda>signed_at.
          if w_now w + FUTURE_SKEW_SECONDS < signed_at \<or> TTL_SECONDS < w_now w - signed_at
          then Inl (ValueError ''runtime context signature expired'')
          else rbind (signing_key w) (\<lambda>key.
            rbind (canonical context) (\<lambda>text.
            rbind (compare_digest signature (w_hmac w key text)) (\<lambda>same.
              if same then Inr () else Inl (ValueError ''runtime context signature mismatch''))))))"

section \<open>The contexts of the services\<close>

definition required :: "pv \<Rightarrow> string \<Rightarrow> string pyres" where
  "required value field =
     (let normalized = strip (str_or value [])
      in if normalized = [] then Inl (ValueError (field @ '' is required'')) else Inr normalized)"

definition strs :: "string list \<Rightarrow> pv" where
  "strs ss = PList (map PStr ss)"

definition materialize_body :: "string \<Rightarrow> pdict" where
  "materialize_body dataset =
     pdict_of [(''args'', PDict (pdict_of [(''name'', PStr dataset)])), (''tool'', PStr ''materialize'')]"

definition build_materialize_context :: "world \<Rightarrow> pv \<Rightarrow> pv \<Rightarrow> pv \<Rightarrow> pv \<Rightarrow> pv \<Rightarrow> pdict pyres" where
  "build_materialize_context w tenant_id workspace_id cartridge_id dataset_name run_id =
     rbind (required tenant_id ''tenant_id'') (\<lambda>tenant.
     rbind (required workspace_id ''workspace_id'') (\<lambda>workspace.
     rbind (required cartridge_id ''cartridge_id'') (\<lambda>cartridge.
     rbind (required dataset_name ''dataset_name'') (\<lambda>dataset.
     rbind (required run_id ''run_id'') (\<lambda>runtime_run.
     rbind (json_sorted True (PDict (materialize_body dataset))) (\<lambda>digest_text.
       let scope = ''tenant_id='' @ tenant @ ''/workspace_id='' @ workspace @ ''/''
       in sign_context w MATERIALIZE_SIGNATURE_VERSION (pdict_of
         [(''trusted'', PBool True), (''source'', PStr ''airflow''), (''audience'', PStr ''refinement''),
          (''purpose'', PStr MATERIALIZE_PURPOSE), (''tool'', PStr ''materialize''), (''dataset'', PStr dataset),
          (''run_id'', PStr runtime_run), (''jti'', PStr (w_token w)), (''body_digest'', PStr (w_sha256 w digest_text)),
          (''user_id'', PStr ''airflow:dataset_refresh_chain''), (''role'', PStr ''admin''),
          (''workspace_role'', PStr ''service''), (''tenant_id'', PStr tenant), (''workspace_id'', PStr workspace),
          (''permissions'', strs [''datasets.read'', ''datasets.write'']),
          (''allowed_cartridges'', strs [cartridge]),
          (''allowed_prefixes'', strs [''raw/'' @ cartridge @ ''/'', ''silver/'' @ cartridge @ ''/'' @ scope,
             ''gold/'' @ cartridge @ ''/'' @ scope, ''uploads/'' @ cartridge @ ''/'' @ scope,
             ''cartridges/'' @ cartridge @ ''/''])])))))))"

definition blank :: "pv \<Rightarrow> bool" where
  \<comment> \<open>\<open>not str(value or "").strip()\<close>\<close>
  "blank value \<longleftrightarrow> strip (str_or value []) = []"

definition build_pipeline_run_context :: "world \<Rightarrow> pdict \<Rightarrow> pdict pyres" where
  "build_pipeline_run_context w args =
     (let required_keys = [''run_id'', ''dag_id'', ''cartridge_id'', ''entity'', ''status''] in
      if \<not> list_all (dhas args) required_keys \<or> list_ex (\<lambda>k. blank (dget args k)) required_keys
      then Inl (ValueError ''pipeline telemetry identity is incomplete'')
      else rbind (required (dget args ''cartridge_id'') ''cartridge_id'') (\<lambda>cartridge.
        let tenant = strip (str_or (dget args ''tenant_id'') []);
            workspace = strip (str_or (dget args ''workspace_id'') [])
        in if cartridge \<noteq> ''platform'' \<and> (tenant = [] \<or> workspace = [])
           then Inl (ValueError ''pipeline telemetry scope is incomplete'')
           else
             rbind (required (dget args ''run_id'') ''run_id'') (\<lambda>run_id.
             rbind (required (dget args ''dag_id'') ''dag_id'') (\<lambda>dag_id.
             rbind (json_sorted False (PDict (pdict_of [(''args'', PDict args), (''tool'', PStr ''pipeline_run_save'')])))
               (\<lambda>digest_text.
                 sign_context w MATERIALIZE_SIGNATURE_VERSION (pdict_of
                   [(''trusted'', PBool True), (''source'', PStr ''airflow''), (''audience'', PStr ''mcp-infra''),
                    (''purpose'', PStr PIPELINE_RUN_PURPOSE), (''tool'', PStr ''pipeline_run_save''),
                    (''run_id'', PStr run_id), (''dag_id'', PStr dag_id), (''jti'', PStr (w_token w)),
                    (''body_digest'', PStr (w_sha256 w digest_text)),
                    (''user_id'', PStr (''airflow:'' @ py_str (dget args ''dag_id''))), (''role'', PStr ''service''),
                    (''workspace_role'', PStr ''service''), (''tenant_id'', PStr tenant),
                    (''workspace_id'', PStr workspace), (''permissions'', strs [''pipelines.write'']),
                    (''allowed_cartridges'', strs [cartridge])]))))))"

definition build_scheduled_run_context :: "world \<Rightarrow> pv \<Rightarrow> pv \<Rightarrow> pv \<Rightarrow> pv \<Rightarrow> pv \<Rightarrow> pv \<Rightarrow> pdict pyres" where
  "build_scheduled_run_context w cartridge_id tenant_id workspace_id dag_id dag_run_id issuer =
     rbind (required issuer ''issuer'') (\<lambda>principal.
     rbind (required tenant_id ''tenant_id'') (\<lambda>tenant.
     rbind (required workspace_id ''workspace_id'') (\<lambda>workspace.
     rbind (required cartridge_id ''cartridge_id'') (\<lambda>cartridge.
     rbind (required dag_id ''dag_id'') (\<lambda>dag.
     rbind (required dag_run_id ''dag_run_id'') (\<lambda>dag_run.
       sign_context w SIGNATURE_VERSION (pdict_of
         [(''trusted'', PBool True), (''source'', PStr ''airflow''), (''issuer'', PStr principal),
          (''audience'', PStr ''airflow''), (''purpose'', PStr SCHEDULED_RUN_PURPOSE),
          (''user_id'', PStr (''airflow:'' @ principal)), (''role'', PStr ''service''),
          (''workspace_role'', PStr ''service''), (''tenant_id'', PStr tenant), (''workspace_id'', PStr workspace),
          (''permissions'', strs [''pipelines.run'']), (''allowed_cartridges'', strs [cartridge]),
          (''dag_id'', PStr dag), (''dag_run_id'', PStr dag_run)])))))))"

section \<open>Guarantees\<close>

lemma unsigned_json: "json_value (PDict c) \<Longrightarrow> json_value (PDict (unsigned_fields c))"
  by (simp add: unsigned_fields_def json_entries_all list_all_iff distinct_map_filter)

lemma dget_unsigned: "k \<noteq> ''_signature'' \<Longrightarrow> dget (unsigned_fields c) k = dget c k"
  by (induction c) (auto simp: unsigned_fields_def dget_def)

lemma canonical_determines_fields:
  assumes "json_value (PDict c)" "json_value (PDict e)" "canonical c = canonical e" "k \<noteq> ''_signature''"
  shows "sorted_value (dget c k) = sorted_value (dget e k)"
proof -
  let ?c = "PDict (unsigned_fields c)" and ?e = "PDict (unsigned_fields e)"
  note ok = unsigned_json [OF assms(1)] unsigned_json [OF assms(2)]
  have "sorted_value ?c = sorted_value ?e"
    using json_sorted_inj [OF ok] assms(3) by (simp add: canonical_def)
  then have "sorted_value (dget (unsigned_fields c) k) = sorted_value (dget (unsigned_fields e) k)"
    using sorted_dict_fields ok by simp
  then show ?thesis using assms(4) by (simp add: dget_unsigned)
qed

lemma unsigned_dset_signature: "unsigned_fields (dset c ''_signature'' v) = unsigned_fields c"
  by (induction c) (auto simp: unsigned_fields_def dset_def)

lemma dget_filter_keys:
  "dget (filter (\<lambda>kv. fst kv \<notin> S) d) k = (if PStr k \<in> S then PNone else dget d k)"
  by (induction d) (auto simp: dget_def)

lemma json_dset: "json_value (PDict c) \<Longrightarrow> json_value v \<Longrightarrow> json_value (PDict (dset c k v))"
proof -
  assume c: "json_value (PDict c)" and v: "json_value v"
  have "json_entries (AList.update (PStr k) v c)" if "json_entries c" for c
    using that v by (induction c) auto
  then show "json_value (PDict (dset c k v))" using c by (simp add: dset_def distinct_update)
qed

lemma distinct_key_Inr:
  assumes "distinct_key key env = Inr ()" "key \<noteq> []" "(name, value) \<in> set env"
    "name = ''INTERNAL_API_KEY'' \<or> startswith name ''INTERNAL_API_KEY_''"
  shows "strip value \<noteq> key"
  using assms
  by (induction key env rule: distinct_key.induct)
     (auto simp: Let_def compare_digest_def split: if_splits)

lemma signing_key_Inr:
  assumes "signing_key w = Inr key"
  shows "MIN_KEY_LENGTH \<le> length key \<and> (\<forall>(name, value)\<in>set (w_environ w).
    name = ''INTERNAL_API_KEY'' \<or> startswith name ''INTERNAL_API_KEY_'' \<longrightarrow> strip value \<noteq> key)"
proof -
  have "distinct_key key (w_environ w) = Inr ()" "\<not> length key < MIN_KEY_LENGTH"
    using assms by (auto simp: signing_key_def Let_def rbind_Inr_iff split: if_splits)
  moreover from this(2) have "key \<noteq> []" by (auto simp: MIN_KEY_LENGTH_def)
  ultimately show ?thesis using distinct_key_Inr by fastforce
qed

lemma signing_key_cong: "w_environ w' = w_environ w \<Longrightarrow> signing_key w' = signing_key w"
  by (simp add: signing_key_def getenv_def Let_def)

lemma sign_context_Inr:
  assumes "sign_context w version payload = Inr issued"
  obtains key msg where "signing_key w = Inr key" "canonical issued = Inr msg"
    "dget issued ''_signature'' = PStr (w_hmac w key msg)" "dget issued ''_signed_at'' = PInt (w_now w)"
    "dget issued ''_signature_version'' = PStr version"
    "\<And>k. k \<notin> {''_signature'', ''_signed_at'', ''_signature_version''} \<Longrightarrow> dget issued k = dget payload k"
    "json_value (PDict payload) \<Longrightarrow> json_value (PDict issued)"
proof -
  let ?c = "filter (\<lambda>kv. fst kv \<notin> {PStr ''_signature'', PStr ''_signed_at'', PStr ''_signature_version''}) payload"
  let ?c1 = "dset (dset ?c ''_signed_at'' (PInt (w_now w))) ''_signature_version'' (PStr version)"
  obtain key msg where *: "signing_key w = Inr key" "canonical ?c1 = Inr msg"
    "issued = dset ?c1 ''_signature'' (PStr (w_hmac w key msg))"
    using assms by (auto simp: sign_context_def Let_def rbind_Inr_iff)
  have "json_value (PDict ?c)" if "json_value (PDict payload)"
    using that by (simp add: json_entries_all list_all_iff distinct_map_filter)
  then have "json_value (PDict issued)" if "json_value (PDict payload)"
    using that * by (simp add: json_dset del: json_value.simps(8))
  moreover have "canonical issued = Inr msg" using * by (simp add: canonical_def unsigned_dset_signature)
  moreover have "dget issued k = dget payload k"
    if "k \<notin> {''_signature'', ''_signed_at'', ''_signature_version''}" for k
    using that *(3) dget_filter_keys [of "{PStr ''_signature'', PStr ''_signed_at'', PStr ''_signature_version''}" payload k]
    by (simp add: dget_dset)
  ultimately show ?thesis
    by (intro that [of key msg]) (use * in \<open>simp_all add: dget_dset del: json_value.simps(8)\<close>)
qed

lemma required_Inr: "required v f = Inr s \<longleftrightarrow> s = strip (str_or v []) \<and> s \<noteq> []"
  by (auto simp: required_def Let_def)

lemma sign_context_pdict_of:
  assumes "sign_context w version (pdict_of fs) = Inr issued"
    "set (map fst fs) \<inter> {''_signature'', ''_signed_at'', ''_signature_version''} = {}"
  obtains key msg where "signing_key w = Inr key" "canonical issued = Inr msg"
    "issued = pdict_of (fs @ [(''_signed_at'', PInt (w_now w)), (''_signature_version'', PStr version),
       (''_signature'', PStr (w_hmac w key msg))])"
proof -
  let ?s1 = "dset (dset (pdict_of fs) ''_signed_at'' (PInt (w_now w))) ''_signature_version'' (PStr version)"
  have "filter (\<lambda>kv. fst kv \<notin> {PStr ''_signature'', PStr ''_signed_at'', PStr ''_signature_version''}) (pdict_of fs) =
      pdict_of fs"
    using assms(2) by (force simp: pdict_of_def filter_id_conv)
  then obtain key msg where *: "signing_key w = Inr key" "canonical ?s1 = Inr msg"
      "issued = dset ?s1 ''_signature'' (PStr (w_hmac w key msg))"
    using assms(1) by (auto simp: sign_context_def Let_def rbind_Inr_iff)
  have dset: "dset (pdict_of gs) k v = pdict_of (gs @ [(k, v)])" if "k \<notin> set (map fst gs)" for gs k v
    using that by (induction gs) (auto simp: dset_def pdict_of_def)
  have "canonical issued = Inr msg" using *(2,3) by (simp only: canonical_def unsigned_dset_signature)
  then show ?thesis by (rule that [OF *(1)]) (use *(3) assms(2) in \<open>simp add: dset\<close>)
qed

lemma sign_context_total:
  assumes "json_value (PDict payload)" "signing_key w = Inr key"
  shows "\<exists>ctx. sign_context w version payload = Inr ctx"
proof -
  let ?c = "filter (\<lambda>kv. fst kv \<notin> {PStr ''_signature'', PStr ''_signed_at'', PStr ''_signature_version''}) payload"
  have "json_value (PDict ?c)" using assms(1) by (simp add: json_entries_all list_all_iff distinct_map_filter)
  then have "json_value (PDict (dset (dset ?c ''_signed_at'' (PInt (w_now w))) ''_signature_version'' (PStr version)))"
    by (intro json_dset) simp_all
  from json_sorted_text(1) [OF unsigned_json [OF this]] show ?thesis
    using assms(2) by (simp add: sign_context_def canonical_def Let_def)
qed

definition hex_digests :: "world \<Rightarrow> bool" where
  \<comment> \<open>\<open>hexdigest\<close> returns a non-empty ASCII msg\<close>
  "hex_digests w \<longleftrightarrow> (\<forall>key msg. w_hmac w key msg \<noteq> [] \<and> is_ascii (w_hmac w key msg))"

lemma verify_signed:
  assumes signed: "sign_runtime_context w payload = Inr issued" and "hex_digests w"
    and "w_environ w' = w_environ w" "w_hmac w' = w_hmac w"
  shows "verify_runtime_signature w' issued =
    (if w_now w' + 30 < w_now w \<or> 300 < w_now w' - w_now w
     then Inl (ValueError ''runtime context signature expired'') else Inr ())"
proof -
  obtain key msg where *: "signing_key w = Inr key" "canonical issued = Inr msg"
    "dget issued ''_signature'' = PStr (w_hmac w key msg)" "dget issued ''_signed_at'' = PInt (w_now w)"
    "dget issued ''_signature_version'' = PStr SIGNATURE_VERSION"
    by (rule sign_context_Inr [OF signed [unfolded sign_runtime_context_def]]) blast
  have "signing_key w' = Inr key" using *(1) signing_key_cong [OF assms(3)] by simp
  then show ?thesis
    using * assms(2,4) by (simp add: verify_runtime_signature_def signed_at_of_def FUTURE_SKEW_SECONDS_def
        TTL_SECONDS_def compare_digest_def hex_digests_def)
qed

text \<open>
  a context signed by one service verifies at another that shares the key, from thirty seconds
  before to three hundred seconds after it was signed and never outside that window; signing changes
  no other field; and the key is at least 32 characters long and none of the transport keys.
\<close>

theorem signed_context_verifies:
  assumes signed: "sign_runtime_context w payload = Inr issued" and "hex_digests w"
    and "w_environ w' = w_environ w" "w_hmac w' = w_hmac w"
  shows "verify_runtime_signature w' issued =
      (if w_now w' + 30 < w_now w \<or> 300 < w_now w' - w_now w
       then Inl (ValueError ''runtime context signature expired'') else Inr ()) \<and>
    (\<forall>k. k \<notin> {''_signature'', ''_signed_at'', ''_signature_version''} \<longrightarrow> dget issued k = dget payload k) \<and>
    (\<exists>key. signing_key w = Inr key \<and> 32 \<le> length key \<and> (\<forall>(name, value)\<in>set (w_environ w).
       name = ''INTERNAL_API_KEY'' \<or> startswith name ''INTERNAL_API_KEY_'' \<longrightarrow> strip value \<noteq> key))"
proof -
  obtain key where key: "signing_key w = Inr key"
    and "\<And>k. k \<notin> {''_signature'', ''_signed_at'', ''_signature_version''} \<Longrightarrow> dget issued k = dget payload k"
    by (rule sign_context_Inr [OF signed [unfolded sign_runtime_context_def]]) blast
  then show ?thesis
    using verify_signed [OF assms] signing_key_Inr [OF key] by (simp add: MIN_KEY_LENGTH_def)
qed

lemma signature_binds_fields:
  assumes "sign_runtime_context w payload = Inr issued" and "verify_runtime_signature w' received = Inr ()"
    and "dget received ''_signature'' = dget issued ''_signature''"
    and "w_environ w' = w_environ w" "w_hmac w' = w_hmac w" "\<forall>key. inj (w_hmac w key)" "hex_digests w"
    and "json_value (PDict payload)" "json_value (PDict received)"
  shows "(\<forall>k. sorted_value (dget received k) = sorted_value (dget issued k)) \<and>
    w_now w \<le> w_now w' + 30 \<and> w_now w' \<le> w_now w + 300"
proof -
  obtain key msg where *: "signing_key w = Inr key" "canonical issued = Inr msg"
    "dget issued ''_signature'' = PStr (w_hmac w key msg)" "dget issued ''_signed_at'' = PInt (w_now w)"
    "json_value (PDict issued)"
    by (rule sign_context_Inr [OF assms(1) [unfolded sign_runtime_context_def]]) (use assms(8) in blast)
  have key: "signing_key w' = Inr key" using *(1) signing_key_cong [OF assms(4)] by simp
  have digest: "w_hmac w key msg \<noteq> []" using assms(7) by (simp add: hex_digests_def)
  obtain msg' signed_at where msg': "canonical received = Inr msg'" "w_hmac w key msg = w_hmac w key msg'"
    and clock: "signed_at_of received = Inr signed_at" "signed_at \<le> w_now w' + 30" "w_now w' - signed_at \<le> 300"
    using assms(2,3,5) * key digest
    by (auto simp: verify_runtime_signature_def Let_def rbind_Inr_iff compare_digest_def FUTURE_SKEW_SECONDS_def
        TTL_SECONDS_def not_less split: if_splits)
  have "canonical received = canonical issued"
    using msg' *(2) assms(6) by (metis injD)
  then have fields: "sorted_value (dget received k) = sorted_value (dget issued k)" for k
    using canonical_determines_fields [OF assms(9) *(5)] assms(3) by (cases "k = ''_signature''") simp_all
  have "sorted_value (dget received ''_signed_at'') = PInt (w_now w)" using fields *(4) by simp
  then have "dget received ''_signed_at'' = PInt (w_now w)"
    by (cases "dget received ''_signed_at''") simp_all
  then show ?thesis using fields clock by (simp add: signed_at_of_def)
qed

text \<open>
  C15: the signature binds every field. When a context verifies with a signature that was issued for
  another context under the same key, then the two agree in every field (up to the order of the items
  of a nested dictionary), and it verifies within the time window of the issued one.
\<close>

theorem signed_fields_cannot_change:
  assumes "sign_runtime_context w payload = Inr issued" and "verify_runtime_signature w' received = Inr ()"
    and "dget received ''_signature'' = dget issued ''_signature''"
    and "w_environ w' = w_environ w" "w_hmac w' = w_hmac w" "\<forall>key. inj (w_hmac w key)" "hex_digests w"
    and "json_value (PDict payload)" "json_value (PDict received)"
  shows "(\<forall>k. sorted_value (dget received k) = sorted_value (dget issued k)) \<and>
    w_now w \<le> w_now w' + 30 \<and> w_now w' \<le> w_now w + 300"
  using assms by (rule signature_binds_fields)

definition sample_world :: world where
  "sample_world = \<lparr>w_environ = [(''SECURITY_CONTEXT_SIGNING_KEY'', ''0123456789abcdef0123456789abcdef''),
      (''INTERNAL_API_KEY_AIRFLOW_TO_CONSOLE'', ''transport'')],
    w_hmac = (\<lambda>key. json_quote True), w_sha256 = json_quote True, w_now = 1000, w_token = ''00''\<rparr>"

definition sample_payload :: pdict where
  "sample_payload = pdict_of [(''dag'', PStr ''x'')]"

definition sample_issued :: pdict where
  "sample_issued = (case sign_runtime_context sample_world sample_payload of Inr d \<Rightarrow> d | Inl _ \<Rightarrow> [])"

lemma ascii_quote: "is_ascii (json_quote True s)"
proof -
  have "\<forall>n \<in> set [0..<16]. (of_char (hex_digit n) :: nat) < 128" by code_simp
  then have "(of_char (hex_digit n) :: nat) < 128" if "n < 16" for n :: nat using that by simp
  moreover have "code c div 16 < 16" for c using nat_of_char_less_256 [of c] by (simp add: less_mult_imp_div_less)
  ultimately have "list_all (\<lambda>d. code d < 128) (json_escape True c)" for c
    by (auto simp: json_escape_def)
  then show ?thesis by (auto simp: is_ascii_def json_quote_def list_all_iff)
qed

lemma sample_digests: "hex_digests sample_world" "inj (w_hmac sample_world key)"
proof -
  show "hex_digests sample_world" using ascii_quote by (simp add: hex_digests_def sample_world_def json_quote_def)
  show "inj (w_hmac sample_world key)" using json_quote_inj [of True _ "[]" _ "[]"] by (simp add: sample_world_def inj_def)
qed

lemma sample_signed: "sign_runtime_context sample_world sample_payload = Inr sample_issued"
proof -
  have "isl (sign_runtime_context sample_world sample_payload) = False" by code_simp
  then show ?thesis
    by (cases "sign_runtime_context sample_world sample_payload") (simp_all add: sample_issued_def)
qed

theorem signed_context_verifies_witness:
  "verify_runtime_signature (sample_world\<lparr>w_now := 1200\<rparr>) sample_issued = Inr () \<and>
   verify_runtime_signature (sample_world\<lparr>w_now := 1301\<rparr>) sample_issued =
     Inl (ValueError ''runtime context signature expired'')"
proof -
  have now: "w_now sample_world = 1000" by (simp add: sample_world_def)
  have "verify_runtime_signature (sample_world\<lparr>w_now := n\<rparr>) sample_issued =
      (if n + 30 < 1000 \<or> 300 < n - 1000 then Inl (ValueError ''runtime context signature expired'') else Inr ())" for n
    using signed_context_verifies [OF sample_signed sample_digests(1), of "sample_world\<lparr>w_now := n\<rparr>"] now by simp
  then show ?thesis by simp
qed

definition reordered :: pdict where
  "reordered = rev sample_issued"

theorem signed_fields_cannot_change_witness:
  "verify_runtime_signature sample_world reordered = Inr () \<and>
   sorted_value (dget reordered ''dag'') = sorted_value (dget sample_issued ''dag'')"
proof -
  have verified: "verify_runtime_signature sample_world reordered = Inr ()" by code_simp
  have issued: "json_value (PDict sample_issued)" "json_value (PDict sample_payload)" by code_simp+
  then have ok: "distinct (map fst sample_issued)" "json_value (PDict reordered)"
    by (simp_all add: reordered_def json_entries_all list_all_iff rev_map [symmetric])
  have "dget reordered ''_signature'' = dget sample_issued ''_signature''"
    using ok(1) map_of_inject_set [of "rev sample_issued" sample_issued]
    by (simp add: reordered_def dget_def rev_map [symmetric])
  then show ?thesis
    using signed_fields_cannot_change [OF sample_signed verified _ refl refl _ sample_digests(1) issued(2) ok(2)]
      sample_digests(2) verified
    by blast
qed

end
