(* ===== verification/Refresh_Admission.thy ===== *)
theory Refresh_Admission
  imports Signed_Context Refresh_Outcome Contracts
begin

text \<open>
  Admission of a refresh run: \<open>airflow/dags/dataset_refresh_admission.py\<close> and the SQL function
  \<open>consume_dataset_refresh_admission\<close> (\<open>infra/init/99zzo_runtime_hmac_authority.sql\<close>).

  A DAG that wants a refresh builds a signed envelope that is bound to one run and one configuration;
  the first task of the refresh validates it and consumes its nonce in the database. The table of
  nonces only grows: no role may update or delete rows. The clock of the database, its session user,
  its workspaces and its \<open>uuid\<close> parser are part of a \<open>db\<close> record; the function runs as one
  transaction.

  The theorems: what \<open>build_dataset_refresh_trigger\<close> issues is admitted, again and again for the
  same run, exactly when the configuration names the scope of the caller; and a nonce admits one run
  with one configuration only.
\<close>

section \<open>The envelope\<close>

definition ADMISSION_PURPOSE :: string where "ADMISSION_PURPOSE = ''dataset_refresh.admit''"
definition ADMISSION_VERSION :: string where "ADMISSION_VERSION = ''hmac-sha256-v1''"
definition DIRECT_TTL :: int where "DIRECT_TTL = 300"
definition BRIDGE_TTL :: int where "BRIDGE_TTL = 86400"

definition ADMISSION_FIELDS :: "string list" where
  "ADMISSION_FIELDS = [''source'', ''audience'', ''purpose'', ''dag_id'', ''dag_run_id'', ''tenant_id'',
     ''workspace_id'', ''cartridge_id'', ''seed_raw'', ''seed_dataset'', ''max_depth'', ''conf_digest'', ''jti'',
     ''_signed_at'', ''_expires_at'', ''_signature_version'', ''_signature'']"

definition conf_digest :: "world \<Rightarrow> pdict \<Rightarrow> string pyres" where
  "conf_digest w conf =
     rbind (canonical (filter (\<lambda>kv. fst kv \<noteq> PStr ''security_context'') conf)) (\<lambda>msg. Inr (w_sha256 w msg))"

definition admission_key :: "world \<Rightarrow> string pyres" where
  "admission_key w =
     (let value = strip (getenv w ''SECURITY_CONTEXT_SIGNING_KEY'')
      in if length value < 32 then Inl (ValueError ''dataset refresh admission key unavailable'') else Inr value)"

definition scope_field :: "pdict \<Rightarrow> string \<Rightarrow> string" where
  \<comment> \<open>\<open>str(conf.get(key) or "").strip()\<close>\<close>
  "scope_field d k = strip (str_or (dget d k) [])"

definition max_depth_of :: "pdict \<Rightarrow> int pyres" where
  "max_depth_of conf = py_int (py_or (dget conf ''max_depth'') (PInt 10))"

definition str_items :: "pv \<Rightarrow> string list pyres" where
  \<comment> \<open>\<open>{str(item) for item in value or []}\<close>\<close>
  "str_items value = rbind (py_iter (py_or value (PList []))) (\<lambda>items. Inr (map py_str items))"

definition authority_mismatch :: "pdict \<Rightarrow> string list \<Rightarrow> string list \<Rightarrow> string \<Rightarrow> bool" where
  "authority_mismatch upstream allowed permissions cartridge \<longleftrightarrow>
     dget upstream ''trusted'' \<noteq> PBool True \<or>
     str_or (dget upstream ''source'') [] \<notin> {''airflow'', ''console'', ''mcp-infra'', ''workspace''} \<or>
     ''pipelines.run'' \<notin> set permissions \<or> scope_field upstream ''tenant_id'' = [] \<or>
     scope_field upstream ''workspace_id'' = [] \<or> cartridge = [] \<or>
     (''*'' \<notin> set allowed \<and> cartridge \<notin> set allowed)"

text \<open>\<open>signed_at\<close> is the clock when the envelope is made; the caller's context was verified at \<open>w_now w\<close>.\<close>

definition build_dataset_refresh_admission ::
    "world \<Rightarrow> int \<Rightarrow> pdict \<Rightarrow> pdict \<Rightarrow> string \<Rightarrow> pdict pyres" where
  "build_dataset_refresh_admission w signed_at upstream conf dag_run_id =
     rbind (verify_runtime_signature w upstream) (\<lambda>_.
     rbind (str_items (dget upstream ''allowed_cartridges'')) (\<lambda>allowed.
     rbind (str_items (dget upstream ''permissions'')) (\<lambda>permissions.
       let cartridge_id = scope_field conf ''cartridge_id'' in
       if authority_mismatch upstream allowed permissions cartridge_id
       then Inl (ValueError ''dataset refresh upstream authority mismatch'')
       else
         rbind (max_depth_of conf) (\<lambda>max_depth.
         rbind (conf_digest w conf) (\<lambda>digest.
           let envelope = pdict_of
             [(''source'', PStr ''airflow:file_ingest''), (''audience'', PStr ''airflow''),
              (''purpose'', PStr ADMISSION_PURPOSE), (''dag_id'', PStr ''dataset_refresh_chain''),
              (''dag_run_id'', PStr dag_run_id), (''tenant_id'', PStr (scope_field upstream ''tenant_id'')),
              (''workspace_id'', PStr (scope_field upstream ''workspace_id'')), (''cartridge_id'', PStr cartridge_id),
              (''seed_raw'', PStr (str_or (dget conf ''seed_raw'') [])),
              (''seed_dataset'', PStr (str_or (dget conf ''seed_dataset'') [])), (''max_depth'', PInt max_depth),
              (''jti'', PStr (w_token w)), (''conf_digest'', PStr digest), (''_signed_at'', PInt signed_at),
              (''_signature_version'', PStr ADMISSION_VERSION), (''_expires_at'', PInt (signed_at + BRIDGE_TTL))]
           in rbind (admission_key w) (\<lambda>key.
              rbind (canonical envelope) (\<lambda>msg.
                Inr (dset envelope ''_signature'' (PStr (w_hmac w key msg))))))))))"

definition build_dataset_refresh_trigger ::
    "world \<Rightarrow> int \<Rightarrow> pdict \<Rightarrow> pdict \<Rightarrow> pv \<Rightarrow> pv \<Rightarrow> (string \<times> pdict) pyres" where
  "build_dataset_refresh_trigger w signed_at upstream conf source_dag_run_id prefix =
     (let source_run = strip (str_or source_dag_run_id []);
          clean_prefix = take 40 (filter (\<lambda>c. is_alnum c \<or> c \<in> set ''_-'') (str_or prefix []))
      in if source_run = [] \<or> clean_prefix = [] then Inl (ValueError ''dataset refresh source run is incomplete'')
         else
           rbind (canonical (pdict_of [(''source_dag_run_id'', PStr source_run), (''conf'', PDict conf)])) (\<lambda>msg.
             let dag_run_id = clean_prefix @ ''__dataset_refresh__'' @ take 32 (w_sha256 w msg)
             in rbind (build_dataset_refresh_admission w signed_at upstream conf dag_run_id) (\<lambda>envelope.
                  Inr (dag_run_id, dset conf ''security_context'' (PDict envelope)))))"

section \<open>The nonces\<close>

record nonce =
  n_tenant :: "string option"
  n_workspace :: "string option"
  n_run :: string
  n_audience :: string
  n_purpose :: string
  n_digest :: string
  n_signed_at :: int
  n_expires_at :: int
  n_dag :: "string option"
  n_cartridge :: "string option"
  n_schedule_run :: "int option"
  n_fencing :: "int option"

type_synonym nonce_table = "string \<rightharpoonup> nonce"

record db =
  db_clock :: int
  db_authorised :: bool
  db_workspaces :: "(string \<times> string) list"
  db_uuid :: "string \<Rightarrow> string option"

definition lower_hex :: "char \<Rightarrow> bool" where
  "lower_hex c \<longleftrightarrow> is_ascii_digit c \<or> c \<in> set ''abcdef''"

definition hex64 :: "string \<Rightarrow> bool" where
  \<comment> \<open>\<open>^[0-9a-f]{64}$\<close>\<close>
  "hex64 s \<longleftrightarrow> length s = 64 \<and> list_all lower_hex s"

text \<open>\<open>db_clock\<close> counts microseconds; \<open>db_workspaces\<close> lists workspaces with their tenants.\<close>

definition consume_dataset_refresh_admission ::
    "db \<Rightarrow> string \<Rightarrow> string \<Rightarrow> string \<Rightarrow> string \<Rightarrow> string \<Rightarrow> string \<Rightarrow> int \<Rightarrow> int \<Rightarrow> nonce_table
     \<Rightarrow> (bool \<times> nonce_table) pyres" where
  "consume_dataset_refresh_admission db jti tenant workspace run_id cartridge digest signed_at expires_at table =
     (let row = \<lparr>n_tenant = Some tenant, n_workspace = Some workspace, n_run = run_id, n_audience = ''airflow'',
            n_purpose = ''dataset_refresh.admit'', n_digest = digest, n_signed_at = signed_at, n_expires_at = expires_at,
            n_dag = Some ''dataset_refresh_chain'', n_cartridge = Some cartridge, n_schedule_run = None, n_fencing = None\<rparr>
      in case table jti of
        Some r \<Rightarrow> if r\<lparr>n_schedule_run := None, n_fencing := None\<rparr> = row then Inr (True, table) else Inl (DatabaseError ''UniqueViolation'')
      | None \<Rightarrow>
          if \<not> db_authorised db \<or> \<not> hex64 jti \<or> \<not> hex64 digest \<or> run_id = [] \<or> cartridge = [] \<or>
             expires_at - signed_at \<notin> {300, 86400} \<or> expires_at * 1000000 \<le> db_clock db \<or>
             (workspace, tenant) \<notin> set (db_workspaces db)
          then Inl (DatabaseError ''InsufficientPrivilege'')
          else if 250 < length run_id then Inl (DatabaseError ''CheckViolation'')
          else Inr (True, table(jti \<mapsto> row)))"

section \<open>Validation\<close>

definition is_hex :: "char \<Rightarrow> bool" where
  "is_hex c \<longleftrightarrow> is_ascii_digit c \<or> c \<in> set ''abcdefABCDEF''"

fun fromhex_ok :: "string \<Rightarrow> bool" where
  \<comment> \<open>\<open>bytes.fromhex\<close>: pairs of digits, ASCII blanks between them\<close>
  "fromhex_ok [] = True"
| "fromhex_ok (c # s) =
     (if code c \<in> {9, 10, 11, 12, 13, 32} then fromhex_ok s
      else (case s of [] \<Rightarrow> False | d # t \<Rightarrow> is_hex c \<and> is_hex d \<and> fromhex_ok t))"

definition identity_int :: "pv \<Rightarrow> int pyres" where
  "identity_int v =
     (case py_int v of
        Inl TypeError \<Rightarrow> Inl (ValueError ''dataset refresh admission identity invalid'')
      | Inl (ValueError _) \<Rightarrow> Inl (ValueError ''dataset refresh admission identity invalid'')
      | m \<Rightarrow> m)"

definition fixed_fields :: "pdict \<Rightarrow> string \<Rightarrow> int \<Rightarrow> string \<Rightarrow> (string \<times> pv) list" where
  "fixed_fields conf run_id max_depth digest =
     [(''audience'', PStr ''airflow''), (''purpose'', PStr ADMISSION_PURPOSE), (''dag_id'', PStr ''dataset_refresh_chain''),
      (''dag_run_id'', PStr run_id), (''tenant_id'', PStr (scope_field conf ''tenant_id'')),
      (''workspace_id'', PStr (scope_field conf ''workspace_id'')),
      (''cartridge_id'', PStr (scope_field conf ''cartridge_id'')),
      (''seed_raw'', PStr (str_or (dget conf ''seed_raw'') [])),
      (''seed_dataset'', PStr (str_or (dget conf ''seed_dataset'') [])), (''max_depth'', PInt max_depth),
      (''conf_digest'', PStr digest), (''_signature_version'', PStr ADMISSION_VERSION)]"

definition to_uuid :: "db \<Rightarrow> string \<Rightarrow> string pyres" where
  "to_uuid db s = (case db_uuid db s of Some u \<Rightarrow> Inr u | None \<Rightarrow> Inl (DatabaseError ''InvalidTextRepresentation''))"

definition validate_dataset_refresh_admission ::
    "world \<Rightarrow> db \<Rightarrow> pv \<Rightarrow> pdict \<Rightarrow> string \<Rightarrow> nonce_table \<Rightarrow> ((string \<times> string) \<times> nonce_table) pyres" where
  "validate_dataset_refresh_admission w db context_value conf run_id table =
     (case context_value of
        PDict context \<Rightarrow>
          if \<not> same_keys context ADMISSION_FIELDS then Inl (ValueError ''dataset refresh admission envelope mismatch'')
          else
            rbind (max_depth_of conf) (\<lambda>max_depth.
            rbind (conf_digest w conf) (\<lambda>digest.
            rbind (in_str_set (dget context ''source'') [''mcp-infra'', ''airflow:file_ingest'']) (\<lambda>issuer.
              if \<not> issuer then Inl (ValueError ''dataset refresh admission issuer mismatch'')
              else if list_ex (\<lambda>(key, value). \<not> py_eq (dget context key) value) (fixed_fields conf run_id max_depth digest)
              then Inl (ValueError ''dataset refresh admission binding mismatch'')
              else
                rbind (identity_int (dget context ''_signed_at'')) (\<lambda>signed_at.
                rbind (identity_int (dget context ''_expires_at'')) (\<lambda>expires_at.
                  let jti = py_str (dget context ''jti'') in
                  if \<not> fromhex_ok jti then Inl (ValueError ''dataset refresh admission identity invalid'')
                  else if length jti \<noteq> 64 \<or> w_now w + 30 < signed_at \<or>
                     expires_at - signed_at \<noteq> (if dget context ''source'' = PStr ''mcp-infra'' then DIRECT_TTL else BRIDGE_TTL)
                  then Inl (ValueError ''dataset refresh admission expired'')
                  else
                    rbind (admission_key w) (\<lambda>key.
                    rbind (canonical context) (\<lambda>msg.
                    rbind (compare_digest (str_or (dget context ''_signature'') []) (w_hmac w key msg)) (\<lambda>same.
                      if \<not> same then Inl (ValueError ''dataset refresh admission signature mismatch'')
                      else
                        let tenant = scope_field conf ''tenant_id''; workspace = scope_field conf ''workspace_id'' in
                        if tenant = [] \<or> workspace = []
                        then Inl (ValueError ''dataset refresh admission scope is incomplete'')
                        else
                          rbind (to_uuid db tenant) (\<lambda>tenant_uuid.
                          rbind (to_uuid db workspace) (\<lambda>workspace_uuid.
                          rbind (consume_dataset_refresh_admission db jti tenant_uuid workspace_uuid run_id
                              (scope_field conf ''cartridge_id'') digest signed_at expires_at table) (\<lambda>(consumed, table').
                            if \<not> consumed then Inl (ValueError ''dataset refresh admission was not consumed'')
                            else Inr ((tenant, workspace), table'))))))))))))
      | _ \<Rightarrow> Inl (ValueError ''dataset refresh admission envelope mismatch''))"

section \<open>Guarantees\<close>

lemma filter_update_key: "filter (\<lambda>kv. fst kv \<noteq> k) (AList.update k v d) = filter (\<lambda>kv. fst kv \<noteq> k) d"
  by (induction d) auto

lemma conf_digest_security_context [simp]: "conf_digest w (dset conf ''security_context'' v) = conf_digest w conf"
  by (simp add: conf_digest_def dset_def filter_update_key)

lemma scope_field_security_context [simp]:
  "k \<noteq> ''security_context'' \<Longrightarrow> scope_field (dset conf ''security_context'' v) k = scope_field conf k"
  by (simp add: scope_field_def dget_dset)

lemma world_cong:
  "w_environ w' = w_environ w \<Longrightarrow> admission_key w' = admission_key w"
  "w_sha256 w' = w_sha256 w \<Longrightarrow> conf_digest w' conf = conf_digest w conf"
  by (simp_all add: admission_key_def getenv_def conf_digest_def Let_def)

text \<open>The envelope that is built, and what was checked before.\<close>

definition envelope_of :: "world \<Rightarrow> int \<Rightarrow> pdict \<Rightarrow> pdict \<Rightarrow> string \<Rightarrow> int \<Rightarrow> string \<Rightarrow> string \<Rightarrow> pdict" where
  "envelope_of w signed_at upstream conf run_id max_depth digest signature = pdict_of
     [(''source'', PStr ''airflow:file_ingest''), (''audience'', PStr ''airflow''),
      (''purpose'', PStr ADMISSION_PURPOSE), (''dag_id'', PStr ''dataset_refresh_chain''),
      (''dag_run_id'', PStr run_id), (''tenant_id'', PStr (scope_field upstream ''tenant_id'')),
      (''workspace_id'', PStr (scope_field upstream ''workspace_id'')),
      (''cartridge_id'', PStr (scope_field conf ''cartridge_id'')),
      (''seed_raw'', PStr (str_or (dget conf ''seed_raw'') [])),
      (''seed_dataset'', PStr (str_or (dget conf ''seed_dataset'') [])), (''max_depth'', PInt max_depth),
      (''jti'', PStr (w_token w)), (''conf_digest'', PStr digest), (''_signed_at'', PInt signed_at),
      (''_signature_version'', PStr ADMISSION_VERSION), (''_expires_at'', PInt (signed_at + BRIDGE_TTL)),
      (''_signature'', PStr signature)]"

lemma trigger_Inr:
  assumes "build_dataset_refresh_trigger w signed_at upstream conf source_run prefix = Inr (run_id, conf')"
  obtains max_depth digest key msg where
    "conf' = dset conf ''security_context'' (PDict (envelope_of w signed_at upstream conf run_id max_depth digest (w_hmac w key msg)))"
    "max_depth_of conf = Inr max_depth" "conf_digest w conf = Inr digest" "admission_key w = Inr key"
    "canonical (envelope_of w signed_at upstream conf run_id max_depth digest (w_hmac w key msg)) = Inr msg"
    "scope_field upstream ''tenant_id'' \<noteq> []" "scope_field upstream ''workspace_id'' \<noteq> []"
    "scope_field conf ''cartridge_id'' \<noteq> []" "run_id \<noteq> []" "length run_id \<le> 250"
proof -
  let ?clean = "take 40 (filter (\<lambda>c. is_alnum c \<or> c \<in> set ''_-'') (str_or prefix []))"
  obtain target envelope where run: "?clean \<noteq> []" "run_id = ?clean @ ''__dataset_refresh__'' @ take 32 target"
    and built: "build_dataset_refresh_admission w signed_at upstream conf run_id = Inr envelope"
    and conf': "conf' = dset conf ''security_context'' (PDict envelope)"
    using assms by (auto simp: build_dataset_refresh_trigger_def Let_def rbind_Inr_iff split: if_splits)
  obtain max_depth digest key msg where ok: "max_depth_of conf = Inr max_depth" "conf_digest w conf = Inr digest"
      "admission_key w = Inr key"
    and envelope: "canonical (butlast (envelope_of w signed_at upstream conf run_id max_depth digest [])) = Inr msg"
      "envelope = envelope_of w signed_at upstream conf run_id max_depth digest (w_hmac w key msg)"
      "scope_field upstream ''tenant_id'' \<noteq> []" "scope_field upstream ''workspace_id'' \<noteq> []"
      "scope_field conf ''cartridge_id'' \<noteq> []"
    using built
    by (auto simp: build_dataset_refresh_admission_def Let_def rbind_Inr_iff authority_mismatch_def envelope_of_def
        dset_def split: if_splits)
  have "unsigned_fields (envelope_of w signed_at upstream conf run_id max_depth digest sig) =
      unsigned_fields (butlast (envelope_of w signed_at upstream conf run_id max_depth digest []))" for sig
    by (simp add: envelope_of_def unsigned_fields_def)
  then have "canonical (envelope_of w signed_at upstream conf run_id max_depth digest sig) = Inr msg" for sig
    using envelope(1) by (simp add: canonical_def)
  moreover have "length run_id \<le> 250" "run_id \<noteq> []"
    using run by (simp_all add: min_def)
  ultimately show ?thesis using that ok envelope conf' by blast
qed

lemma hex64_fromhex:
  assumes "hex64 s"
  shows "fromhex_ok s \<and> length s = 64"
proof -
  have "is_hex c \<and> code c \<notin> {9, 10, 11, 12, 13, 32}" if "lower_hex c" for c
    using that by (auto simp: lower_hex_def is_hex_def is_ascii_digit_def)
  then have "fromhex_ok s" if "even (length s)" "list_all lower_hex s"
    using that by (induction s rule: fromhex_ok.induct) (auto split: list.splits)
  then show ?thesis using assms by (simp add: hex64_def)
qed

lemma validate_envelope:
  assumes "max_depth_of conf = Inr max_depth" "conf_digest w conf = Inr digest" "admission_key w = Inr key"
    "canonical (envelope_of w signed_at upstream conf run_id max_depth digest (w_hmac w key msg)) = Inr msg"
    "scope_field upstream ''tenant_id'' \<noteq> []" "scope_field upstream ''workspace_id'' \<noteq> []"
    and worlds: "w_environ w' = w_environ w" "w_hmac w' = w_hmac w" "w_sha256 w' = w_sha256 w"
    and ok: "hex_digests w" "hex64 (w_token w)" "signed_at \<le> w_now w' + 30"
  defines "envelope \<equiv> envelope_of w signed_at upstream conf run_id max_depth digest (w_hmac w key msg)"
  defines "conf' \<equiv> dset conf ''security_context'' (PDict envelope)"
  shows "validate_dataset_refresh_admission w' db (PDict envelope) conf' run_id table =
    (if scope_field conf ''tenant_id'' = scope_field upstream ''tenant_id'' \<and>
        scope_field conf ''workspace_id'' = scope_field upstream ''workspace_id''
     then rbind (to_uuid db (scope_field upstream ''tenant_id'')) (\<lambda>tenant.
          rbind (to_uuid db (scope_field upstream ''workspace_id'')) (\<lambda>workspace.
          rbind (consume_dataset_refresh_admission db (w_token w) tenant workspace run_id
              (scope_field conf ''cartridge_id'') digest signed_at (signed_at + BRIDGE_TTL) table) (\<lambda>(consumed, table').
            if \<not> consumed then Inl (ValueError ''dataset refresh admission was not consumed'')
            else Inr ((scope_field upstream ''tenant_id'', scope_field upstream ''workspace_id''), table'))))
     else Inl (ValueError ''dataset refresh admission binding mismatch''))"
proof -
  have depth: "max_depth_of conf' = Inr max_depth" "conf_digest w' conf' = Inr digest" "admission_key w' = Inr key"
    using assms(1-3) world_cong(1) [OF worlds(1)] world_cong(2) [OF worlds(3), of conf]
      world_cong(2) [OF worlds(3), of conf'] by (simp_all add: conf'_def max_depth_of_def dget_dset)
  have keys: "same_keys envelope ADMISSION_FIELDS"
    by (simp add: envelope_def envelope_of_def same_keys_def ADMISSION_FIELDS_def)
  have binding: "list_ex (\<lambda>(key, value). \<not> py_eq (dget envelope key) value) (fixed_fields conf' run_id max_depth digest) \<longleftrightarrow>
      \<not> (scope_field conf ''tenant_id'' = scope_field upstream ''tenant_id'' \<and>
         scope_field conf ''workspace_id'' = scope_field upstream ''workspace_id'')"
    by (auto simp: envelope_def envelope_of_def fixed_fields_def conf'_def dget_dset num_eq_def)
  have get: "dget envelope ''source'' = PStr ''airflow:file_ingest''" "dget envelope ''_signed_at'' = PInt signed_at"
      "dget envelope ''_expires_at'' = PInt (signed_at + BRIDGE_TTL)" "dget envelope ''jti'' = PStr (w_token w)"
      "dget envelope ''_signature'' = PStr (w_hmac w key msg)"
    by (simp_all add: envelope_def envelope_of_def)
  have fields: "scope_field conf' k = scope_field conf k" if "k \<noteq> ''security_context''" for k
    using that by (simp add: conf'_def)
  show ?thesis
    using keys depth binding get fields hex64_fromhex [OF ok(2)] ok(1,3) worlds assms(4-6)
    by (simp add: validate_dataset_refresh_admission_def in_str_set_def identity_int_def compare_digest_def
        hex_digests_def envelope_def [symmetric] Let_def not_less)
qed

text \<open>The environments in which an admission is checked: they share keys and hashes with its issuer.\<close>

definition shares_keys :: "world \<Rightarrow> world \<Rightarrow> bool" where
  "shares_keys w w' \<longleftrightarrow> w_environ w' = w_environ w \<and> w_hmac w' = w_hmac w \<and> w_sha256 w' = w_sha256 w"

definition database_knows :: "db \<Rightarrow> string \<Rightarrow> string \<Rightarrow> bool" where
  \<comment> \<open>the database lets the task in and has the workspace under the tenant\<close>
  "database_knows db tenant workspace \<longleftrightarrow> db_authorised db \<and>
     (\<exists>t u. db_uuid db tenant = Some t \<and> db_uuid db workspace = Some u \<and> (u, t) \<in> set (db_workspaces db))"

lemma trigger_validation:
  assumes trigger: "build_dataset_refresh_trigger w signed_at upstream conf source_run prefix = Inr (run_id, conf')"
    and digests: "hex_digests w" "hex64 (w_token w)" "\<forall>msg. hex64 (w_sha256 w msg)"
    and first: "shares_keys w w1" "signed_at \<le> w_now w1 + 30" "table (w_token w) = None"
      "db_clock db < (signed_at + 86400) * 1000000"
      "database_knows db (scope_field upstream ''tenant_id'') (scope_field upstream ''workspace_id'')"
    and retry: "shares_keys w w2" "signed_at \<le> w_now w2 + 30" "db_uuid db2 = db_uuid db"
  shows "if scope_field conf ''tenant_id'' = scope_field upstream ''tenant_id'' \<and>
            scope_field conf ''workspace_id'' = scope_field upstream ''workspace_id''
    then \<exists>table'. (let scope = (scope_field upstream ''tenant_id'', scope_field upstream ''workspace_id'');
                       envelope = dget conf' ''security_context''
                   in validate_dataset_refresh_admission w1 db envelope conf' run_id table = Inr (scope, table') \<and>
                      validate_dataset_refresh_admission w2 db2 envelope conf' run_id table' = Inr (scope, table'))
    else validate_dataset_refresh_admission w1 db (dget conf' ''security_context'') conf' run_id table =
      Inl (ValueError ''dataset refresh admission binding mismatch'')"
proof -
  obtain max_depth digest key msg where
    conf': "conf' = dset conf ''security_context'' (PDict (envelope_of w signed_at upstream conf run_id max_depth digest (w_hmac w key msg)))"
    and ok: "max_depth_of conf = Inr max_depth" "conf_digest w conf = Inr digest" "admission_key w = Inr key"
    "canonical (envelope_of w signed_at upstream conf run_id max_depth digest (w_hmac w key msg)) = Inr msg"
    "scope_field upstream ''tenant_id'' \<noteq> []" "scope_field upstream ''workspace_id'' \<noteq> []"
    and run: "scope_field conf ''cartridge_id'' \<noteq> []" "run_id \<noteq> []" "length run_id \<le> 250"
    by (rule trigger_Inr [OF trigger])
  note validate = validate_envelope [OF ok, folded conf']
  have digest: "hex64 digest" using ok(2) digests(3) by (auto simp: conf_digest_def rbind_Inr_iff)
  obtain t u where uuid: "db_uuid db (scope_field upstream ''tenant_id'') = Some t"
      "db_uuid db (scope_field upstream ''workspace_id'') = Some u" "(u, t) \<in> set (db_workspaces db)" "db_authorised db"
    using first(5) by (auto simp: database_knows_def)
  let ?consume = "\<lambda>db. consume_dataset_refresh_admission db (w_token w) t u run_id (scope_field conf ''cartridge_id'')
      digest signed_at (signed_at + BRIDGE_TTL)"
  obtain table' where consumed: "?consume db table = Inr (True, table')" "?consume db2 table' = Inr (True, table')"
    using first(3,4) uuid digest run digests(2)
    by (simp add: consume_dataset_refresh_admission_def BRIDGE_TTL_def not_le)
  have get: "dget conf' ''security_context'' =
      PDict (envelope_of w signed_at upstream conf run_id max_depth digest (w_hmac w key msg))"
    by (simp add: conf' dget_dset)
  show ?thesis
    using first(1,2) retry digests(1,2) uuid consumed
    by (auto simp: get validate shares_keys_def to_uuid_def Let_def intro!: exI [of _ table'])
qed

text \<open>
  C35: a trigger that was issued is admitted when its configuration names the tenant and the workspace
  of the caller, the nonce is new and a day has not passed; the retry of the task is admitted again
  with the same answer and changes nothing, however late it comes. When the configuration names
  another scope, the admission is refused.
\<close>

theorem issued_trigger_is_admitted:
  assumes trigger: "build_dataset_refresh_trigger w signed_at upstream conf source_run prefix = Inr (run_id, conf')"
    and digests: "hex_digests w" "hex64 (w_token w)" "\<forall>msg. hex64 (w_sha256 w msg)"
    and first: "shares_keys w w1" "signed_at \<le> w_now w1 + 30" "table (w_token w) = None"
      "db_clock db < (signed_at + 86400) * 1000000"
      "database_knows db (scope_field upstream ''tenant_id'') (scope_field upstream ''workspace_id'')"
    and retry: "shares_keys w w2" "signed_at \<le> w_now w2 + 30" "db_uuid db2 = db_uuid db"
  shows "if scope_field conf ''tenant_id'' = scope_field upstream ''tenant_id'' \<and>
            scope_field conf ''workspace_id'' = scope_field upstream ''workspace_id''
    then \<exists>table'. (let scope = (scope_field upstream ''tenant_id'', scope_field upstream ''workspace_id'');
                       envelope = dget conf' ''security_context''
                   in validate_dataset_refresh_admission w1 db envelope conf' run_id table = Inr (scope, table') \<and>
                      validate_dataset_refresh_admission w2 db2 envelope conf' run_id table' = Inr (scope, table'))
    else validate_dataset_refresh_admission w1 db (dget conf' ''security_context'') conf' run_id table =
      Inl (ValueError ''dataset refresh admission binding mismatch'')"
  using assms by (rule trigger_validation)

text \<open>The table of nonces only grows.\<close>

inductive nonce_step :: "nonce_table \<Rightarrow> nonce_table \<Rightarrow> bool" where
  "table jti = None \<Longrightarrow> nonce_step table (table(jti \<mapsto> row))"

inductive_cases nonce_stepE: "nonce_step table table'"

interpretation nonces: keeps_entries nonce_step "\<lambda>table. table"
  by unfold_locales (auto elim!: nonce_stepE)

definition admitted_row :: "string \<Rightarrow> string \<Rightarrow> string \<Rightarrow> string \<Rightarrow> string \<Rightarrow> int \<Rightarrow> int \<Rightarrow> nonce" where
  "admitted_row tenant workspace run_id cartridge digest signed_at expires_at =
     \<lparr>n_tenant = Some tenant, n_workspace = Some workspace, n_run = run_id, n_audience = ''airflow'',
      n_purpose = ''dataset_refresh.admit'', n_digest = digest, n_signed_at = signed_at, n_expires_at = expires_at,
      n_dag = Some ''dataset_refresh_chain'', n_cartridge = Some cartridge, n_schedule_run = None, n_fencing = None\<rparr>"

definition admission_columns :: "nonce option \<Rightarrow> nonce option" where
  \<comment> \<open>the columns the database compares; the others belong to scheduled effects\<close>
  "admission_columns = map_option (\<lambda>r. r\<lparr>n_schedule_run := None, n_fencing := None\<rparr>)"

lemma consume_Inr:
  assumes "consume_dataset_refresh_admission db jti tenant workspace run_id cartridge digest signed_at expires_at table =
    Inr (b, table')"
  shows "b \<and> admission_columns (table' jti) = Some (admitted_row tenant workspace run_id cartridge digest signed_at expires_at) \<and>
    nonce_step\<^sup>*\<^sup>* table table'"
  using assms
  by (auto simp: consume_dataset_refresh_admission_def Let_def admitted_row_def admission_columns_def split: option.splits if_splits
      intro: r_into_rtranclp nonce_step.intros)

lemma py_eq_PStr: "py_eq v (PStr s) \<longleftrightarrow> v = PStr s"
  by (cases v) (auto simp: num_eq_def simp del: as_number.simps(3))

lemma validate_Inr:
  assumes "validate_dataset_refresh_admission w db (PDict ctx) conf run_id table = Inr ((tenant, workspace), table')"
  obtains digest t u signed_at expires_at where "conf_digest w conf = Inr digest" "db_uuid db tenant = Some t" "db_uuid db workspace = Some u"
    "tenant = scope_field conf ''tenant_id''" "workspace = scope_field conf ''workspace_id''"
    "admission_columns (table' (py_str (dget ctx ''jti''))) =
       Some (admitted_row t u run_id (scope_field conf ''cartridge_id'') digest signed_at expires_at)"
    "nonce_step\<^sup>*\<^sup>* table table'" "dget ctx ''dag_run_id'' = PStr run_id" "dget ctx ''conf_digest'' = PStr digest"
    "dget ctx ''tenant_id'' = PStr tenant" "dget ctx ''workspace_id'' = PStr workspace"
proof -
  obtain max_depth digest t u signed_at expires_at where
    *: "conf_digest w conf = Inr digest" "to_uuid db tenant = Inr t" "to_uuid db workspace = Inr u"
      "tenant = scope_field conf ''tenant_id''" "workspace = scope_field conf ''workspace_id''"
      "consume_dataset_refresh_admission db (py_str (dget ctx ''jti'')) t u run_id (scope_field conf ''cartridge_id'')
         digest signed_at expires_at table = Inr (True, table')"
    and bound: "\<not> list_ex (\<lambda>(key, value). \<not> py_eq (dget ctx key) value) (fixed_fields conf run_id max_depth digest)"
    using assms
    by (auto simp: validate_dataset_refresh_admission_def Let_def rbind_Inr_iff split: if_splits)
  show ?thesis
    using consume_Inr [OF *(6)] *(1-5) bound
    by (intro that)
       (auto simp: to_uuid_def fixed_fields_def py_eq_PStr split: option.splits)
qed

text \<open>
  C3: a nonce admits one run with one configuration. An admission is accepted only when its envelope
  names this run, scope and configuration; and when two admissions with the same nonce are accepted,
  whatever other nonces were recorded between them, they are for the same run, the same configuration
  (by its digest), the same cartridge and the same tenant and workspace.
\<close>

theorem nonce_admits_one_run:
  assumes first: "validate_dataset_refresh_admission w db (PDict context) conf run_id table = Inr ((tenant, workspace), table1)"
    and between: "nonce_step\<^sup>*\<^sup>* table1 table2"
    and second: "validate_dataset_refresh_admission w' db' (PDict context') conf' run_id' table2 = Inr ((tenant', workspace'), table3)"
    and same: "py_str (dget context' ''jti'') = py_str (dget context ''jti'')" "db_uuid db' = db_uuid db"
  shows "run_id' = run_id \<and> conf_digest w' conf' = conf_digest w conf \<and>
    scope_field conf' ''cartridge_id'' = scope_field conf ''cartridge_id'' \<and>
    db_uuid db tenant' = db_uuid db tenant \<and> db_uuid db workspace' = db_uuid db workspace \<and>
    dget context ''dag_run_id'' = PStr run_id \<and> dget context ''tenant_id'' = PStr tenant \<and>
    dget context ''workspace_id'' = PStr workspace \<and>
    conf_digest w conf = map_sum id py_str (Inr (dget context ''conf_digest''))"
proof -
  obtain digest t u signed_at expires_at where a:
    "conf_digest w conf = Inr digest" "db_uuid db tenant = Some t" "db_uuid db workspace = Some u"
    "admission_columns (table1 (py_str (dget context ''jti''))) =
       Some (admitted_row t u run_id (scope_field conf ''cartridge_id'') digest signed_at expires_at)"
    "dget context ''dag_run_id'' = PStr run_id" "dget context ''conf_digest'' = PStr digest"
    "dget context ''tenant_id'' = PStr tenant" "dget context ''workspace_id'' = PStr workspace"
    by (rule validate_Inr [OF first]) blast
  obtain digest' t' u' signed_at' expires_at' where b:
    "conf_digest w' conf' = Inr digest'" "db_uuid db' tenant' = Some t'" "db_uuid db' workspace' = Some u'"
    "admission_columns (table3 (py_str (dget context' ''jti''))) =
       Some (admitted_row t' u' run_id' (scope_field conf' ''cartridge_id'') digest' signed_at' expires_at')"
    "nonce_step\<^sup>*\<^sup>* table2 table3"
    by (rule validate_Inr [OF second]) blast
  have "nonce_step\<^sup>*\<^sup>* table1 table3" using between b(5) by (rule rtranclp_trans)
  moreover obtain row where "table1 (py_str (dget context ''jti'')) = Some row"
    using a(4) by (auto simp: admission_columns_def)
  ultimately have "table3 (py_str (dget context ''jti'')) = table1 (py_str (dget context ''jti''))"
    using nonces.entry_stable by fastforce
  then show ?thesis using a b same by (simp add: admitted_row_def)
qed

section \<open>Witnesses\<close>

definition admission_world :: world where
  "admission_world = \<lparr>w_environ = [(''SECURITY_CONTEXT_SIGNING_KEY'', replicate 32 (CHR ''k''))],
    w_hmac = (\<lambda>key msg. ''sig''), w_sha256 = (\<lambda>msg. replicate 64 (CHR ''a'')),
    w_now = 1000, w_token = replicate 64 (CHR ''0'')\<rparr>"

definition upstream_sample :: pdict where
  "upstream_sample = pdict_of [(''trusted'', PBool True), (''source'', PStr ''airflow''), (''tenant_id'', PStr ''t''),
     (''workspace_id'', PStr ''w''), (''allowed_cartridges'', strs [''*'']), (''permissions'', strs [''pipelines.run'']),
     (''_signature_version'', PStr SIGNATURE_VERSION), (''_signed_at'', PInt 1000), (''_signature'', PStr ''sig'')]"

definition conf_sample :: pdict where
  "conf_sample = pdict_of [(''tenant_id'', PStr ''t''), (''workspace_id'', PStr ''w''), (''cartridge_id'', PStr ''crm'')]"

definition db_sample :: db where
  "db_sample = \<lparr>db_clock = 1000000000, db_authorised = True, db_workspaces = [(''w'', ''t'')], db_uuid = Some\<rparr>"

definition trigger_sample :: "string \<times> pdict" where
  "trigger_sample = (case build_dataset_refresh_trigger admission_world 1000 upstream_sample conf_sample
     (PStr ''run'') (PStr ''bridge'') of Inr r \<Rightarrow> r | Inl _ \<Rightarrow> ([], []))"

lemma trigger_sample: "build_dataset_refresh_trigger admission_world 1000 upstream_sample conf_sample
    (PStr ''run'') (PStr ''bridge'') = Inr (fst trigger_sample, snd trigger_sample)"
proof -
  have "isl (build_dataset_refresh_trigger admission_world 1000 upstream_sample conf_sample
    (PStr ''run'') (PStr ''bridge'')) = False" by code_simp
  then show ?thesis
    by (cases "build_dataset_refresh_trigger admission_world 1000 upstream_sample conf_sample
      (PStr ''run'') (PStr ''bridge'')") (simp_all add: trigger_sample_def)
qed

lemma sample_ready:
  "hex_digests admission_world" "hex64 (w_token admission_world)" "\<forall>msg. hex64 (w_sha256 admission_world msg)"
  "database_knows db_sample (scope_field upstream_sample ''tenant_id'') (scope_field upstream_sample ''workspace_id'')"
proof -
  show "hex_digests admission_world" by (simp add: hex_digests_def admission_world_def is_ascii_def)
  show "hex64 (w_token admission_world)" by code_simp
  have "hex64 (replicate 64 (CHR ''a''))" by code_simp
  then show "\<forall>msg. hex64 (w_sha256 admission_world msg)" by (simp add: admission_world_def)
  have "scope_field upstream_sample ''tenant_id'' = ''t''" "scope_field upstream_sample ''workspace_id'' = ''w''"
    by code_simp+
  then show "database_knows db_sample (scope_field upstream_sample ''tenant_id'') (scope_field upstream_sample ''workspace_id'')"
    by (simp add: database_knows_def db_sample_def)
qed

lemma sample_shared: "shares_keys admission_world admission_world"
  by (simp add: shares_keys_def)

lemma sample_fields:
  "scope_field upstream_sample ''tenant_id'' = ''t''" "scope_field upstream_sample ''workspace_id'' = ''w''"
  "scope_field conf_sample ''tenant_id'' = ''t''" "scope_field conf_sample ''workspace_id'' = ''w''"
  by code_simp+

theorem issued_trigger_is_admitted_witness:
  "\<exists>table'. validate_dataset_refresh_admission admission_world db_sample (dget (snd trigger_sample) ''security_context'')
      (snd trigger_sample) (fst trigger_sample) Map.empty = Inr ((''t'', ''w''), table')"
  using issued_trigger_is_admitted [OF trigger_sample sample_ready(1-3) sample_shared _ _ _ sample_ready(4) sample_shared,
      of Map.empty db_sample] sample_fields
  by (auto simp: Let_def admission_world_def db_sample_def)

theorem nonce_admits_one_run_witness:
  "\<exists>ctx table1.
     validate_dataset_refresh_admission admission_world db_sample (PDict ctx) (snd trigger_sample) (fst trigger_sample)
       Map.empty = Inr ((''t'', ''w''), table1) \<and>
     validate_dataset_refresh_admission admission_world db_sample (PDict ctx) (snd trigger_sample) (fst trigger_sample)
       table1 = Inr ((''t'', ''w''), table1) \<and> dget ctx ''dag_run_id'' = PStr (fst trigger_sample)"
proof -
  let ?v = "validate_dataset_refresh_admission admission_world db_sample"
  have clock: "1000 \<le> w_now admission_world + 30" "db_clock db_sample < (1000 + 86400) * 1000000"
    by (simp_all add: admission_world_def db_sample_def)
  obtain ctx where ctx: "dget (snd trigger_sample) ''security_context'' = PDict ctx"
    by (rule trigger_Inr [OF trigger_sample]) (metis dget_dset)
  obtain table1 where
    "?v (dget (snd trigger_sample) ''security_context'') (snd trigger_sample) (fst trigger_sample) Map.empty =
       Inr ((''t'', ''w''), table1)"
    "?v (dget (snd trigger_sample) ''security_context'') (snd trigger_sample) (fst trigger_sample) table1 =
       Inr ((''t'', ''w''), table1)"
    using trigger_validation [OF trigger_sample sample_ready(1-3) sample_shared clock(1) _ clock(2) sample_ready(4)
        sample_shared clock(1) refl, of Map.empty] sample_fields
    by (auto simp: Let_def)
  then have both: "?v (PDict ctx) (snd trigger_sample) (fst trigger_sample) Map.empty = Inr ((''t'', ''w''), table1)"
    "?v (PDict ctx) (snd trigger_sample) (fst trigger_sample) table1 = Inr ((''t'', ''w''), table1)"
    using ctx by simp_all
  from nonce_admits_one_run [OF both(1) rtranclp.rtrancl_refl both(2) refl refl] both show ?thesis by blast
qed

end
