(* ===== verification/Refresh_Chain.thy ===== *)
theory Refresh_Chain
  imports Refresh_Materialize Refresh_Admission
begin

text \<open>
  The tasks of the refresh DAG around the plan: \<open>airflow/dags/dataset_refresh_chain.py\<close> and
  \<open>dataset_refresh_finalization.py\<close>.

  \<open>admit_dataset_refresh\<close> hands the admitted configuration on; \<open>record_run\<close> reads what the
  materialisation task left, decides the status of the run, tells the registry and, when there are new
  gold datasets, the intelligence service. The state is the log of the requests sent to the two
  services; their answers come from a \<open>chain_env\<close>. An effect returns the log and the exception it
  raised, if any, since requests that were sent stay sent.
\<close>

section \<open>Finalisation\<close>

type_synonym 's effect = "'s \<Rightarrow> 's \<times> mat_exc option"

definition intelligence_unavailable :: mat_exc where
  "intelligence_unavailable = PyExc (RuntimeError ''Gold intelligence trigger unavailable'')"

definition finalize_pipeline_status :: "string \<Rightarrow> bool \<Rightarrow> (string \<Rightarrow> 's effect) \<Rightarrow> 's effect \<Rightarrow> 's effect" where
  "finalize_pipeline_status final_status should_trigger_intelligence save_status trigger_intelligence s =
     (if should_trigger_intelligence
      then (case save_status ''running'' s of
          (s1, Some e) \<Rightarrow> (s1, Some e)
        | (s1, None) \<Rightarrow>
            (case trigger_intelligence s1 of
               (s2, Some e) \<Rightarrow>
                 (case save_status ''failed'' s2 of
                    (s3, Some e') \<Rightarrow> (s3, Some e')
                  | (s3, None) \<Rightarrow> (s3, Some intelligence_unavailable))
             | (s2, None) \<Rightarrow> save_status final_status s2))
      else save_status final_status s)"

section \<open>Internal authentication\<close>

definition is_production :: "world \<Rightarrow> bool" where
  "is_production w \<longleftrightarrow>
     lower (strip (case map_of (w_environ w) ''APP_ENV'' of None \<Rightarrow> ''production'' | Some v \<Rightarrow> v)) \<in> {''production'', ''prod''}"

definition internal_key :: "world \<Rightarrow> string \<Rightarrow> string pyres" where
  "internal_key w env_name =
     (let key = getenv w env_name; legacy = getenv w ''INTERNAL_API_KEY'' in
      if key \<noteq> [] then Inr key
      else if \<not> is_production w \<and> legacy \<noteq> [] then Inr legacy
      else Inl (RuntimeError (env_name @ '' missing; internal authentication unavailable'')))"

definition internal_headers :: "world \<Rightarrow> string \<Rightarrow> string \<Rightarrow> pdict pyres" where
  "internal_headers w target run_id =
     rbind (internal_key w (''INTERNAL_API_KEY_AIRFLOW_TO_'' @ target)) (\<lambda>key.
       Inr (pdict_of [(''X-Internal-Service'', PStr ''airflow''), (''X-API-Key'', PStr key),
         (''X-Request-ID'', PStr (''airflow:dataset_refresh_chain:'' @ run_id))]))"

section \<open>The tasks\<close>

definition admit_dataset_refresh ::
    "world \<Rightarrow> db \<Rightarrow> pdict \<Rightarrow> string \<Rightarrow> nonce_table \<Rightarrow> (pdict \<times> nonce_table) pyres" where
  "admit_dataset_refresh w db conf run_id table =
     rbind (validate_dataset_refresh_admission w db (dget conf ''security_context'') conf run_id table) (\<lambda>(scope, table').
       Inr (filter (\<lambda>kv. fst kv \<noteq> PStr ''security_context'') conf, table'))"

definition admitted_conf :: "pv \<Rightarrow> pdict pyres" where
  "admitted_conf value =
     (case value of PDict conf \<Rightarrow> Inr conf | _ \<Rightarrow> Inl (RuntimeError ''dataset refresh admission is unavailable''))"

definition successful_materialized_datasets :: "pv list \<Rightarrow> string list" where
  "successful_materialized_datasets results = sort (remdups
     (map (\<lambda>d. strip (str_or (dget d ''name'') []))
       (filter (\<lambda>d. result_classification d = Some RESULT_OK \<and> dget d ''layer'' = PStr ''gold'' \<and> truthy (dget d ''name''))
         (List.map_filter as_dict results))))"

definition skip_intelligence_for_cartridge :: "string \<Rightarrow> bool" where
  "skip_intelligence_for_cartridge cartridge_id \<longleftrightarrow> cartridge_id \<in> {''banxico'', ''inegi'', ''sec_edgar''}"

record chain_log =
  registry :: "pdict list"
  intelligence :: "pdict list"

text \<open>
  \<open>ce_registry n\<close> answers the \<open>n\<close>-th request to the registry; \<open>ce_started\<close> and \<open>ce_finished\<close> are
  the ISO texts of the logical date and of the end of the run.
\<close>

record chain_env =
  ce_world :: world
  ce_registry :: "nat \<Rightarrow> mat_exc + response"
  ce_intelligence :: "mat_exc + response"
  ce_run_id :: string
  ce_started :: string
  ce_finished :: string

text \<open>What the earlier tasks left in XCom, and the state of the materialisation task.\<close>

record chain_xcom =
  cx_admitted :: pv
  cx_cartridge :: pv
  cx_result :: pv
  cx_return :: pv
  cx_task_state :: string

definition pipeline_run_id :: "chain_env \<Rightarrow> string" where
  "pipeline_run_id env = ''dataset_refresh_chain:'' @ ce_run_id env"

definition trigger_gold_refresh_intelligence ::
    "chain_env \<Rightarrow> pdict \<Rightarrow> string \<Rightarrow> string \<Rightarrow> string \<Rightarrow> string \<Rightarrow> string list \<Rightarrow> chain_log effect" where
  "trigger_gold_refresh_intelligence env conf tenant_id workspace_id cartridge_id status datasets log =
     (if truthy (dget conf ''skip_intelligence'') \<or> skip_intelligence_for_cartridge cartridge_id \<or> datasets = []
      then (log, None)
      else
        let payload = pdict_of
          [(''tenant_id'', PStr tenant_id), (''workspace_id'', PStr workspace_id), (''cartridge_id'', PStr cartridge_id),
           (''airflow_dag_run_id'', PStr (ce_run_id env)), (''pipeline_run_id'', PStr (pipeline_run_id env)),
           (''materialization_status'', PStr status), (''datasets'', PList (map PStr datasets)),
           (''finished_at'', PStr (ce_finished env))]
        in case internal_headers (ce_world env) ''CONSOLE'' (ce_run_id env) of
          Inl e \<Rightarrow> (log, Some intelligence_unavailable)
        | Inr headers \<Rightarrow>
            let log1 = log\<lparr>intelligence := intelligence log @ [payload]\<rparr> in
            (case ce_intelligence env of
               Inl e \<Rightarrow> (log1, Some intelligence_unavailable)
             | Inr response \<Rightarrow>
                 (case require_successful_intelligence_response response of
                    Inl e \<Rightarrow> (log1, Some intelligence_unavailable)
                  | Inr _ \<Rightarrow> (log1, None))))"

definition materialization_result :: "chain_xcom \<Rightarrow> pv" where
  "materialization_result xcom = (if cx_result xcom = PNone then cx_return xcom else cx_result xcom)"

definition run_args :: "chain_env \<Rightarrow> pdict \<Rightarrow> string \<Rightarrow> string \<Rightarrow> string \<Rightarrow> pdict \<Rightarrow> string \<Rightarrow> pdict" where
  "run_args env conf tenant_id workspace_id cartridge invocation selected_status = pdict_of
     [(''dag_id'', PStr ''dataset_refresh_chain''), (''cartridge_id'', PStr cartridge),
      (''entity'', PStr ''DatasetRefreshChain''), (''run_id'', PStr (pipeline_run_id env)),
      (''airflow_dag_run_id'', PStr (ce_run_id env)), (''mode'', PStr ''refresh''), (''status'', PStr selected_status),
      (''started_at'', PStr (ce_started env)), (''finished_at'', PStr (ce_finished env)),
      (''tenant_id'', PStr tenant_id), (''workspace_id'', PStr workspace_id),
      (''project_id'', dget conf ''project_id''), (''extra'', PDict invocation)]"

definition save_status :: "chain_env \<Rightarrow> (string \<Rightarrow> pdict) \<Rightarrow> string \<Rightarrow> chain_log effect" where
  "save_status env args_of selected_status log =
     (let args = args_of selected_status in
      case internal_headers (ce_world env) ''MCP_INFRA'' (ce_run_id env) of
        Inl e \<Rightarrow> (log, Some (PyExc e))
      | Inr headers \<Rightarrow>
          (case build_pipeline_run_context (ce_world env) args of
             Inl e \<Rightarrow> (log, Some (PyExc e))
           | Inr security_context \<Rightarrow>
               let log1 = log\<lparr>registry := registry log @ [args]\<rparr> in
               (case ce_registry env (length (registry log)) of
                  Inl e \<Rightarrow> (log1, Some e)
                | Inr response \<Rightarrow>
                    (case require_successful_registry_response response selected_status of
                       Inl e \<Rightarrow> (log1, Some (PyExc e))
                     | Inr _ \<Rightarrow> (log1, None)))))"

definition tolerated :: "pdict \<Rightarrow> string \<Rightarrow> (string \<times> int) list option \<Rightarrow> bool" where
  \<comment> \<open>\<open>tolerated_partial\<close>\<close>
  "tolerated conf status breakdown \<longleftrightarrow> status = ''partial'' \<and>
     (truthy (dget conf ''allow_partial'') \<or> (case breakdown of Some b \<Rightarrow> count_of b RESULT_FAILED = 0 | None \<Rightarrow> False))"

definition record_run :: "chain_env \<Rightarrow> chain_xcom \<Rightarrow> chain_log \<times> mat_exc option" where
  "record_run env xcom =
     (let log0 = \<lparr>registry = [], intelligence = []\<rparr> in
      case admitted_conf (cx_admitted xcom) of
        Inl e \<Rightarrow> (log0, Some (PyExc e))
      | Inr conf \<Rightarrow>
          let raw_invocation = materialization_result xcom;
              status = materialization_status raw_invocation (cx_task_state xcom);
              breakdown = materialization_breakdown raw_invocation;
              tolerated_partial = tolerated conf status breakdown;
              invocation = (case raw_invocation of PDict d \<Rightarrow> d | _ \<Rightarrow> [])
          in case required_scope conf of
            Inl e \<Rightarrow> (log0, Some (PyExc e))
          | Inr (tenant_id, workspace_id) \<Rightarrow>
              let cartridge = py_str (py_or (py_or (cx_cartridge xcom) (dget conf ''cartridge_id'')) (PStr []));
                  results = (case dget invocation ''results'' of PList xs \<Rightarrow> xs | _ \<Rightarrow> [])
              in case finalize_pipeline_status status (status = ''success'' \<or> tolerated_partial)
                   (save_status env (run_args env conf tenant_id workspace_id cartridge invocation))
                   (trigger_gold_refresh_intelligence env conf tenant_id workspace_id cartridge status
                      (successful_materialized_datasets results)) log0 of
                (log, Some e) \<Rightarrow> (log, Some e)
              | (log, None) \<Rightarrow>
                  if status = ''blocked'' then
                    (log, Some (PyExc (RuntimeError
                      (''dataset_refresh_chain recorded a blocked run: no planned dataset was refreshed ('' @
                       (case breakdown of Some b \<Rightarrow> py_repr (PDict (counts_dict b)) | None \<Rightarrow> ''None'') @ '')''))))
                  else if status = ''failed'' \<or> (status = ''partial'' \<and> \<not> tolerated_partial)
                  then (log, Some (PyExc (RuntimeError ''dataset_refresh_chain recorded a failed run'')))
                  else (log, None))"

section \<open>Guarantees\<close>

definition statuses :: "chain_log \<Rightarrow> pv list" where
  "statuses log = map (\<lambda>args. dget args ''status'') (registry log)"

lemma save_status_log:
  assumes "save_status env (run_args env conf t w c iv) s log = (log', e)"
  shows "statuses log' = statuses log \<or> statuses log' = statuses log @ [PStr s]"
    and "e = None \<Longrightarrow> statuses log' = statuses log @ [PStr s]"
    and "intelligence log' = intelligence log"
  using assms
  by (auto simp: save_status_def Let_def statuses_def run_args_def split: sum.splits)

definition confirms :: "mat_exc + response \<Rightarrow> bool" where
  \<comment> \<open>what the intelligence service answers when it has taken the run up\<close>
  "confirms answer \<longleftrightarrow>
     (\<exists>response payload signals. answer = Inr response \<and> 200 \<le> status_code response \<and> status_code response < 300 \<and>
        body response = Some (PDict payload) \<and> \<not> truthy (dget payload ''error'') \<and> dget payload ''ok'' = PBool True \<and>
        dget payload ''status'' = PStr ''completed'' \<and> dget payload ''signals'' = PInt signals \<and> 0 < signals)"

definition intelligence_request :: "chain_env \<Rightarrow> string \<Rightarrow> string \<Rightarrow> string \<Rightarrow> string \<Rightarrow> string list \<Rightarrow> pdict" where
  "intelligence_request env tenant_id workspace_id cartridge_id status datasets = pdict_of
     [(''tenant_id'', PStr tenant_id), (''workspace_id'', PStr workspace_id), (''cartridge_id'', PStr cartridge_id),
      (''airflow_dag_run_id'', PStr (ce_run_id env)), (''pipeline_run_id'', PStr (pipeline_run_id env)),
      (''materialization_status'', PStr status), (''datasets'', PList (map PStr datasets)),
      (''finished_at'', PStr (ce_finished env))]"

definition intelligence_exempt :: "pdict \<Rightarrow> string \<Rightarrow> string list \<Rightarrow> bool" where
  "intelligence_exempt conf cartridge datasets \<longleftrightarrow>
     truthy (dget conf ''skip_intelligence'') \<or> cartridge \<in> {''banxico'', ''inegi'', ''sec_edgar''} \<or> datasets = []"

definition intelligence_done ::
    "chain_env \<Rightarrow> pdict \<Rightarrow> string \<Rightarrow> string \<Rightarrow> string \<Rightarrow> string \<Rightarrow> string list \<Rightarrow> pdict list \<Rightarrow> bool" where
  \<comment> \<open>the service was not to be told and was not, or it was told once and confirmed\<close>
  "intelligence_done env conf t w cartridge status datasets sent \<longleftrightarrow>
     (if intelligence_exempt conf cartridge datasets then sent = []
      else sent = [intelligence_request env t w cartridge status datasets] \<and> confirms (ce_intelligence env))"

lemma required_intelligence_confirms:
  "require_successful_intelligence_response response = Inr payload \<Longrightarrow> confirms (Inr response)"
  by (auto simp: require_successful_intelligence_response_def response_payload_def checked_def confirms_def rbind_Inr_iff
      split: if_splits option.splits pv.splits)

lemma trigger_log:
  assumes "trigger_gold_refresh_intelligence env conf t w c s ds log = (log', e)"
  shows "statuses log' = statuses log"
    and "e = None \<Longrightarrow> intelligence log = [] \<Longrightarrow> intelligence_done env conf t w c s ds (intelligence log')"
  using assms
  by (auto simp: trigger_gold_refresh_intelligence_def Let_def statuses_def intelligence_done_def intelligence_exempt_def
      skip_intelligence_for_cartridge_def intelligence_request_def
      split: if_splits sum.splits dest: required_intelligence_confirms)

lemma finalize_log:
  fixes env :: chain_env and conf iv :: pdict and t w c s :: string and ds :: "string list"
  defines "save \<equiv> save_status env (run_args env conf t w c iv)"
    and "trigger \<equiv> trigger_gold_refresh_intelligence env conf t w c s ds"
  assumes "finalize_pipeline_status s should save trigger log = (log', e)" "statuses log = []" "intelligence log = []"
  shows "statuses log' \<in> {[], [PStr ''running''], [PStr ''running'', PStr ''failed'']} \<and> e \<noteq> None \<and> should \<or>
    statuses log' \<in> {[], [PStr s]} \<and> \<not> should \<and> (e = None \<longrightarrow> statuses log' = [PStr s]) \<or>
    statuses log' \<in> {[PStr ''running''], [PStr ''running'', PStr s]} \<and> should \<and>
      (e = None \<longrightarrow> statuses log' = [PStr ''running'', PStr s]) \<and>
      intelligence_done env conf t w c s ds (intelligence log')"
proof (cases should)
  case False
  then have "save s log = (log', e)" using assms(3) by (simp add: finalize_pipeline_status_def)
  from save_status_log [OF this [unfolded save_def]] show ?thesis using False assms(4) by auto
next
  case True
  obtain l1 e1 where one: "save ''running'' log = (l1, e1)" by fastforce
  note s1 = save_status_log [OF one [unfolded save_def]]
  show ?thesis
  proof (cases e1)
    case (Some x)
    then show ?thesis using True one assms(3,4) s1 by (auto simp: finalize_pipeline_status_def)
  next
    case None
    obtain l2 e2 where two: "trigger l1 = (l2, e2)" by fastforce
    note s2 = trigger_log(1) [OF two [unfolded trigger_def]]
    have l2: "statuses l2 = [PStr ''running'']" using s1(2) None s2 assms(4) by simp
    have l1: "intelligence l1 = []" using s1(3) assms(5) by simp
    show ?thesis
    proof (cases e2)
      case inner: None
      then have "save s l2 = (log', e)" using True one None two assms(3) by (simp add: finalize_pipeline_status_def)
      from save_status_log [OF this [unfolded save_def]] show ?thesis
        using True l2 trigger_log(2) [OF two [unfolded trigger_def] inner l1] by auto
    next
      case (Some x)
      obtain l3 e3 where three: "save ''failed'' l2 = (l3, e3)" by fastforce
      have "log' = l3 \<and> e \<noteq> None"
        using True one None two Some three assms(3)
        by (cases e3) (auto simp: finalize_pipeline_status_def intelligence_unavailable_def)
      then show ?thesis using save_status_log(1) [OF three [unfolded save_def]] l2 True by auto
    qed
  qed
qed

lemma status_success_D:
  assumes "materialization_status invocation task_state = ''success''"
  shows "task_state = ''success'' \<and> (\<exists>report results. invocation = PDict report \<and> believed report results \<and>
    results \<noteq> [] \<and> (\<forall>i\<in>set results. item_class i = Some RESULT_OK))"
proof -
  obtain counts n where ok: "task_state = ''success''" "classified_counts invocation = Some (counts, n)"
    using assms by (auto simp: materialization_status_def split: if_splits option.splits)
  then obtain report results where r: "invocation = PDict report" "believed report results"
    using classified_counts_dict classified_counts_eq by metis
  have "materialization_status (PDict report) ''success'' = ''success''" using assms ok(1) r(1) by simp
  then have "results \<noteq> [] \<and> (\<forall>i\<in>set results. item_class i = Some RESULT_OK)"
    unfolding materialization_status_believed [OF r(2)] by (simp split: if_splits)
  then show ?thesis using ok(1) r by blast
qed

lemma materialization_status_values:
  "materialization_status iv ts \<in> {''success'', ''partial'', ''noop'', ''failed'', ''blocked''}"
  by (auto simp: materialization_status_def Let_def split: option.splits)

text \<open>What a call of \<open>record_run\<close> comes down to once the admitted configuration is there.\<close>

lemma record_run_cases:
  assumes "record_run env xcom = (log, exc)"
  defines "st \<equiv> materialization_status (materialization_result xcom) (cx_task_state xcom)"
  shows "registry log = [] \<and> exc \<noteq> None \<or>
    (\<exists>conf t w c iv ds e. cx_admitted xcom = PDict conf \<and> required_scope conf = Inr (t, w) \<and>
      finalize_pipeline_status st (st = ''success'' \<or> tolerated conf st (materialization_breakdown (materialization_result xcom)))
        (save_status env (run_args env conf t w c iv)) (trigger_gold_refresh_intelligence env conf t w c st ds)
        \<lparr>registry = [], intelligence = []\<rparr> = (log, e) \<and>
      (exc = None \<longrightarrow> e = None \<and> st \<notin> {''blocked'', ''failed''} \<and>
         (st = ''partial'' \<longrightarrow> tolerated conf st (materialization_breakdown (materialization_result xcom)))) \<and>
      c = py_str (py_or (py_or (cx_cartridge xcom) (dget conf ''cartridge_id'')) (PStr [])) \<and>
      ds = successful_materialized_datasets (case materialization_result xcom of
          PDict d \<Rightarrow> (case dget d ''results'' of PList xs \<Rightarrow> xs | _ \<Rightarrow> []) | _ \<Rightarrow> []))"
proof (cases "admitted_conf (cx_admitted xcom)")
  case (Inl e)
  then show ?thesis using assms(1) by (auto simp: record_run_def)
next
  case (Inr conf)
  then have conf: "cx_admitted xcom = PDict conf" by (auto simp: admitted_conf_def split: pv.splits)
  show ?thesis
  proof (cases "required_scope conf")
    case (Inl e)
    then show ?thesis using assms(1) Inr by (auto simp: record_run_def Let_def)
  next
    case scope: (Inr tw)
    obtain t w where tw: "tw = (t, w)" by (cases tw)
    let ?iv = "case materialization_result xcom of PDict d \<Rightarrow> d | _ \<Rightarrow> []"
    let ?c = "py_str (py_or (py_or (cx_cartridge xcom) (dget conf ''cartridge_id'')) (PStr []))"
    let ?ds = "successful_materialized_datasets (case dget ?iv ''results'' of PList xs \<Rightarrow> xs | _ \<Rightarrow> [])"
    have ds: "?ds = successful_materialized_datasets (case materialization_result xcom of
          PDict d \<Rightarrow> (case dget d ''results'' of PList xs \<Rightarrow> xs | _ \<Rightarrow> []) | _ \<Rightarrow> [])"
      by (cases "materialization_result xcom") simp_all
    let ?run = "finalize_pipeline_status st (st = ''success'' \<or> tolerated conf st (materialization_breakdown (materialization_result xcom)))
        (save_status env (run_args env conf t w ?c ?iv)) (trigger_gold_refresh_intelligence env conf t w ?c st ?ds)
        \<lparr>registry = [], intelligence = []\<rparr>"
    obtain l e where run: "?run = (l, e)" by fastforce
    have "log = l \<and> (exc = None \<longrightarrow> e = None \<and> st \<notin> {''blocked'', ''failed''} \<and>
         (st = ''partial'' \<longrightarrow> tolerated conf st (materialization_breakdown (materialization_result xcom))))"
      using assms(1) Inr scope tw run
      by (cases e) (auto simp: record_run_def Let_def st_def split: if_splits)
    then show ?thesis using conf run scope tw unfolding ds by blast
  qed
qed

lemma record_run_sent:
  assumes "record_run env xcom = (log, exc)" "PStr ''success'' \<in> set (statuses log)"
  shows "materialization_status (materialization_result xcom) (cx_task_state xcom) = ''success''"
proof -
  have "registry log \<noteq> []" using assms(2) by (auto simp: statuses_def)
  with record_run_cases [OF assms(1)] show ?thesis
    using assms(2) finalize_log [where log = "\<lparr>registry = [], intelligence = []\<rparr>"]
    by (fastforce simp: statuses_def)
qed

lemma no_gold_datasets:
  "successful_materialized_datasets results = [] \<longleftrightarrow>
     (\<nexists>d. PDict d \<in> set results \<and> result_classification d = Some RESULT_OK \<and> dget d ''layer'' = PStr ''gold'' \<and> truthy (dget d ''name''))"
proof -
  have "d \<in> set (List.map_filter as_dict results) \<longleftrightarrow> PDict d \<in> set results" for d
    by (auto simp: set_map_filter intro: bexI [of _ "PDict d"] elim: as_dict.elims)
  then have "set (successful_materialized_datasets results) = {} \<longleftrightarrow>
     (\<nexists>d. PDict d \<in> set results \<and> result_classification d = Some RESULT_OK \<and> dget d ''layer'' = PStr ''gold'' \<and> truthy (dget d ''name''))"
    unfolding successful_materialized_datasets_def set_sort set_remdups by auto
  then show ?thesis by simp
qed

text \<open>
  C5: the registry is told the truth. Only the statuses running and failed and the status of the
  materialisation are ever sent. \<open>success\<close> is sent only when the report was believed, every dataset of
  it is ok and the task succeeded; and, unless the run is exempt, only if the intelligence service was sent
  exactly one request, which names the run, its scope and the gold datasets, and confirmed it with a positive
  number of signals. Exempt is a run whose configuration skips the service, whose cartridge is banxico, inegi or
  sec_edgar, or that refreshed no gold dataset; such a run sends the service nothing. The task ends
  without an exception only after the status of the materialisation was sent last, and it
  is success, noop or a partial run that is tolerated.
\<close>

theorem recorded_success_is_earned:
  assumes "record_run env xcom = (log, exc)"
  shows "let st = materialization_status (materialization_result xcom) (cx_task_state xcom) in
    set (statuses log) \<subseteq> {PStr ''running'', PStr ''failed'', PStr st} \<and>
    (PStr ''success'' \<in> set (statuses log) \<longrightarrow>
       cx_task_state xcom = ''success'' \<and>
       (\<exists>report results conf tenant workspace cartridge datasets.
          materialization_result xcom = PDict report \<and> believed report results \<and> results \<noteq> [] \<and>
          (\<forall>i\<in>set results. item_class i = Some RESULT_OK) \<and>
          cx_admitted xcom = PDict conf \<and> required_scope conf = Inr (tenant, workspace) \<and>
          cartridge = py_str (py_or (py_or (cx_cartridge xcom) (dget conf ''cartridge_id'')) (PStr [])) \<and>
          datasets = successful_materialized_datasets results \<and>
          (if truthy (dget conf ''skip_intelligence'') \<or> cartridge \<in> {''banxico'', ''inegi'', ''sec_edgar''} \<or>
              (\<nexists>d. PDict d \<in> set results \<and> result_classification d = Some RESULT_OK \<and> dget d ''layer'' = PStr ''gold'' \<and>
                 truthy (dget d ''name''))
           then intelligence log = []
           else intelligence log = [intelligence_request env tenant workspace cartridge ''success'' datasets] \<and>
             confirms (ce_intelligence env)))) \<and>
    (exc = None \<longrightarrow> statuses log \<noteq> [] \<and> last (statuses log) = PStr st \<and> st \<in> {''success'', ''noop'', ''partial''})"
proof -
  let ?st = "materialization_status (materialization_result xcom) (cx_task_state xcom)"
  show ?thesis
  proof (cases "registry log = [] \<and> exc \<noteq> None")
    case True
    then show ?thesis by (simp add: statuses_def Let_def)
  next
    case False
    then obtain conf t w c iv ds e where conf: "cx_admitted xcom = PDict conf" "required_scope conf = Inr (t, w)"
      and run: "finalize_pipeline_status ?st (?st = ''success'' \<or> tolerated conf ?st (materialization_breakdown (materialization_result xcom)))
        (save_status env (run_args env conf t w c iv)) (trigger_gold_refresh_intelligence env conf t w c ?st ds)
        \<lparr>registry = [], intelligence = []\<rparr> = (log, e)"
      and exc: "exc = None \<longrightarrow> e = None \<and> ?st \<notin> {''blocked'', ''failed''}"
      and c: "c = py_str (py_or (py_or (cx_cartridge xcom) (dget conf ''cartridge_id'')) (PStr []))"
      and ds: "ds = successful_materialized_datasets (case materialization_result xcom of
          PDict d \<Rightarrow> (case dget d ''results'' of PList xs \<Rightarrow> xs | _ \<Rightarrow> []) | _ \<Rightarrow> [])"
      using record_run_cases [OF assms] by blast
    note final = finalize_log [OF run, unfolded statuses_def [of "\<lparr>registry = [], intelligence = []\<rparr>"], simplified]
    have sent: "set (statuses log) \<subseteq> {PStr ''running'', PStr ''failed'', PStr ?st}" using final by auto
    have earned: "\<exists>report results. materialization_result xcom = PDict report \<and> believed report results \<and> results \<noteq> [] \<and>
        (\<forall>i\<in>set results. item_class i = Some RESULT_OK) \<and> ds = successful_materialized_datasets results \<and>
        intelligence_done env conf t w c ''success'' ds (intelligence log) \<and> cx_task_state xcom = ''success''"
      if success: "PStr ''success'' \<in> set (statuses log)"
    proof -
      have st: "?st = ''success''" by (rule record_run_sent [OF assms success])
      then have "intelligence_done env conf t w c ''success'' ds (intelligence log)" using final success by auto
      moreover obtain report results where "materialization_result xcom = PDict report" "believed report results"
          "results \<noteq> []" "\<forall>i\<in>set results. item_class i = Some RESULT_OK" "cx_task_state xcom = ''success''"
        using status_success_D [OF st] by blast
      moreover from this have "ds = successful_materialized_datasets results"
        using ds by (simp add: believed_def)
      ultimately show ?thesis by blast
    qed
    have "statuses log \<noteq> [] \<and> last (statuses log) = PStr ?st \<and> ?st \<in> {''success'', ''noop'', ''partial''}" if "exc = None"
      using that exc final materialization_status_values [of "materialization_result xcom" "cx_task_state xcom"] by auto
    with sent show ?thesis
      unfolding Let_def
    proof (intro conjI impI, goal_cases)
      case 2
      then show ?case using earned by blast
    next
      case 3
      then obtain report results where r: "materialization_result xcom = PDict report" "believed report results" "results \<noteq> []"
        "\<forall>i\<in>set results. item_class i = Some RESULT_OK" "ds = successful_materialized_datasets results"
        "intelligence_done env conf t w c ''success'' ds (intelligence log)" using earned by blast
      have "if truthy (dget conf ''skip_intelligence'') \<or> c \<in> {''banxico'', ''inegi'', ''sec_edgar''} \<or>
              (\<nexists>d. PDict d \<in> set results \<and> result_classification d = Some RESULT_OK \<and> dget d ''layer'' = PStr ''gold'' \<and>
                 truthy (dget d ''name''))
           then intelligence log = []
           else intelligence log = [intelligence_request env t w c ''success'' ds] \<and> confirms (ce_intelligence env)"
        using r(6) unfolding intelligence_done_def intelligence_exempt_def r(5) no_gold_datasets .
      then show ?case by (intro exI conjI) (rule r(1-5) conf c | assumption)+
    qed blast+
  qed
qed

definition chain_world :: world where
  "chain_world = \<lparr>w_environ = [(''SECURITY_CONTEXT_SIGNING_KEY'', replicate 32 (CHR ''k'')),
      (''INTERNAL_API_KEY_AIRFLOW_TO_MCP_INFRA'', ''m''), (''INTERNAL_API_KEY_AIRFLOW_TO_CONSOLE'', ''c'')],
    w_hmac = (\<lambda>key msg. ''sig''), w_sha256 = (\<lambda>msg. ''digest''), w_now = 1000, w_token = ''0''\<rparr>"

definition saved :: "string \<Rightarrow> mat_exc + response" where
  "saved s = Inr \<lparr>status_code = 200, body = Some (PDict (pdict_of
     [(''result'', PDict (pdict_of [(''saved'', PBool True), (''status'', PStr s)]))]))\<rparr>"

definition confirmed :: "mat_exc + response" where
  "confirmed = Inr \<lparr>status_code = 200, body = Some (PDict (pdict_of
     [(''ok'', PBool True), (''status'', PStr ''completed''), (''signals'', PInt 3)]))\<rparr>"

definition sample_chain :: chain_env where
  "sample_chain = \<lparr>ce_world = chain_world, ce_registry = (\<lambda>n. saved (if n = 0 then ''running'' else ''success'')),
     ce_intelligence = confirmed, ce_run_id = ''r1'', ce_started = ''s'', ce_finished = ''f''\<rparr>"

definition gold_report :: pv where
  "gold_report = PDict (pdict_of
     [(''materialized'', PInt 1), (''status'', PStr ''completed''),
      (''results'', PList [PDict (pdict_of [(''name'', PStr ''hc''), (''layer'', PStr ''gold''), (''ok'', PBool True)])])])"

definition sample_xcom :: chain_xcom where
  "sample_xcom = \<lparr>cx_admitted = PDict (pdict_of [(''tenant_id'', PStr ''t''), (''workspace_id'', PStr ''w'')]),
     cx_cartridge = PStr ''crm'', cx_result = gold_report, cx_return = PNone, cx_task_state = ''success''\<rparr>"

lemma sample_save:
  "save_status sample_chain (run_args sample_chain conf ''t'' ''w'' c iv) s log =
    (log\<lparr>registry := registry log @ [run_args sample_chain conf ''t'' ''w'' c iv s]\<rparr>, None)"
  if "s = (if registry log = [] then ''running'' else ''success'')" "dget conf ''project_id'' = PNone" "json_value (PDict iv)"
    "c \<in> {''inegi'', ''crm''}"
proof -
  let ?args = "run_args sample_chain conf ''t'' ''w'' c iv s"
  have key: "signing_key chain_world = Inr (replicate 32 (CHR ''k''))" by code_simp
  have headers: "\<exists>h. internal_headers chain_world ''MCP_INFRA'' run_id = Inr h" for run_id
  proof -
    have "internal_key chain_world (''INTERNAL_API_KEY_AIRFLOW_TO_'' @ ''MCP_INFRA'') = Inr ''m''" by code_simp
    then show ?thesis by (simp add: internal_headers_def)
  qed
  have args: "json_value (PDict ?args)" using that(2,3) by (simp add: run_args_def)
  have strips: "strip ''t'' = ''t''" "strip ''w'' = ''w''" "strip ''inegi'' = ''inegi''" "strip ''crm'' = ''crm''"
      "strip ''dataset_refresh_chain'' = ''dataset_refresh_chain''" "strip ''DatasetRefreshChain'' = ''DatasetRefreshChain''"
      "strip ''dataset_refresh_chain:r1'' = ''dataset_refresh_chain:r1''" "strip ''running'' = ''running''"
      "strip ''success'' = ''success''"
    by code_simp+
  have s: "s = ''running'' \<or> s = ''success''" using that(1) by auto
  have digest: "\<exists>msg. json_sorted False (PDict (pdict_of [(''args'', PDict ?args), (''tool'', PStr ''pipeline_run_save'')])) = Inr msg"
    using json_sorted_text(1) [of "PDict (pdict_of [(''args'', PDict ?args), (''tool'', PStr ''pipeline_run_save'')])"] args
    by simp
  have "\<exists>ctx. build_pipeline_run_context chain_world ?args = Inr ctx"
    using digest s that(4) sign_context_total [OF _ key]
    by (auto simp: build_pipeline_run_context_def blank_def required_def run_args_def pipeline_run_id_def sample_chain_def
        strips Let_def strs_def)
  moreover have "\<exists>r. require_successful_registry_response r' s = Inr r"
    if "saved s = Inr r'" for r'
  proof -
    have "lower ''running'' = ''running''" "lower ''success'' = ''success''" by code_simp+
    then show ?thesis using that s
      by (auto simp: saved_def require_successful_registry_response_def response_payload_def checked_def)
  qed
  moreover have "ce_registry sample_chain (length (registry log)) = saved s" using that(1) by (simp add: sample_chain_def)
  moreover obtain r' where "saved s = Inr r'" by (simp add: saved_def)
  ultimately show ?thesis
    using headers [of "ce_run_id sample_chain"] by (auto simp: save_status_def Let_def sample_chain_def)
qed

lemma sample_records_success:
  assumes st: "materialization_status (materialization_result xcom) (cx_task_state xcom) = ''success''"
    and result: "materialization_result xcom = PDict d" "json_value (PDict d)"
    and conf: "cx_admitted xcom = PDict conf" "required_scope conf = Inr (''t'', ''w'')" "dget conf ''project_id'' = PNone"
    and cartridge: "cx_cartridge xcom = PStr ''inegi''"
  shows "\<exists>log. record_run sample_chain xcom = (log, None) \<and> statuses log = [PStr ''running'', PStr ''success'']"
proof -
  let ?args = "run_args sample_chain conf ''t'' ''w'' ''inegi'' d"
  let ?log = "\<lparr>registry = [?args ''running''], intelligence = []\<rparr>"
  have running: "save_status sample_chain ?args ''running'' \<lparr>registry = [], intelligence = []\<rparr> = (?log, None)"
    using sample_save [of "''running''" "\<lparr>registry = [], intelligence = []\<rparr>" conf d "''inegi''"] conf(3) result(2) by simp
  have success: "save_status sample_chain ?args ''success'' ?log = (?log\<lparr>registry := registry ?log @ [?args ''success'']\<rparr>, None)"
    using sample_save [of "''success''" ?log conf d "''inegi''"] conf(3) result(2) by simp
  have sent: "dget (?args s) ''status'' = PStr s" for s by (simp add: run_args_def)
  show ?thesis
    using st conf(1,2) result(1) running success cartridge sent
    by (auto simp: record_run_def admitted_conf_def Let_def finalize_pipeline_status_def statuses_def
        trigger_gold_refresh_intelligence_def skip_intelligence_for_cartridge_def)
qed

lemma sample_told:
  "trigger_gold_refresh_intelligence sample_chain conf ''t'' ''w'' ''crm'' s [''hc''] log =
     (log\<lparr>intelligence := intelligence log @ [intelligence_request sample_chain ''t'' ''w'' ''crm'' s [''hc'']]\<rparr>, None)"
  if "dget conf ''skip_intelligence'' = PNone"
proof -
  have "internal_key chain_world (''INTERNAL_API_KEY_AIRFLOW_TO_'' @ ''CONSOLE'') = Inr ''c''" by code_simp
  then have "\<exists>h. internal_headers (ce_world sample_chain) ''CONSOLE'' (ce_run_id sample_chain) = Inr h"
    by (simp add: internal_headers_def sample_chain_def)
  moreover have "\<exists>r payload. ce_intelligence sample_chain = Inr r \<and> require_successful_intelligence_response r = Inr payload"
    by (simp add: sample_chain_def confirmed_def require_successful_intelligence_response_def response_payload_def checked_def)
  ultimately show ?thesis using that
    by (auto simp: trigger_gold_refresh_intelligence_def skip_intelligence_for_cartridge_def intelligence_request_def)
qed

lemma sample_earned:
  "\<exists>log. record_run sample_chain sample_xcom = (log, None) \<and> statuses log = [PStr ''running'', PStr ''success'']"
proof -
  let ?conf = "pdict_of [(''tenant_id'', PStr ''t''), (''workspace_id'', PStr ''w'')]"
  obtain d where d: "materialization_result sample_xcom = PDict d" "json_value (PDict d)"
      "successful_materialized_datasets (case dget d ''results'' of PList xs \<Rightarrow> xs | _ \<Rightarrow> []) = [''hc'']"
  proof -
    have "(case gold_report of PDict d \<Rightarrow> successful_materialized_datasets (case dget d ''results'' of PList xs \<Rightarrow> xs | _ \<Rightarrow> []) | _ \<Rightarrow> []) =
        [''hc'']" by code_simp
    then show ?thesis using that by (simp add: materialization_result_def sample_xcom_def gold_report_def)
  qed
  have st: "materialization_status (PDict d) ''success'' = ''success''"
  proof -
    have "materialization_status gold_report ''success'' = ''success''" by code_simp
    then show ?thesis using d(1) by (simp add: materialization_result_def sample_xcom_def gold_report_def)
  qed
  let ?args = "run_args sample_chain ?conf ''t'' ''w'' ''crm'' d"
  let ?log1 = "\<lparr>registry = [?args ''running''], intelligence = []\<rparr>"
  let ?log2 = "?log1\<lparr>intelligence := [intelligence_request sample_chain ''t'' ''w'' ''crm'' ''success'' [''hc'']]\<rparr>"
  have conf: "required_scope ?conf = Inr (''t'', ''w'')" "dget ?conf ''project_id'' = PNone" "dget ?conf ''skip_intelligence'' = PNone"
    by code_simp+
  have running: "save_status sample_chain ?args ''running'' \<lparr>registry = [], intelligence = []\<rparr> = (?log1, None)"
    using sample_save [of "''running''" "\<lparr>registry = [], intelligence = []\<rparr>" ?conf d "''crm''"] conf(2) d(2) by simp
  have told: "trigger_gold_refresh_intelligence sample_chain ?conf ''t'' ''w'' ''crm'' ''success'' [''hc''] ?log1 = (?log2, None)"
    using sample_told [OF conf(3), of "''success''" ?log1] by simp
  have success: "save_status sample_chain ?args ''success'' ?log2 = (?log2\<lparr>registry := registry ?log2 @ [?args ''success'']\<rparr>, None)"
    using sample_save [of "''success''" ?log2 ?conf d "''crm''"] conf(2) d(2) by simp
  have sent: "dget (?args s) ''status'' = PStr s" for s by (simp add: run_args_def)
  have xcom: "cx_admitted sample_xcom = PDict ?conf" "cx_cartridge sample_xcom = PStr ''crm''" "cx_task_state sample_xcom = ''success''"
    by (simp_all add: sample_xcom_def)
  show ?thesis
    using st conf(1) d(1,3) running told success xcom sent
    by (simp add: record_run_def admitted_conf_def Let_def finalize_pipeline_status_def statuses_def)
qed

theorem recorded_success_is_earned_witness:
  "\<exists>log. record_run sample_chain sample_xcom = (log, None) \<and> last (statuses log) = PStr ''success'' \<and>
     (\<exists>told. intelligence log = [told] \<and> dget told ''datasets'' = PList [PStr ''hc'']) \<and> confirms (ce_intelligence sample_chain)"
proof -
  obtain log where log: "record_run sample_chain sample_xcom = (log, None)" "statuses log = [PStr ''running'', PStr ''success'']"
    using sample_earned by blast
  let ?results = "[PDict (pdict_of [(''name'', PStr ''hc''), (''layer'', PStr ''gold''), (''ok'', PBool True)])]"
  have sample: "materialization_result sample_xcom = gold_report" "cx_cartridge sample_xcom = PStr ''crm''"
    "cx_admitted sample_xcom = PDict (pdict_of [(''tenant_id'', PStr ''t''), (''workspace_id'', PStr ''w'')])"
    by (simp_all add: sample_xcom_def materialization_result_def gold_report_def)
  have gold: "(\<exists>d. PDict d \<in> set ?results \<and> result_classification d = Some RESULT_OK \<and> dget d ''layer'' = PStr ''gold'' \<and>
      truthy (dget d ''name''))" "successful_materialized_datasets ?results = [''hc'']"
    by (rule exI [of _ "pdict_of [(''name'', PStr ''hc''), (''layer'', PStr ''gold''), (''ok'', PBool True)]"], code_simp) code_simp
  have "PStr ''success'' \<in> set (statuses log)" by (simp add: log(2))
  note earned = recorded_success_is_earned [OF log(1), unfolded Let_def, THEN conjunct2, THEN conjunct1, THEN mp, OF this, THEN conjunct2]
  then obtain report results conf tenant workspace cartridge datasets
    where e: "materialization_result sample_xcom = PDict report" "believed report results"
      "cx_admitted sample_xcom = PDict conf" "cartridge = py_str (py_or (py_or (cx_cartridge sample_xcom) (dget conf ''cartridge_id'')) (PStr []))"
      "datasets = successful_materialized_datasets results"
      "if truthy (dget conf ''skip_intelligence'') \<or> cartridge \<in> {''banxico'', ''inegi'', ''sec_edgar''} \<or>
            (\<nexists>d. PDict d \<in> set results \<and> result_classification d = Some RESULT_OK \<and> dget d ''layer'' = PStr ''gold'' \<and>
               truthy (dget d ''name''))
       then intelligence log = []
       else intelligence log = [intelligence_request sample_chain tenant workspace cartridge ''success'' datasets] \<and>
         confirms (ce_intelligence sample_chain)"
    by (elim exE conjE) (rule that)
  have "PDict report = gold_report" using e(1) sample(1) by simp
  then have "dget report ''results'' = PList ?results" by (simp add: gold_report_def)
  moreover have "dget report ''results'' = PList results" using e(2) by (simp add: believed_def)
  ultimately have "results = ?results" by simp
  moreover have "PDict conf = PDict (pdict_of [(''tenant_id'', PStr ''t''), (''workspace_id'', PStr ''w'')])"
    using e(3) sample(3) by simp
  then have "dget conf ''skip_intelligence'' = PNone" by simp
  moreover have "cartridge = ''crm''" using e(4) sample(2) by simp
  ultimately have "intelligence log = [intelligence_request sample_chain tenant workspace cartridge ''success'' [''hc'']] \<and>
      confirms (ce_intelligence sample_chain)" using e(5,6) gold by simp
  then show ?thesis using log by (simp add: intelligence_request_def)
qed

end
