(* ===== verification/Refresh_Monitors.thy ===== *)
theory Refresh_Monitors
  imports Refresh_Chain
begin

text \<open>
  The monitors that run after a refresh: \<open>airflow/dags/dataset_refresh_monitors.py\<close> with the checks
  of \<open>airflow/dags/agent_runner_outcome.py\<close>, and the task of the DAG that calls them.

  \<open>run_refresh_monitors\<close> asks the console which monitors are due, invokes each within a time budget,
  lets the alerts be narrated and reports; a monitor that fails does not stop the others. The answers
  of the console and the clock are given per monitor by a \<open>monitor_env\<close>.
\<close>

section \<open>Answers of the agent runner\<close>

definition invocation_unavailable :: pyexc where
  "invocation_unavailable = RuntimeError ''scheduled invocation unavailable''"

definition registry_rejected :: pyexc where
  "registry_rejected = RuntimeError ''pipeline registry rejected agent runner result''"

definition runner_object :: "response \<Rightarrow> pdict pyres" where
  "runner_object r =
     (if \<not> (200 \<le> status_code r \<and> status_code r < 300) then Inl invocation_unavailable
      else case body r of
        Some (PDict d) \<Rightarrow> if d = [] \<or> dhas d ''error'' then Inl invocation_unavailable else Inr d
      | _ \<Rightarrow> Inl invocation_unavailable)"

definition nonneg_int :: "pv \<Rightarrow> bool" where
  "nonneg_int v = (case v of PInt i \<Rightarrow> 0 \<le> i | _ \<Rightarrow> False)"

definition schedule_ok :: "pv \<Rightarrow> bool" where
  "schedule_ok schedule =
     (case schedule of
        PDict s \<Rightarrow> dget s ''status'' = PStr ''ok'' \<and> is_int (dget s ''id'') \<and> is_int (dget s ''fencing_token'')
      | _ \<Rightarrow> False)"

definition monitor_ok :: "pv \<Rightarrow> bool" where
  "monitor_ok monitor =
     (case monitor of
        PDict m \<Rightarrow> nonneg_int (dget m ''signals'') \<and> nonneg_int (dget m ''blockers'') \<and>
          strip (str_or (dget m ''status'') []) \<noteq> [] \<and> is_list (dget m ''engines'') \<and> is_bool (dget m ''alerted'')
      | _ \<Rightarrow> False)"

text \<open>The checked answer: whether it repeats an earlier invocation, and the id of the run.\<close>

definition require_scheduled_invocation :: "response \<Rightarrow> (bool \<times> int) pyres" where
  "require_scheduled_invocation r =
     rbind (runner_object r) (\<lambda>payload.
       if dget payload ''ok'' \<noteq> PBool True \<or> dget payload ''status'' \<noteq> PStr ''completed'' then Inl invocation_unavailable
       else case (if dhas payload ''duplicate'' then dget payload ''duplicate'' else PBool False, dget payload ''run_id'') of
         (PBool duplicate, PInt run_id) \<Rightarrow>
           if run_id \<le> 0 \<or> \<not> schedule_ok (dget payload ''schedule_run'') then Inl invocation_unavailable
           else if \<not> duplicate \<and>
              (dget payload ''deterministic_monitor'' \<noteq> PBool True \<or> \<not> monitor_ok (dget payload ''monitor''))
           then Inl invocation_unavailable
           else Inr (duplicate, run_id)
       | _ \<Rightarrow> Inl invocation_unavailable)"

definition require_registry_save :: "response \<Rightarrow> string \<Rightarrow> unit pyres" where
  "require_registry_save r expected_status =
     rbind (runner_object r) (\<lambda>payload.
       if dhas payload ''ok'' \<and> dget payload ''ok'' \<noteq> PBool True then Inl registry_rejected
       else case dget payload ''result'' of
         PDict result \<Rightarrow>
           if dget result ''saved'' \<noteq> PBool True \<or> dget result ''status'' \<noteq> PStr expected_status
           then Inl registry_rejected else Inr ()
       | _ \<Rightarrow> Inl registry_rejected)"

section \<open>Outcomes and discovery\<close>

definition MAX_RESULTS :: nat where "MAX_RESULTS = 12"

definition NARRATION_COUNTERS :: "string list" where
  "NARRATION_COUNTERS = [''candidates'', ''narrated_ready'', ''narrated_template'', ''skipped_current'',
     ''budget_exhausted'', ''deferred'']"

definition outcome_of :: "string \<Rightarrow> string option \<Rightarrow> pdict \<Rightarrow> pdict" where
  "outcome_of status reason counts =
     (let payload = dmerge (pdict_of [(''status'', PStr status), (''total'', PInt 0), (''completed'', PInt 0),
            (''failed'', PInt 0), (''deferred'', PInt 0), (''duplicates'', PInt 0), (''results'', PList [])]) counts
      in case reason of Some r \<Rightarrow> if r = [] then payload else dset payload ''reason'' (PStr r) | None \<Rightarrow> payload)"

definition discover_agent :: "pv \<Rightarrow> (string \<times> string) pyres" where
  "discover_agent item =
     (case item of
        PDict d \<Rightarrow>
          if blank (dget d ''id'') then Inl (RuntimeError ''refresh monitor discovery returned an invalid agent'')
          else Inr (py_str (dget d ''id''), take 120 (str_or (dget d ''slug'') []))
      | _ \<Rightarrow> Inl (RuntimeError ''refresh monitor discovery returned an invalid agent''))"

definition discover :: "mat_exc + response \<Rightarrow> mat_exc + (string \<times> (string \<times> string) list)" where
  \<comment> \<open>the status, and id and slug of the monitors that are due\<close>
  "discover posted =
     rbind posted (\<lambda>r.
       if \<not> (200 \<le> status_code r \<and> status_code r < 300)
       then Inl (PyExc (RuntimeError ''refresh monitor discovery rejected''))
       else case body r of
         None \<Rightarrow> Inl (OtherException ''JSONDecodeError'')
       | Some (PDict payload) \<Rightarrow>
           rbind (as_mat (in_str_set (dget payload ''status'') [''ready'', ''no_monitors''])) (\<lambda>known.
             case (known, dget payload ''due'') of
               (True, PList due) \<Rightarrow>
                 rbind (as_mat (rmap discover_agent (take MAX_RESULTS due))) (\<lambda>agents.
                   Inr (py_str (dget payload ''status''), agents))
             | _ \<Rightarrow> Inl (PyExc (RuntimeError ''refresh monitor discovery returned an invalid state'')))
       | Some _ \<Rightarrow> Inl (PyExc (RuntimeError ''refresh monitor discovery returned an invalid state'')))"

section \<open>Narration\<close>

definition narration_payload :: "mat_exc + response \<Rightarrow> mat_exc + pdict" where
  \<comment> \<open>the \<open>try\<close> block\<close>
  "narration_payload posted =
     rbind posted (\<lambda>r.
       if 200 \<le> status_code r \<and> status_code r < 300
       then (case body r of
           None \<Rightarrow> Inl (OtherException ''JSONDecodeError'')
         | Some (PDict payload) \<Rightarrow> Inr payload
         | Some _ \<Rightarrow> Inl (PyExc (RuntimeError ''alert narration rejected'')))
       else Inl (PyExc (RuntimeError ''alert narration rejected'')))"

definition py_len :: "pv \<Rightarrow> int pyres" where
  "py_len v = (case v of PList xs \<Rightarrow> Inr (int (length xs)) | PStr s \<Rightarrow> Inr (int (length s))
     | PDict d \<Rightarrow> Inr (int (length d)) | _ \<Rightarrow> Inl TypeError)"

definition narrate_alerts :: "mat_exc + response \<Rightarrow> pdict pyres" where
  "narrate_alerts posted =
     (case narration_payload posted of
        Inl exc \<Rightarrow> Inr (pdict_of [(''status'', PStr ''unavailable''), (''error_code'', PStr (type_name exc))])
      | Inr payload \<Rightarrow>
          rbind (rmap (\<lambda>name. rbind (int_or0 (dget payload name)) (\<lambda>n. Inr (name, PInt n))) NARRATION_COUNTERS) (\<lambda>counters.
          rbind (py_len (py_or (dget payload ''failures'') (PList []))) (\<lambda>failures.
            Inr (pdict_of (counters @
              [(''status'', PStr (str_or (dget payload ''status'') [])), (''failures'', PInt failures)])))))"

section \<open>The monitors\<close>

record monitor_env =
  me_clock :: int
  me_post :: "mat_exc + response"

record monitor_acc =
  ma_results :: "pdict list"
  ma_completed :: int
  ma_failed :: int
  ma_deferred :: int
  ma_duplicates :: int

definition invoke_monitor :: "mat_exc + response \<Rightarrow> mat_exc + (bool \<times> int)" where
  "invoke_monitor posted = rbind posted (\<lambda>r. as_mat (require_scheduled_invocation r))"

definition http_status :: "mat_exc + response \<Rightarrow> pv" where
  "http_status posted = (case posted of Inl _ \<Rightarrow> PNone | Inr r \<Rightarrow> PInt (status_code r))"

definition run_monitor :: "int \<Rightarrow> int \<Rightarrow> monitor_env \<Rightarrow> string \<Rightarrow> monitor_acc \<Rightarrow> monitor_acc" where
  \<comment> \<open>the body of the loop over the monitors\<close>
  "run_monitor started budget env slug acc =
     (if budget < me_clock env - started
      then acc\<lparr>ma_deferred := ma_deferred acc + 1,
               ma_results := ma_results acc @ [pdict_of [(''slug'', PStr slug), (''status'', PStr ''deferred'')]]\<rparr>
      else case invoke_monitor (me_post env) of
        Inl exc \<Rightarrow>
          acc\<lparr>ma_failed := ma_failed acc + 1,
              ma_results := ma_results acc @ [pdict_of [(''slug'', PStr slug), (''status'', PStr ''failed''),
                (''http_status'', http_status (me_post env)), (''error_code'', PStr (type_name exc))]]\<rparr>
      | Inr (duplicate, run_id) \<Rightarrow>
          acc\<lparr>ma_completed := ma_completed acc + 1,
              ma_duplicates := ma_duplicates acc + (if duplicate then 1 else 0),
              ma_results := ma_results acc @ [pdict_of [(''slug'', PStr slug),
                (''status'', PStr (if duplicate then ''duplicate'' else ''completed'')), (''run_id'', PInt run_id)]]\<rparr>)"

fun run_monitors :: "int \<Rightarrow> int \<Rightarrow> (nat \<Rightarrow> monitor_env) \<Rightarrow> nat \<Rightarrow> (string \<times> string) list \<Rightarrow> monitor_acc \<Rightarrow> monitor_acc" where
  "run_monitors started budget env n [] acc = acc"
| "run_monitors started budget env n (agent # agents) acc =
     run_monitors started budget env (Suc n) agents (run_monitor started budget (env n) (snd agent) acc)"

definition monitors_outcome :: "monitor_acc \<Rightarrow> int \<Rightarrow> pdict" where
  "monitors_outcome acc total_count =
     (let status = (if ma_completed acc = total_count then ''success''
                    else if ma_completed acc \<noteq> 0 then ''partial'' else ''failed'')
      in outcome_of status (if status = ''success'' then None else Some ''monitors_incomplete'') (pdict_of
           [(''total'', PInt total_count), (''completed'', PInt (ma_completed acc)), (''failed'', PInt (ma_failed acc)),
            (''deferred'', PInt (ma_deferred acc)), (''duplicates'', PInt (ma_duplicates acc)),
            (''results'', PList (map PDict (ma_results acc)))]))"

definition with_narration :: "pdict \<Rightarrow> pdict \<Rightarrow> pdict" where
  "with_narration narration outcome =
     (let outcome1 = dset outcome ''narration'' (PDict narration) in
      if dget outcome ''status'' = PStr ''success'' \<and>
         dget narration ''status'' \<notin> {PStr ''ready'', PStr ''no_eligible_workspaces''}
      then dset (dset outcome1 ''status'' (PStr ''partial'')) ''reason'' (PStr ''narration_unavailable'')
      else outcome1)"

text \<open>\<open>headers\<close>: what building the headers raised, if it did; \<open>due\<close> and \<open>narrate\<close>: the answers to the two posts.\<close>

definition run_refresh_monitors ::
    "string \<Rightarrow> pyexc option \<Rightarrow> mat_exc + response \<Rightarrow> int \<Rightarrow> int \<Rightarrow> (nat \<Rightarrow> monitor_env) \<Rightarrow> mat_exc + response \<Rightarrow> pdict pyres" where
  "run_refresh_monitors runner_token headers due_answer started budget env narrate_answer =
     (if strip runner_token = [] then Inr (outcome_of ''failed'' (Some ''runner_authority_unavailable'') [])
      else case (case headers of Some e \<Rightarrow> Inl (PyExc e) | None \<Rightarrow> discover due_answer) of
        Inl exc \<Rightarrow> Inr (outcome_of ''failed'' (Some (''discovery_unavailable:'' @ type_name exc)) [])
      | Inr (status, due) \<Rightarrow>
          if status = ''no_monitors'' \<or> due = [] then Inr (outcome_of ''skipped'' (Some ''no_monitors'') [])
          else
            let acc = run_monitors started budget env 0 due
                  \<lparr>ma_results = [], ma_completed = 0, ma_failed = 0, ma_deferred = 0, ma_duplicates = 0\<rparr>;
                outcome = monitors_outcome acc (int (length due))
            in if ma_completed acc = 0 then Inr outcome
               else rbind (narrate_alerts narrate_answer) (\<lambda>narration. Inr (with_narration narration outcome)))"

section \<open>Recording\<close>

definition keep_present :: "pdict \<Rightarrow> string list \<Rightarrow> pdict" where
  \<comment> \<open>\<open>{key: d.get(key) for key in keys if d.get(key) is not None}\<close>\<close>
  "keep_present d keys = pdict_of (map (\<lambda>k. (k, dget d k)) (filter (\<lambda>k. dget d k \<noteq> PNone) keys))"

definition monitors_extra :: "pdict \<Rightarrow> pdict" where
  "monitors_extra outcome =
     (let extra = keep_present outcome [''total'', ''completed'', ''failed'', ''deferred'', ''duplicates'', ''reason''];
          narrated = (case dget outcome ''narration'' of
            PDict n \<Rightarrow> dset extra ''narration'' (PDict (keep_present n ([''status'', ''error_code'', ''failures''] @ NARRATION_COUNTERS)))
          | _ \<Rightarrow> extra);
          results = (case dget outcome ''results'' of PList xs \<Rightarrow> xs | _ \<Rightarrow> [])
      in dset narrated ''results'' (PList (map (\<lambda>d. PDict (keep_present d
           [''slug'', ''status'', ''run_id'', ''http_status'', ''error_code''])) (List.map_filter as_dict (take MAX_RESULTS results)))))"

definition monitors_args :: "pdict \<Rightarrow> string \<Rightarrow> string \<Rightarrow> string \<Rightarrow> string \<Rightarrow> string \<Rightarrow> string \<Rightarrow> pdict" where
  "monitors_args outcome cartridge_id tenant_id workspace_id run_id started_at finished_at =
     (let status = str_or (dget outcome ''status'') ''failed'';
          args = pdict_of
            [(''dag_id'', PStr ''dataset_refresh_chain''), (''cartridge_id'', PStr cartridge_id),
             (''entity'', PStr ''AgentOpsMonitors''),
             (''run_id'', PStr (''dataset_refresh_chain:'' @ run_id @ '':monitors'')),
             (''airflow_dag_run_id'', PStr run_id), (''mode'', PStr ''monitors''), (''status'', PStr status),
             (''started_at'', PStr started_at), (''finished_at'', PStr finished_at), (''tenant_id'', PStr tenant_id),
             (''workspace_id'', PStr workspace_id), (''extra'', PDict (monitors_extra outcome))]
      in if status \<notin> {''success'', ''skipped''} \<and> truthy (dget outcome ''reason'')
         then dset args ''error_message'' (PStr (take 300 (py_str (dget outcome ''reason'')))) else args)"

definition record_refresh_monitors :: "world \<Rightarrow> mat_exc + response \<Rightarrow> pdict \<Rightarrow> mat_exc + unit" where
  \<comment> \<open>every exception of the request becomes this one\<close>
  "record_refresh_monitors w posted args =
     (case rbind (as_mat (build_pipeline_run_context w args)) (\<lambda>_. rbind posted (\<lambda>r.
        as_mat (require_registry_save r (py_str (dget args ''status''))))) of
        Inl e \<Rightarrow> Inl (PyExc (RuntimeError ''refresh monitor outcome could not be recorded''))
      | Inr _ \<Rightarrow> Inr ())"

definition run_monitors_after_refresh ::
    "chain_env \<Rightarrow> chain_xcom \<Rightarrow> string \<Rightarrow> mat_exc + response \<Rightarrow> int \<Rightarrow> (nat \<Rightarrow> monitor_env) \<Rightarrow> mat_exc + response
     \<Rightarrow> mat_exc + response \<Rightarrow> mat_exc + pdict" where
  "run_monitors_after_refresh env xcom runner_token due_answer started monitors narrate_answer recorded =
     rbind (as_mat (admitted_conf (cx_admitted xcom))) (\<lambda>conf.
     rbind (as_mat (required_scope conf)) (\<lambda>(tenant_id, workspace_id).
       let cartridge = py_str (py_or (py_or (cx_cartridge xcom) (dget conf ''cartridge_id'')) (PStr [])) in
     rbind (as_mat (run_refresh_monitors runner_token
         (case internal_headers (ce_world env) ''CONSOLE'' (ce_run_id env) of Inl e \<Rightarrow> Some e | Inr _ \<Rightarrow> None)
         due_answer started 1200 monitors narrate_answer)) (\<lambda>outcome.
     rbind (as_mat (internal_headers (ce_world env) ''MCP_INFRA'' (ce_run_id env))) (\<lambda>_.
     rbind (record_refresh_monitors (ce_world env) recorded
         (monitors_args outcome cartridge tenant_id workspace_id (ce_run_id env) (ce_started env) (ce_finished env))) (\<lambda>_.
       Inr (pdict_of (map (\<lambda>k. (k, dget outcome k)) [''status'', ''total'', ''completed'', ''failed''])))))))"

section \<open>Guarantees\<close>

definition slugs :: "pdict list \<Rightarrow> pv list" where
  "slugs results = map (\<lambda>r. dget r ''slug'') results"

definition acc_ok :: "monitor_acc \<Rightarrow> bool" where
  "acc_ok acc \<longleftrightarrow> 0 \<le> ma_failed acc \<and> 0 \<le> ma_deferred acc \<and> 0 \<le> ma_duplicates acc \<and>
     ma_duplicates acc \<le> ma_completed acc \<and>
     ma_completed acc + ma_failed acc + ma_deferred acc = int (length (ma_results acc))"

lemma run_monitor_acc:
  "slugs (ma_results (run_monitor started budget env slug acc)) = slugs (ma_results acc) @ [PStr slug]"
  "acc_ok acc \<Longrightarrow> acc_ok (run_monitor started budget env slug acc)"
  by (auto simp: run_monitor_def slugs_def acc_ok_def split: sum.splits)

lemma run_monitors_acc:
  assumes "acc_ok acc"
  shows "acc_ok (run_monitors started budget env n agents acc) \<and>
    slugs (ma_results (run_monitors started budget env n agents acc)) =
      slugs (ma_results acc) @ map (\<lambda>a. PStr (snd a)) agents"
  using assms
proof (induction agents arbitrary: n acc)
  case (Cons agent agents)
  from Cons.IH [OF run_monitor_acc(2) [OF Cons.prems]] show ?case by (simp add: run_monitor_acc(1))
qed simp

lemma discover_bounded: "discover posted = Inr (status, due) \<Longrightarrow> length due \<le> 12"
  by (auto simp: discover_def rbind_Inr_iff MAX_RESULTS_def split: if_splits option.splits pv.splits bool.splits
      dest!: rmap_length)

text \<open>What an outcome says about the monitors that were due.\<close>

definition accounts_for :: "pdict \<Rightarrow> (string \<times> string) list \<Rightarrow> bool" where
  "accounts_for outcome due \<longleftrightarrow> (\<exists>c f d p results.
     dget outcome ''total'' = PInt (int (length due)) \<and> dget outcome ''completed'' = PInt c \<and>
     dget outcome ''failed'' = PInt f \<and> dget outcome ''deferred'' = PInt d \<and> dget outcome ''duplicates'' = PInt p \<and>
     dget outcome ''results'' = PList (map PDict results) \<and> slugs results = map (\<lambda>a. PStr (snd a)) due \<and>
     c + f + d = int (length due) \<and> 0 \<le> p \<and> p \<le> c \<and> 0 \<le> f \<and> 0 \<le> d \<and>
     (dget outcome ''status'' = PStr ''success'' \<longrightarrow> c = int (length due) \<and> due \<noteq> [] \<and>
        (\<exists>narration. dget outcome ''narration'' = PDict narration \<and>
           dget narration ''status'' \<in> {PStr ''ready'', PStr ''no_eligible_workspaces''})))"

lemma outcome_of_empty: "s \<noteq> ''success'' \<Longrightarrow> accounts_for (outcome_of s reason []) []"
  by (auto simp: accounts_for_def outcome_of_def slugs_def dmerge_def Let_def dget_dset split: option.splits
      intro: exI [of _ "[]"])

lemma monitors_outcome_fields:
  "dget (monitors_outcome acc n) ''total'' = PInt n"
  "dget (monitors_outcome acc n) ''completed'' = PInt (ma_completed acc)"
  "dget (monitors_outcome acc n) ''failed'' = PInt (ma_failed acc)"
  "dget (monitors_outcome acc n) ''deferred'' = PInt (ma_deferred acc)"
  "dget (monitors_outcome acc n) ''duplicates'' = PInt (ma_duplicates acc)"
  "dget (monitors_outcome acc n) ''results'' = PList (map PDict (ma_results acc))"
  "dget (monitors_outcome acc n) ''status'' = PStr (if ma_completed acc = n then ''success''
     else if ma_completed acc \<noteq> 0 then ''partial'' else ''failed'')"
  by (simp_all add: monitors_outcome_def outcome_of_def Let_def dmerge_def dget_dset)

lemma with_narration_fields:
  "k \<notin> {''narration'', ''status'', ''reason''} \<Longrightarrow> dget (with_narration narration outcome) k = dget outcome k"
  "dget (with_narration narration outcome) ''narration'' = PDict narration"
  "dget (with_narration narration outcome) ''status'' = PStr ''success'' \<longleftrightarrow>
     dget outcome ''status'' = PStr ''success'' \<and> dget narration ''status'' \<in> {PStr ''ready'', PStr ''no_eligible_workspaces''}"
  by (auto simp: with_narration_def Let_def dget_dset)

text \<open>
  every due monitor is accounted for. When the step reports, there was a list of at most twelve
  due monitors such that the report has one result per monitor, in order; the completed, failed and
  deferred ones add up to the total; and it reports success only when every monitor completed and the
  alerts were narrated. A failing or a late monitor never hides another.
\<close>

theorem monitors_are_accounted_for:
  assumes "run_refresh_monitors runner_token headers due_answer started budget env narrate_answer = Inr outcome"
  shows "\<exists>due. accounts_for outcome due \<and> length due \<le> 12 \<and>
    (due = [] \<or> (\<exists>status. headers = None \<and> discover due_answer = Inr (status, due)))"
proof (cases "strip runner_token = [] \<or> headers \<noteq> None \<or> (\<exists>e. discover due_answer = Inl e)")
  case True
  then have "\<exists>reason. outcome = outcome_of ''failed'' reason []"
    using assms by (auto simp: run_refresh_monitors_def split: if_splits option.splits)
  then show ?thesis using outcome_of_empty [of "''failed''"] by fastforce
next
  case False
  then obtain status due where d: "discover due_answer = Inr (status, due)"
    by (cases "discover due_answer") auto
  show ?thesis
  proof (cases "status = ''no_monitors'' \<or> due = []")
    case True
    then have "outcome = outcome_of ''skipped'' (Some ''no_monitors'') []"
      using assms False d by (auto simp: run_refresh_monitors_def)
    then show ?thesis using outcome_of_empty [of "''skipped''"] by fastforce
  next
    case some: False
    define acc where "acc = run_monitors started budget env 0 due
      \<lparr>ma_results = [], ma_completed = 0, ma_failed = 0, ma_deferred = 0, ma_duplicates = 0\<rparr>"
    have ok: "acc_ok acc" "slugs (ma_results acc) = map (\<lambda>a. PStr (snd a)) due"
      using run_monitors_acc [of "\<lparr>ma_results = [], ma_completed = 0, ma_failed = 0, ma_deferred = 0, ma_duplicates = 0\<rparr>"
          started budget env 0 due]
      by (simp_all add: acc_def acc_ok_def slugs_def)
    then have len: "length (ma_results acc) = length due" by (metis length_map slugs_def)
    let ?out = "monitors_outcome acc (int (length due))"
    have "outcome = ?out \<and> ma_completed acc = 0 \<or> (\<exists>narration. outcome = with_narration narration ?out)"
      using assms False d some by (auto simp: run_refresh_monitors_def acc_def Let_def rbind_Inr_iff split: if_splits)
    then have fields: "\<forall>k\<in>{''total'', ''completed'', ''failed'', ''deferred'', ''duplicates'', ''results''}. dget outcome k = dget ?out k"
      and success: "dget outcome ''status'' = PStr ''success'' \<longrightarrow> ma_completed acc = int (length due) \<and>
        (\<exists>narration. dget outcome ''narration'' = PDict narration \<and>
           dget narration ''status'' \<in> {PStr ''ready'', PStr ''no_eligible_workspaces''})"
      using some by (elim disjE conjE exE; simp add: monitors_outcome_fields(7) with_narration_fields)+
    have "accounts_for outcome due"
      unfolding accounts_for_def
      by (intro exI [of _ "ma_completed acc"] exI [of _ "ma_failed acc"] exI [of _ "ma_deferred acc"]
          exI [of _ "ma_duplicates acc"] exI [of _ "ma_results acc"])
         (use fields success some ok len in \<open>simp add: monitors_outcome_fields acc_ok_def\<close>)
    then show ?thesis using d discover_bounded [OF d] False by auto
  qed
qed

definition due_sample :: "mat_exc + response" where
  "due_sample = Inr \<lparr>status_code = 200, body = Some (PDict (pdict_of [(''status'', PStr ''ready''),
     (''due'', PList [PDict (pdict_of [(''id'', PInt 4), (''slug'', PStr ''stock'')])])]))\<rparr>"

definition monitors_sample :: "nat \<Rightarrow> monitor_env" where
  "monitors_sample n = \<lparr>me_clock = 5, me_post = Inl (OtherException ''ReadTimeout'')\<rparr>"

theorem monitors_are_accounted_for_witness:
  "\<exists>outcome due. run_refresh_monitors ''token'' None due_sample 0 1200 monitors_sample due_sample = Inr outcome \<and>
     dget outcome ''failed'' = PInt 1 \<and> accounts_for outcome due"
proof -
  have "map_sum id (\<lambda>d. dget d ''failed'') (run_refresh_monitors ''token'' None due_sample 0 1200 monitors_sample due_sample) = Inr (PInt 1)"
    by code_simp
  then obtain outcome where run: "run_refresh_monitors ''token'' None due_sample 0 1200 monitors_sample due_sample = Inr outcome"
      "dget outcome ''failed'' = PInt 1"
    by (cases "run_refresh_monitors ''token'' None due_sample 0 1200 monitors_sample due_sample") auto
  with monitors_are_accounted_for [OF run(1)] show ?thesis by blast
qed

end
