(* ===== verification/Run_State.thy ===== *)
theory Run_State
  imports Py_Base
begin

text \<open>
  Helpers of the console on rows of \<open>pipeline_runs\<close>: \<open>console/app/domains/pipeline/run_state.py\<close>.
  \<open>datetime.fromisoformat\<close> and \<open>json.loads\<close> are parameters (\<open>None\<close> when they raise); a datetime is its
  wall clock in microseconds with its UTC offset in seconds.
\<close>

type_synonym fromiso = "string \<Rightarrow> (int \<times> int option) option"

definition parse_iso_datetime :: "fromiso \<Rightarrow> pv \<Rightarrow> (int \<times> int option) option" where
  "parse_iso_datetime fromisoformat value =
     (if truthy value then fromisoformat (replace_z (py_str value)) else None)"

definition duration_seconds :: "fromiso \<Rightarrow> (int \<Rightarrow> string) \<Rightarrow> pv \<Rightarrow> pv \<Rightarrow> pv pyres" where
  \<comment> \<open>\<open>seconds_repr n\<close>: the \<open>repr\<close> of the float of \<open>n\<close> microseconds in seconds\<close>
  "duration_seconds fromisoformat seconds_repr started_at finished_at =
     (let at = (\<lambda>v. if truthy v then parse_iso_datetime fromisoformat (PStr (py_str v)) else None)
      in case (at started_at, at finished_at) of
        (Some (s, zs), Some (f, zf)) \<Rightarrow>
          (case (zs, zf) of
             (Some a, Some b) \<Rightarrow> Inr (PFloat (seconds_repr (max ((f - b * 1000000) - (s - a * 1000000)) 0)))
           | (None, None) \<Rightarrow> Inr (PFloat (seconds_repr (max (f - s) 0)))
           | _ \<Rightarrow> Inl TypeError)
      | _ \<Rightarrow> Inr PNone)"

definition normalize_airflow_state :: "pv \<Rightarrow> string pyres" where
  "normalize_airflow_state value =
     (case py_or value (PStr ''unknown'') of
        PStr s \<Rightarrow> Inr (if lower s \<in> {''queued'', ''running'', ''success'', ''failed'', ''partial''} then lower s
                       else ''unknown'')
      | _ \<Rightarrow> Inl AttributeError)"

definition pipeline_run_extra :: "(string \<Rightarrow> pv option) \<Rightarrow> pdict \<Rightarrow> pdict" where
  "pipeline_run_extra json_loads row =
     (case dget row ''extra'' of
        PDict d \<Rightarrow> d
      | PStr raw \<Rightarrow>
          if strip raw = [] then []
          else (case json_loads raw of Some (PDict d) \<Rightarrow> d | _ \<Rightarrow> [])
      | _ \<Rightarrow> [])"

end
