(* ===== verification/Pipeline_Runs.thy ===== *)
theory Pipeline_Runs
  imports Run_State Status_Transitions Permissions Contracts "HOL-Library.Product_Lexorder"
begin

text \<open>
  The table \<open>pipeline_runs\<close> and its writers: \<open>console/app/domains/pipeline/recording.py\<close> (the row a
  trigger leaves, and the refresh of a row from Airflow) and \<open>pipeline_run_save\<close> of
  \<open>mcp-infra/app/tools/pipeline.py\<close>, which the DAGs report to.

  A row is a record; the table is a list with distinct run ids (the primary key). Each statement is one
  function on tables. The parameters of a statement: \<open>rls\<close>, the rows that row-level security lets the
  session see; \<open>uuid\<close>, the uuid type's reading of a text (None when it is refused); \<open>now\<close>, the clock of
  the database. A text column holds \<open>None\<close> for NULL; \<open>extra\<close> is a JSON value.
\<close>

section \<open>Rows\<close>

record pipeline_row =
  rr_run_id :: string
  rr_dag_id :: string
  rr_cartridge :: string
  rr_entity :: string
  rr_airflow :: "string option"
  rr_mode :: "string option"
  rr_status :: "string option"
  rr_started :: "int option"
  rr_finished :: "int option"
  rr_duration :: pv
  rr_record_count :: pv
  rr_bytes_written :: pv
  rr_storage_uri :: "string option"
  rr_watermark :: "string option"
  rr_error :: "string option"
  rr_extra :: "pv option"
  rr_tenant :: "string option"
  rr_workspace :: "string option"
  rr_project :: "string option"
  rr_token :: int
  rr_lease :: "int option"

type_synonym run_table = "pipeline_row list"

definition find_run :: "run_table \<Rightarrow> string \<Rightarrow> pipeline_row option" where
  "find_run table run_id = List.find (\<lambda>r. rr_run_id r = run_id) table"

definition update_runs :: "(pipeline_row \<Rightarrow> bool) \<Rightarrow> (pipeline_row \<Rightarrow> pipeline_row) \<Rightarrow> run_table \<Rightarrow> run_table" where
  \<comment> \<open>\<open>UPDATE ... WHERE\<close>\<close>
  "update_runs hit upd table = map (\<lambda>r. if hit r then upd r else r) table"

definition opt_text :: "string option \<Rightarrow> pv" where
  "opt_text x = (case x of None \<Rightarrow> PNone | Some s \<Rightarrow> PStr s)"

definition opt_time :: "int option \<Rightarrow> pv" where
  \<comment> \<open>the driver returns a timestamp as an aware datetime in UTC\<close>
  "opt_time x = (case x of None \<Rightarrow> PNone | Some t \<Rightarrow> PDt t (Some 0))"

definition candidate_row :: "pipeline_row \<Rightarrow> pdict" where
  \<comment> \<open>the columns that the recovery selects\<close>
  "candidate_row r = pdict_of
     [(''run_id'', PStr (rr_run_id r)), (''dag_id'', PStr (rr_dag_id r)), (''cartridge_id'', PStr (rr_cartridge r)),
      (''entity'', PStr (rr_entity r)), (''airflow_dag_run_id'', opt_text (rr_airflow r)),
      (''status'', opt_text (rr_status r)), (''started_at'', opt_time (rr_started r)),
      (''finished_at'', opt_time (rr_finished r)), (''error_message'', opt_text (rr_error r)),
      (''extra'', case rr_extra r of None \<Rightarrow> PNone | Some v \<Rightarrow> v), (''fencing_token'', PInt (rr_token r)),
      (''lease_expires_at'', opt_time (rr_lease r)), (''tenant_id'', opt_text (rr_tenant r)),
      (''workspace_id'', opt_text (rr_workspace r))]"

definition full_row :: "pipeline_row \<Rightarrow> pdict" where
  \<comment> \<open>\<open>RETURNING *\<close>\<close>
  "full_row r = candidate_row r @ pdict_of
     [(''mode'', opt_text (rr_mode r)), (''duration_seconds'', rr_duration r), (''record_count'', rr_record_count r),
      (''bytes_written'', rr_bytes_written r), (''storage_uri'', opt_text (rr_storage_uri r)),
      (''watermark_updated_to'', opt_text (rr_watermark r)), (''project_id'', opt_text (rr_project r))]"

section \<open>SQL expressions\<close>

definition sql_status_text :: "string option \<Rightarrow> string" where
  \<comment> \<open>\<open>LOWER(COALESCE(status, 'unknown'))\<close>\<close>
  "sql_status_text x = lower (case x of None \<Rightarrow> ''unknown'' | Some s \<Rightarrow> s)"

definition excluded_env :: "string option \<Rightarrow> string option \<Rightarrow> string \<Rightarrow> string option" where
  "excluded_env current incoming e = (if e = ''pipeline_runs.status'' then current else incoming)"

abbreviation excluded_value :: "string option \<Rightarrow> string option \<Rightarrow> string \<Rightarrow> sql_value option" where
  "excluded_value current incoming \<equiv> sql_value (\<lambda>name. sql_of (excluded_env current incoming name))"

definition monotonic_status :: "string option \<Rightarrow> string option \<Rightarrow> string option" where
  \<comment> \<open>what the generated text computes in \<open>ON CONFLICT ... DO UPDATE\<close>\<close>
  "monotonic_status current incoming =
     (case excluded_value current incoming (postgres_monotonic_status ''pipeline_runs.status'' ''EXCLUDED.status'') of
        Some (SText s) \<Rightarrow> Some s | _ \<Rightarrow> None)"

definition accepts_status :: "string option \<Rightarrow> string option \<Rightarrow> bool" where
  "accepts_status current incoming \<longleftrightarrow>
     excluded_value current incoming (postgres_status_accepts ''pipeline_runs.status'' ''EXCLUDED.status'') = Some (SBool True)"

lemma status_columns: "column_name ''pipeline_runs.status''" "column_name ''EXCLUDED.status''"
  by code_simp+

lemma sql_status_folded: "sql_status_text x = folded x"
  by (simp add: sql_status_text_def folded_def)

lemma monotonic_status_eq [code]:
  "monotonic_status current incoming =
     (if status_rank (sql_status_text incoming) > status_rank (sql_status_text current) then incoming else current)"
proof -
  let ?s = "if status_rank (folded incoming) > status_rank (folded current) then incoming else current"
  have "excluded_value current incoming (postgres_monotonic_status ''pipeline_runs.status'' ''EXCLUDED.status'') = Some (sql_of ?s)"
    by (rule monotonic_value [OF column_reads column_reads]) (simp_all add: status_columns excluded_env_def)
  then show ?thesis by (simp add: monotonic_status_def sql_status_folded sql_of_def split: option.splits)
qed

lemma accepts_status_eq [code]:
  "accepts_status current incoming \<longleftrightarrow>
     status_rank (sql_status_text incoming) > status_rank (sql_status_text current) \<or>
     sql_status_text incoming = sql_status_text current"
proof -
  have "excluded_value current incoming (postgres_status_accepts ''pipeline_runs.status'' ''EXCLUDED.status'') =
      Some (SBool (status_rank (folded incoming) > status_rank (folded current) \<or> folded incoming = folded current))"
    by (rule accepts_value [OF column_reads column_reads]) (simp_all add: status_columns excluded_env_def)
  then show ?thesis by (simp add: accepts_status_def sql_status_folded)
qed

definition jsonb_array :: "pv \<Rightarrow> pv list" where
  "jsonb_array v = (case v of PList xs \<Rightarrow> xs | _ \<Rightarrow> [v])"

definition jsonb_concat :: "pv option \<Rightarrow> pdict \<Rightarrow> pv" where
  \<comment> \<open>\<open>COALESCE(extra, '{}') || object\<close>: objects are merged, anything else becomes an array\<close>
  "jsonb_concat extra e =
     (case extra of
        None \<Rightarrow> PDict (dmerge [] e)
      | Some (PDict d) \<Rightarrow> PDict (dmerge d e)
      | Some v \<Rightarrow> PList (jsonb_array v @ [PDict e]))"

definition coalesce :: "'a option \<Rightarrow> 'a option \<Rightarrow> 'a option" where
  "coalesce x y = (case x of None \<Rightarrow> y | Some v \<Rightarrow> Some v)"

definition coalesce_pv :: "pv \<Rightarrow> pv \<Rightarrow> pv" where
  "coalesce_pv x y = (if x = PNone then y else x)"

definition timestamptz :: "pv \<Rightarrow> int option pyres" where
  \<comment> \<open>a query argument of type timestamptz: the driver refuses a naive datetime\<close>
  "timestamptz v =
     (case v of
        PNone \<Rightarrow> Inr None
      | PDt t (Some z) \<Rightarrow> Inr (Some (t - z * 1000000))
      | _ \<Rightarrow> Inl (DatabaseError ''DataError''))"

definition upsert_run ::
    "(pipeline_row \<Rightarrow> bool) \<Rightarrow> pipeline_row \<Rightarrow> (pipeline_row \<Rightarrow> pipeline_row) \<Rightarrow> run_table \<Rightarrow> (pipeline_row \<times> run_table) pyres" where
  \<comment> \<open>\<open>INSERT ... ON CONFLICT (run_id) DO UPDATE\<close>: a conflicting row that the session may not see is an error\<close>
  "upsert_run rls new upd table =
     (case find_run table (rr_run_id new) of
        None \<Rightarrow> if rls new then Inr (new, table @ [new]) else Inl (DatabaseError ''InsufficientPrivilege'')
      | Some old \<Rightarrow>
          if rls old \<and> rls (upd old) then Inr (upd old, update_runs (\<lambda>r. rr_run_id r = rr_run_id new) upd table)
          else Inl (DatabaseError ''InsufficientPrivilege''))"

section \<open>The row a trigger leaves\<close>

definition opt_uuid :: "(string \<Rightarrow> string option) \<Rightarrow> string \<Rightarrow> string option pyres" where
  "opt_uuid uuid s = (case uuid s of Some u \<Rightarrow> Inr (Some u) | None \<Rightarrow> Inl (DatabaseError ''DataError''))"

definition lift :: "'a pyres \<Rightarrow> http_error + 'a" where
  "lift r = (case r of Inl e \<Rightarrow> Inl (Raised e) | Inr x \<Rightarrow> Inr x)"

definition trigger_row ::
    "string \<Rightarrow> string \<Rightarrow> string \<Rightarrow> string \<Rightarrow> string \<Rightarrow> string \<Rightarrow> pdict \<Rightarrow> string option \<Rightarrow> string option \<Rightarrow> int \<Rightarrow> pipeline_row" where
  "trigger_row cartridge entity dag_id dag_run_id mode st extra tenant workspace now =
     \<lparr>rr_run_id = dag_run_id, rr_dag_id = dag_id, rr_cartridge = cartridge, rr_entity = entity,
      rr_airflow = Some dag_run_id, rr_mode = Some mode, rr_status = Some st, rr_started = Some now,
      rr_finished = None, rr_duration = PNone, rr_record_count = PNone, rr_bytes_written = PNone,
      rr_storage_uri = None, rr_watermark = None, rr_error = None, rr_extra = Some (PDict extra),
      rr_tenant = tenant, rr_workspace = workspace, rr_project = None, rr_token = 0, rr_lease = None\<rparr>"

definition trigger_update :: "bool \<Rightarrow> pipeline_row \<Rightarrow> pipeline_row \<Rightarrow> pipeline_row" where
  "trigger_update scoped new old =
     (let r = old\<lparr>rr_airflow := rr_airflow new, rr_mode := rr_mode new,
            rr_status := monotonic_status (rr_status old) (rr_status new),
            rr_extra := Some (jsonb_concat (rr_extra old) (case rr_extra new of Some (PDict e) \<Rightarrow> e | _ \<Rightarrow> []))\<rparr>
      in if scoped then r\<lparr>rr_tenant := coalesce (rr_tenant old) (rr_tenant new),
           rr_workspace := coalesce (rr_workspace old) (rr_workspace new)\<rparr> else r)"

definition record_dag_pipeline_trigger ::
    "(string \<Rightarrow> string option) \<Rightarrow> (pipeline_row \<Rightarrow> bool) \<Rightarrow> bool \<Rightarrow> int \<Rightarrow> string \<Rightarrow> string \<Rightarrow> string \<Rightarrow> string \<Rightarrow> string \<Rightarrow>
     pv \<Rightarrow> pdict \<Rightarrow> string \<Rightarrow> string \<Rightarrow> run_table \<Rightarrow> http_error + run_table" where
  \<comment> \<open>an absent tenant or workspace is the empty text\<close>
  "record_dag_pipeline_trigger uuid rls scope_columns_present now cartridge entity dag_id dag_run_id mode st conf
       tenant workspace table =
     (if dag_run_id = [] then Inr table
      else if scope_columns_present \<and> cartridge \<noteq> ''platform'' \<and> (tenant = [] \<or> workspace = [])
        then Inl (HTTPException 403 ''pipeline run tenant/workspace scope is required'')
      else let has_scope = tenant \<noteq> [] \<and> workspace \<noteq> [] \<and> scope_columns_present;
               extra = pdict_of [(''raw_conf'', PDict conf), (''triggered_by'', PStr ''console'')]
           in if json_dumps (PDict extra) = None then Inl (Raised TypeError)
              else rbind (lift (normalize_airflow_state st)) (\<lambda>s.
                   rbind (if has_scope then lift (opt_uuid uuid tenant) else Inr None) (\<lambda>t.
                   rbind (if has_scope then lift (opt_uuid uuid workspace) else Inr None) (\<lambda>w.
                   let new = trigger_row cartridge entity dag_id dag_run_id mode s extra t w now
                   in rbind (lift (upsert_run rls new (trigger_update has_scope new) table)) (\<lambda>(_, table'). Inr table')))))"

section \<open>Refreshing a row from Airflow\<close>

record refresh_env =
  re_answer :: "pdict pyres"
  re_context :: pdict
  re_database :: bool
  re_now :: string

definition scope_arg :: "(string \<Rightarrow> string option) \<Rightarrow> pv \<Rightarrow> string pyres" where
  "scope_arg uuid v =
     (case v of
        PStr s \<Rightarrow> (case uuid s of Some u \<Rightarrow> Inr u | None \<Rightarrow> Inl (DatabaseError ''DataError''))
      | _ \<Rightarrow> Inl (DatabaseError ''DataError''))"

definition in_scope :: "(string \<times> string) option \<Rightarrow> pipeline_row \<Rightarrow> bool" where
  "in_scope scope r =
     (case scope of None \<Rightarrow> True | Some (t, w) \<Rightarrow> rr_tenant r = Some t \<and> rr_workspace r = Some w)"

definition refresh_scope :: "(string \<Rightarrow> string option) \<Rightarrow> pdict \<Rightarrow> pdict \<Rightarrow> (string \<times> string) option pyres" where
  "refresh_scope uuid row ctx =
     (let tenant = py_or (dget row ''tenant_id'') (dget ctx ''tenant_id'');
          workspace = py_or (dget row ''workspace_id'') (dget ctx ''workspace_id'')
      in if truthy tenant \<and> truthy workspace
         then rbind (scope_arg uuid tenant) (\<lambda>t. rbind (scope_arg uuid workspace) (\<lambda>w. Inr (Some (t, w))))
         else Inr None)"

definition refresh_update :: "string \<Rightarrow> int option \<Rightarrow> int option \<Rightarrow> pv \<Rightarrow> string \<Rightarrow> string \<Rightarrow> pipeline_row \<Rightarrow> pipeline_row" where
  "refresh_update new_status started finished duration observed now r =
     r\<lparr>rr_status := Some new_status, rr_started := coalesce started (rr_started r),
       rr_finished := coalesce finished (rr_finished r), rr_duration := coalesce_pv duration (rr_duration r),
       rr_extra := Some (jsonb_concat (rr_extra r) (pdict_of [(''airflow_observation'',
         PDict (pdict_of [(''state'', PStr observed), (''observed_at'', PStr now)]))]))\<rparr>"

definition candidate_fields :: "string \<Rightarrow> pv \<Rightarrow> pv \<Rightarrow> pv \<Rightarrow> pdict" where
  "candidate_fields new_status started finished duration = pdict_of
     [(''status'', PStr new_status), (''started_at'', started), (''finished_at'', finished), (''duration_seconds'', duration)]"

definition persist_refresh ::
    "(string \<Rightarrow> string option) \<Rightarrow> (pipeline_row \<Rightarrow> bool) \<Rightarrow> refresh_env \<Rightarrow> pdict \<Rightarrow> string \<Rightarrow> string \<Rightarrow> string \<Rightarrow> pv \<Rightarrow> pv \<Rightarrow> pv \<Rightarrow>
     run_table \<Rightarrow> (pdict \<times> run_table) pyres" where
  \<comment> \<open>the body of the try block; a failing database is an error of the driver\<close>
  "persist_refresh uuid rls env row current observed new_status started finished duration table =
     rbind (refresh_scope uuid row (re_context env)) (\<lambda>scope.
     rbind (timestamptz started) (\<lambda>s. rbind (timestamptz finished) (\<lambda>f.
       if \<not> re_database env then Inl (DatabaseError ''InterfaceError'')
       else case dget row ''run_id'' of
         PStr run_id \<Rightarrow>
           (let seen = (\<lambda>r. rls r \<and> rr_run_id r = run_id \<and> in_scope scope r);
                hit = (\<lambda>r. seen r \<and> sql_status_text (rr_status r) = lower current);
                upd = refresh_update new_status s f duration observed (re_now env)
            in case List.find hit table of
                 Some r \<Rightarrow> Inr (dmerge (full_row (upd r)) (candidate_fields new_status started finished duration),
                              update_runs hit upd table)
               | None \<Rightarrow> (case List.find seen table of
                            Some r \<Rightarrow> Inr (full_row r, table)
                          | None \<Rightarrow> Inr (row, table)))
       | _ \<Rightarrow> Inl (DatabaseError ''DataError''))))"

definition dt_or :: "(int \<times> int option) option \<Rightarrow> pv \<Rightarrow> pv" where
  "dt_or x v = (case x of None \<Rightarrow> v | Some (t, z) \<Rightarrow> PDt t z)"

definition refresh_dag_run_status ::
    "fromiso \<Rightarrow> (int \<Rightarrow> string) \<Rightarrow> (string \<Rightarrow> string option) \<Rightarrow> (pipeline_row \<Rightarrow> bool) \<Rightarrow> refresh_env \<Rightarrow> pdict \<Rightarrow> run_table \<Rightarrow>
     (pdict \<times> run_table) pyres" where
  "refresh_dag_run_status fromisoformat seconds_repr uuid rls env row table =
     rbind (normalize_airflow_state (dget row ''status'')) (\<lambda>st.
       if st \<notin> {''queued'', ''running'', ''unknown''} \<or> \<not> truthy (dget row ''dag_id'') \<or>
          \<not> truthy (py_or (dget row ''airflow_dag_run_id'') (dget row ''run_id''))
       then Inr (row, table)
       else rbind (re_answer env) (\<lambda>result.
         if truthy (dget result ''error'') \<or> dget result ''found'' = PBool False then Inr (row, table)
         else rbind (normalize_airflow_state (dget result ''state'')) (\<lambda>observed.
           let new_status = advance_pipeline_status (PStr st) (PStr observed);
               started = dt_or (parse_iso_datetime fromisoformat (dget result ''start_date'')) (dget row ''started_at'');
               finished = dt_or (parse_iso_datetime fromisoformat (dget result ''end_date'')) (dget row ''finished_at'')
           in rbind (duration_seconds fromisoformat seconds_repr started finished) (\<lambda>duration.
              case persist_refresh uuid rls env row st observed new_status started finished duration table of
                Inl _ \<Rightarrow> Inr (row, table)
              | Inr r \<Rightarrow> Inr r))))"

section \<open>Reports of the DAGs\<close>

record save_args =
  sa_run_id :: string
  sa_dag_id :: string
  sa_cartridge :: string
  sa_entity :: string
  sa_airflow :: "string option"
  sa_mode :: "string option"
  sa_status :: string
  sa_started :: "string option"
  sa_finished :: "string option"
  sa_duration :: pv
  sa_record_count :: pv
  sa_bytes_written :: pv
  sa_storage_uri :: "string option"
  sa_watermark :: "string option"
  sa_error :: "string option"
  sa_tenant :: string
  sa_workspace :: string
  sa_project :: string
  sa_extra :: pdict

definition save_time :: "(string \<Rightarrow> int option) \<Rightarrow> string option \<Rightarrow> int option pyres" where
  \<comment> \<open>\<open>pgtime\<close>: the database's reading of a timestamp text\<close>
  "save_time pgtime x =
     (case x of
        None \<Rightarrow> Inr None
      | Some s \<Rightarrow> (case pgtime s of Some t \<Rightarrow> Inr (Some t) | None \<Rightarrow> Inl (DatabaseError ''InvalidDatetimeFormat'')))"

definition save_scope :: "(string \<Rightarrow> string option) \<Rightarrow> bool \<Rightarrow> string \<Rightarrow> string option pyres" where
  \<comment> \<open>a scope column is written when it exists and a value was given\<close>
  "save_scope uuid available s =
     (if available \<and> s \<noteq> []
      then (case uuid s of Some u \<Rightarrow> Inr (Some u) | None \<Rightarrow> Inl (DatabaseError ''InvalidTextRepresentation''))
      else Inr None)"

definition latest_first :: "string \<Rightarrow> pipeline_row \<Rightarrow> int \<times> int \<times> int" where
  \<comment> \<open>\<open>ORDER BY CASE WHEN run_id = %s THEN 0 ELSE 1 END, started_at DESC NULLS LAST\<close>\<close>
  "latest_first airflow_run r =
     (if rr_run_id r = airflow_run then 0 else 1,
      case rr_started r of None \<Rightarrow> (1, 0) | Some t \<Rightarrow> (0, - t))"

definition known_run :: "(pipeline_row \<Rightarrow> bool) \<Rightarrow> save_args \<Rightarrow> string option \<Rightarrow> string option \<Rightarrow> string \<Rightarrow> run_table \<Rightarrow> string option" where
  "known_run rls args tenant workspace airflow_run table =
     (case sort_key (latest_first airflow_run) (filter (\<lambda>r. rls r \<and> rr_cartridge r = sa_cartridge args \<and>
             rr_dag_id r = sa_dag_id args \<and> rr_entity r = sa_entity args \<and> rr_airflow r = Some airflow_run \<and>
             (tenant = None \<or> rr_tenant r = tenant) \<and> (workspace = None \<or> rr_workspace r = workspace)) table) of
        [] \<Rightarrow> None
      | r # _ \<Rightarrow> if rr_run_id r = [] then None else Some (rr_run_id r))"

definition save_row ::
    "save_args \<Rightarrow> string \<Rightarrow> int option \<Rightarrow> int option \<Rightarrow> string option \<Rightarrow> string option \<Rightarrow> string option \<Rightarrow> pipeline_row" where
  "save_row args run_id started finished tenant workspace project =
     \<lparr>rr_run_id = run_id, rr_dag_id = sa_dag_id args, rr_cartridge = sa_cartridge args, rr_entity = sa_entity args,
      rr_airflow = sa_airflow args, rr_mode = sa_mode args, rr_status = Some (sa_status args), rr_started = started,
      rr_finished = finished, rr_duration = sa_duration args, rr_record_count = sa_record_count args,
      rr_bytes_written = sa_bytes_written args, rr_storage_uri = sa_storage_uri args, rr_watermark = sa_watermark args,
      rr_error = sa_error args, rr_extra = Some (PDict (sa_extra args)), rr_tenant = tenant, rr_workspace = workspace,
      rr_project = project, rr_token = 0, rr_lease = None\<rparr>"

definition save_update :: "pipeline_row \<Rightarrow> pipeline_row \<Rightarrow> pipeline_row" where
  "save_update new old =
     (let accepted = accepts_status (rr_status old) (rr_status new);
          r = old\<lparr>rr_airflow := coalesce (rr_airflow new) (rr_airflow old),
            rr_status := monotonic_status (rr_status old) (rr_status new),
            rr_tenant := coalesce (rr_tenant new) (rr_tenant old),
            rr_workspace := coalesce (rr_workspace new) (rr_workspace old),
            rr_project := coalesce (rr_project new) (rr_project old)\<rparr>
      in if accepted
         then r\<lparr>rr_finished := coalesce (rr_finished new) (rr_finished old),
            rr_duration := coalesce_pv (rr_duration new) (rr_duration old),
            rr_record_count := coalesce_pv (rr_record_count new) (rr_record_count old),
            rr_bytes_written := coalesce_pv (rr_bytes_written new) (rr_bytes_written old),
            rr_storage_uri := coalesce (rr_storage_uri new) (rr_storage_uri old),
            rr_watermark := coalesce (rr_watermark new) (rr_watermark old),
            rr_error := coalesce (rr_error new) (rr_error old),
            rr_extra := Some (jsonb_concat (rr_extra old) (case rr_extra new of Some (PDict e) \<Rightarrow> e | _ \<Rightarrow> []))\<rparr>
         else r)"

definition saved_answer :: "string \<Rightarrow> string \<Rightarrow> pipeline_row \<Rightarrow> pdict" where
  "saved_answer run_id requested r =
     (let saved_status = py_str (opt_text (rr_status r))
      in pdict_of [(''saved'', PBool True), (''run_id'', PStr run_id), (''status'', PStr saved_status),
           (''requested_status'', PStr requested), (''status_advanced'', PBool (saved_status = requested))])"

definition pipeline_run_save ::
    "(string \<Rightarrow> string option) \<Rightarrow> (string \<Rightarrow> int option) \<Rightarrow> (pipeline_row \<Rightarrow> bool) \<Rightarrow> (string \<Rightarrow> bool) \<Rightarrow> save_args \<Rightarrow> run_table \<Rightarrow>
     http_error + pdict \<times> run_table" where
  \<comment> \<open>\<open>available\<close>: the columns of the table\<close>
  "pipeline_run_save uuid pgtime rls available args table =
     (if available ''tenant_id'' \<and> available ''workspace_id'' \<and> strip (sa_cartridge args) \<noteq> ''platform'' \<and>
         (strip (sa_tenant args) = [] \<or> strip (sa_workspace args) = [])
      then Inl (HTTPException 403 ''pipeline_run_save requires tenant_id and workspace_id'')
      else rbind (lift (save_scope uuid (available ''tenant_id'') (sa_tenant args))) (\<lambda>tenant.
           rbind (lift (save_scope uuid (available ''workspace_id'') (sa_workspace args))) (\<lambda>workspace.
           let canonical = strip (sa_run_id args);
               airflow_run = strip (case sa_airflow args of None \<Rightarrow> [] | Some a \<Rightarrow> a);
               existing = (if canonical \<noteq> [] \<and> airflow_run \<noteq> [] \<and> canonical \<noteq> airflow_run
                           then known_run rls args tenant workspace airflow_run table else None);
               run_id = (case existing of Some i \<Rightarrow> i | None \<Rightarrow> if canonical \<noteq> [] then canonical else sa_run_id args)
           in if json_dumps (PDict (sa_extra args)) = None then Inl (Raised TypeError)
              else rbind (lift (save_scope uuid (available ''project_id'') (sa_project args))) (\<lambda>project.
                   rbind (lift (save_time pgtime (sa_started args))) (\<lambda>started.
                   rbind (lift (save_time pgtime (sa_finished args))) (\<lambda>finished.
                   let new = save_row args run_id started finished tenant workspace project
                   in rbind (lift (upsert_run rls new (save_update new) table)) (\<lambda>(r, table').
                      Inr (saved_answer run_id (sa_status args) r, table'))))))))"

section \<open>What every writer keeps\<close>

definition row_rank :: "pipeline_row \<Rightarrow> int" where
  "row_rank r = status_rank (sql_status_text (rr_status r))"

definition run_rank :: "run_table \<Rightarrow> string \<Rightarrow> int" where
  \<comment> \<open>an absent run ranks below every status\<close>
  "run_rank table run_id = (case find_run table run_id of None \<Rightarrow> - 1 | Some r \<Rightarrow> row_rank r)"

definition run_token :: "run_table \<Rightarrow> string \<Rightarrow> int" where
  "run_token table run_id = (case find_run table run_id of None \<Rightarrow> - 1 | Some r \<Rightarrow> rr_token r)"

lemma monotonic_rank:
  "status_rank (sql_status_text (monotonic_status current incoming)) =
     max (status_rank (sql_status_text current)) (status_rank (sql_status_text incoming))"
  by (simp add: monotonic_status_eq max_def)

text \<open>An update that keeps the key, and does not lower a measure of the rows it hits, lowers it nowhere.\<close>

lemma find_update_runs:
  assumes "\<And>r. rr_run_id (upd r) = rr_run_id r"
  shows "find_run (update_runs hit upd table) run_id =
    map_option (\<lambda>r. if hit r then upd r else r) (find_run table run_id)"
  using assms by (induction table) (auto simp: find_run_def update_runs_def)

lemma update_runs_distinct:
  "(\<And>r. rr_run_id (upd r) = rr_run_id r) \<Longrightarrow> map rr_run_id (update_runs hit upd table) = map rr_run_id table"
  by (simp add: update_runs_def)

lemma find_run_append:
  "find_run table (rr_run_id new) = None \<Longrightarrow>
    find_run (table @ [new]) run_id = (if run_id = rr_run_id new then Some new else find_run table run_id)"
  by (induction table) (auto simp: find_run_def)

definition advances :: "run_table \<Rightarrow> run_table \<Rightarrow> bool" where
  "advances table table' \<longleftrightarrow>
     (\<forall>run_id. run_rank table run_id \<le> run_rank table' run_id \<and> run_token table run_id \<le> run_token table' run_id)"

definition keeps_run :: "(pipeline_row \<Rightarrow> bool) \<Rightarrow> (pipeline_row \<Rightarrow> pipeline_row) \<Rightarrow> bool" where
  \<comment> \<open>an update keeps the key and lowers neither the status nor the token of a row it hits\<close>
  "keeps_run hit upd \<longleftrightarrow> (\<forall>r. rr_run_id (upd r) = rr_run_id r) \<and>
     (\<forall>r. hit r \<longrightarrow> row_rank r \<le> row_rank (upd r) \<and> rr_token r \<le> rr_token (upd r))"

lemma advances_refl [simp]: "advances table table"
  by (simp add: advances_def)

lemma row_rank_bounds: "0 \<le> row_rank r \<and> row_rank r \<le> 60"
  using ranks_bounds by (simp add: row_rank_def)

lemma update_advances: "keeps_run hit upd \<Longrightarrow> advances table (update_runs hit upd table)"
  by (auto simp: advances_def keeps_run_def run_rank_def run_token_def find_update_runs split: option.split)

lemma insert_advances:
  assumes "find_run table (rr_run_id new) = None" "0 \<le> rr_token new"
  shows "advances table (table @ [new])"
  using assms row_rank_bounds [of new]
  by (auto simp: advances_def run_rank_def run_token_def find_run_append split: option.split)

lemma upsert_advances:
  assumes "upsert_run rls new upd table = Inr (r, table')" "keeps_run (\<lambda>_. True) upd" "0 \<le> rr_token new"
  shows "advances table table'"
proof -
  have keeps: "keeps_run (\<lambda>r. rr_run_id r = rr_run_id new) upd" using assms(2) by (simp add: keeps_run_def)
  show ?thesis
    using assms(1,3) update_advances [OF keeps, of table] insert_advances [of table new]
    by (auto simp: upsert_run_def split: option.splits if_splits)
qed

lemma lift_Inr [simp]: "lift r = Inr x \<longleftrightarrow> r = Inr x"
  by (cases r) (simp_all add: lift_def)

lemma row_rank_monotonic:
  "rr_status r = monotonic_status current incoming \<Longrightarrow> status_rank (sql_status_text current) \<le> row_rank r"
  by (simp add: row_rank_def monotonic_rank)

lemma trigger_advances:
  assumes "record_dag_pipeline_trigger uuid rls cols now cartridge entity dag_id dag_run_id mode st conf tenant workspace
    table = Inr table'"
  shows "advances table table'"
proof -
  have keeps: "keeps_run (\<lambda>_. True) (trigger_update scoped new)" for scoped new
    by (auto simp: keeps_run_def trigger_update_def Let_def row_rank_def monotonic_rank)
  have "0 \<le> rr_token (trigger_row cartridge entity dag_id dag_run_id mode s extra t w now)" for s extra t w
    by (simp add: trigger_row_def)
  with assms keeps show ?thesis
    by (auto simp: record_dag_pipeline_trigger_def Let_def rbind_Inr_iff split: if_splits dest!: upsert_advances)
qed

lemma save_advances:
  assumes "pipeline_run_save uuid pgtime rls available args table = Inr (answer, table')"
  shows "advances table table'"
proof -
  have keeps: "keeps_run (\<lambda>_. True) (save_update new)" for new
    by (auto simp: keeps_run_def save_update_def Let_def row_rank_def monotonic_rank)
  have "0 \<le> rr_token (save_row args run_id started finished tenant workspace project)"
    for run_id started finished tenant workspace project by (simp add: save_row_def)
  with assms keeps show ?thesis
    by (auto simp: pipeline_run_save_def Let_def rbind_Inr_iff split: if_splits dest!: upsert_advances)
qed

lemma lower_normalize: "lower (normalize_pipeline_status v) = normalize_pipeline_status v"
  by (simp add: normalize_pipeline_status_def Let_def) (simp add: str_eval)

lemma advance_rank:
  assumes "s \<in> {''queued'', ''running'', ''unknown''}"
  shows "status_rank (lower s) \<le> status_rank (lower (advance_pipeline_status (PStr s) i))"
proof -
  let ?x = "advance_pipeline_status (PStr s) i"
  have norm: "normalize_pipeline_status (PStr ?x) = ?x" by (rule pipeline.norm_advance)
  then have "lower ?x = ?x" using lower_normalize by metis
  moreover have "status_rank ?x = pipeline_status_rank (PStr ?x)" using norm by (simp add: pipeline_status_rank_def)
  moreover have "normalize_pipeline_status (PStr s) = lower s" using assms by (auto simp: normalize_PStr str_eval)
  ultimately show ?thesis
    using pipeline.rank_advance [of "PStr s" i] by (simp add: pipeline_status_rank_def)
qed

lemma persist_cases:
  assumes "persist_refresh uuid rls env row st observed new_status started finished duration table = Inr (row', table')"
  obtains "table' = table"
  | P s f where "table' = update_runs (\<lambda>r. P r \<and> sql_status_text (rr_status r) = lower st)
      (refresh_update new_status s f duration observed (re_now env)) table"
proof -
  obtain scope s f run_id where
    "(let seen = (\<lambda>r. rls r \<and> rr_run_id r = run_id \<and> in_scope scope r);
          hit = (\<lambda>r. seen r \<and> sql_status_text (rr_status r) = lower st);
          upd = refresh_update new_status s f duration observed (re_now env)
      in case List.find hit table of
           Some r \<Rightarrow> Inr (dmerge (full_row (upd r)) (candidate_fields new_status started finished duration),
                        update_runs hit upd table)
         | None \<Rightarrow> (case List.find seen table of
                      Some r \<Rightarrow> Inr (full_row r, table)
                    | None \<Rightarrow> Inr (row, table))) = (Inr (row', table') :: pyexc + pdict \<times> run_table)"
    using assms by (auto simp: persist_refresh_def rbind_Inr_iff split: if_splits pv.splits)
  then show ?thesis
    using that(1) that(2) [of "\<lambda>r. rls r \<and> rr_run_id r = run_id \<and> in_scope scope r" s f]
    by (auto simp: Let_def split: option.splits)
qed

lemma refresh_cases:
  assumes "refresh_dag_run_status fromisoformat seconds_repr uuid rls env row table = Inr (row', table')"
  obtains "row' = row" "table' = table"
  | st observed started finished duration where "normalize_airflow_state (dget row ''status'') = Inr st" "st \<in> {''queued'', ''running'', ''unknown''}"
      "persist_refresh uuid rls env row st observed (advance_pipeline_status (PStr st) (PStr observed)) started finished
         duration table = Inr (row', table')"
proof -
  consider "row' = row" "table' = table"
    | st observed started finished duration where "normalize_airflow_state (dget row ''status'') = Inr st" "st \<in> {''queued'', ''running'', ''unknown''}"
      "(case persist_refresh uuid rls env row st observed (advance_pipeline_status (PStr st) (PStr observed)) started finished
          duration table of Inl _ \<Rightarrow> Inr (row, table) | Inr r \<Rightarrow> Inr r) = (Inr (row', table') :: pyexc + pdict \<times> run_table)"
    using assms unfolding refresh_dag_run_status_def Let_def
    by (elim rbind_InrE) (auto simp: rbind_Inr_iff split: if_splits)
  then show ?thesis
  proof cases
    case (2 st observed started finished duration)
    show ?thesis
    proof (cases "persist_refresh uuid rls env row st observed (advance_pipeline_status (PStr st) (PStr observed))
        started finished duration table")
      case (Inr r)
      with 2 that(2) [OF 2(1,2)] show ?thesis by auto
    qed (use 2 that(1) in simp)
  qed (rule that(1))
qed

lemma refresh_advances:
  assumes "refresh_dag_run_status fromisoformat seconds_repr uuid rls env row table = Inr (row', table')"
  shows "advances table table'"
proof (rule refresh_cases [OF assms])
  fix st observed started finished duration
  assume st: "st \<in> {''queued'', ''running'', ''unknown''}"
    and persist: "persist_refresh uuid rls env row st observed (advance_pipeline_status (PStr st) (PStr observed)) started
      finished duration table = Inr (row', table')"
  have keeps: "keeps_run (\<lambda>r. P r \<and> sql_status_text (rr_status r) = lower st)
      (refresh_update (advance_pipeline_status (PStr st) (PStr observed)) s f duration observed now)" for P s f now
    using advance_rank [OF st, of "PStr observed"]
    by (auto simp: keeps_run_def refresh_update_def row_rank_def sql_status_text_def [of "Some _"])
  show ?thesis by (rule persist_cases [OF persist]) (simp_all add: update_advances keeps)
qed simp

text \<open>The key stays a key.\<close>

lemma find_run_None: "find_run table run_id = None \<longleftrightarrow> run_id \<notin> rr_run_id ` set table"
  by (force simp: find_run_def find_None_iff)

lemma upsert_distinct:
  assumes "upsert_run rls new upd table = Inr (r, table')" "\<And>r. rr_run_id (upd r) = rr_run_id r"
    "distinct (map rr_run_id table)"
  shows "distinct (map rr_run_id table')"
  using assms
  by (auto simp: upsert_run_def update_runs_distinct find_run_None split: option.splits if_splits)

lemma trigger_distinct:
  assumes "record_dag_pipeline_trigger uuid rls cols now cartridge entity dag_id dag_run_id mode st conf tenant workspace
    table = Inr table'" "distinct (map rr_run_id table)"
  shows "distinct (map rr_run_id table')"
  using assms
  by (auto simp: record_dag_pipeline_trigger_def Let_def rbind_Inr_iff trigger_update_def split: if_splits
      dest!: upsert_distinct)

lemma save_distinct:
  assumes "pipeline_run_save uuid pgtime rls available args table = Inr (answer, table')" "distinct (map rr_run_id table)"
  shows "distinct (map rr_run_id table')"
proof -
  have "rr_run_id (save_update new r) = rr_run_id r" for new r by (simp add: save_update_def Let_def)
  with assms show ?thesis
    by (auto simp: pipeline_run_save_def Let_def rbind_Inr_iff split: if_splits dest!: upsert_distinct)
qed

lemma refresh_distinct:
  assumes "refresh_dag_run_status fromisoformat seconds_repr uuid rls env row table = Inr (row', table')"
    "distinct (map rr_run_id table)"
  shows "distinct (map rr_run_id table')"
proof (rule refresh_cases [OF assms(1)])
  fix st observed started finished duration
  assume persist: "persist_refresh uuid rls env row st observed (advance_pipeline_status (PStr st) (PStr observed)) started
      finished duration table = Inr (row', table')"
  have same: "rr_run_id (refresh_update n s f d obs t r) = rr_run_id r" for n s f d obs t r
    by (simp add: refresh_update_def)
  show ?thesis
    by (rule persist_cases [OF persist]) (simp_all add: assms(2) update_runs_distinct same)
qed (simp add: assms(2))

end
