(* ===== verification/Runtime_Authority.thy ===== *)
theory Runtime_Authority
  imports Refresh_Admission Pipeline_Runs
begin

text \<open>
  The receivers of signed contexts: \<open>mcp-infra/app/pipeline_run_authority.py\<close> (the telemetry of pipeline
  runs), \<open>refinement/app/runtime_security_context.py\<close> (materialisation), \<open>mcp-infra/app/
  scheduled_effect_authority.py\<close> (the effects of scheduled agents), and the part of the console that issues
  and checks the last kind (\<open>services/security_context.py\<close>, \<open>services/agent_runtime.py\<close>,
  \<open>routers/intelligence.py\<close>).

  The receivers record the nonce of each context in the table of \<open>Refresh_Admission\<close>. A \<open>ledger\<close> adds to
  the database of that theory what their inserts depend on: whether a connection opens, the known tenants,
  and the values PostgreSQL stores for a parameter bound to a text or a bigint column.

  The contract \<open>nonce_client\<close> states what the receivers share: a context is accepted only with a new nonce,
  which the table holds afterwards. The theorems: a context the DAGs or the console build is accepted, for
  the request it was built for and within its time window; an accepted context names the request and
  cannot have been signed for another one; a nonce is spent once, whichever receiver sees it.
\<close>

section \<open>The ledger\<close>

record ledger = db +
  l_connects :: "string \<Rightarrow> bool"
  l_tenants :: "string list"
  l_text :: "pv \<Rightarrow> string option"
  l_bigint :: "pv \<Rightarrow> int option"

datatype ledger_role = Refinement_Role | Mcp_Role

definition omega_rls_workspace_matches :: "string \<Rightarrow> string \<Rightarrow> string option \<Rightarrow> string option \<Rightarrow> bool" where
  \<comment> \<open>an empty setting counts as none\<close>
  "omega_rls_workspace_matches app_tenant app_workspace row_tenant row_workspace \<longleftrightarrow>
     app_workspace \<noteq> [] \<and> row_workspace = Some app_workspace \<and>
     (row_tenant = None \<or> app_tenant \<noteq> [] \<and> row_tenant = Some app_tenant)"

definition platform_row :: "nonce \<Rightarrow> bool" where
  "platform_row row \<longleftrightarrow> n_purpose row = PIPELINE_RUN_PURPOSE \<and> n_cartridge row = Some ''platform'' \<and>
     n_tenant row = None \<and> n_workspace row = None"

definition insert_policy :: "ledger_role \<Rightarrow> string \<Rightarrow> string \<Rightarrow> nonce \<Rightarrow> bool" where
  "insert_policy role app_tenant app_workspace row \<longleftrightarrow>
     (role = Mcp_Role \<and> platform_row row) \<or>
     omega_rls_workspace_matches app_tenant app_workspace (n_tenant row) (n_workspace row)"

definition nonce_checks :: "string \<Rightarrow> nonce \<Rightarrow> bool" where
  "nonce_checks jti row \<longleftrightarrow> hex64 jti \<and> n_run row \<noteq> [] \<and> length (n_run row) \<le> 250 \<and>
     n_audience row \<in> {''refinement'', ''mcp-infra'', ''airflow''} \<and>
     n_purpose row \<in> {''refinement.mcp.materialize'', ''mcp.pipeline_run_save'', ''mcp.scheduled_effect'',
        ''dataset_refresh.admit''} \<and>
     hex64 (n_digest row) \<and> n_signed_at row < n_expires_at row \<and>
     (platform_row row \<or> (n_tenant row \<noteq> None \<and> n_workspace row \<noteq> None))"

definition insert_nonce ::
    "ledger \<Rightarrow> ledger_role \<Rightarrow> string \<Rightarrow> string \<Rightarrow> string \<Rightarrow> nonce \<Rightarrow> nonce_table \<Rightarrow> nonce_table pyres" where
  \<comment> \<open>\<open>INSERT INTO runtime_hmac_nonces\<close> under the settings of the session\<close>
  "insert_nonce db role app_tenant app_workspace jti row table =
     (if \<not> insert_policy role app_tenant app_workspace row then Inl (DatabaseError ''InsufficientPrivilege'')
      else if \<not> nonce_checks jti row then Inl (DatabaseError ''CheckViolation'')
      else if table jti \<noteq> None then Inl (DatabaseError ''UniqueViolation'')
      else if (case n_tenant row of None \<Rightarrow> False | Some t \<Rightarrow> t \<notin> set (l_tenants db)) \<or>
         (case n_workspace row of None \<Rightarrow> False | Some u \<Rightarrow> u \<notin> set (map fst (db_workspaces db)))
      then Inl (DatabaseError ''ForeignKeyViolation'')
      else Inr (table(jti \<mapsto> row)))"

text \<open>Parameters of a statement.\<close>

definition bind_text :: "ledger \<Rightarrow> pv \<Rightarrow> string pyres" where
  "bind_text db v = (case l_text db v of Some s \<Rightarrow> Inr s | None \<Rightarrow> Inl (DatabaseError ''ProgrammingError''))"

definition bind_uuid :: "ledger \<Rightarrow> pv \<Rightarrow> string option pyres" where
  \<comment> \<open>a parameter of \<open>set_config\<close> and of \<open>%s::uuid\<close>: a text or \<open>None\<close>\<close>
  "bind_uuid db v =
     (case v of
        PNone \<Rightarrow> Inr None
      | PStr s \<Rightarrow> map_sum id Some (to_uuid (db.truncate db) s)
      | _ \<Rightarrow> Inl (DatabaseError ''UndefinedFunction''))"

definition bind_bigint :: "ledger \<Rightarrow> pv \<Rightarrow> int option pyres" where
  "bind_bigint db v =
     (if v = PNone then Inr None
      else case l_bigint db v of Some i \<Rightarrow> Inr (Some i) | None \<Rightarrow> Inl (DatabaseError ''DatatypeMismatch''))"

definition setting :: "pv \<Rightarrow> string" where
  \<comment> \<open>the value of a setting after \<open>set_config\<close>\<close>
  "setting v = (case v of PStr s \<Rightarrow> s | _ \<Rightarrow> [])"

section \<open>Shared steps of the receivers\<close>

definition agrees :: "pdict \<Rightarrow> (string \<times> pv) list \<Rightarrow> bool" where
  \<comment> \<open>\<open>not any(context.get(key) != value for key, value in expected.items())\<close>\<close>
  "agrees context expected \<longleftrightarrow> list_all (\<lambda>(key, value). py_eq (dget context key) value) expected"

definition int_or :: "string \<Rightarrow> pv \<Rightarrow> int pyres" where
  \<comment> \<open>\<open>int(value)\<close> with its errors reported as \<open>ValueError(problem)\<close>\<close>
  "int_or problem v =
     (case py_int v of
        Inl TypeError \<Rightarrow> Inl (ValueError problem)
      | Inl (ValueError _) \<Rightarrow> Inl (ValueError problem)
      | m \<Rightarrow> m)"

definition rejected :: "string \<Rightarrow> 'a pyres \<Rightarrow> 'a pyres" where
  \<comment> \<open>\<open>except Exception as exc: raise ValueError(problem) from exc\<close>\<close>
  "rejected problem m = (case m of Inl _ \<Rightarrow> Inl (ValueError problem) | Inr x \<Rightarrow> Inr x)"

definition text_or_none :: "pv \<Rightarrow> pv" where
  \<comment> \<open>\<open>str(value or "").strip() or None\<close>\<close>
  "text_or_none v = (let s = strip (str_or v []) in if s = [] then PNone else PStr s)"

fun replace_driver :: "string \<Rightarrow> string" where
  \<comment> \<open>\<open>.replace("postgresql+psycopg2://", "postgresql://")\<close>\<close>
  "replace_driver [] = []"
| "replace_driver (c # s) =
     (if startswith (c # s) ''postgresql+psycopg2://''
      then ''postgresql://'' @ replace_driver (drop 21 s)
      else c # replace_driver s)"

record pg_settings =
  pg_user :: string
  pg_password :: string
  pg_host :: string
  pg_port :: string
  pg_db :: string

definition mcp_dsn :: "world \<Rightarrow> pg_settings \<Rightarrow> string" where
  "mcp_dsn w settings =
     (let value = replace_driver (getenv w ''DATABASE_URL'')
      in if value \<noteq> [] then value
         else ''postgresql://'' @ pg_user settings @ '':'' @ pg_password settings @ ''@'' @ pg_host settings @ '':'' @
           pg_port settings @ ''/'' @ pg_db settings)"

definition mcp_key :: "string \<Rightarrow> world \<Rightarrow> string pyres" where
  "mcp_key problem w =
     (let key = strip (getenv w ''SECURITY_CONTEXT_SIGNING_KEY'')
      in if length key < 32 then Inl (ValueError problem) else Inr key)"

section \<open>Telemetry of pipeline runs\<close>

definition TELEMETRY_FIELDS :: "string list" where
  "TELEMETRY_FIELDS = [''trusted'', ''source'', ''audience'', ''purpose'', ''tool'', ''run_id'', ''dag_id'', ''jti'',
     ''body_digest'', ''user_id'', ''role'', ''workspace_role'', ''tenant_id'', ''workspace_id'', ''permissions'',
     ''allowed_cartridges'', ''_signed_at'', ''_signature_version'', ''_signature'']"

definition consume_telemetry ::
    "world \<Rightarrow> pg_settings \<Rightarrow> ledger \<Rightarrow> pdict \<Rightarrow> int \<Rightarrow> nonce_table \<Rightarrow> nonce_table pyres" where
  "consume_telemetry w settings db context signed_at table =
     (let tenant = text_or_none (dget context ''tenant_id'');
          workspace = text_or_none (dget context ''workspace_id'')
      in rejected ''pipeline telemetry replay rejected''
        (if \<not> l_connects db (mcp_dsn w settings) then Inl (DatabaseError ''OperationalError'')
         else
           rbind (bind_text db (dget context ''jti'')) (\<lambda>jti.
           rbind (bind_uuid db tenant) (\<lambda>tenant_id.
           rbind (bind_uuid db workspace) (\<lambda>workspace_id.
           rbind (bind_text db (dget context ''run_id'')) (\<lambda>run_id.
           rbind (bind_text db (dget context ''body_digest'')) (\<lambda>digest.
           rbind (bind_text db (dget context ''dag_id'')) (\<lambda>dag_id.
           rbind (case dget context ''allowed_cartridges'' of PList (c # _) \<Rightarrow> bind_text db c | _ \<Rightarrow> Inl TypeError)
             (\<lambda>cartridge.
               insert_nonce db Mcp_Role (setting tenant) (setting workspace) jti
                 \<lparr>n_tenant = tenant_id, n_workspace = workspace_id, n_run = run_id, n_audience = ''mcp-infra'',
                  n_purpose = PIPELINE_RUN_PURPOSE, n_digest = digest, n_signed_at = signed_at,
                  n_expires_at = signed_at + 300, n_dag = Some dag_id, n_cartridge = Some cartridge,
                  n_schedule_run = None, n_fencing = None\<rparr> table)))))))))"

definition telemetry_fixed :: "(string \<times> pv) list" where
  "telemetry_fixed =
     [(''trusted'', PBool True), (''source'', PStr ''airflow''), (''audience'', PStr ''mcp-infra''),
      (''purpose'', PStr PIPELINE_RUN_PURPOSE), (''tool'', PStr ''pipeline_run_save''), (''role'', PStr ''service''),
      (''workspace_role'', PStr ''service''), (''permissions'', strs [''pipelines.write'']),
      (''_signature_version'', PStr ''hmac-sha256-v2'')]"

definition telemetry_expected :: "pdict \<Rightarrow> (string \<times> pv) list" where
  "telemetry_expected args =
     (let field = \<lambda>k. strip (str_or (dget args k) [])
      in [(''run_id'', PStr (field ''run_id'')), (''dag_id'', PStr (field ''dag_id'')),
          (''tenant_id'', PStr (field ''tenant_id'')), (''workspace_id'', PStr (field ''workspace_id'')),
          (''allowed_cartridges'', strs [field ''cartridge_id'']),
          (''user_id'', PStr (''airflow:'' @ py_str (dget args ''dag_id'')))])"

definition verify_envelope :: "string \<Rightarrow> string \<Rightarrow> string \<Rightarrow> (world \<Rightarrow> string pyres) \<Rightarrow> world \<Rightarrow> pdict \<Rightarrow> int \<Rightarrow> unit pyres" where
  \<comment> \<open>the time window, then the signature\<close>
  "verify_envelope expired mismatch signature key_of w context signed_at =
     (if w_now w + 30 < signed_at \<or> 300 < w_now w - signed_at then Inl (ValueError expired)
      else rbind (key_of w) (\<lambda>key.
        rbind (canonical context) (\<lambda>msg.
        rbind (compare_digest signature (w_hmac w key msg)) (\<lambda>same.
          if same then Inr () else Inl (ValueError mismatch)))))"

definition validate_pipeline_run_authority ::
    "world \<Rightarrow> pg_settings \<Rightarrow> ledger \<Rightarrow> pv \<Rightarrow> pdict \<Rightarrow> string \<Rightarrow> bool \<Rightarrow> nonce_table \<Rightarrow> (pdict \<times> nonce_table) pyres" where
  "validate_pipeline_run_authority w settings db context_value request internal_service consume table =
     (case context_value of
        PDict context \<Rightarrow>
          if \<not> same_keys context TELEMETRY_FIELDS then Inl (ValueError ''pipeline telemetry envelope mismatch'')
          else (case (internal_service = ''airflow'', dget request ''args'') of
            (True, PDict args) \<Rightarrow>
              if \<not> agrees context telemetry_fixed then Inl (ValueError ''pipeline telemetry authority mismatch'')
              else if \<not> list_all (dhas args) [''run_id'', ''dag_id'', ''cartridge_id'', ''entity'', ''status'']
              then Inl (ValueError ''pipeline telemetry body incomplete'')
              else if strip (str_or (dget args ''cartridge_id'') []) \<noteq> ''platform'' \<and>
                 (blank (dget args ''tenant_id'') \<or> blank (dget args ''workspace_id''))
              then Inl (ValueError ''pipeline telemetry scope missing'')
              else if \<not> agrees context (telemetry_expected args)
              then Inl (ValueError ''pipeline telemetry scope mismatch'')
              else
                rbind (json_sorted False (PDict request)) (\<lambda>msg.
                  if \<not> py_eq (dget context ''body_digest'') (PStr (w_sha256 w msg)) \<or>
                     \<not> hex64 (str_or (dget context ''jti'') [])
                  then Inl (ValueError ''pipeline telemetry body mismatch'')
                  else
                    rbind (int_or ''pipeline telemetry timestamp missing'' (dget context ''_signed_at'')) (\<lambda>signed_at.
                    rbind (verify_envelope ''pipeline telemetry signature expired'' ''pipeline telemetry signature mismatch''
                        (str_or (dget context ''_signature'') []) (mcp_key ''telemetry signing key unavailable'')
                        w context signed_at) (\<lambda>_.
                      if consume
                      then rbind (consume_telemetry w settings db context signed_at table) (\<lambda>table'. Inr (context, table'))
                      else Inr (context, table))))
          | _ \<Rightarrow> Inl (ValueError ''pipeline telemetry source mismatch''))
      | _ \<Rightarrow> Inl (ValueError ''pipeline telemetry envelope mismatch''))"

section \<open>Materialisation\<close>

definition MATERIALIZE_FIELDS :: "string list" where
  "MATERIALIZE_FIELDS = [''trusted'', ''source'', ''audience'', ''purpose'', ''tool'', ''dataset'', ''run_id'', ''jti'',
     ''body_digest'', ''user_id'', ''role'', ''workspace_role'', ''tenant_id'', ''workspace_id'', ''permissions'',
     ''allowed_cartridges'', ''allowed_prefixes'', ''_signed_at'', ''_signature_version'', ''_signature'']"

definition refinement_key :: "world \<Rightarrow> string pyres" where
  "refinement_key w =
     (let key = strip (getenv w ''SECURITY_CONTEXT_SIGNING_KEY'') in
      if length key < MIN_KEY_LENGTH then Inl (ValueError ''runtime signing key unavailable'')
      else (case distinct_key key (w_environ w) of
          Inl (RuntimeError _) \<Rightarrow> Inl (ValueError ''runtime signing key is not isolated'')
        | Inl e \<Rightarrow> Inl e
        | Inr _ \<Rightarrow> Inr key))"

definition expected_prefixes :: "string \<Rightarrow> string \<Rightarrow> string \<Rightarrow> pv" where
  "expected_prefixes cartridge tenant workspace =
     (let scope = ''tenant_id='' @ tenant @ ''/workspace_id='' @ workspace @ ''/''
      in strs [''raw/'' @ cartridge @ ''/'', ''silver/'' @ cartridge @ ''/'' @ scope, ''gold/'' @ cartridge @ ''/'' @ scope,
           ''uploads/'' @ cartridge @ ''/'' @ scope, ''cartridges/'' @ cartridge @ ''/''])"

definition request_args :: "pdict \<Rightarrow> pdict" where
  \<comment> \<open>\<open>body.get("args") if isinstance(body.get("args"), Mapping) else {}\<close>\<close>
  "request_args request = (case dget request ''args'' of PDict args \<Rightarrow> args | _ \<Rightarrow> [])"

definition request_fields :: "pdict \<Rightarrow> pdict" where
  \<comment> \<open>\<open>set(body) - {"security_context", "_verified_internal_service"}\<close>, with the values\<close>
  "request_fields request = filter (\<lambda>kv. fst kv \<notin> {PStr ''security_context'', PStr ''_verified_internal_service''}) request"

definition exact_request_scope :: "pdict \<Rightarrow> unit pyres" where
  \<comment> \<open>the checks of \<open>_exact_request_binding\<close> on the context alone\<close>
  "exact_request_scope context =
     (case dget context ''allowed_cartridges'' of
        PList [c] \<Rightarrow>
          if \<not> truthy c then Inl (ValueError ''runtime context cartridge scope mismatch'')
          else
            let cartridge = strip (py_str c);
                tenant = strip (str_or (dget context ''tenant_id'') []);
                workspace = strip (str_or (dget context ''workspace_id'') [])
            in if tenant = [] then Inl (ValueError ''runtime context tenant scope missing'')
               else if workspace = [] then Inl (ValueError ''runtime context workspace scope missing'')
               else if \<not> py_eq (dget context ''allowed_prefixes'') (expected_prefixes cartridge tenant workspace)
               then Inl (ValueError ''runtime context prefixes mismatch'')
               else if \<not> py_eq (dget context ''user_id'') (PStr ''airflow:dataset_refresh_chain'')
               then Inl (ValueError ''runtime context actor mismatch'')
               else if \<not> agrees context [(''role'', PStr ''admin''), (''workspace_role'', PStr ''service'')]
               then Inl (ValueError ''runtime context role mismatch'')
               else Inr ()
      | _ \<Rightarrow> Inl (ValueError ''runtime context cartridge scope mismatch''))"

definition exact_request_binding :: "world \<Rightarrow> pdict \<Rightarrow> pdict \<Rightarrow> unit pyres" where
  "exact_request_binding w context request =
     (let args = request_args request;
          dataset = strip (str_or (dget context ''dataset'') []);
          run_id = strip (str_or (dget context ''run_id'') [])
      in if \<not> same_keys context MATERIALIZE_FIELDS then Inl (ValueError ''runtime context envelope mismatch'')
         else if \<not> same_keys (request_fields request) [''tool'', ''args'']
         then Inl (ValueError ''runtime context request fields mismatch'')
         else if \<not> same_keys args [''name''] then Inl (ValueError ''runtime context request fields mismatch'')
         else if \<not> py_eq (dget context ''tool'') (PStr ''materialize'') \<or> \<not> py_eq (dget request ''tool'') (PStr ''materialize'')
         then Inl (ValueError ''runtime context tool mismatch'')
         else if dataset = [] \<or> dataset \<noteq> strip (str_or (dget args ''name'') [])
         then Inl (ValueError ''runtime context dataset mismatch'')
         else if run_id = [] \<or> 250 < length run_id then Inl (ValueError ''runtime context run mismatch'')
         else if \<not> hex64 (str_or (dget context ''jti'') []) then Inl (ValueError ''runtime context jti mismatch'')
         else
           rbind (json_sorted True (PDict (materialize_body dataset))) (\<lambda>msg.
             if \<not> py_eq (dget context ''body_digest'') (PStr (w_sha256 w msg))
             then Inl (ValueError ''runtime context body mismatch'')
             else if \<not> py_eq (dget context ''permissions'') (strs [''datasets.read'', ''datasets.write''])
             then Inl (ValueError ''runtime context permissions mismatch'')
             else exact_request_scope context))"

definition consume_runtime_jti :: "world \<Rightarrow> ledger \<Rightarrow> pdict \<Rightarrow> int \<Rightarrow> nonce_table \<Rightarrow> nonce_table pyres" where
  "consume_runtime_jti w db context signed_at table =
     (let dsn = replace_driver (getenv w ''DATABASE_URL'');
          tenant = PStr (py_str (dget context ''tenant_id''));
          workspace = PStr (py_str (dget context ''workspace_id''))
      in if dsn = [] then Inl (ValueError ''runtime replay ledger unavailable'')
         else rejected ''runtime context replay rejected''
           (if \<not> l_connects db dsn then Inl (DatabaseError ''OperationalError'')
            else
              rbind (bind_text db (dget context ''jti'')) (\<lambda>jti.
              rbind (bind_uuid db tenant) (\<lambda>tenant_id.
              rbind (bind_uuid db workspace) (\<lambda>workspace_id.
              rbind (bind_text db (dget context ''run_id'')) (\<lambda>run_id.
              rbind (bind_text db (dget context ''audience'')) (\<lambda>audience.
              rbind (bind_text db (dget context ''purpose'')) (\<lambda>purpose.
              rbind (bind_text db (dget context ''body_digest'')) (\<lambda>digest.
                insert_nonce db Refinement_Role (setting tenant) (setting workspace) jti
                  \<lparr>n_tenant = tenant_id, n_workspace = workspace_id, n_run = run_id, n_audience = audience,
                   n_purpose = purpose, n_digest = digest, n_signed_at = signed_at, n_expires_at = signed_at + 300,
                   n_dag = None, n_cartridge = None, n_schedule_run = None, n_fencing = None\<rparr> table)))))))))"

definition validate_runtime_context ::
    "world \<Rightarrow> ledger \<Rightarrow> pdict \<Rightarrow> pdict \<Rightarrow> string \<Rightarrow> bool \<Rightarrow> nonce_table \<Rightarrow> nonce_table pyres" where
  "validate_runtime_context w db context request internal_service consume table =
     (if internal_service \<noteq> ''airflow'' \<or> \<not> py_eq (dget context ''source'') (PStr ''airflow'')
      then Inl (ValueError ''runtime context source mismatch'')
      else if \<not> py_eq (dget context ''audience'') (PStr ''refinement'')
      then Inl (ValueError ''runtime context audience mismatch'')
      else if \<not> py_eq (dget context ''purpose'') (PStr MATERIALIZE_PURPOSE)
      then Inl (ValueError ''runtime context purpose mismatch'')
      else if \<not> py_eq (dget context ''_signature_version'') (PStr ''hmac-sha256-v2'')
      then Inl (ValueError ''runtime context signature version mismatch'')
      else
        let signature = str_or (dget context ''_signature'') [] in
        if signature = [] then Inl (ValueError ''runtime context signature missing'')
        else
          rbind (int_or ''runtime context signed_at missing'' (dget context ''_signed_at'')) (\<lambda>signed_at.
          rbind (verify_envelope ''runtime context signature expired'' ''runtime context signature mismatch''
              signature refinement_key w context signed_at) (\<lambda>_.
          rbind (exact_request_binding w context request) (\<lambda>_.
            if consume then consume_runtime_jti w db context signed_at table else Inr table))))"

section \<open>Effects of scheduled agents\<close>

text \<open>The console signs the authority.\<close>

definition console_key :: "world \<Rightarrow> string pyres" where
  "console_key w =
     (let key = strip (getenv w ''SECURITY_CONTEXT_SIGNING_KEY'') in
      if length key < 32 then Inl (RuntimeError ''SECURITY_CONTEXT_SIGNING_KEY is required to sign security_context'')
      else rbind (distinct_key key (w_environ w)) (\<lambda>_. Inr key))"

definition sign_runtime_envelope :: "world \<Rightarrow> pdict \<Rightarrow> pdict pyres" where
  "sign_runtime_envelope w payload =
     (let signed = filter (\<lambda>kv. fst kv \<notin> {PStr ''_signature'', PStr ''_signed_at'', PStr ''_signature_version''}) payload;
          signed1 = dset (dset signed ''_signed_at'' (PInt (w_now w))) ''_signature_version'' (PStr ''hmac-sha256-v2'')
      in rbind (console_key w) (\<lambda>key.
         rbind (canonical signed1) (\<lambda>msg.
           Inr (dset signed1 ''_signature'' (PStr (w_hmac w key msg))))))"

record agent =
  agent_id :: string
  agent_tenant :: pv
  agent_workspace :: pv

definition scheduled_effect_authority ::
    "world \<Rightarrow> agent \<Rightarrow> int option \<Rightarrow> string \<Rightarrow> pdict \<Rightarrow> int \<Rightarrow> int \<Rightarrow> pdict pyres" where
  "scheduled_effect_authority w agent run_id tool args schedule_run_id fencing_token =
     rbind (json_sorted False (PDict (pdict_of [(''tool'', PStr tool), (''args'', PDict args)]))) (\<lambda>msg.
       sign_runtime_envelope w (pdict_of
         [(''source'', PStr ''console''), (''audience'', PStr ''mcp-infra''), (''purpose'', PStr ''mcp.scheduled_effect''),
          (''tool'', PStr tool), (''schedule_run_id'', PInt schedule_run_id), (''fencing_token'', PInt fencing_token),
          (''tenant_id'', text_or_none (agent_tenant agent)), (''workspace_id'', text_or_none (agent_workspace agent)),
          (''agent_id'', PStr (agent_id agent)), (''agent_run_id'', case run_id of None \<Rightarrow> PNone | Some i \<Rightarrow> PInt i), (''jti'', PStr (w_token w)),
          (''body_digest'', PStr (w_sha256 w msg))]))"

definition EFFECT_FIELDS :: "string list" where
  "EFFECT_FIELDS = [''source'', ''audience'', ''purpose'', ''tool'', ''schedule_run_id'', ''fencing_token'', ''tenant_id'',
     ''workspace_id'', ''agent_id'', ''agent_run_id'', ''jti'', ''body_digest'', ''_signed_at'', ''_signature_version'',
     ''_signature'']"

definition effect_fixed :: "string \<Rightarrow> pdict \<Rightarrow> (string \<times> pv) list" where
  "effect_fixed tool context =
     [(''source'', PStr ''console''), (''audience'', PStr ''mcp-infra''), (''purpose'', PStr ''mcp.scheduled_effect''),
      (''tool'', PStr tool), (''tenant_id'', dget context ''tenant_id''), (''workspace_id'', dget context ''workspace_id''),
      (''agent_id'', dget context ''agent_id''), (''agent_run_id'', dget context ''agent_run_id''),
      (''_signature_version'', PStr ''hmac-sha256-v2'')]"

definition consume_effect ::
    "world \<Rightarrow> pg_settings \<Rightarrow> ledger \<Rightarrow> pdict \<Rightarrow> int \<Rightarrow> nonce_table \<Rightarrow> nonce_table pyres" where
  "consume_effect w settings db authority signed_at table =
     (let tenant = dget authority ''tenant_id''; workspace = dget authority ''workspace_id''
      in rejected ''scheduled effect replay rejected''
        (if \<not> l_connects db (mcp_dsn w settings) then Inl (DatabaseError ''OperationalError'')
         else
           rbind (bind_text db (dget authority ''jti'')) (\<lambda>jti.
           rbind (bind_uuid db tenant) (\<lambda>tenant_id.
           rbind (bind_uuid db workspace) (\<lambda>workspace_id.
           rbind (bind_text db (PStr (py_str (dget authority ''agent_run_id'')))) (\<lambda>run_id.
           rbind (bind_text db (dget authority ''body_digest'')) (\<lambda>digest.
           rbind (bind_bigint db (dget authority ''schedule_run_id'')) (\<lambda>schedule_run_id.
           rbind (bind_bigint db (dget authority ''fencing_token'')) (\<lambda>fencing_token.
             insert_nonce db Mcp_Role (setting tenant) (setting workspace) jti
               \<lparr>n_tenant = tenant_id, n_workspace = workspace_id, n_run = run_id, n_audience = ''mcp-infra'',
                n_purpose = ''mcp.scheduled_effect'', n_digest = digest, n_signed_at = signed_at,
                n_expires_at = signed_at + 300, n_dag = None, n_cartridge = None,
                n_schedule_run = schedule_run_id, n_fencing = fencing_token\<rparr> table)))))))))"

definition validate_scheduled_effect_authority ::
    "world \<Rightarrow> pg_settings \<Rightarrow> ledger \<Rightarrow> pv \<Rightarrow> string \<Rightarrow> pdict \<Rightarrow> pdict \<Rightarrow> nonce_table \<Rightarrow> (pdict \<times> nonce_table) pyres" where
  "validate_scheduled_effect_authority w settings db authority_value tool args context table =
     (case authority_value of
        PDict authority \<Rightarrow>
          if \<not> same_keys authority EFFECT_FIELDS then Inl (ValueError ''scheduled effect envelope mismatch'')
          else if \<not> agrees authority (effect_fixed tool context) then Inl (ValueError ''scheduled effect binding mismatch'')
          else
            let unsigned_args = filter (\<lambda>kv. fst kv \<noteq> PStr ''effect_authority'') args in
            rbind (json_sorted False (PDict (pdict_of [(''tool'', PStr tool), (''args'', PDict unsigned_args)]))) (\<lambda>msg.
              if \<not> py_eq (dget authority ''body_digest'') (PStr (w_sha256 w msg)) \<or>
                 \<not> hex64 (str_or (dget authority ''jti'') [])
              then Inl (ValueError ''scheduled effect body mismatch'')
              else
                rbind (int_or ''scheduled effect identity invalid'' (dget authority ''_signed_at'')) (\<lambda>signed_at.
                rbind (int_or ''scheduled effect identity invalid'' (dget authority ''schedule_run_id'')) (\<lambda>_.
                rbind (int_or ''scheduled effect identity invalid'' (dget authority ''fencing_token'')) (\<lambda>_.
                rbind (verify_envelope ''scheduled effect authority expired'' ''scheduled effect signature mismatch''
                    (str_or (dget authority ''_signature'') []) (mcp_key ''scheduled effect signing key unavailable'')
                    w authority signed_at) (\<lambda>_.
                rbind (consume_effect w settings db authority signed_at table) (\<lambda>table'.
                  Inr (authority, table')))))))
      | _ \<Rightarrow> Inl (ValueError ''scheduled effect envelope mismatch''))"

text \<open>The console checks an authority that comes back with a request.\<close>

definition effect_invalid :: http_error where
  "effect_invalid = HTTPException 403 ''scheduled effect authority is invalid''"

definition route_int :: "pv \<Rightarrow> http_error + int" where
  "route_int v =
     (case py_int v of
        Inl TypeError \<Rightarrow> Inl effect_invalid
      | Inl (ValueError _) \<Rightarrow> Inl effect_invalid
      | Inl e \<Rightarrow> Inl (Raised e)
      | Inr i \<Rightarrow> Inr i)"

definition verified_effect_authority :: "world \<Rightarrow> pdict \<Rightarrow> pv \<Rightarrow> string \<Rightarrow> http_error + pdict" where
  "verified_effect_authority w user authority_value expected_tool =
     (case authority_value of
        PDict authority \<Rightarrow>
          if \<not> same_keys authority EFFECT_FIELDS \<or> \<not> agrees authority (effect_fixed expected_tool user)
          then Inl effect_invalid
          else
            rbind (route_int (dget authority ''schedule_run_id'')) (\<lambda>schedule_run_id.
            rbind (route_int (dget authority ''fencing_token'')) (\<lambda>fencing_token.
            rbind (route_int (dget authority ''_signed_at'')) (\<lambda>signed_at.
              if is_bool (dget authority ''schedule_run_id'') \<or> is_bool (dget authority ''fencing_token'') \<or>
                 schedule_run_id \<le> 0 \<or> fencing_token \<le> 0
              then Inl effect_invalid
              else if list_ex (\<lambda>field. \<not> hex64 (str_or (dget authority field) [])) [''jti'', ''body_digest'', ''_signature'']
              then Inl effect_invalid
              else if w_now w + 30 < signed_at \<or> 300 < w_now w - signed_at
              then Inl (HTTPException 403 ''scheduled effect authority is expired'')
              else
                let key = strip (getenv w ''SECURITY_CONTEXT_SIGNING_KEY'') in
                if length key < 32 then Inl (HTTPException 503 ''scheduled effect authority is unavailable'')
                else
                  rbind (lift (canonical authority)) (\<lambda>msg.
                  rbind (lift (compare_digest (py_str (dget authority ''_signature'')) (w_hmac w key msg))) (\<lambda>same.
                    if \<not> same then Inl effect_invalid
                    else Inr (pdict_of [(''schedule_run_id'', PInt schedule_run_id), (''fencing_token'', PInt fencing_token),
                      (''agent_id'', PStr (str_or (dget user ''agent_id'') []))]))))))
      | _ \<Rightarrow> Inl effect_invalid)"

section \<open>A nonce is spent once\<close>

definition spends :: "string \<Rightarrow> nonce_table \<Rightarrow> nonce_table \<Rightarrow> bool" where
  \<comment> \<open>the nonce was new, and the table holds it afterwards in a row that admits no refresh\<close>
  "spends jti table table' \<longleftrightarrow> table jti = None \<and> nonce_step table table' \<and>
     (\<exists>row. table' jti = Some row \<and> n_audience row \<noteq> ''airflow'')"

text \<open>What the receivers promise about the table, and what follows whichever of them is meant.\<close>

locale nonce_client =
  fixes accepts :: "'c \<Rightarrow> nonce_table \<Rightarrow> nonce_table \<Rightarrow> bool"
    and nonce_of :: "'c \<Rightarrow> string option"
  assumes accepts_spends: "accepts c table table' \<Longrightarrow> \<exists>jti. nonce_of c = Some jti \<and> spends jti table table'"
begin

lemma spent_is_refused:
  assumes "spends jti table table1" "nonce_step\<^sup>*\<^sup>* table1 table2" "nonce_of c = Some jti"
  shows "\<not> accepts c table2 table3"
proof -
  from assms(1) obtain row where "table1 jti = Some row" by (auto simp: spends_def)
  with assms(2) have "table2 jti = Some row" by (rule nonces.entry_stable)
  then show ?thesis using accepts_spends assms(3) by (fastforce simp: spends_def)
qed

lemma accepted_once:
  assumes "accepts c table table1" "nonce_step\<^sup>*\<^sup>* table1 table2" "nonce_of c' = nonce_of c"
  shows "\<not> accepts c' table2 table3"
  using accepts_spends [OF assms(1)] spent_is_refused assms(2,3) by metis

lemma accepted_grows: "accepts c table table' \<Longrightarrow> nonce_step\<^sup>*\<^sup>* table table'"
  using accepts_spends by (auto simp: spends_def)

end

lemma insert_nonce_Inr:
  "insert_nonce db role app_tenant app_workspace jti row table = Inr table' \<longleftrightarrow>
     insert_policy role app_tenant app_workspace row \<and> nonce_checks jti row \<and> table jti = None \<and>
     (\<forall>t. n_tenant row = Some t \<longrightarrow> t \<in> set (l_tenants db)) \<and>
     (\<forall>u. n_workspace row = Some u \<longrightarrow> u \<in> set (map fst (db_workspaces db))) \<and> table' = table(jti \<mapsto> row)"
  by (auto simp: insert_nonce_def split: option.splits)

lemma insert_spends:
  assumes "insert_nonce db role app_tenant app_workspace jti row table = Inr table'" "n_audience row \<noteq> ''airflow''"
  shows "spends jti table table'"
  using assms nonce_step.intros [of table jti row] by (simp add: insert_nonce_Inr spends_def)

lemma bind_text_Inr: "bind_text db v = Inr s \<longleftrightarrow> l_text db v = Some s"
  by (auto simp: bind_text_def split: option.splits)

lemma rejected_Inr: "rejected problem m = Inr x \<longleftrightarrow> m = Inr x"
  by (simp add: rejected_def split: sum.splits)

lemmas consume_Inr_simps = bind_text_Inr rejected_Inr rbind_Inr_iff Let_def

lemma consume_telemetry_spends:
  assumes "consume_telemetry w settings db context signed_at table = Inr table'"
  shows "\<exists>jti. l_text db (dget context ''jti'') = Some jti \<and> spends jti table table'"
  using assms by (auto simp: consume_telemetry_def consume_Inr_simps split: if_splits elim!: insert_spends)

lemma consume_effect_spends:
  assumes "consume_effect w settings db authority signed_at table = Inr table'"
  shows "\<exists>jti. l_text db (dget authority ''jti'') = Some jti \<and> spends jti table table'"
  using assms by (auto simp: consume_effect_def consume_Inr_simps split: if_splits elim!: insert_spends)

definition stores_text :: "ledger \<Rightarrow> bool" where
  \<comment> \<open>a text parameter is stored as it is, unless it has a NUL character\<close>
  "stores_text db \<longleftrightarrow> (\<forall>s. l_text db (PStr s) = (if CHR 0x00 \<in> set s then None else Some s))"

lemma l_text_PStr: "stores_text db \<Longrightarrow> l_text db (PStr s) = (if CHR 0x00 \<in> set s then None else Some s)"
  by (simp add: stores_text_def)

lemma consume_runtime_jti_spends:
  assumes "consume_runtime_jti w db context signed_at table = Inr table'" "stores_text db"
    "dget context ''audience'' = PStr ''refinement''"
  shows "\<exists>jti. l_text db (dget context ''jti'') = Some jti \<and> spends jti table table'"
  using assms
  by (auto simp: consume_runtime_jti_def consume_Inr_simps l_text_PStr split: if_splits elim!: insert_spends)

text \<open>The calls the three receivers answer; those that are accepted record their nonce.\<close>

datatype service_call =
    Telemetry pdict pdict
  | Materialize pdict pdict
  | Effect pdict string pdict pdict

fun call_context :: "service_call \<Rightarrow> pdict" where
  "call_context (Telemetry context request) = context"
| "call_context (Materialize context request) = context"
| "call_context (Effect authority tool args context) = authority"

fun serve :: "world \<Rightarrow> pg_settings \<Rightarrow> ledger \<Rightarrow> string \<Rightarrow> service_call \<Rightarrow> nonce_table \<Rightarrow> nonce_table pyres" where
  "serve w settings db caller (Telemetry context request) table =
     map_sum id snd (validate_pipeline_run_authority w settings db (PDict context) request caller True table)"
| "serve w settings db caller (Materialize context request) table =
     validate_runtime_context w db context request caller True table"
| "serve w settings db caller (Effect authority tool args context) table =
     map_sum id snd (validate_scheduled_effect_authority w settings db (PDict authority) tool args context table)"

lemma map_sum_snd_Inr: "map_sum id snd m = Inr y \<longleftrightarrow> (\<exists>x. m = Inr (x, y))"
  by (cases m) auto

lemma serve_spends:
  assumes "stores_text db" "serve w settings db caller call table = Inr table'"
  shows "\<exists>jti. l_text db (dget (call_context call) ''jti'') = Some jti \<and> spends jti table table'"
proof (cases call)
  case (Telemetry ctx request)
  then obtain signed_at where "consume_telemetry w settings db ctx signed_at table = Inr table'"
    using assms(2) by (auto simp: validate_pipeline_run_authority_def map_sum_snd_Inr rbind_Inr_iff Let_def
        split: if_splits pv.splits prod.splits bool.splits)
  then show ?thesis using Telemetry consume_telemetry_spends by simp
next
  case (Materialize ctx request)
  then obtain signed_at where "consume_runtime_jti w db ctx signed_at table = Inr table'"
      "dget ctx ''audience'' = PStr ''refinement''"
    using assms(2) by (auto simp: validate_runtime_context_def rbind_Inr_iff Let_def py_eq_PStr split: if_splits)
  then show ?thesis using Materialize consume_runtime_jti_spends assms(1) by simp
next
  case (Effect authority tool args ctx)
  then obtain signed_at where "consume_effect w settings db authority signed_at table = Inr table'"
    using assms(2) by (auto simp: validate_scheduled_effect_authority_def map_sum_snd_Inr rbind_Inr_iff Let_def
        split: if_splits)
  then show ?thesis using Effect consume_effect_spends by simp
qed

interpretation receivers: nonce_client
  "\<lambda>(w, settings, db, caller, call) table table'. stores_text db \<and> serve w settings db caller call table = Inr table'"
  "\<lambda>(w, settings, db, caller, call). l_text db (dget (call_context call) ''jti'')"
  by unfold_locales (auto dest: serve_spends)

section \<open>Issued contexts are accepted\<close>

lemma keys_of_signing_key:
  assumes "signing_key w = Inr key"
  shows "mcp_key problem w = Inr key" "refinement_key w = Inr key" "console_key w = Inr key"
  using assms
  by (auto simp: signing_key_def mcp_key_def refinement_key_def console_key_def MIN_KEY_LENGTH_def Let_def rbind_Inr_iff
      split: if_splits)

lemma same_keys_map:
  assumes "map fst fs = keys"
  shows "same_keys (pdict_of fs) keys"
proof -
  have "dhas (pdict_of fs) k \<longleftrightarrow> k \<in> set (map fst fs)" for k
    by (induction fs) auto
  then show ?thesis using assms by (force simp: same_keys_def list_all_iff pdict_of_def)
qed

lemma py_eq_strs: "py_eq (strs xs) (strs ys) \<longleftrightarrow> xs = ys"
proof -
  have "py_eq_list (map PStr xs) (map PStr ys) \<longleftrightarrow> xs = ys" for xs ys
    by (induction xs arbitrary: ys) (auto split: list.splits)
  then show ?thesis by (simp add: strs_def)
qed

lemma tool_args_digest:
  "json_sorted asc (PDict (pdict_of [(''tool'', PStr t), (''args'', a)])) =
   json_sorted asc (PDict (pdict_of [(''args'', a), (''tool'', PStr t)]))"
  by (cases "json_sorted asc a") (simp_all add: sort_items_def)

definition known_scope :: "ledger \<Rightarrow> string \<Rightarrow> string \<Rightarrow> bool" where
  \<comment> \<open>the tenant and the workspace are known, and spelled the way PostgreSQL writes a uuid\<close>
  "known_scope db tenant workspace \<longleftrightarrow> tenant \<noteq> [] \<and> workspace \<noteq> [] \<and>
     db_uuid db tenant = Some tenant \<and> db_uuid db workspace = Some workspace \<and>
     tenant \<in> set (l_tenants db) \<and> workspace \<in> set (map fst (db_workspaces db))"

definition clean :: "string \<Rightarrow> bool" where
  "clean s \<longleftrightarrow> CHR 0x00 \<notin> set s"

lemma bind_text_PStr:
  "stores_text db \<Longrightarrow> bind_text db (PStr s) = (if clean s then Inr s else Inl (DatabaseError ''ProgrammingError''))"
  by (simp add: bind_text_def l_text_PStr clean_def)

lemma hex64_clean: "hex64 s \<Longrightarrow> clean s"
  by (auto simp: hex64_def clean_def list_all_iff lower_hex_def is_ascii_digit_def)

lemma hex64_ascii: "hex64 s \<Longrightarrow> is_ascii s \<and> s \<noteq> []"
  by (auto simp: hex64_def is_ascii_def list_all_iff lower_hex_def is_ascii_digit_def)

lemma bind_uuid_text_or_none:
  "bind_uuid db (text_or_none (PStr s)) =
     (if strip s = [] then Inr None else case db_uuid db (strip s) of
        Some u \<Rightarrow> Inr (Some u) | None \<Rightarrow> Inl (DatabaseError ''InvalidTextRepresentation''))"
  by (simp add: bind_uuid_def text_or_none_def Let_def to_uuid_def db.defs split: option.splits)

definition field_text :: "pdict \<Rightarrow> string \<Rightarrow> string" where
  \<comment> \<open>\<open>str(args.get(key) or "").strip()\<close>\<close>
  "field_text args k = strip (str_or (dget args k) [])"

definition telemetry_row :: "world \<Rightarrow> pdict \<Rightarrow> string \<Rightarrow> nonce" where
  "telemetry_row w args digest =
     (let opt = \<lambda>s. if s = [] then None else Some s
      in \<lparr>n_tenant = opt (field_text args ''tenant_id''), n_workspace = opt (field_text args ''workspace_id''),
          n_run = field_text args ''run_id'', n_audience = ''mcp-infra'', n_purpose = PIPELINE_RUN_PURPOSE,
          n_digest = digest, n_signed_at = w_now w, n_expires_at = w_now w + 300,
          n_dag = Some (field_text args ''dag_id''), n_cartridge = Some (field_text args ''cartridge_id''),
          n_schedule_run = None, n_fencing = None\<rparr>)"

definition telemetry_fields :: "world \<Rightarrow> pdict \<Rightarrow> string \<Rightarrow> (string \<times> pv) list" where
  "telemetry_fields w args digest =
     [(''trusted'', PBool True), (''source'', PStr ''airflow''), (''audience'', PStr ''mcp-infra''),
      (''purpose'', PStr PIPELINE_RUN_PURPOSE), (''tool'', PStr ''pipeline_run_save''),
      (''run_id'', PStr (field_text args ''run_id'')), (''dag_id'', PStr (field_text args ''dag_id'')),
      (''jti'', PStr (w_token w)), (''body_digest'', PStr digest),
      (''user_id'', PStr (''airflow:'' @ py_str (dget args ''dag_id''))), (''role'', PStr ''service''),
      (''workspace_role'', PStr ''service''), (''tenant_id'', PStr (field_text args ''tenant_id'')),
      (''workspace_id'', PStr (field_text args ''workspace_id'')), (''permissions'', strs [''pipelines.write'']),
      (''allowed_cartridges'', strs [field_text args ''cartridge_id''])]"

definition telemetry_request :: "pdict \<Rightarrow> pdict" where
  \<comment> \<open>\<open>{"tool": tool, "args": args}\<close>\<close>
  "telemetry_request args = pdict_of [(''tool'', PStr ''pipeline_run_save''), (''args'', PDict args)]"

lemma telemetry_built:
  assumes "build_pipeline_run_context w args = Inr issued"
  obtains key msg digest_text where "signing_key w = Inr key" "canonical issued = Inr msg"
    "issued = pdict_of (telemetry_fields w args (w_sha256 w digest_text) @
       [(''_signed_at'', PInt (w_now w)), (''_signature_version'', PStr ''hmac-sha256-v2''),
        (''_signature'', PStr (w_hmac w key msg))])"
    "json_sorted False (PDict (telemetry_request args)) = Inr digest_text"
    "list_all (dhas args) [''run_id'', ''dag_id'', ''cartridge_id'', ''entity'', ''status'']"
    "field_text args ''run_id'' \<noteq> []" "field_text args ''dag_id'' \<noteq> []" "field_text args ''cartridge_id'' \<noteq> []"
    "field_text args ''cartridge_id'' \<noteq> ''platform'' \<Longrightarrow>
       field_text args ''tenant_id'' \<noteq> [] \<and> field_text args ''workspace_id'' \<noteq> []"
proof -
  obtain digest_text where
    sign: "sign_context w MATERIALIZE_SIGNATURE_VERSION (pdict_of (telemetry_fields w args (w_sha256 w digest_text))) =
      Inr issued"
    and *: "json_sorted False (PDict (telemetry_request args)) = Inr digest_text"
    "list_all (dhas args) [''run_id'', ''dag_id'', ''cartridge_id'', ''entity'', ''status'']"
    "field_text args ''run_id'' \<noteq> []" "field_text args ''dag_id'' \<noteq> []" "field_text args ''cartridge_id'' \<noteq> []"
    "field_text args ''cartridge_id'' \<noteq> ''platform'' \<Longrightarrow>
       field_text args ''tenant_id'' \<noteq> [] \<and> field_text args ''workspace_id'' \<noteq> []"
    using assms unfolding build_pipeline_run_context_def tool_args_digest [symmetric] telemetry_request_def [symmetric]
    by (auto simp: Let_def rbind_Inr_iff required_def field_text_def telemetry_fields_def simp del: json_sorted.simps
        split: if_splits)
  have "set (map fst (telemetry_fields w args (w_sha256 w digest_text))) \<inter>
      {''_signature'', ''_signed_at'', ''_signature_version''} = {}"
    by (simp add: telemetry_fields_def)
  from sign_context_pdict_of [OF sign this] show ?thesis
    using that * by (simp only: MATERIALIZE_SIGNATURE_VERSION_def) metis
qed

lemma verify_issued:
  assumes "canonical issued = Inr msg" "key_of w' = Inr key" "w_hmac w' = w_hmac w" "hex_digests w"
  shows "verify_envelope expired mismatch (w_hmac w key msg) key_of w' issued signed_at =
    (if w_now w' + 30 < signed_at \<or> 300 < w_now w' - signed_at then Inl (ValueError expired) else Inr ())"
  using assms by (simp add: verify_envelope_def compare_digest_def hex_digests_def)

lemma rejected_insert:
  "rejected problem (insert_nonce db role app_tenant app_workspace jti row table) =
     (if insert_policy role app_tenant app_workspace row \<and> nonce_checks jti row \<and> table jti = None \<and>
         (\<forall>t. n_tenant row = Some t \<longrightarrow> t \<in> set (l_tenants db)) \<and>
         (\<forall>u. n_workspace row = Some u \<longrightarrow> u \<in> set (map fst (db_workspaces db)))
      then Inr (table(jti \<mapsto> row)) else Inl (ValueError problem))"
  by (auto simp: rejected_def insert_nonce_def split: option.splits)

lemma rejected_rbind:
  "rejected problem (rbind m f) = (case m of Inl e \<Rightarrow> Inl (ValueError problem) | Inr x \<Rightarrow> rejected problem (f x))"
  "rejected problem (Inl e) = Inl (ValueError problem)"
  by (auto simp: rejected_def split: sum.splits)

definition telemetry_recordable :: "ledger \<Rightarrow> pdict \<Rightarrow> bool" where
  \<comment> \<open>the table takes the row of this telemetry\<close>
  "telemetry_recordable db args \<longleftrightarrow> length (field_text args ''run_id'') \<le> 250 \<and>
     clean (field_text args ''run_id'') \<and> clean (field_text args ''dag_id'') \<and> clean (field_text args ''cartridge_id'') \<and>
     (field_text args ''tenant_id'' = [] \<and> field_text args ''workspace_id'' = [] \<or>
      known_scope db (field_text args ''tenant_id'') (field_text args ''workspace_id''))"

lemma text_or_none_stripped: "text_or_none (PStr (field_text args k)) =
    (if field_text args k = [] then PNone else PStr (field_text args k))"
  by (simp add: text_or_none_def field_text_def Let_def)

lemma consume_issued_telemetry:
  assumes get: "dget issued ''tenant_id'' = PStr (field_text args ''tenant_id'')"
      "dget issued ''workspace_id'' = PStr (field_text args ''workspace_id'')" "dget issued ''jti'' = PStr (w_token w)"
      "dget issued ''run_id'' = PStr (field_text args ''run_id'')" "dget issued ''body_digest'' = PStr digest"
      "dget issued ''dag_id'' = PStr (field_text args ''dag_id'')"
      "dget issued ''allowed_cartridges'' = strs [field_text args ''cartridge_id'']"
    and args: "field_text args ''run_id'' \<noteq> []" "field_text args ''cartridge_id'' \<noteq> ''platform'' \<Longrightarrow>
       field_text args ''tenant_id'' \<noteq> [] \<and> field_text args ''workspace_id'' \<noteq> []"
    and db: "stores_text db" "l_connects db (mcp_dsn w' settings)" and hex: "hex64 (w_token w)" "hex64 digest"
  shows "consume_telemetry w' settings db issued (w_now w) table =
    (if table (w_token w) = None \<and> telemetry_recordable db args
     then Inr (table(w_token w \<mapsto> telemetry_row w args digest))
     else Inl (ValueError ''pipeline telemetry replay rejected''))"
proof (cases "clean (field_text args ''run_id'') \<and> clean (field_text args ''dag_id'') \<and> clean (field_text args ''cartridge_id'')")
  case True
  show ?thesis
    using True args db hex hex64_clean [OF hex(1)] hex64_clean [OF hex(2)]
    by (auto simp: consume_telemetry_def get Let_def rejected_rbind rejected_insert bind_text_PStr text_or_none_stripped
        bind_uuid_def to_uuid_def db.defs strs_def setting_def insert_policy_def omega_rls_workspace_matches_def
        platform_row_def nonce_checks_def PIPELINE_RUN_PURPOSE_def telemetry_recordable_def known_scope_def
        telemetry_row_def split: option.splits)
next
  case False
  then show ?thesis
    using db hex64_clean [OF hex(1)] hex64_clean [OF hex(2)]
    by (auto simp: consume_telemetry_def get Let_def rejected_rbind bind_text_PStr strs_def telemetry_recordable_def
        split: sum.splits)
qed

lemma check_issued_telemetry:
  assumes built: "build_pipeline_run_context w args = Inr issued"
    and digests: "hex_digests w" "hex64 (w_token w)" and "shares_keys w w'"
  shows "validate_pipeline_run_authority w' settings db (PDict issued) (telemetry_request args) ''airflow'' consume table =
    (if w_now w' + 30 < w_now w \<or> 300 < w_now w' - w_now w
     then Inl (ValueError ''pipeline telemetry signature expired'')
     else if consume
     then rbind (consume_telemetry w' settings db issued (w_now w) table) (\<lambda>table'. Inr (issued, table'))
     else Inr (issued, table))"
proof -
  obtain key msg digest_text where key: "signing_key w = Inr key" and msg: "canonical issued = Inr msg"
    and issued: "issued = pdict_of (telemetry_fields w args (w_sha256 w digest_text) @
       [(''_signed_at'', PInt (w_now w)), (''_signature_version'', PStr ''hmac-sha256-v2''),
        (''_signature'', PStr (w_hmac w key msg))])"
    and digest: "json_sorted False (PDict (telemetry_request args)) = Inr digest_text"
    and args: "list_all (dhas args) [''run_id'', ''dag_id'', ''cartridge_id'', ''entity'', ''status'']"
    "field_text args ''cartridge_id'' \<noteq> ''platform'' \<Longrightarrow>
       field_text args ''tenant_id'' \<noteq> [] \<and> field_text args ''workspace_id'' \<noteq> []"
    using built by (rule telemetry_built) blast
  have get: "dget issued ''jti'' = PStr (w_token w)" "dget issued ''body_digest'' = PStr (w_sha256 w digest_text)"
      "dget issued ''_signed_at'' = PInt (w_now w)" "dget issued ''_signature'' = PStr (w_hmac w key msg)"
    by (simp_all add: issued telemetry_fields_def)
  have keys: "same_keys issued TELEMETRY_FIELDS"
    by (simp only: issued, rule same_keys_map) (simp add: telemetry_fields_def TELEMETRY_FIELDS_def)
  have agree: "agrees issued telemetry_fixed" "agrees issued (telemetry_expected args)"
    by (simp_all add: issued telemetry_fields_def agrees_def telemetry_fixed_def telemetry_expected_def field_text_def
        py_eq_strs py_eq_PStr num_eq_def)
  have world: "mcp_key ''telemetry signing key unavailable'' w' = Inr key" "w_hmac w' = w_hmac w" "w_sha256 w' = w_sha256 w"
    using keys_of_signing_key(1) [of w' key] signing_key_cong [of w' w] key assms(4) by (auto simp: shares_keys_def)
  have scope: "\<not> (strip (str_or (dget args ''cartridge_id'') []) \<noteq> ''platform'' \<and>
      (blank (dget args ''tenant_id'') \<or> blank (dget args ''workspace_id'')))"
    using args(2) by (auto simp: field_text_def blank_def)
  have request: "dget (telemetry_request args) ''args'' = PDict args" by (simp add: telemetry_request_def)
  show ?thesis
    using keys agree args(1) digest get world digests(2)
      verify_issued [where key_of = "mcp_key ''telemetry signing key unavailable''", OF msg world(1,2) digests(1)]
    by (simp add: validate_pipeline_run_authority_def request scope int_or_def py_eq_PStr Let_def del: json_sorted.simps)
qed

lemma issued_telemetry:
  assumes built: "build_pipeline_run_context w args = Inr issued"
    and digests: "hex_digests w" "hex64 (w_token w)" "\<forall>msg. hex64 (w_sha256 w msg)" and "shares_keys w w'"
    and db: "stores_text db" "l_connects db (mcp_dsn w' settings)"
  shows "\<exists>digest. validate_pipeline_run_authority w' settings db (PDict issued) (telemetry_request args) ''airflow'' True table =
    (if w_now w' + 30 < w_now w \<or> 300 < w_now w' - w_now w
     then Inl (ValueError ''pipeline telemetry signature expired'')
     else if table (w_token w) = None \<and> telemetry_recordable db args
     then Inr (issued, table(w_token w \<mapsto> telemetry_row w args digest))
     else Inl (ValueError ''pipeline telemetry replay rejected''))"
proof -
  obtain key msg digest_text where
    issued: "issued = pdict_of (telemetry_fields w args (w_sha256 w digest_text) @
       [(''_signed_at'', PInt (w_now w)), (''_signature_version'', PStr ''hmac-sha256-v2''),
        (''_signature'', PStr (w_hmac w key msg))])"
    and args: "field_text args ''run_id'' \<noteq> []" "field_text args ''cartridge_id'' \<noteq> ''platform'' \<Longrightarrow>
       field_text args ''tenant_id'' \<noteq> [] \<and> field_text args ''workspace_id'' \<noteq> []"
    using built by (rule telemetry_built) blast
  let ?digest = "w_sha256 w digest_text"
  have get: "dget issued ''tenant_id'' = PStr (field_text args ''tenant_id'')"
      "dget issued ''workspace_id'' = PStr (field_text args ''workspace_id'')" "dget issued ''jti'' = PStr (w_token w)"
      "dget issued ''run_id'' = PStr (field_text args ''run_id'')" "dget issued ''body_digest'' = PStr ?digest"
      "dget issued ''dag_id'' = PStr (field_text args ''dag_id'')"
      "dget issued ''allowed_cartridges'' = strs [field_text args ''cartridge_id'']"
    by (simp_all add: issued telemetry_fields_def)
  show ?thesis
    using consume_issued_telemetry [OF get args db digests(2), of table] digests(3)
    by (intro exI [of _ ?digest]) (simp add: check_issued_telemetry [OF built digests(1,2) assms(5)])
qed

text \<open>
  C36: telemetry that the DAGs sign is accepted for the run it was signed for, from thirty seconds before to
  three hundred seconds after it was signed: the infrastructure service returns the context and records the
  nonce with the run, DAG, cartridge and scope of the request. It refuses the context when the nonce was used,
  and when the scope is unknown or the table cannot hold the row.
\<close>

theorem telemetry_context_is_accepted:
  assumes built: "build_pipeline_run_context w args = Inr issued"
    and digests: "hex_digests w" "hex64 (w_token w)" "\<forall>msg. hex64 (w_sha256 w msg)" and "shares_keys w w'"
    and db: "stores_text db" "l_connects db (mcp_dsn w' settings)"
  shows "\<exists>digest. validate_pipeline_run_authority w' settings db (PDict issued) (telemetry_request args) ''airflow'' True table =
    (if w_now w' + 30 < w_now w \<or> 300 < w_now w' - w_now w
     then Inl (ValueError ''pipeline telemetry signature expired'')
     else if table (w_token w) = None \<and> telemetry_recordable db args
     then Inr (issued, table(w_token w \<mapsto> telemetry_row w args digest))
     else Inl (ValueError ''pipeline telemetry replay rejected''))"
  using assms by (rule issued_telemetry)

text \<open>The request that carries a materialisation context, as the refinement service sees it.\<close>

definition materialize_request :: "string \<Rightarrow> pdict \<Rightarrow> pdict" where
  "materialize_request dataset issued =
     dset (dset (materialize_body dataset) ''security_context'' (PDict issued)) ''_verified_internal_service'' (PStr ''airflow'')"

definition materialize_row :: "world \<Rightarrow> string \<Rightarrow> string \<Rightarrow> string \<Rightarrow> string \<Rightarrow> nonce" where
  "materialize_row w tenant workspace run_id digest =
     \<lparr>n_tenant = Some tenant, n_workspace = Some workspace, n_run = run_id, n_audience = ''refinement'',
      n_purpose = MATERIALIZE_PURPOSE, n_digest = digest, n_signed_at = w_now w, n_expires_at = w_now w + 300,
      n_dag = None, n_cartridge = None, n_schedule_run = None, n_fencing = None\<rparr>"

definition materialize_fields :: "world \<Rightarrow> string \<Rightarrow> string \<Rightarrow> string \<Rightarrow> string \<Rightarrow> string \<Rightarrow> string \<Rightarrow> (string \<times> pv) list" where
  "materialize_fields w tenant workspace cartridge dataset run_id digest =
     [(''trusted'', PBool True), (''source'', PStr ''airflow''), (''audience'', PStr ''refinement''),
      (''purpose'', PStr MATERIALIZE_PURPOSE), (''tool'', PStr ''materialize''), (''dataset'', PStr dataset),
      (''run_id'', PStr run_id), (''jti'', PStr (w_token w)), (''body_digest'', PStr digest),
      (''user_id'', PStr ''airflow:dataset_refresh_chain''), (''role'', PStr ''admin''),
      (''workspace_role'', PStr ''service''), (''tenant_id'', PStr tenant), (''workspace_id'', PStr workspace),
      (''permissions'', strs [''datasets.read'', ''datasets.write'']), (''allowed_cartridges'', strs [cartridge]),
      (''allowed_prefixes'', expected_prefixes cartridge tenant workspace)]"

lemma materialize_built:
  assumes "build_materialize_context w tenant_id workspace_id cartridge_id dataset_name run_id = Inr issued"
  obtains tenant workspace cartridge dataset run key msg digest_text where "signing_key w = Inr key" "canonical issued = Inr msg"
    "issued = pdict_of (materialize_fields w tenant workspace cartridge dataset run (w_sha256 w digest_text) @
       [(''_signed_at'', PInt (w_now w)), (''_signature_version'', PStr ''hmac-sha256-v2''),
        (''_signature'', PStr (w_hmac w key msg))])"
    "json_sorted True (PDict (materialize_body dataset)) = Inr digest_text"
    "required tenant_id ''tenant_id'' = Inr tenant" "required workspace_id ''workspace_id'' = Inr workspace"
    "required cartridge_id ''cartridge_id'' = Inr cartridge" "required dataset_name ''dataset_name'' = Inr dataset"
    "required run_id ''run_id'' = Inr run"
proof -
  obtain tenant workspace cartridge dataset run digest_text where
    sign: "sign_context w MATERIALIZE_SIGNATURE_VERSION
      (pdict_of (materialize_fields w tenant workspace cartridge dataset run (w_sha256 w digest_text))) = Inr issued"
    and *: "json_sorted True (PDict (materialize_body dataset)) = Inr digest_text"
    "required tenant_id ''tenant_id'' = Inr tenant" "required workspace_id ''workspace_id'' = Inr workspace"
    "required cartridge_id ''cartridge_id'' = Inr cartridge" "required dataset_name ''dataset_name'' = Inr dataset"
    "required run_id ''run_id'' = Inr run"
    using assms
    by (auto simp: build_materialize_context_def rbind_Inr_iff materialize_fields_def expected_prefixes_def Let_def
        simp del: json_sorted.simps)
  have "set (map fst (materialize_fields w tenant workspace cartridge dataset run (w_sha256 w digest_text))) \<inter>
      {''_signature'', ''_signed_at'', ''_signature_version''} = {}"
    by (simp add: materialize_fields_def)
  from sign_context_pdict_of [OF sign this] show ?thesis
    using that * by (simp only: MATERIALIZE_SIGNATURE_VERSION_def) metis
qed

lemma replace_driver_Nil [simp]: "replace_driver s = [] \<longleftrightarrow> s = []"
  by (cases s) auto

lemma consume_issued_materialize:
  assumes get: "dget issued ''audience'' = PStr ''refinement''" "dget issued ''purpose'' = PStr MATERIALIZE_PURPOSE"
      "dget issued ''run_id'' = PStr run" "dget issued ''jti'' = PStr (w_token w)" "dget issued ''body_digest'' = PStr digest"
      "dget issued ''tenant_id'' = PStr tenant" "dget issued ''workspace_id'' = PStr workspace"
    and texts: "run \<noteq> []" "length run \<le> 250" "tenant \<noteq> []" "workspace \<noteq> []"
    and db: "stores_text db" "getenv w' ''DATABASE_URL'' \<noteq> []" "l_connects db (replace_driver (getenv w' ''DATABASE_URL''))"
    and hex: "hex64 (w_token w)" "hex64 digest"
  shows "consume_runtime_jti w' db issued (w_now w) table =
    (if table (w_token w) = None \<and> known_scope db tenant workspace \<and> clean run
     then Inr (table(w_token w \<mapsto> materialize_row w tenant workspace run digest))
     else Inl (ValueError ''runtime context replay rejected''))"
  using texts db hex hex64_clean [OF hex(1)] hex64_clean [OF hex(2)]
  by (auto simp: consume_runtime_jti_def get Let_def rejected_rbind rejected_insert bind_text_PStr bind_uuid_def
      to_uuid_def db.defs setting_def insert_policy_def omega_rls_workspace_matches_def platform_row_def
      nonce_checks_def MATERIALIZE_PURPOSE_def clean_def known_scope_def materialize_row_def split: option.splits)

text \<open>
  C37: a materialisation context that the refresh signs is accepted by the refinement service for the data set
  it was signed for, within its time window; the nonce is recorded with the scope and the run. A second use, an
  unknown scope and a run identifier of more than 250 characters are refused.
\<close>

theorem materialize_context_is_accepted:
  assumes built: "build_materialize_context w tenant_id workspace_id cartridge_id dataset_name run_id = Inr issued"
    and digests: "hex_digests w" "hex64 (w_token w)" "\<forall>msg. hex64 (w_sha256 w msg)" and "shares_keys w w'"
    and db: "stores_text db" "getenv w' ''DATABASE_URL'' \<noteq> []" "l_connects db (replace_driver (getenv w' ''DATABASE_URL''))"
    and texts: "strip (str_or tenant_id []) = tenant" "strip (str_or workspace_id []) = workspace"
      "strip (str_or dataset_name []) = dataset" "strip (str_or run_id []) = run"
  shows "\<exists>digest. validate_runtime_context w' db issued (materialize_request dataset issued) ''airflow'' True table =
    (if w_now w' + 30 < w_now w \<or> 300 < w_now w' - w_now w
     then Inl (ValueError ''runtime context signature expired'')
     else if 250 < length run then Inl (ValueError ''runtime context run mismatch'')
     else if table (w_token w) = None \<and> known_scope db tenant workspace \<and> clean run
     then Inr (table(w_token w \<mapsto> materialize_row w tenant workspace run digest))
     else Inl (ValueError ''runtime context replay rejected''))"
proof -
  obtain cartridge key msg digest_text where key: "signing_key w = Inr key" and msg: "canonical issued = Inr msg"
    and issued: "issued = pdict_of (materialize_fields w tenant workspace cartridge dataset run (w_sha256 w digest_text) @
       [(''_signed_at'', PInt (w_now w)), (''_signature_version'', PStr ''hmac-sha256-v2''),
        (''_signature'', PStr (w_hmac w key msg))])"
    and digest: "json_sorted True (PDict (materialize_body dataset)) = Inr digest_text"
    and texts: "tenant \<noteq> []" "strip tenant = tenant" "workspace \<noteq> []" "strip workspace = workspace"
      "cartridge \<noteq> []" "strip cartridge = cartridge" "dataset \<noteq> []" "strip dataset = dataset" "run \<noteq> []" "strip run = run"
    by (rule materialize_built [OF built]) (use texts in \<open>auto simp: required_Inr\<close>)
  let ?digest = "w_sha256 w digest_text" and ?request = "materialize_request dataset issued"
  have get: "dget issued ''source'' = PStr ''airflow''" "dget issued ''audience'' = PStr ''refinement''"
      "dget issued ''purpose'' = PStr MATERIALIZE_PURPOSE" "dget issued ''tool'' = PStr ''materialize''"
      "dget issued ''dataset'' = PStr dataset" "dget issued ''run_id'' = PStr run" "dget issued ''jti'' = PStr (w_token w)"
      "dget issued ''body_digest'' = PStr ?digest" "dget issued ''user_id'' = PStr ''airflow:dataset_refresh_chain''"
      "dget issued ''role'' = PStr ''admin''" "dget issued ''workspace_role'' = PStr ''service''"
      "dget issued ''tenant_id'' = PStr tenant" "dget issued ''workspace_id'' = PStr workspace"
      "dget issued ''permissions'' = strs [''datasets.read'', ''datasets.write'']"
      "dget issued ''allowed_cartridges'' = PList [PStr cartridge]"
      "dget issued ''allowed_prefixes'' = expected_prefixes cartridge tenant workspace"
      "dget issued ''_signed_at'' = PInt (w_now w)" "dget issued ''_signature'' = PStr (w_hmac w key msg)"
      "dget issued ''_signature_version'' = PStr ''hmac-sha256-v2''"
    by (simp_all add: issued materialize_fields_def strs_def)
  have keys: "same_keys issued MATERIALIZE_FIELDS"
    by (simp only: issued, rule same_keys_map) (simp add: materialize_fields_def MATERIALIZE_FIELDS_def)
  have request: "request_args ?request = pdict_of [(''name'', PStr dataset)]" "request_fields ?request = materialize_body dataset"
      "dget ?request ''tool'' = PStr ''materialize''"
    by (simp_all add: materialize_request_def materialize_body_def request_args_def request_fields_def dset_def)
  have scope: "exact_request_scope issued = Inr ()"
    using texts by (simp add: exact_request_scope_def get Let_def py_eq_PStr agrees_def expected_prefixes_def py_eq_strs)
  have world: "refinement_key w' = Inr key" "w_hmac w' = w_hmac w" "w_sha256 w' = w_sha256 w"
    using keys_of_signing_key(2) [of w' key] signing_key_cong [of w' w] key assms(5) by (auto simp: shares_keys_def)
  have binding: "exact_request_binding w' issued ?request =
      (if 250 < length run then Inl (ValueError ''runtime context run mismatch'') else Inr ())"
    using texts digest digests(2) keys
    by (simp add: exact_request_binding_def get request scope world Let_def py_eq_PStr py_eq_strs same_keys_def
        materialize_body_def del: json_sorted.simps)
  note consume = consume_issued_materialize [OF get(2,3,6,7,8,12,13) texts(9) _ texts(1,3) db digests(2), of table]
  have "w_hmac w key msg \<noteq> []" using digests(1) by (simp add: hex_digests_def)
  then show ?thesis
    using verify_issued [where key_of = refinement_key, OF msg world(1,2) digests(1)] consume digests(3)
    by (intro exI [of _ ?digest])
       (simp add: validate_runtime_context_def get binding int_or_def py_eq_PStr Let_def not_less)
qed

text \<open>An authority for the effects of a scheduled agent.\<close>

lemma sign_runtime_envelope_Inr:
  "sign_runtime_envelope w payload = Inr issued \<Longrightarrow> sign_context w ''hmac-sha256-v2'' payload = Inr issued"
  by (auto simp: sign_runtime_envelope_def sign_context_def console_key_def signing_key_def MIN_KEY_LENGTH_def Let_def
      rbind_Inr_iff split: if_splits)

definition run_value :: "int option \<Rightarrow> pv" where
  "run_value run_id = (case run_id of None \<Rightarrow> PNone | Some i \<Rightarrow> PInt i)"

definition effect_fields :: "world \<Rightarrow> agent \<Rightarrow> int option \<Rightarrow> string \<Rightarrow> int \<Rightarrow> int \<Rightarrow> string \<Rightarrow> (string \<times> pv) list" where
  "effect_fields w agent run_id tool schedule_run_id fencing_token digest =
     [(''source'', PStr ''console''), (''audience'', PStr ''mcp-infra''), (''purpose'', PStr ''mcp.scheduled_effect''),
      (''tool'', PStr tool), (''schedule_run_id'', PInt schedule_run_id), (''fencing_token'', PInt fencing_token),
      (''tenant_id'', text_or_none (agent_tenant agent)), (''workspace_id'', text_or_none (agent_workspace agent)),
      (''agent_id'', PStr (agent_id agent)), (''agent_run_id'', run_value run_id), (''jti'', PStr (w_token w)),
      (''body_digest'', PStr digest)]"

lemma effect_built:
  assumes "scheduled_effect_authority w agent run_id tool args schedule_run_id fencing_token = Inr issued"
  obtains key msg digest_text where "signing_key w = Inr key" "canonical issued = Inr msg"
    "issued = pdict_of (effect_fields w agent run_id tool schedule_run_id fencing_token (w_sha256 w digest_text) @
       [(''_signed_at'', PInt (w_now w)), (''_signature_version'', PStr ''hmac-sha256-v2''),
        (''_signature'', PStr (w_hmac w key msg))])"
    "json_sorted False (PDict (pdict_of [(''tool'', PStr tool), (''args'', PDict args)])) = Inr digest_text"
proof -
  obtain digest_text where
    sign: "sign_context w ''hmac-sha256-v2''
      (pdict_of (effect_fields w agent run_id tool schedule_run_id fencing_token (w_sha256 w digest_text))) = Inr issued"
    and *: "json_sorted False (PDict (pdict_of [(''tool'', PStr tool), (''args'', PDict args)])) = Inr digest_text"
    using assms
    by (auto simp: scheduled_effect_authority_def rbind_Inr_iff effect_fields_def run_value_def simp del: json_sorted.simps
        dest!: sign_runtime_envelope_Inr)
  have "set (map fst (effect_fields w agent run_id tool schedule_run_id fencing_token (w_sha256 w digest_text))) \<inter>
      {''_signature'', ''_signed_at'', ''_signature_version''} = {}"
    by (simp add: effect_fields_def)
  from sign_context_pdict_of [OF sign this] show ?thesis using that * by metis
qed

definition stores_bigint :: "ledger \<Rightarrow> bool" where
  \<comment> \<open>an integer parameter is stored as it is, unless it is out of range\<close>
  "stores_bigint db \<longleftrightarrow> (\<forall>i. l_bigint db (PInt i) = (if - (2 ^ 63) \<le> i \<and> i < 2 ^ 63 then Some i else None))"

definition in_bigint :: "int \<Rightarrow> bool" where
  "in_bigint i \<longleftrightarrow> - (2 ^ 63) \<le> i \<and> i < 2 ^ 63"

lemma bind_bigint_PInt:
  "stores_bigint db \<Longrightarrow>
     bind_bigint db (PInt i) = (if in_bigint i then Inr (Some i) else Inl (DatabaseError ''DatatypeMismatch''))"
  by (simp add: bind_bigint_def stores_bigint_def in_bigint_def)

definition effect_recordable :: "ledger \<Rightarrow> agent \<Rightarrow> int option \<Rightarrow> int \<Rightarrow> int \<Rightarrow> bool" where
  "effect_recordable db agent run_id schedule_run_id fencing_token \<longleftrightarrow>
     known_scope db (setting (text_or_none (agent_tenant agent))) (setting (text_or_none (agent_workspace agent))) \<and>
     length (py_str (run_value run_id)) \<le> 250 \<and> in_bigint schedule_run_id \<and> in_bigint fencing_token"

definition effect_row :: "world \<Rightarrow> agent \<Rightarrow> int option \<Rightarrow> int \<Rightarrow> int \<Rightarrow> string \<Rightarrow> nonce" where
  "effect_row w agent run_id schedule_run_id fencing_token digest =
     \<lparr>n_tenant = Some (setting (text_or_none (agent_tenant agent))),
      n_workspace = Some (setting (text_or_none (agent_workspace agent))), n_run = py_str (run_value run_id),
      n_audience = ''mcp-infra'', n_purpose = ''mcp.scheduled_effect'', n_digest = digest, n_signed_at = w_now w,
      n_expires_at = w_now w + 300, n_dag = None, n_cartridge = None, n_schedule_run = Some schedule_run_id,
      n_fencing = Some fencing_token\<rparr>"

lemma run_value_text: "py_str (run_value run_id) \<noteq> []" "clean (py_str (run_value run_id))"
proof -
  have "py_str (run_value run_id) \<noteq> [] \<and> clean (py_str (run_value run_id))"
    using str_of_int_chars [of "the run_id"]
    by (cases run_id) (auto simp: run_value_def clean_def list_all_iff int_char_def is_ascii_digit_def)
  then show "py_str (run_value run_id) \<noteq> []" "clean (py_str (run_value run_id))" by simp_all
qed

lemma text_or_none_cases:
  obtains "text_or_none v = PNone" | s where "text_or_none v = PStr s" "s \<noteq> []"
  by (cases "strip (str_or v []) = []") (auto simp: text_or_none_def Let_def)

lemma consume_issued_effect:
  assumes get: "dget issued ''jti'' = PStr (w_token w)" "dget issued ''tenant_id'' = text_or_none (agent_tenant agent)"
      "dget issued ''workspace_id'' = text_or_none (agent_workspace agent)" "dget issued ''agent_run_id'' = run_value run_id"
      "dget issued ''body_digest'' = PStr digest" "dget issued ''schedule_run_id'' = PInt schedule_run_id"
      "dget issued ''fencing_token'' = PInt fencing_token"
    and db: "stores_text db" "stores_bigint db" "l_connects db (mcp_dsn w' settings)" and hex: "hex64 (w_token w)" "hex64 digest"
  shows "consume_effect w' settings db issued (w_now w) table =
    (if table (w_token w) = None \<and> effect_recordable db agent run_id schedule_run_id fencing_token
     then Inr (table(w_token w \<mapsto> effect_row w agent run_id schedule_run_id fencing_token digest))
     else Inl (ValueError ''scheduled effect replay rejected''))"
  using db hex hex64_clean [OF hex(1)] hex64_clean [OF hex(2)] run_value_text [of run_id]
  by (cases rule: text_or_none_cases [of "agent_tenant agent"]; cases rule: text_or_none_cases [of "agent_workspace agent"])
     (auto simp: consume_effect_def get Let_def rejected_rbind rejected_insert bind_text_PStr bind_bigint_PInt bind_uuid_def
      to_uuid_def db.defs setting_def insert_policy_def omega_rls_workspace_matches_def platform_row_def nonce_checks_def
      effect_recordable_def known_scope_def effect_row_def split: option.splits)

text \<open>
  C38: an authority that the console signs for an effect of a scheduled agent is accepted by the infrastructure
  service within its time window, once, for the tool and the arguments it was signed for, when the caller is
  that agent in that run; the nonce is recorded with the schedule run and its fencing token. The console itself
  then finds the same schedule run and token in it, and refuses identifiers that are not positive.
\<close>

theorem effect_authority_is_accepted:
  assumes built: "scheduled_effect_authority w agent run_id tool args schedule_run_id fencing_token = Inr issued"
    and digests: "\<forall>key msg. hex64 (w_hmac w key msg)" "hex64 (w_token w)" "\<forall>msg. hex64 (w_sha256 w msg)"
      "shares_keys w w'"
    and db: "stores_text db" "stores_bigint db" "l_connects db (mcp_dsn w' settings)"
    and caller: "dget ctx ''tenant_id'' = text_or_none (agent_tenant agent)"
      "dget ctx ''workspace_id'' = text_or_none (agent_workspace agent)" "dget ctx ''agent_id'' = PStr (agent_id agent)"
      "dget ctx ''agent_run_id'' = run_value run_id"
    and args: "\<not> dhas args ''effect_authority''"
  shows "(\<exists>digest. validate_scheduled_effect_authority w' settings db (PDict issued) tool
      (dset args ''effect_authority'' (PDict issued)) ctx table =
    (if w_now w' + 30 < w_now w \<or> 300 < w_now w' - w_now w then Inl (ValueError ''scheduled effect authority expired'')
     else if table (w_token w) = None \<and> effect_recordable db agent run_id schedule_run_id fencing_token
     then Inr (issued, table(w_token w \<mapsto> effect_row w agent run_id schedule_run_id fencing_token digest))
     else Inl (ValueError ''scheduled effect replay rejected''))) \<and>
    verified_effect_authority w' ctx (PDict issued) tool =
    (if schedule_run_id \<le> 0 \<or> fencing_token \<le> 0 then Inl (HTTPException 403 ''scheduled effect authority is invalid'')
     else if w_now w' + 30 < w_now w \<or> 300 < w_now w' - w_now w
     then Inl (HTTPException 403 ''scheduled effect authority is expired'')
     else Inr (pdict_of [(''schedule_run_id'', PInt schedule_run_id), (''fencing_token'', PInt fencing_token),
       (''agent_id'', PStr (agent_id agent))]))" (is "?mcp \<and> ?console")
proof -
  obtain key msg digest_text where key: "signing_key w = Inr key" and msg: "canonical issued = Inr msg"
    and issued: "issued = pdict_of (effect_fields w agent run_id tool schedule_run_id fencing_token (w_sha256 w digest_text) @
       [(''_signed_at'', PInt (w_now w)), (''_signature_version'', PStr ''hmac-sha256-v2''),
        (''_signature'', PStr (w_hmac w key msg))])"
    and digest: "json_sorted False (PDict (pdict_of [(''tool'', PStr tool), (''args'', PDict args)])) = Inr digest_text"
    using built by (rule effect_built) blast
  let ?digest = "w_sha256 w digest_text"
  have get: "dget issued ''jti'' = PStr (w_token w)" "dget issued ''tenant_id'' = text_or_none (agent_tenant agent)"
      "dget issued ''workspace_id'' = text_or_none (agent_workspace agent)" "dget issued ''agent_run_id'' = run_value run_id"
      "dget issued ''body_digest'' = PStr ?digest" "dget issued ''schedule_run_id'' = PInt schedule_run_id"
      "dget issued ''fencing_token'' = PInt fencing_token" "dget issued ''_signed_at'' = PInt (w_now w)"
      "dget issued ''_signature'' = PStr (w_hmac w key msg)"
    by (simp_all add: issued effect_fields_def)
  have keys: "same_keys issued EFFECT_FIELDS"
    by (simp only: issued, rule same_keys_map) (simp add: effect_fields_def EFFECT_FIELDS_def)
  have refl: "py_eq (text_or_none v) (text_or_none v)" "py_eq (run_value run_id) (run_value run_id)" for v
    by (cases rule: text_or_none_cases [of v]; simp) (simp add: run_value_def num_eq_def split: option.splits)
  have agree: "agrees issued (effect_fixed tool ctx)"
    using refl caller by (simp add: issued effect_fields_def agrees_def effect_fixed_def)
  have unsigned: "filter (\<lambda>kv. fst kv \<noteq> PStr ''effect_authority'') (dset args ''effect_authority'' (PDict issued)) = args"
    using args by (auto simp: dset_def filter_update_key filter_id_conv dhas_def map_of_eq_None_iff image_iff)
  have hex: "hex_digests w" "is_ascii (w_hmac w key msg)" "hex64 (w_hmac w key msg)" "hex64 ?digest"
    using digests(1,3) hex64_ascii by (auto simp: hex_digests_def)
  have world: "w_hmac w' = w_hmac w" "w_sha256 w' = w_sha256 w" "signing_key w' = Inr key"
    using signing_key_cong [of w' w] key digests(4) by (auto simp: shares_keys_def)
  have raw: "strip (getenv w' ''SECURITY_CONTEXT_SIGNING_KEY'') = key" "32 \<le> length key"
    using world(3) by (auto simp: signing_key_def MIN_KEY_LENGTH_def Let_def rbind_Inr_iff split: if_splits)
  note consume = consume_issued_effect [OF get(1-7) db digests(2) hex(4), of table]
  have ?mcp
    using keys agree digest get digests(2) world consume
      verify_issued [where key_of = "mcp_key ''scheduled effect signing key unavailable''",
        OF msg keys_of_signing_key(1) [OF world(3)] world(1) hex(1)]
    by (intro exI [of _ ?digest])
       (simp add: validate_scheduled_effect_authority_def unsigned int_or_def py_eq_PStr Let_def del: json_sorted.simps)
  moreover have ?console
    using keys agree get digests(2) world raw hex msg caller(3)
    by (simp add: verified_effect_authority_def route_int_def lift_def compare_digest_def effect_invalid_def Let_def)
  ultimately show ?thesis ..
qed

section \<open>Accepted contexts cannot be changed\<close>

lemma telemetry_accepted:
  assumes "validate_pipeline_run_authority w settings db (PDict received) request caller consume table = Inr (accepted, table')"
  obtains args key digest_text msg signed_at where "accepted = received" "dget request ''args'' = PDict args"
    "agrees received (telemetry_expected args)" "json_sorted False (PDict request) = Inr digest_text"
    "dget received ''body_digest'' = PStr (w_sha256 w digest_text)" "mcp_key ''telemetry signing key unavailable'' w = Inr key"
    "canonical received = Inr msg" "str_or (dget received ''_signature'') [] = w_hmac w key msg"
    "py_int (dget received ''_signed_at'') = Inr signed_at" "signed_at \<le> w_now w + 30" "w_now w \<le> signed_at + 300"
proof -
  have int: "int_or p v = Inr i \<longleftrightarrow> py_int v = Inr i" for p v i
    by (auto simp: int_or_def split: sum.splits pyexc.splits)
  show ?thesis
    using assms
    by (auto simp: validate_pipeline_run_authority_def verify_envelope_def compare_digest_def rbind_Inr_iff Let_def py_eq_PStr
        int not_less simp del: json_sorted.simps split: if_splits pv.splits prod.splits bool.splits intro!: that)
qed

lemma telemetry_json:
  "json_value (PDict (pdict_of (telemetry_fields w args digest @ [(''_signed_at'', PInt t), (''_signature_version'', PStr v),
     (''_signature'', PStr s)])))"
  by (simp add: telemetry_fields_def strs_def)

text \<open>
  C16: accepted telemetry speaks for the request it was signed for. When the infrastructure service accepts a
  context whose signature was issued for other arguments under the same key, then the request carries those
  arguments (up to the order of the items of a dictionary), the context agrees with the issued one in every
  field, names the run, the DAG, the scope and the cartridge of the request, and lies in the time window of the
  issued one.
\<close>

theorem telemetry_speaks_for_its_request:
  assumes built: "build_pipeline_run_context w args = Inr issued"
    and accepted: "validate_pipeline_run_authority w' settings db (PDict received) request caller consume table = Inr (out, table')"
    and same: "dget received ''_signature'' = dget issued ''_signature''" "shares_keys w w'"
    and hashes: "\<forall>key. inj (w_hmac w key)" "inj (w_sha256 w)" "hex_digests w"
    and json: "json_value (PDict args)" "json_value (PDict request)" "json_value (PDict received)"
  shows "sorted_value (PDict request) = sorted_value (PDict (telemetry_request args)) \<and>
    (\<forall>k. sorted_value (dget received k) = sorted_value (dget issued k)) \<and>
    (\<exists>args'. dget request ''args'' = PDict args' \<and> agrees received (telemetry_expected args')) \<and>
    w_now w \<le> w_now w' + 30 \<and> w_now w' \<le> w_now w + 300"
proof -
  obtain key msg digest_text where key: "signing_key w = Inr key" and msg: "canonical issued = Inr msg"
    and issued: "issued = pdict_of (telemetry_fields w args (w_sha256 w digest_text) @
       [(''_signed_at'', PInt (w_now w)), (''_signature_version'', PStr ''hmac-sha256-v2''),
        (''_signature'', PStr (w_hmac w key msg))])"
    and digest: "json_sorted False (PDict (telemetry_request args)) = Inr digest_text"
    using built by (rule telemetry_built) blast
  obtain args' key' digest_text' msg' signed_at where request: "dget request ''args'' = PDict args'"
      "agrees received (telemetry_expected args')" "json_sorted False (PDict request) = Inr digest_text'"
    and body: "dget received ''body_digest'' = PStr (w_sha256 w' digest_text')"
    and sig: "mcp_key ''telemetry signing key unavailable'' w' = Inr key'" "canonical received = Inr msg'"
      "str_or (dget received ''_signature'') [] = w_hmac w' key' msg'"
    and clock: "py_int (dget received ''_signed_at'') = Inr signed_at" "signed_at \<le> w_now w' + 30" "w_now w' \<le> signed_at + 300"
    using accepted by (rule telemetry_accepted) blast
  have worlds: "key' = key" "w_hmac w' = w_hmac w" "w_sha256 w' = w_sha256 w"
    using keys_of_signing_key(1) [of w' key] signing_key_cong [of w' w] key sig(1) same(2) by (auto simp: shares_keys_def)
  have signature: "dget issued ''_signature'' = PStr (w_hmac w key msg)" by (simp add: issued telemetry_fields_def)
  then have "w_hmac w key msg' = w_hmac w key msg"
    using sig(3) same(1) worlds hashes(3) by (simp add: hex_digests_def)
  then have "canonical received = canonical issued" using sig(2) msg hashes(1) by (metis injD)
  then have fields: "sorted_value (dget received k) = sorted_value (dget issued k)" for k
    using canonical_determines_fields [OF json(3)] telemetry_json same(1) issued by (cases "k = ''_signature''") simp_all
  have "sorted_value (dget received ''body_digest'') = PStr (w_sha256 w digest_text)"
      "sorted_value (dget received ''_signed_at'') = PInt (w_now w)"
    using fields by (simp_all add: issued telemetry_fields_def)
  then have "digest_text' = digest_text" "dget received ''_signed_at'' = PInt (w_now w)"
    using body worlds(3) hashes(2) by (simp add: inj_eq, cases "dget received ''_signed_at''") simp_all
  moreover have "json_value (PDict (telemetry_request args))" using json(1) by (simp add: telemetry_request_def)
  ultimately have "sorted_value (PDict request) = sorted_value (PDict (telemetry_request args))"
      "signed_at = w_now w"
    using json_sorted_inj [OF json(2), of _ False] request(3) digest clock(1) by (metis, simp)
  then show ?thesis using request(1,2) fields clock(2,3) by simp
qed

lemma spent_is_not_admitted:
  assumes "spends jti table table1" "nonce_step\<^sup>*\<^sup>* table1 table2" "py_str (dget admission ''jti'') = jti"
  shows "\<exists>e. validate_dataset_refresh_admission w db (PDict admission) conf run_id table2 = Inl e"
proof (rule ccontr)
  assume "\<nexists>e. validate_dataset_refresh_admission w db (PDict admission) conf run_id table2 = Inl e"
  then obtain tenant workspace table3 where
    *: "validate_dataset_refresh_admission w db (PDict admission) conf run_id table2 = Inr ((tenant, workspace), table3)"
    by (cases "validate_dataset_refresh_admission w db (PDict admission) conf run_id table2") auto
  obtain row where row: "table1 jti = Some row" "n_audience row \<noteq> ''airflow''"
    using assms(1) by (auto simp: spends_def)
  obtain t u digest signed_at expires_at where
    "admission_columns (table3 jti) =
       Some (admitted_row t u run_id (scope_field conf ''cartridge_id'') digest signed_at expires_at)"
    "nonce_step\<^sup>*\<^sup>* table2 table3"
    using * by (rule validate_Inr) (use assms(3) in blast)
  moreover from this(2) assms(2) have "nonce_step\<^sup>*\<^sup>* table1 table3" by simp
  then have "table3 jti = Some row" using row(1) by (rule nonces.entry_stable)
  ultimately show False using row(2) by (cases row) (simp add: admission_columns_def admitted_row_def)
qed

text \<open>
  C4: a nonce is spent once, whichever service sees it. After one of the three receivers accepted a context,
  and whatever nonces were recorded since, none of them accepts a context with that nonce, and no dataset
  refresh is admitted with it.
\<close>

theorem nonce_is_spent_once:
  assumes "stores_text db" "serve w settings db caller call table = Inr table1" "nonce_step\<^sup>*\<^sup>* table1 table2"
    and "l_text db (dget (call_context call) ''jti'') = Some jti"
  shows "(\<forall>w' settings' db' caller' call'.
      stores_text db' \<longrightarrow> l_text db' (dget (call_context call') ''jti'') = Some jti \<longrightarrow>
        (\<exists>e. serve w' settings' db' caller' call' table2 = Inl e)) \<and>
    (\<forall>w' db' admission conf run_id. py_str (dget admission ''jti'') = jti \<longrightarrow>
        (\<exists>e. validate_dataset_refresh_admission w' db' (PDict admission) conf run_id table2 = Inl e))"
proof -
  have spent: "spends jti table table1"
    using serve_spends [OF assms(1,2)] assms(4) by simp
  have "\<exists>e. serve w' settings' db' caller' call' table2 = Inl e"
    if "stores_text db'" "l_text db' (dget (call_context call') ''jti'') = Some jti" for w' settings' db' caller' call'
    using receivers.spent_is_refused [OF spent assms(3), of "(w', settings', db', caller', call')"] that
    by (cases "serve w' settings' db' caller' call' table2") auto
  then show ?thesis using spent_is_not_admitted [OF spent assms(3)] by blast
qed

section \<open>Witnesses\<close>

definition authority_world :: world where
  "authority_world = \<lparr>w_environ = [(''SECURITY_CONTEXT_SIGNING_KEY'', replicate 32 (CHR ''k'')), (''DATABASE_URL'', ''db'')],
    w_hmac = (\<lambda>key msg. replicate 64 (CHR ''b'')), w_sha256 = (\<lambda>msg. replicate 64 (CHR ''a'')),
    w_now = 1000, w_token = replicate 64 (CHR ''0'')\<rparr>"

definition settings_sample :: pg_settings where
  "settings_sample = \<lparr>pg_user = ''u'', pg_password = ''p'', pg_host = ''h'', pg_port = ''5432'', pg_db = ''d''\<rparr>"

definition ledger_sample :: ledger where
  "ledger_sample = \<lparr>db_clock = 1000000000, db_authorised = True, db_workspaces = [(''w'', ''t'')], db_uuid = Some,
    l_connects = (\<lambda>dsn. True), l_tenants = [''t''],
    l_text = (\<lambda>v. case v of PStr s \<Rightarrow> if CHR 0x00 \<in> set s then None else Some s | _ \<Rightarrow> None),
    l_bigint = (\<lambda>v. case v of PInt i \<Rightarrow> if - (2 ^ 63) \<le> i \<and> i < 2 ^ 63 then Some i else None | _ \<Rightarrow> None)\<rparr>"

definition telemetry_args :: pdict where
  "telemetry_args = pdict_of [(''run_id'', PStr ''r''), (''dag_id'', PStr ''d''), (''cartridge_id'', PStr ''crm''),
     (''entity'', PStr ''e''), (''status'', PStr ''success''), (''tenant_id'', PStr ''t''), (''workspace_id'', PStr ''w'')]"

definition or_empty_dict :: "pdict pyres \<Rightarrow> pdict" where
  "or_empty_dict m = (case m of Inr d \<Rightarrow> d | Inl _ \<Rightarrow> [])"

lemma or_empty_dict: "\<not> isl m \<Longrightarrow> m = Inr (or_empty_dict m)"
  by (cases m) (simp_all add: or_empty_dict_def)

definition telemetry_sample :: pdict where
  "telemetry_sample = or_empty_dict (build_pipeline_run_context authority_world telemetry_args)"

lemma telemetry_sample: "build_pipeline_run_context authority_world telemetry_args = Inr telemetry_sample"
  unfolding telemetry_sample_def by (rule or_empty_dict) code_simp

lemma authority_ready:
  "hex64 (w_token authority_world)" "\<forall>msg. hex64 (w_sha256 authority_world msg)"
  "\<forall>key msg. hex64 (w_hmac authority_world key msg)" "hex_digests authority_world"
  "shares_keys authority_world authority_world" "stores_text ledger_sample" "stores_bigint ledger_sample"
  "l_connects ledger_sample dsn" "getenv authority_world ''DATABASE_URL'' \<noteq> []"
proof -
  have "hex64 (replicate 64 (CHR ''a''))" "hex64 (replicate 64 (CHR ''b''))" "hex64 (replicate 64 (CHR ''0''))"
    by code_simp+
  then show "hex64 (w_token authority_world)" "\<forall>msg. hex64 (w_sha256 authority_world msg)"
      "\<forall>key msg. hex64 (w_hmac authority_world key msg)"
    by (simp_all add: authority_world_def)
  then show "hex_digests authority_world" using hex64_ascii by (simp add: hex_digests_def)
qed (simp_all add: shares_keys_def stores_text_def stores_bigint_def ledger_sample_def authority_world_def getenv_def)

theorem telemetry_context_is_accepted_witness:
  "\<exists>digest. validate_pipeline_run_authority authority_world settings_sample ledger_sample (PDict telemetry_sample)
      (telemetry_request telemetry_args) ''airflow'' True Map.empty =
    Inr (telemetry_sample, [replicate 64 (CHR ''0'') \<mapsto> telemetry_row authority_world telemetry_args digest])"
proof -
  have "telemetry_recordable ledger_sample telemetry_args" by code_simp
  then show ?thesis
    using telemetry_context_is_accepted [OF telemetry_sample authority_ready(4,1,2,5,6,8), of settings_sample Map.empty]
    by (simp add: authority_world_def)
qed

definition materialize_sample :: pdict where
  "materialize_sample = or_empty_dict
     (build_materialize_context authority_world (PStr ''t'') (PStr ''w'') (PStr ''crm'') (PStr ''sales'') (PStr ''r''))"

lemma materialize_sample:
  "build_materialize_context authority_world (PStr ''t'') (PStr ''w'') (PStr ''crm'') (PStr ''sales'') (PStr ''r'') =
   Inr materialize_sample"
  unfolding materialize_sample_def by (rule or_empty_dict) code_simp

theorem materialize_context_is_accepted_witness:
  "\<exists>digest. validate_runtime_context authority_world ledger_sample materialize_sample
      (materialize_request ''sales'' materialize_sample) ''airflow'' True Map.empty =
    Inr [replicate 64 (CHR ''0'') \<mapsto> materialize_row authority_world ''t'' ''w'' ''r'' digest]"
proof -
  have texts: "strip (str_or (PStr ''t'') []) = ''t''" "strip (str_or (PStr ''w'') []) = ''w''"
      "strip (str_or (PStr ''sales'') []) = ''sales''" "strip (str_or (PStr ''r'') []) = ''r''"
    by code_simp+
  have "known_scope ledger_sample ''t'' ''w''" "clean ''r''" by code_simp+
  then show ?thesis
    using materialize_context_is_accepted [OF materialize_sample authority_ready(4,1,2,5,6,9,8) texts, of Map.empty]
    by (simp add: authority_world_def)
qed

definition agent_sample :: agent where
  "agent_sample = \<lparr>agent_id = ''monitor'', agent_tenant = PStr ''t'', agent_workspace = PStr ''w''\<rparr>"

definition effect_args :: pdict where
  "effect_args = pdict_of [(''title'', PStr ''late'')]"

definition effect_caller :: pdict where
  "effect_caller = pdict_of [(''tenant_id'', PStr ''t''), (''workspace_id'', PStr ''w''), (''agent_id'', PStr ''monitor''),
     (''agent_run_id'', PInt 7)]"

definition effect_sample :: pdict where
  "effect_sample = or_empty_dict
     (scheduled_effect_authority authority_world agent_sample (Some 7) ''control_room__alert'' effect_args 3 5)"

lemma effect_sample:
  "scheduled_effect_authority authority_world agent_sample (Some 7) ''control_room__alert'' effect_args 3 5 = Inr effect_sample"
  unfolding effect_sample_def by (rule or_empty_dict) code_simp

theorem effect_authority_is_accepted_witness:
  "(\<exists>digest. validate_scheduled_effect_authority authority_world settings_sample ledger_sample (PDict effect_sample)
      ''control_room__alert'' (dset effect_args ''effect_authority'' (PDict effect_sample)) effect_caller Map.empty =
    Inr (effect_sample, [replicate 64 (CHR ''0'') \<mapsto> effect_row authority_world agent_sample (Some 7) 3 5 digest])) \<and>
    verified_effect_authority authority_world effect_caller (PDict effect_sample) ''control_room__alert'' =
    Inr (pdict_of [(''schedule_run_id'', PInt 3), (''fencing_token'', PInt 5), (''agent_id'', PStr ''monitor'')])"
proof -
  have caller: "dget effect_caller ''tenant_id'' = text_or_none (agent_tenant agent_sample)"
      "dget effect_caller ''workspace_id'' = text_or_none (agent_workspace agent_sample)"
      "dget effect_caller ''agent_id'' = PStr (agent_id agent_sample)"
      "dget effect_caller ''agent_run_id'' = run_value (Some 7)" "\<not> dhas effect_args ''effect_authority''"
    by code_simp+
  have "effect_recordable ledger_sample agent_sample (Some 7) 3 5" "agent_id agent_sample = ''monitor''" by code_simp+
  then show ?thesis
    using effect_authority_is_accepted [OF effect_sample authority_ready(3,1,2,5,6,7,8) caller, of settings_sample Map.empty]
    by (simp add: authority_world_def)
qed

lemma telemetry_builds:
  assumes args: "json_value (PDict args)"
      "list_all (\<lambda>k. dhas args k \<and> field_text args k \<noteq> []) [''run_id'', ''dag_id'', ''cartridge_id'', ''entity'', ''status'']"
      "field_text args ''tenant_id'' \<noteq> []" "field_text args ''workspace_id'' \<noteq> []"
    and key: "signing_key w = Inr key"
  shows "\<exists>issued. build_pipeline_run_context w args = Inr issued"
proof -
  have "json_value (PDict (pdict_of [(''args'', PDict args), (''tool'', PStr ''pipeline_run_save'')]))"
    using args(1) by simp
  from json_sorted_text(1) [OF this, of False] obtain digest_text where
    digest: "json_sorted False (PDict (pdict_of [(''args'', PDict args), (''tool'', PStr ''pipeline_run_save'')])) = Inr digest_text"
    by blast
  have "\<exists>issued. sign_context w MATERIALIZE_SIGNATURE_VERSION (pdict_of (telemetry_fields w args d)) = Inr issued" for d
    by (rule sign_context_total [OF _ key]) (simp add: telemetry_fields_def strs_def)
  then show ?thesis
    using args(2-4) digest unfolding build_pipeline_run_context_def
    by (simp add: required_def blank_def field_text_def telemetry_fields_def Let_def del: json_sorted.simps pdict_of_simps)
qed

definition injective_world :: world where
  "injective_world = sample_world\<lparr>w_token := replicate 64 (CHR ''0'')\<rparr>"

lemma injective_world:
  "\<forall>key. inj (w_hmac injective_world key)" "inj (w_sha256 injective_world)" "hex_digests injective_world"
  "hex64 (w_token injective_world)" "shares_keys injective_world injective_world"
proof -
  have "hex64 (replicate 64 (CHR ''0''))" by code_simp
  then show "hex64 (w_token injective_world)" by (simp add: injective_world_def)
  show "inj (w_sha256 injective_world)"
    using json_quote_inj [of True _ "[]" _ "[]"] by (simp add: injective_world_def sample_world_def inj_def)
qed (use sample_digests in \<open>simp_all add: injective_world_def hex_digests_def shares_keys_def\<close>)

theorem telemetry_speaks_for_its_request_witness:
  "\<exists>issued. validate_pipeline_run_authority injective_world settings_sample ledger_sample (PDict issued)
      (telemetry_request telemetry_args) ''airflow'' False Map.empty = Inr (issued, Map.empty) \<and>
    (\<exists>args'. dget (telemetry_request telemetry_args) ''args'' = PDict args' \<and> agrees issued (telemetry_expected args'))"
proof -
  have json: "json_value (PDict telemetry_args)" "json_value (PDict (telemetry_request telemetry_args))" by code_simp+
  have "list_all (\<lambda>k. dhas telemetry_args k \<and> field_text telemetry_args k \<noteq> [])
      [''run_id'', ''dag_id'', ''cartridge_id'', ''entity'', ''status'']" "field_text telemetry_args ''tenant_id'' \<noteq> []"
      "field_text telemetry_args ''workspace_id'' \<noteq> []" "signing_key injective_world = Inr ''0123456789abcdef0123456789abcdef''"
    by code_simp+
  from telemetry_builds [OF json(1) this]
  obtain issued where built: "build_pipeline_run_context injective_world telemetry_args = Inr issued" by blast
  have accepted: "validate_pipeline_run_authority injective_world settings_sample ledger_sample (PDict issued)
      (telemetry_request telemetry_args) ''airflow'' False Map.empty = Inr (issued, Map.empty)"
    by (simp add: check_issued_telemetry [OF built injective_world(3,4,5)])
  have "json_value (PDict issued)" by (rule telemetry_built [OF built]) (simp only: telemetry_json)
  from telemetry_speaks_for_its_request [OF built accepted refl injective_world(5,1,2,3) json this] accepted
  show ?thesis by blast
qed

definition materialize_call :: service_call where
  "materialize_call = Materialize materialize_sample (materialize_request ''sales'' materialize_sample)"

lemma sample_nonces:
  "l_text ledger_sample (dget telemetry_sample ''jti'') = Some (replicate 64 (CHR ''0''))"
  "l_text ledger_sample (dget materialize_sample ''jti'') = Some (replicate 64 (CHR ''0''))"
proof -
  obtain d1 s1 where issued1: "telemetry_sample = pdict_of (telemetry_fields authority_world telemetry_args d1 @ s1)"
    by (rule telemetry_built [OF telemetry_sample]) blast
  have jti1: "dget telemetry_sample ''jti'' = PStr (w_token authority_world)" by (simp add: issued1 telemetry_fields_def)
  obtain t u c d r d2 s2 where issued2: "materialize_sample = pdict_of (materialize_fields authority_world t u c d r d2 @ s2)"
    by (rule materialize_built [OF materialize_sample]) blast
  have jti2: "dget materialize_sample ''jti'' = PStr (w_token authority_world)" by (simp add: issued2 materialize_fields_def)
  show "l_text ledger_sample (dget telemetry_sample ''jti'') = Some (replicate 64 (CHR ''0''))"
    "l_text ledger_sample (dget materialize_sample ''jti'') = Some (replicate 64 (CHR ''0''))"
    by (simp_all add: jti1 jti2 authority_world_def ledger_sample_def)
qed

theorem nonce_is_spent_once_witness:
  "\<exists>table1 e. serve authority_world settings_sample ledger_sample ''airflow''
       (Telemetry telemetry_sample (telemetry_request telemetry_args)) Map.empty = Inr table1 \<and>
     serve authority_world settings_sample ledger_sample ''airflow'' materialize_call table1 = Inl e"
proof -
  have "telemetry_recordable ledger_sample telemetry_args" by code_simp
  then obtain table1 where served: "serve authority_world settings_sample ledger_sample ''airflow''
      (Telemetry telemetry_sample (telemetry_request telemetry_args)) Map.empty = Inr table1"
    using issued_telemetry [OF telemetry_sample authority_ready(4,1,2,5,6,8), of settings_sample Map.empty]
    by (auto simp: authority_world_def)
  have "l_text ledger_sample (dget (call_context materialize_call) ''jti'') = Some (replicate 64 (CHR ''0''))"
    using sample_nonces(2) by (simp add: materialize_call_def)
  with nonce_is_spent_once [OF authority_ready(6) served rtranclp.rtrancl_refl, of "replicate 64 (CHR ''0'')"]
    sample_nonces(1) authority_ready(6) served
  show ?thesis unfolding call_context.simps by blast
qed

end
