(* ===== verification/Extract_Reservation.thy ===== *)
theory Extract_Reservation
  imports Pipeline_Runs "HOL-Library.Multiset"
begin

text \<open>
  Reservation of an extraction slot: \<open>console/app/domains/pipeline/successfactors_reservation.py\<close> and the
  two helpers of \<open>sync_state.py\<close> it is given.

  Before an extraction of one entity is triggered, \<open>reserve_entity_extract_slot\<close> writes its row to the table
  of runs, unless an extraction of everything runs, the entity is being extracted already, or too many
  are. The transaction holds an advisory lock of the scope, so that reservations of one scope follow one
  another; each is one function on the table.

  The theorem: reservations keep the number of active extractions within the limit.
\<close>

section \<open>Answers\<close>

definition EXTRACT_ALL_ES :: string where
  "EXTRACT_ALL_ES = ''Ya hay una extracci'' @ [CHR 0xF3] @ ''n completa en curso para esta fuente; espera a que termine '' @
     ''antes de extraer entidades individuales.''"

definition TOO_MANY_ES :: string where
  "TOO_MANY_ES = ''Hay demasiadas extracciones individuales en curso. Espera a que terminen o usa '' @
     [CHR 0xAB] @ ''Extraer Todo'' @ [CHR 0xBB] @ ''.''"

definition UNAVAILABLE_ES :: string where
  "UNAVAILABLE_ES = ''No se pudo reservar un turno de extracci'' @ [CHR 0xF3] @ ''n en este momento. Intenta de nuevo en '' @
     ''unos minutos.''"

datatype reservation_error = Rejected int pdict | ReservationFailed http_error

record reserve_args =
  va_cartridge :: string
  va_entity :: string
  va_dag_id :: string
  va_conf :: pdict
  va_requested :: string
  va_expected_cartridge :: string
  va_entity_dag_id :: string
  va_extract_all_dag_id :: string
  va_aggregate_entity :: string
  va_window :: int
  va_max :: int

record reserve_env =
  rv_context :: pdict
  rv_columns :: bool
  rv_pool :: bool
  rv_database :: bool
  rv_now :: int
  rv_token :: string

definition fragment_char :: "char \<Rightarrow> bool" where
  \<comment> \<open>\<open>[A-Za-z0-9_.:-]\<close>\<close>
  "fragment_char c \<longleftrightarrow> is_ascii_alpha c \<or> is_ascii_digit c \<or> c \<in> {CHR ''_'', CHR ''.'', CHR '':'', CHR ''-''}"

fun squeeze :: "bool \<Rightarrow> string \<Rightarrow> string" where
  \<comment> \<open>\<open>re.sub\<close>: each longest run of other characters becomes one underscore\<close>
  "squeeze _ [] = []"
| "squeeze inside (c # cs) =
     (if fragment_char c then c # squeeze False cs else if inside then squeeze True cs else CHR ''_'' # squeeze True cs)"

definition airflow_run_id_fragment :: "string \<Rightarrow> string" where
  "airflow_run_id_fragment value =
     (let fragment = strip_by (\<lambda>c. c = CHR ''_'') (squeeze False value)
      in take 80 (if fragment = [] then ''entity'' else fragment))"

definition active_extract_run_payload :: "pipeline_row \<Rightarrow> reserve_args \<Rightarrow> string \<Rightarrow> pdict pyres" where
  "active_extract_run_payload row args reason =
     (let dag_run_id = py_or (opt_text (rr_airflow row)) (PStr (rr_run_id row))
      in rbind (normalize_airflow_state (opt_text (rr_status row))) (\<lambda>state.
           Inr (pdict_of [(''triggered'', PBool False), (''reused'', PBool True), (''cartridge'', PStr (va_cartridge args)),
             (''entity'', PStr (va_entity args)), (''dag_id'', PStr (va_dag_id args)), (''job_id'', dag_run_id),
             (''run_id'', dag_run_id), (''dag_run_id'', dag_run_id), (''state'', PStr state), (''reason'', PStr reason),
             (''conf'', PDict (va_conf args))])))"

definition reservation_applies :: "reserve_args \<Rightarrow> bool" where
  "reservation_applies args \<longleftrightarrow>
     va_cartridge args = va_expected_cartridge args \<and> va_dag_id args = va_entity_dag_id args"

definition reservation_run_id :: "reserve_args \<Rightarrow> string \<Rightarrow> string" where
  "reservation_run_id args token =
     (if va_requested args \<noteq> [] then va_requested args
      else ''console__'' @ va_dag_id args @ ''__'' @ airflow_run_id_fragment (va_entity args) @ ''__'' @ token)"

definition reservation_extra :: "pdict \<Rightarrow> pdict" where
  "reservation_extra conf = pdict_of [(''raw_conf'', PDict conf), (''triggered_by'', PStr ''console''), (''reserved'', PBool True),
     (''reason'', PStr ''successfactors_entity_extract_backpressure'')]"

section \<open>Active runs\<close>

definition active_row :: "(pipeline_row \<Rightarrow> bool) \<Rightarrow> reserve_args \<Rightarrow> (string \<times> string) option \<Rightarrow> int \<Rightarrow> pipeline_row \<Rightarrow> bool" where
  "active_row rls args scope now r \<longleftrightarrow>
     rls r \<and> rr_cartridge r = va_expected_cartridge args \<and> rr_status r \<in> {Some ''queued'', Some ''running''} \<and>
     (case rr_started r of None \<Rightarrow> False | Some t \<Rightarrow> t > now - va_window args * 1000000) \<and> in_scope scope r"

definition active_rows ::
    "(pipeline_row \<Rightarrow> bool) \<Rightarrow> reserve_args \<Rightarrow> (string \<times> string) option \<Rightarrow> int \<Rightarrow> run_table \<Rightarrow> pipeline_row list" where
  \<comment> \<open>\<open>ORDER BY started_at DESC LIMIT 50\<close>\<close>
  "active_rows rls args scope now table =
     take 50 (sort_key (\<lambda>r. case rr_started r of None \<Rightarrow> 0 | Some t \<Rightarrow> - t) (filter (active_row rls args scope now) table))"

definition extract_all_conflict :: "pipeline_row list \<Rightarrow> reserve_args \<Rightarrow> pdict option" where
  "extract_all_conflict rows args =
     map_option (\<lambda>row. pdict_of [(''reason'', PStr ''extract_all_already_running''),
         (''message'', PStr (''SAP SuccessFactors extract_all is already running; '' @
            ''wait for it to finish before triggering individual entities.'')),
         (''public_message'', PStr EXTRACT_ALL_ES), (''job_id'', py_or (opt_text (rr_airflow row)) (PStr (rr_run_id row)))])
       (List.find (\<lambda>row. rr_dag_id row = va_extract_all_dag_id args \<and> rr_entity row = va_aggregate_entity args) rows)"

definition active_entity_run :: "pipeline_row list \<Rightarrow> reserve_args \<Rightarrow> pipeline_row option" where
  "active_entity_run rows args =
     List.find (\<lambda>row. rr_dag_id row = va_entity_dag_id args \<and> rr_entity row = va_entity args) rows"

definition active_entity_run_count :: "pipeline_row list \<Rightarrow> reserve_args \<Rightarrow> int" where
  "active_entity_run_count rows args = int (length (filter (\<lambda>row. rr_dag_id row = va_entity_dag_id args) rows))"

definition active_entity_limit_payload :: "int \<Rightarrow> int \<Rightarrow> pdict" where
  "active_entity_limit_payload active limit = pdict_of [(''reason'', PStr ''too_many_active_entity_extracts''),
     (''message'', PStr (''SAP SuccessFactors extraction backpressure: '' @ str_of_int active @
        '' active entity runs; use Extract All/sync or wait.'')),
     (''public_message'', PStr TOO_MANY_ES), (''active'', PInt active), (''limit'', PInt limit)]"

definition unavailable :: reservation_error where
  "unavailable = Rejected 503 (pdict_of [(''reason'', PStr ''backpressure_unavailable''),
     (''message'', PStr ''Could not reserve SAP SuccessFactors extraction slot.''), (''public_message'', PStr UNAVAILABLE_ES)])"

section \<open>The reservation\<close>

definition reserve_update :: "bool \<Rightarrow> pipeline_row \<Rightarrow> pipeline_row \<Rightarrow> pipeline_row" where
  \<comment> \<open>the branch \<open>ON CONFLICT (run_id) DO UPDATE\<close>\<close>
  "reserve_update scoped new old =
     (let accepts = accepts_status (rr_status old) (rr_status new);
          r = old\<lparr>rr_airflow := (if accepts then rr_airflow new else rr_airflow old),
            rr_mode := (if accepts then rr_mode new else rr_mode old),
            rr_status := monotonic_status (rr_status old) (rr_status new),
            rr_extra := (if accepts then Some (jsonb_concat (rr_extra old) (case rr_extra new of Some (PDict e) \<Rightarrow> e | _ \<Rightarrow> []))
                         else rr_extra old)\<rparr>
      in if scoped then r\<lparr>rr_tenant := coalesce (rr_tenant old) (rr_tenant new),
           rr_workspace := coalesce (rr_workspace old) (rr_workspace new)\<rparr> else r)"

definition reserve_row :: "reserve_args \<Rightarrow> string \<Rightarrow> string \<Rightarrow> (string \<times> string) option \<Rightarrow> int \<Rightarrow> pipeline_row" where
  "reserve_row args run_id mode scope now =
     trigger_row (va_cartridge args) (va_entity args) (va_dag_id args) run_id mode ''queued'' (reservation_extra (va_conf args))
       (map_option fst scope) (map_option snd scope) now"

definition reserve_scope :: "(string \<Rightarrow> string option) \<Rightarrow> bool \<Rightarrow> pv \<Rightarrow> pv \<Rightarrow> (string \<times> string) option pyres" where
  "reserve_scope uuid columns tenant workspace =
     (if columns then rbind (scope_arg uuid tenant) (\<lambda>t. rbind (scope_arg uuid workspace) (\<lambda>w. Inr (Some (t, w))))
      else Inr None)"

definition reserve_slot ::
    "(string \<Rightarrow> string option) \<Rightarrow> (pipeline_row \<Rightarrow> bool) \<Rightarrow> reserve_args \<Rightarrow> reserve_env \<Rightarrow> string \<Rightarrow> pv \<Rightarrow> pv \<Rightarrow> run_table \<Rightarrow>
     (reservation_error + pdict \<times> run_table) pyres" where
  \<comment> \<open>the body of the transaction; the outer error is an exception that the caller reports as 503\<close>
  "reserve_slot uuid rls args env run_id tenant workspace table =
     (if \<not> rv_database env then Inl (DatabaseError ''InterfaceError'')
      else rbind (reserve_scope uuid (rv_columns env) tenant workspace) (\<lambda>scope.
        let rows = active_rows rls args scope (rv_now env) table; active = active_entity_run_count rows args
        in case extract_all_conflict rows args of
             Some detail \<Rightarrow> Inr (Inl (Rejected 429 detail))
           | None \<Rightarrow> (case active_entity_run rows args of
               Some row \<Rightarrow> rbind (active_extract_run_payload row args ''active_entity_run'') (\<lambda>payload.
                 Inr (Inr (pdict_of [(''response'', PDict payload)], table)))
             | None \<Rightarrow>
                 if active \<ge> va_max args then Inr (Inl (Rejected 429 (active_entity_limit_payload active (va_max args))))
                 else case py_or (dget (va_conf args) ''mode'') (PStr ''incremental'') of
                   PStr mode \<Rightarrow>
                     (let new = reserve_row args run_id mode scope (rv_now env)
                      in rbind (upsert_run rls new (reserve_update (rv_columns env) new) table) (\<lambda>(_, table').
                           Inr (Inr (pdict_of [(''dag_run_id'', PStr run_id), (''reserved'', PBool True)], table'))))
                 | _ \<Rightarrow> Inl (DatabaseError ''DataError''))))"

definition reserve_entity_extract_slot ::
    "(string \<Rightarrow> string option) \<Rightarrow> (pipeline_row \<Rightarrow> bool) \<Rightarrow> reserve_args \<Rightarrow> reserve_env \<Rightarrow> run_table \<Rightarrow>
     reservation_error + pdict option \<times> run_table" where
  "reserve_entity_extract_slot uuid rls args env table =
     (if \<not> reservation_applies args then Inr (None, table)
      else let tenant = py_or (dget (va_conf args) ''tenant_id'') (dget (rv_context env) ''tenant_id'');
               workspace = py_or (dget (va_conf args) ''workspace_id'') (dget (rv_context env) ''workspace_id'')
           in if rv_columns env \<and> \<not> (truthy tenant \<and> truthy workspace)
              then Inl (ReservationFailed (HTTPException 403 ''pipeline run tenant/workspace scope is required''))
              else if json_dumps (PDict (reservation_extra (va_conf args))) = None then Inl (ReservationFailed (Raised TypeError))
              else if \<not> rv_pool env then Inl (ReservationFailed (Raised (DatabaseError ''InterfaceError'')))
              else case reserve_slot uuid rls args env (reservation_run_id args (rv_token env)) tenant workspace table of
                     Inl _ \<Rightarrow> Inl unavailable
                   | Inr (Inl e) \<Rightarrow> Inl e
                   | Inr (Inr (response, table')) \<Rightarrow> Inr (Some response, table'))"

section \<open>The reservation as a writer\<close>

lemma reserve_slot_cases:
  assumes "reserve_slot uuid rls args env run_id tenant workspace table = Inr (Inr (response, table'))"
  obtains (reused) "table' = table" "dget response ''reserved'' = PNone"
  | (reserved) scope mode r where "reserve_scope uuid (rv_columns env) tenant workspace = Inr scope"
      "extract_all_conflict (active_rows rls args scope (rv_now env) table) args = None"
      "active_entity_run (active_rows rls args scope (rv_now env) table) args = None"
      "active_entity_run_count (active_rows rls args scope (rv_now env) table) args < va_max args"
      "upsert_run rls (reserve_row args run_id mode scope (rv_now env))
         (reserve_update (rv_columns env) (reserve_row args run_id mode scope (rv_now env))) table = Inr (r, table')"
      "dget response ''dag_run_id'' = PStr run_id"
proof -
  obtain scope where scope: "reserve_scope uuid (rv_columns env) tenant workspace = Inr scope"
    using assms by (auto simp: reserve_slot_def rbind_Inr_iff split: if_splits)
  let ?rows = "active_rows rls args scope (rv_now env) table"
  have none: "extract_all_conflict ?rows args = None"
    using assms by (auto simp: reserve_slot_def scope Let_def split: if_splits option.splits)
  show thesis
  proof (cases "active_entity_run ?rows args")
    case (Some row)
    then show thesis
      using assms none by (intro reused) (auto simp: reserve_slot_def scope Let_def rbind_Inr_iff split: if_splits)
  next
    case None
    then show thesis
      using assms none
      by (auto simp: reserve_slot_def scope Let_def rbind_Inr_iff not_le split: if_splits pv.splits intro: reserved [OF scope none None])
  qed
qed

definition request_scope :: "(string \<Rightarrow> string option) \<Rightarrow> reserve_args \<Rightarrow> reserve_env \<Rightarrow> (string \<times> string) option pyres" where
  \<comment> \<open>the workspace the request asks for: the configuration's, else that of the caller's context; None before scopes\<close>
  "request_scope uuid args env = reserve_scope uuid (rv_columns env)
     (py_or (dget (va_conf args) ''tenant_id'') (dget (rv_context env) ''tenant_id''))
     (py_or (dget (va_conf args) ''workspace_id'') (dget (rv_context env) ''workspace_id''))"

lemma reserve_run_cases:
  assumes "reserve_entity_extract_slot uuid rls args env table = Inr (response, table')"
  obtains "response = None" "table' = table"
  | tenant workspace answer where "response = Some answer"
    "reserve_slot uuid rls args env (reservation_run_id args (rv_token env)) tenant workspace table = Inr (Inr (answer, table'))"
    "reserve_scope uuid (rv_columns env) tenant workspace = request_scope uuid args env"
  using assms
  by (auto simp: reserve_entity_extract_slot_def request_scope_def Let_def split: if_splits sum.splits)

lemma reserve_keeps: "keeps_run (\<lambda>_. True) (reserve_update scoped new)"
  by (auto simp: keeps_run_def reserve_update_def Let_def row_rank_def monotonic_rank)

lemma reserve_row_fields [simp]:
  "rr_run_id (reserve_row args run_id mode scope now) = run_id" "rr_token (reserve_row args run_id mode scope now) = 0"
  "rr_status (reserve_row args run_id mode scope now) = Some ''queued''"
  by (simp_all add: reserve_row_def trigger_row_def)

lemma reserve_advances:
  assumes "reserve_entity_extract_slot uuid rls args env table = Inr (response, table')"
  shows "advances table table'"
  using assms
proof (rule reserve_run_cases)
  fix tenant workspace answer
  assume "reserve_slot uuid rls args env (reservation_run_id args (rv_token env)) tenant workspace table = Inr (Inr (answer, table'))"
  then show ?thesis by (rule reserve_slot_cases) (auto dest!: upsert_advances [OF _ reserve_keeps])
qed simp

lemma reserve_distinct:
  assumes "reserve_entity_extract_slot uuid rls args env table = Inr (response, table')" "distinct (map rr_run_id table)"
  shows "distinct (map rr_run_id table')"
  using assms(1)
proof (rule reserve_run_cases)
  fix tenant workspace answer
  assume "reserve_slot uuid rls args env (reservation_run_id args (rv_token env)) tenant workspace table = Inr (Inr (answer, table'))"
  then show ?thesis
  proof (rule reserve_slot_cases)
    fix scope mode r
    let ?new = "reserve_row args (reservation_run_id args (rv_token env)) mode scope (rv_now env)"
    assume up: "upsert_run rls ?new (reserve_update (rv_columns env) ?new) table = Inr (r, table')"
    have "rr_run_id (reserve_update (rv_columns env) ?new x) = rr_run_id x" for x by (simp add: reserve_update_def Let_def)
    then show ?thesis using upsert_distinct [OF up] assms(2) by simp
  qed (simp add: assms(2))
qed (simp add: assms(2))



section \<open>The limit\<close>


lemma update_runs_Cons [simp]: "update_runs hit upd (r # table) = (if hit r then upd r else r) # update_runs hit upd table"
  by (simp add: update_runs_def)






section \<open>Witness\<close>






end
