(* ===== verification/Run_Writers.thy ===== *)
theory Run_Writers
  imports Pipeline_Runs Refresh_Slots
begin

text \<open>
  The further writers of the table \<open>pipeline_runs\<close>: the rows of a synchronisation started in the console
  (\<open>_upsert_sync_run\<close> of \<open>console/app/main.py\<close>), the mirror of the SAP SuccessFactors cartridge's extraction runs
  (\<open>_mirror_pipeline_run\<close> of its \<open>runlog_service.py\<close>), the operator's reconciliation
  (\<open>scripts/reconcile_pipeline_runs.py\<close>), the renaming of an entity (\<open>rename_entity\<close> of \<open>cartridge_service.py\<close>)
  and the slots of the materialisations (\<open>airflow/dags/dataset_refresh_idempotency.py\<close>).

  The lemmas: the first four lower neither the status nor the fencing token of a row, and add no second row of
  a run; the slots may be reopened, and their writers touch no other row.
\<close>

section \<open>Synchronisations started in the console\<close>

definition SYNC_NOW_DAG_ID_sync :: string where "SYNC_NOW_DAG_ID_sync = ''sync_now''"
definition SYNC_NOW_ENTITY_sync :: string where "SYNC_NOW_ENTITY_sync = ''__sync_now__''"

definition SYNC_TERMINAL_STATUSES :: "string list" where
  "SYNC_TERMINAL_STATUSES = [''success'', ''partial'', ''failed'', ''blocked'', ''skipped'', ''skipped_explicit'']"

definition sync_row ::
    "string \<Rightarrow> string \<Rightarrow> string \<Rightarrow> string \<Rightarrow> bool \<Rightarrow> string option \<Rightarrow> pdict \<Rightarrow> string option \<Rightarrow> string option \<Rightarrow> int \<Rightarrow> pipeline_row" where
  "sync_row run_id cartridge mode st ended err extra tenant workspace now =
     \<lparr>rr_run_id = run_id, rr_dag_id = SYNC_NOW_DAG_ID_sync, rr_cartridge = cartridge, rr_entity = SYNC_NOW_ENTITY_sync,
      rr_airflow = Some run_id, rr_mode = Some mode, rr_status = Some st, rr_started = Some now,
      rr_finished = (if ended then Some now else None), rr_duration = PNone, rr_record_count = PNone,
      rr_bytes_written = PNone, rr_storage_uri = None, rr_watermark = None, rr_error = err, rr_extra = Some (PDict extra),
      rr_tenant = tenant, rr_workspace = workspace, rr_project = None, rr_token = 0, rr_lease = None\<rparr>"

definition sync_update :: "bool \<Rightarrow> pipeline_row \<Rightarrow> pipeline_row \<Rightarrow> pipeline_row" where
  "sync_update scoped new old =
     (let accepts = accepts_status (rr_status old) (rr_status new);
          r = old\<lparr>rr_status := monotonic_status (rr_status old) (rr_status new), rr_mode := rr_mode new,
            rr_finished := (if accepts then coalesce (rr_finished new) (rr_finished old) else rr_finished old),
            rr_error := (if accepts then rr_error new else rr_error old),
            rr_extra := (if accepts then Some (jsonb_concat (rr_extra old) (case rr_extra new of Some (PDict e) \<Rightarrow> e | _ \<Rightarrow> []))
                         else rr_extra old)\<rparr>
      in if scoped then r\<lparr>rr_tenant := coalesce (rr_tenant old) (rr_tenant new),
           rr_workspace := coalesce (rr_workspace old) (rr_workspace new)\<rparr> else r)"

definition sync_run_scope_values :: "pdict \<Rightarrow> string \<times> string" where
  \<comment> \<open>\<open>ctx\<close>: the caller's security context; an absent value is the empty text\<close>
  "sync_run_scope_values ctx = (strip (str_or (dget ctx ''tenant_id'') []), strip (str_or (dget ctx ''workspace_id'') []))"

definition sync_run_requires_scope :: "string \<Rightarrow> bool \<Rightarrow> string \<Rightarrow> string \<Rightarrow> bool" where
  "sync_run_requires_scope cartridge scope_columns_present tenant workspace \<longleftrightarrow>
     scope_columns_present \<and> cartridge \<noteq> ''platform'' \<and> \<not> (tenant \<noteq> [] \<and> workspace \<noteq> [])"

definition upsert_sync_run ::
    "(string \<Rightarrow> string option) \<Rightarrow> (pipeline_row \<Rightarrow> bool) \<Rightarrow> bool \<Rightarrow> int \<Rightarrow> pdict \<Rightarrow> string \<Rightarrow> string \<Rightarrow> string \<Rightarrow> string \<Rightarrow> pdict \<Rightarrow>
     string option \<Rightarrow> run_table \<Rightarrow> http_error + run_table" where
  "upsert_sync_run uuid rls scope_columns_present now ctx run_id cartridge mode st extra err table =
     (case sync_run_scope_values ctx of (tenant, workspace) \<Rightarrow>
        if sync_run_requires_scope cartridge scope_columns_present tenant workspace
        then Inl (HTTPException 403 ''sync run tenant/workspace scope is required'')
        else if json_dumps (PDict extra) = None then Inl (Raised TypeError)
        else let has_scope = tenant \<noteq> [] \<and> workspace \<noteq> [] \<and> scope_columns_present;
                 ended = st \<in> set SYNC_TERMINAL_STATUSES
             in rbind (if has_scope then lift (opt_uuid uuid tenant) else Inr None) (\<lambda>t.
                rbind (if has_scope then lift (opt_uuid uuid workspace) else Inr None) (\<lambda>w.
                let new = sync_row run_id cartridge mode st ended err extra t w now
                in rbind (lift (upsert_run rls new (sync_update has_scope new) table)) (\<lambda>(_, table'). Inr table'))))"

section \<open>The mirror of extraction runs\<close>

definition CARTRIDGE_DAG_ID :: string where "CARTRIDGE_DAG_ID = ''sap_successfactors_extract''"

record extraction_run =
  xr_cartridge :: string
  xr_entity :: string
  xr_run_type :: string
  xr_status :: "string option"
  xr_records :: pv
  xr_storage_uri :: "string option"
  xr_error :: "string option"
  xr_started :: "int option"
  xr_finished :: "int option"
  xr_tenant :: "string option"
  xr_workspace :: "string option"

record mirror_args =
  ma_status :: "string option"
  ma_records :: pv
  ma_storage_uri :: "string option"
  ma_error :: "string option"
  ma_finished :: "int option"

definition given :: "string option \<Rightarrow> bool" where
  "given x \<longleftrightarrow> x \<noteq> None \<and> x \<noteq> Some []"

definition pipeline_extra :: "string \<Rightarrow> string \<Rightarrow> string \<Rightarrow> string \<Rightarrow> pdict" where
  "pipeline_extra entity run_type st reason = pdict_of
     [(''source'', PStr ''extraction_runs_mirror''), (''functional_status'', PStr st),
      (''reason'', PStr (if reason = [] then st else reason)), (''entity'', PStr entity), (''mode'', PStr run_type)]"

definition mirror_row :: "extraction_run \<Rightarrow> mirror_args \<Rightarrow> string \<Rightarrow> string option \<Rightarrow> string option \<Rightarrow> pipeline_row" where
  "mirror_row src args run_id tenant workspace =
     (let final_status = (if given (ma_status args) then the (ma_status args)
                          else if given (xr_status src) then the (xr_status src) else ''running'');
          final_error = coalesce (ma_error args) (xr_error src)
      in \<lparr>rr_run_id = run_id, rr_dag_id = CARTRIDGE_DAG_ID, rr_cartridge = xr_cartridge src, rr_entity = xr_entity src,
          rr_airflow = None, rr_mode = Some (xr_run_type src), rr_status = Some final_status, rr_started = xr_started src,
          rr_finished = coalesce (ma_finished args) (xr_finished src), rr_duration = PNone,
          rr_record_count = coalesce_pv (ma_records args) (xr_records src), rr_bytes_written = PNone,
          rr_storage_uri = coalesce (ma_storage_uri args) (xr_storage_uri src), rr_watermark = None,
          rr_error = (if given final_error then map_option (take 4000) final_error else None),
          rr_extra = Some (PDict (pipeline_extra (xr_entity src) (xr_run_type src) final_status
            (if given final_error then ''error'' else final_status))),
          rr_tenant = tenant, rr_workspace = workspace, rr_project = None, rr_token = 0, rr_lease = None\<rparr>)"

definition mirror_update :: "pipeline_row \<Rightarrow> pipeline_row \<Rightarrow> pipeline_row" where
  "mirror_update new old =
     (let accepts = accepts_status (rr_status old) (rr_status new);
          r = old\<lparr>rr_dag_id := rr_dag_id new, rr_cartridge := rr_cartridge new, rr_entity := rr_entity new,
            rr_status := monotonic_status (rr_status old) (rr_status new),
            rr_tenant := coalesce (rr_tenant new) (rr_tenant old),
            rr_workspace := coalesce (rr_workspace new) (rr_workspace old)\<rparr>
      in if accepts
         then r\<lparr>rr_mode := rr_mode new, rr_started := coalesce (rr_started new) (rr_started old),
            rr_finished := coalesce (rr_finished new) (rr_finished old),
            rr_record_count := coalesce_pv (rr_record_count new) (rr_record_count old),
            rr_storage_uri := coalesce (rr_storage_uri new) (rr_storage_uri old),
            rr_error := coalesce (rr_error new) (rr_error old),
            rr_extra := Some (jsonb_concat (rr_extra old) (case rr_extra new of Some (PDict e) \<Rightarrow> e | _ \<Rightarrow> []))\<rparr>
         else r)"

definition mirror_uuid :: "(string \<Rightarrow> string option) \<Rightarrow> string option \<Rightarrow> string option pyres" where
  "mirror_uuid uuid x = (case x of None \<Rightarrow> Inr None | Some s \<Rightarrow> opt_uuid uuid s)"

definition mirror_pipeline_run ::
    "(string \<Rightarrow> string option) \<Rightarrow> (pipeline_row \<Rightarrow> bool) \<Rightarrow> extraction_run option \<Rightarrow> string \<Rightarrow> mirror_args \<Rightarrow> run_table \<Rightarrow> run_table" where
  \<comment> \<open>any failure is rolled back and logged\<close>
  "mirror_pipeline_run uuid rls source run_id args table =
     (case source of
        None \<Rightarrow> table
      | Some src \<Rightarrow>
          (case rbind (mirror_uuid uuid (xr_tenant src)) (\<lambda>t. rbind (mirror_uuid uuid (xr_workspace src)) (\<lambda>w.
             let new = mirror_row src args run_id t w in upsert_run rls new (mirror_update new) table)) of
             Inl _ \<Rightarrow> table
           | Inr (_, table') \<Rightarrow> table'))"

section \<open>The operator's reconciliation\<close>

text \<open>
  An entry of the manifest; \<open>allowed_transition\<close> is what \<open>_expectation_from_dict\<close> requires of its statuses.
\<close>

record run_expectation =
  ex_run_id :: string
  ex_tenant :: string
  ex_workspace :: string
  ex_status :: string
  ex_started :: "int option"
  ex_token :: int
  ex_target :: string
  ex_reason :: string
  ex_evidence :: pdict
  ex_fingerprint :: string

definition ALLOWED_TARGET_STATUSES :: "string list" where
  "ALLOWED_TARGET_STATUSES = [''partial'', ''blocked'', ''failed'']"

definition allowed_transition :: "run_expectation \<Rightarrow> bool" where
  "allowed_transition e \<longleftrightarrow>
     ex_status e \<in> set (map fst PIPELINE_STATUS_RANKS) \<and> ex_target e \<in> set ALLOWED_TARGET_STATUSES \<and>
     \<not> status_rank (ex_target e) \<le> status_rank (ex_status e) \<and>
     ex_reason e \<in> {''airflow_terminal_failure'', ''airflow_run_missing_after_retention'', ''stale_orphan'', ''aggregate_completed_with_blocks''} \<and>
     (ex_reason e \<in> {''airflow_terminal_failure'', ''airflow_run_missing_after_retention'', ''stale_orphan''} \<longrightarrow>
        ex_target e = ''failed'') \<and>
     (ex_reason e = ''aggregate_completed_with_blocks'' \<longrightarrow> ex_target e \<in> {''partial'', ''blocked''}) \<and> 0 \<le> ex_token e"

definition reconciliation_event :: "run_expectation \<Rightarrow> string \<Rightarrow> string \<Rightarrow> pdict" where
  "reconciliation_event e actor change_id = pdict_of
     [(''fingerprint'', PStr (ex_fingerprint e)), (''actor'', PStr actor), (''change_id'', PStr change_id),
      (''reason'', PStr (ex_reason e)), (''previous_status'', PStr (ex_status e)), (''target_status'', PStr (ex_target e)),
      (''expected_started_at'', case ex_started e of None \<Rightarrow> PNone | Some t \<Rightarrow> PStr (isoformat t (Some 0))),
      (''expected_fencing_token'', PInt (ex_token e)), (''evidence'', PDict (ex_evidence e))]"

definition row_extra :: "(string \<Rightarrow> pv option) \<Rightarrow> pipeline_row \<Rightarrow> pdict" where
  "row_extra json_loads r =
     (case rr_extra r of
        Some (PDict d) \<Rightarrow> d
      | Some (PStr s) \<Rightarrow> (case (if s = [] then None else json_loads s) of Some (PDict d) \<Rightarrow> d | _ \<Rightarrow> [])
      | _ \<Rightarrow> [])"

definition already_applied :: "(string \<Rightarrow> pv option) \<Rightarrow> pipeline_row \<Rightarrow> run_expectation \<Rightarrow> bool" where
  "already_applied json_loads r e \<longleftrightarrow>
     normalize_pipeline_status (opt_text (rr_status r)) = ex_target e \<and>
     (case dget (row_extra json_loads r) ''reconciliation'' of
        PList items \<Rightarrow> list_ex (\<lambda>item. case item of PDict d \<Rightarrow> dget d ''fingerprint'' = PStr (ex_fingerprint e) | _ \<Rightarrow> False) items
      | _ \<Rightarrow> False)"

definition verify_locked_row :: "(string \<Rightarrow> pv option) \<Rightarrow> pipeline_row option \<Rightarrow> run_expectation \<Rightarrow> bool pyres" where
  \<comment> \<open>true when it was applied already\<close>
  "verify_locked_row json_loads row e =
     (case row of
        None \<Rightarrow> Inl (RuntimeError (ex_run_id e @ '': missing; no row was inserted''))
      | Some r \<Rightarrow>
          if already_applied json_loads r e then Inr True
          else let live_status = normalize_pipeline_status (opt_text (rr_status r))
               in if live_status \<noteq> ex_status e
                  then Inl (RuntimeError (ex_run_id e @ '': status changed (expected '' @ ex_status e @ '', found '' @ live_status @ '')''))
                  else if rr_started r \<noteq> ex_started e then Inl (RuntimeError (ex_run_id e @ '': started_at changed''))
                  else if rr_token r \<noteq> ex_token e then Inl (RuntimeError (ex_run_id e @ '': fencing token changed''))
                  else Inr False)"

definition reconciliation_log :: "pv option \<Rightarrow> pv list" where
  \<comment> \<open>\<open>extra->'reconciliation'\<close> when it is an array, else the empty one\<close>
  "reconciliation_log extra =
     (case extra of Some (PDict d) \<Rightarrow> (case dget d ''reconciliation'' of PList xs \<Rightarrow> xs | _ \<Rightarrow> []) | _ \<Rightarrow> [])"

definition reconciled_row :: "run_expectation \<Rightarrow> pdict \<Rightarrow> int \<Rightarrow> string \<Rightarrow> pipeline_row \<Rightarrow> pipeline_row" where
  "reconciled_row e event now now_text r =
     r\<lparr>rr_status := Some (ex_target e), rr_finished := coalesce (rr_finished r) (Some now),
       rr_error := coalesce (rr_error r) (Some (ex_reason e)), rr_lease := None, rr_token := rr_token r + 1,
       rr_extra := Some (PDict (dset (case rr_extra r of Some (PDict d) \<Rightarrow> d | _ \<Rightarrow> []) ''reconciliation''
         (PList (reconciliation_log (rr_extra r) @ [PDict (dmerge event (pdict_of [(''applied_at'', PStr now_text)]))]))))\<rparr>"

record reconcile_env =
  rn_uuid :: "string \<Rightarrow> string option"
  rn_json_loads :: "string \<Rightarrow> pv option"
  rn_rls :: "pipeline_row \<Rightarrow> bool"
  rn_audit_table :: bool
  rn_now :: int
  rn_now_text :: string

definition apply_one :: "reconcile_env \<Rightarrow> string \<Rightarrow> string \<Rightarrow> run_table \<Rightarrow> run_expectation \<Rightarrow> run_table pyres" where
  \<comment> \<open>\<open>extra\<close> must be an object, where \<open>jsonb_set\<close> can set a key\<close>
  "apply_one env actor change_id table e =
     rbind (opt_uuid (rn_uuid env) (ex_tenant e)) (\<lambda>tenant. rbind (opt_uuid (rn_uuid env) (ex_workspace e)) (\<lambda>workspace.
       let seen = (\<lambda>r. rn_rls env r \<and> rr_run_id r = ex_run_id e \<and> rr_tenant r = tenant \<and> rr_workspace r = workspace);
           hit = (\<lambda>r. seen r \<and> sql_status_text (rr_status r) = ex_status e \<and> rr_started r = ex_started e \<and> rr_token r = ex_token e);
           upd = reconciled_row e (reconciliation_event e actor change_id) (rn_now env) (rn_now_text env)
       in rbind (verify_locked_row (rn_json_loads env) (List.find seen table) e) (\<lambda>done_before.
            if done_before then Inr table
            else case List.find hit table of
              None \<Rightarrow> Inl (RuntimeError (ex_run_id e @ '': CAS update lost its fence''))
            | Some r \<Rightarrow>
                if (case rr_extra r of None \<Rightarrow> False | Some (PDict _) \<Rightarrow> False | _ \<Rightarrow> True) then Inl (DatabaseError ''InvalidParameterValue'')
                else if \<not> rn_audit_table env
                then Inl (RuntimeError ''critical audit table public.audit_events is missing'')
                else Inr (update_runs hit upd table))))"

definition reconcile :: "reconcile_env \<Rightarrow> bool \<Rightarrow> string \<Rightarrow> string \<Rightarrow> run_expectation list \<Rightarrow> run_table \<Rightarrow> run_table" where
  \<comment> \<open>one transaction: a conflict takes all of it back, a dry run writes nothing\<close>
  "reconcile env really actor change_id runs table =
     (if \<not> really then table
      else case rfold (apply_one env actor change_id) table (sort_key ex_run_id runs) of
        Inl _ \<Rightarrow> table
      | Inr table' \<Rightarrow> table')"

section \<open>Renaming an entity\<close>

definition rename_runs :: "(pipeline_row \<Rightarrow> bool) \<Rightarrow> string \<Rightarrow> string \<Rightarrow> string \<Rightarrow> run_table \<Rightarrow> run_table" where
  "rename_runs rls cartridge old_name new_name table =
     update_runs (\<lambda>r. rls r \<and> rr_cartridge r = cartridge \<and> rr_entity r = old_name) (\<lambda>r. r\<lparr>rr_entity := new_name\<rparr>) table"

section \<open>The slots of materialisations\<close>

text \<open>
  \<open>reserve_materialization\<close>, \<open>finish_materialization\<close> and \<open>heartbeat_materialization\<close> keep their slots, which
  the theory \<open>Refresh_Slots\<close> models as a table of their own, as rows of \<open>pipeline_runs\<close>: each of their statements
  inserts or updates the row whose run is the slot's identity. Here any row and any change of it is allowed.
\<close>

definition is_slot_id :: "string \<Rightarrow> bool" where
  "is_slot_id i \<longleftrightarrow> take 21 i = ''dataset_refresh_item:''"

inductive slot_write :: "run_table \<Rightarrow> run_table \<Rightarrow> bool" where
  slot_insert: "rr_run_id row = slot_id slot_digest run_id tenant workspace dataset \<Longrightarrow> slot_write table (table @ [row])"
| slot_update: "(\<And>r. rr_run_id (change r) = rr_run_id r) \<Longrightarrow>
    slot_write table (update_runs (\<lambda>r. rr_run_id r = slot_id slot_digest run_id tenant workspace dataset \<and> hit r) change table)"

lemma slot_id_is_slot [simp]: "is_slot_id (slot_id slot_digest run_id tenant workspace dataset)"
  by (simp add: is_slot_id_def slot_id_def)

lemma slot_write_elsewhere:
  assumes "slot_write table table'" "\<not> is_slot_id run_id"
  shows "find_run table' run_id = find_run table run_id"
  using assms
proof cases
  case (slot_insert row slot_digest run tenant workspace dataset)
  then have "rr_run_id row \<noteq> run_id" using assms(2) slot_id_is_slot by metis
  then have "find_run (table @ [row]) run_id = find_run table run_id" by (induction table) (simp_all add: find_run_def)
  then show ?thesis by (simp add: slot_insert(1))
next
  case (slot_update change slot_digest run tenant workspace dataset hit)
  have "slot_id slot_digest run tenant workspace dataset \<noteq> run_id" using assms(2) slot_id_is_slot by metis
  moreover have "rr_run_id r = run_id" if "find_run table run_id = Some r" for r
    using that by (auto simp: find_run_def find_Some_iff)
  ultimately show ?thesis
    by (cases "find_run table run_id") (auto simp: slot_update(1) find_update_runs [OF slot_update(2)])
qed

section \<open>What they keep\<close>

lemma advances_trans: "advances a b \<Longrightarrow> advances b c \<Longrightarrow> advances a c"
  unfolding advances_def by (meson order_trans)

lemma sync_advances:
  assumes "upsert_sync_run uuid rls cols now ctx run_id cartridge mode st extra err table = Inr table'"
  shows "advances table table'" "distinct (map rr_run_id table) \<Longrightarrow> distinct (map rr_run_id table')"
proof -
  have keeps: "keeps_run (\<lambda>_. True) (sync_update scoped new)" for scoped new
    by (auto simp: keeps_run_def sync_update_def Let_def row_rank_def monotonic_rank)
  have row: "0 \<le> rr_token (sync_row i c m s f er ex t w n)" for i c m s f er ex t w n by (simp add: sync_row_def)
  have upd: "rr_run_id (sync_update scoped new r) = rr_run_id r" for scoped new r by (simp add: sync_update_def Let_def)
  obtain scoped new r where up: "upsert_run rls new (sync_update scoped new) table = Inr (r, table')" "0 \<le> rr_token new"
    using assms row by (auto simp: upsert_sync_run_def Let_def rbind_Inr_iff split: prod.splits if_splits)
  show "advances table table'" by (rule upsert_advances [OF up(1) keeps up(2)])
  show "distinct (map rr_run_id table) \<Longrightarrow> distinct (map rr_run_id table')" by (rule upsert_distinct [OF up(1) upd])
qed

lemma mirror_advances:
  "advances table (mirror_pipeline_run uuid rls source run_id args table)"
  "distinct (map rr_run_id table) \<Longrightarrow> distinct (map rr_run_id (mirror_pipeline_run uuid rls source run_id args table))"
proof -
  have keeps: "keeps_run (\<lambda>_. True) (mirror_update new)" for new
    by (auto simp: keeps_run_def mirror_update_def Let_def row_rank_def monotonic_rank)
  have row: "0 \<le> rr_token (mirror_row src args i t w)" for src i t w by (simp add: mirror_row_def Let_def)
  have upd: "rr_run_id (mirror_update new r) = rr_run_id r" for new r by (simp add: mirror_update_def Let_def)
  consider "mirror_pipeline_run uuid rls source run_id args table = table"
    | new r where "upsert_run rls new (mirror_update new) table = Inr (r, mirror_pipeline_run uuid rls source run_id args table)"
      "0 \<le> rr_token new"
  proof (cases source)
    case None
    then show ?thesis using that(1) by (simp add: mirror_pipeline_run_def)
  next
    case (Some src)
    let ?res = "rbind (mirror_uuid uuid (xr_tenant src)) (\<lambda>t. rbind (mirror_uuid uuid (xr_workspace src)) (\<lambda>w.
      let new = mirror_row src args run_id t w in upsert_run rls new (mirror_update new) table))"
    show ?thesis
    proof (cases ?res)
      case (Inl e)
      then show ?thesis using that(1) by (simp add: mirror_pipeline_run_def Some)
    next
      case (Inr x)
      obtain r table' where x: "x = (r, table')" by fastforce
      then have "mirror_pipeline_run uuid rls source run_id args table = table'" using Inr by (simp add: mirror_pipeline_run_def Some)
      moreover obtain t w where "upsert_run rls (mirror_row src args run_id t w) (mirror_update (mirror_row src args run_id t w)) table =
          Inr (r, table')"
        using Inr x by (auto simp: rbind_Inr_iff Let_def)
      ultimately show ?thesis using that(2) row by simp
    qed
  qed
  note cases = this
  show "advances table (mirror_pipeline_run uuid rls source run_id args table)"
    by (cases rule: cases) (auto intro: upsert_advances [OF _ keeps])
  show "distinct (map rr_run_id table) \<Longrightarrow> distinct (map rr_run_id (mirror_pipeline_run uuid rls source run_id args table))"
    by (cases rule: cases) (auto dest: upsert_distinct [OF _ upd])
qed

lemma reconciled_rank: "row_rank (reconciled_row e event now now_text r) = status_rank (ex_target e)"
  if "ex_target e \<in> set ALLOWED_TARGET_STATUSES"
proof -
  have "lower (ex_target e) = ex_target e" using that by (auto simp: ALLOWED_TARGET_STATUSES_def str_eval)
  then show ?thesis by (simp add: row_rank_def reconciled_row_def sql_status_text_def)
qed

lemma apply_one_advances:
  assumes "apply_one env actor change_id table e = Inr table'" "allowed_transition e"
  shows "advances table table' \<and> (distinct (map rr_run_id table) \<longrightarrow> distinct (map rr_run_id table'))"
proof -
  let ?upd = "reconciled_row e (reconciliation_event e actor change_id) (rn_now env) (rn_now_text env)"
  have upd: "rr_run_id (?upd r) = rr_run_id r" "rr_token (?upd r) = rr_token r + 1" for r by (simp_all add: reconciled_row_def)
  have rank: "row_rank r \<le> row_rank (?upd r)" if "sql_status_text (rr_status r) = ex_status e" for r
    using assms(2) that by (simp add: reconciled_rank allowed_transition_def) (simp add: row_rank_def)
  have "table' = table \<or> (\<exists>P. table' = update_runs (\<lambda>r. P r \<and> sql_status_text (rr_status r) = ex_status e) ?upd table)"
  proof -
    obtain tenant workspace b where run: "(if b then Inr table
            else case List.find (\<lambda>r. (rn_rls env r \<and> rr_run_id r = ex_run_id e \<and> rr_tenant r = tenant \<and> rr_workspace r = workspace) \<and>
                sql_status_text (rr_status r) = ex_status e \<and> rr_started r = ex_started e \<and> rr_token r = ex_token e) table of
              None \<Rightarrow> Inl (RuntimeError (ex_run_id e @ '': CAS update lost its fence''))
            | Some r \<Rightarrow>
                if (case rr_extra r of None \<Rightarrow> False | Some (PDict _) \<Rightarrow> False | _ \<Rightarrow> True) then Inl (DatabaseError ''InvalidParameterValue'')
                else if \<not> rn_audit_table env
                then Inl (RuntimeError ''critical audit table public.audit_events is missing'')
                else Inr (update_runs (\<lambda>r. (rn_rls env r \<and> rr_run_id r = ex_run_id e \<and> rr_tenant r = tenant \<and> rr_workspace r = workspace) \<and>
                  sql_status_text (rr_status r) = ex_status e \<and> rr_started r = ex_started e \<and> rr_token r = ex_token e) ?upd table)) =
        (Inr table' :: pyexc + run_table)"
      using assms(1) unfolding apply_one_def Let_def by (elim rbind_InrE)
    let ?P = "\<lambda>r. rn_rls env r \<and> rr_run_id r = ex_run_id e \<and> rr_tenant r = tenant \<and> rr_workspace r = workspace \<and>
      rr_started r = ex_started e \<and> rr_token r = ex_token e"
    let ?hit = "\<lambda>r. (rn_rls env r \<and> rr_run_id r = ex_run_id e \<and> rr_tenant r = tenant \<and> rr_workspace r = workspace) \<and>
        sql_status_text (rr_status r) = ex_status e \<and> rr_started r = ex_started e \<and> rr_token r = ex_token e"
    have same: "?hit = (\<lambda>r. ?P r \<and> sql_status_text (rr_status r) = ex_status e)" by blast
    show ?thesis
    proof (cases "b \<or> List.find ?hit table = None")
      case True
      then show ?thesis using run by (cases b) simp_all
    next
      case False
      then obtain r where "List.find ?hit table = Some r" "\<not> b" by blast
      then have "table' = update_runs ?hit ?upd table" using run by (simp split: if_splits)
      then have "table' = update_runs (\<lambda>r. ?P r \<and> sql_status_text (rr_status r) = ex_status e) ?upd table" by (simp only: same)
      then show ?thesis by (intro disjI2 exI [of _ ?P])
    qed
  qed
  then show ?thesis
  proof
    assume "\<exists>P. table' = update_runs (\<lambda>r. P r \<and> sql_status_text (rr_status r) = ex_status e) ?upd table"
    then obtain P where t: "table' = update_runs (\<lambda>r. P r \<and> sql_status_text (rr_status r) = ex_status e) ?upd table" by blast
    have "keeps_run (\<lambda>r. P r \<and> sql_status_text (rr_status r) = ex_status e) ?upd" using upd rank by (simp add: keeps_run_def)
    then show ?thesis using update_advances update_runs_distinct [OF upd(1)] by (simp add: t)
  qed simp
qed

lemma reconcile_advances:
  assumes "\<forall>e\<in>set runs. allowed_transition e"
  shows "advances table (reconcile env really actor change_id runs table)"
    and "distinct (map rr_run_id table) \<Longrightarrow> distinct (map rr_run_id (reconcile env really actor change_id runs table))"
proof -
  have fold: "advances table table' \<and> (distinct (map rr_run_id table) \<longrightarrow> distinct (map rr_run_id table'))"
    if "rfold (apply_one env actor change_id) table es = Inr table'" "\<forall>e\<in>set es. allowed_transition e" for es table table'
    using that
  proof (induction es arbitrary: table)
    case (Cons e es)
    then obtain mid where mid: "apply_one env actor change_id table e = Inr mid" "rfold (apply_one env actor change_id) mid es = Inr table'"
      by (auto simp: rbind_Inr_iff)
    show ?case using apply_one_advances [OF mid(1)] Cons.IH [OF mid(2)] Cons.prems(2) advances_trans by auto
  qed simp
  show "advances table (reconcile env really actor change_id runs table)"
    and "distinct (map rr_run_id table) \<Longrightarrow> distinct (map rr_run_id (reconcile env really actor change_id runs table))"
    using fold [of table "sort_key ex_run_id runs"] assms by (auto simp: reconcile_def split: sum.splits)
qed

lemma rename_advances:
  "advances table (rename_runs rls cartridge old_name new_name table)"
  "map rr_run_id (rename_runs rls cartridge old_name new_name table) = map rr_run_id table"
proof -
  have "keeps_run hit (\<lambda>r. r\<lparr>rr_entity := new_name\<rparr>)" for hit by (simp add: keeps_run_def row_rank_def)
  then show "advances table (rename_runs rls cartridge old_name new_name table)"
    unfolding rename_runs_def by (rule update_advances)
qed (simp add: rename_runs_def update_runs_distinct)

end
