(* ===== verification/Stuck_Recovery.thy ===== *)
theory Stuck_Recovery
  imports Extract_Reservation Run_Writers Canonical_Json
begin

text \<open>
  Recovery of stuck runs, the decision: \<open>console/app/domains/pipeline/stuck_run_recovery.py\<close>.

  \<open>classify_stuck_run\<close> compares a row of \<open>pipeline_runs\<close> with what Airflow was seen to say of the run,
  an \<open>airflow_run_truth\<close>, and returns a verdict; \<open>recover_update\<close> is the effect of the statement that
  \<open>recover_update_sql\<close> prints, a compare-and-swap on one row; \<open>plan_digest\<close> is what an operator approves.
  Instants are microseconds since 1970 in UTC. The rows are dictionaries as the driver returns them.

  The theorems: a run is given up only on positive evidence from Airflow; the compare-and-swap closes a
  run at most once for each reading of the row and never reopens one; equal digests mean equal plans.
\<close>

section \<open>Verdicts\<close>

definition DEFAULT_THRESHOLD :: int where "DEFAULT_THRESHOLD = 15 * 60 * 1000000"
definition DEFAULT_MISSING_GRACE :: int where "DEFAULT_MISSING_GRACE = 2 * 60 * 1000000"

definition SYNC_NOW_DAG_ID :: string where "SYNC_NOW_DAG_ID = ''sync_now''"
definition SYNC_NOW_ENTITY :: string where "SYNC_NOW_ENTITY = ''__sync_now__''"
definition LEASE_GOVERNED_DAG_IDS :: "string list" where "LEASE_GOVERNED_DAG_IDS = [''dataset_refresh_chain'']"
definition CANDIDATE_STATUSES :: "string list" where
  "CANDIDATE_STATUSES = [''queued'', ''running'', ''unknown'', ''scheduled'', ''up_for_retry'']"

definition dag_name_char :: "char \<Rightarrow> bool" where
  \<comment> \<open>\<open>[a-z0-9_]\<close>\<close>
  "dag_name_char c \<longleftrightarrow> (97 \<le> code c \<and> code c \<le> 122) \<or> (48 \<le> code c \<and> code c \<le> 57) \<or> c = CHR ''_''"

definition manual_trigger_dag :: "string \<Rightarrow> bool" where
  \<comment> \<open>\<open>^[a-z][a-z0-9_]*_extract(_all)?$\<close> as a full match\<close>
  "manual_trigger_dag s \<longleftrightarrow>
     s \<noteq> [] \<and> 97 \<le> code (hd s) \<and> code (hd s) \<le> 122 \<and> list_all dag_name_char s \<and>
     (endswith s ''_extract'' \<or> endswith s ''_extract_all'')"

definition NOT_APPLICABLE :: string where "NOT_APPLICABLE = ''not_applicable''"
definition TOO_RECENT :: string where "TOO_RECENT = ''too_recent''"
definition LIVE :: string where "LIVE = ''live''"
definition WAITING_TURN :: string where "WAITING_TURN = ''waiting_turn''"
definition AIRFLOW_TERMINAL :: string where "AIRFLOW_TERMINAL = ''airflow_terminal''"
definition MISSING_IN_AIRFLOW :: string where "MISSING_IN_AIRFLOW = ''missing_in_airflow''"
definition STALLED_QUEUED_PAUSED_DAG :: string where "STALLED_QUEUED_PAUSED_DAG = ''stalled_queued_paused_dag''"
definition STALLED_QUEUED_NO_PROGRESS :: string where "STALLED_QUEUED_NO_PROGRESS = ''stalled_queued_no_progress''"
definition STALLED_RUNNING_NO_TASKS :: string where "STALLED_RUNNING_NO_TASKS = ''stalled_running_no_tasks''"
definition UNVERIFIABLE :: string where "UNVERIFIABLE = ''unverifiable''"
definition AIRFLOW_ORPHAN :: string where "AIRFLOW_ORPHAN = ''airflow_orphan''"

lemmas class_defs = NOT_APPLICABLE_def TOO_RECENT_def LIVE_def WAITING_TURN_def AIRFLOW_TERMINAL_def
  MISSING_IN_AIRFLOW_def STALLED_QUEUED_PAUSED_DAG_def STALLED_QUEUED_NO_PROGRESS_def
  STALLED_RUNNING_NO_TASKS_def UNVERIFIABLE_def AIRFLOW_ORPHAN_def

definition STALLED_CLASSES :: "string list" where
  "STALLED_CLASSES = [STALLED_QUEUED_PAUSED_DAG, STALLED_QUEUED_NO_PROGRESS, STALLED_RUNNING_NO_TASKS]"
definition MARK_FAILED_CLASSES :: "string list" where
  "MARK_FAILED_CLASSES = MISSING_IN_AIRFLOW # STALLED_CLASSES"
definition IN_PROGRESS_CLASSES :: "string list" where
  "IN_PROGRESS_CLASSES = [TOO_RECENT, LIVE, WAITING_TURN]"

definition ACTION_MARK_FAILED :: string where "ACTION_MARK_FAILED = ''mark_failed''"
definition ACTION_SYNC_TERMINAL :: string where "ACTION_SYNC_TERMINAL = ''sync_terminal''"
definition ACTION_NONE :: string where "ACTION_NONE = ''none''"
definition ACTION_NEUTRALIZE_AIRFLOW :: string where "ACTION_NEUTRALIZE_AIRFLOW = ''neutralize_airflow''"

lemmas action_defs = ACTION_MARK_FAILED_def ACTION_SYNC_TERMINAL_def ACTION_NONE_def ACTION_NEUTRALIZE_AIRFLOW_def

definition ACTIVE_TASK_STATES :: "string list" where
  "ACTIVE_TASK_STATES = [''running'', ''queued'', ''scheduled'', ''up_for_retry'', ''up_for_reschedule'',
     ''deferred'', ''restarting'']"
definition AIRFLOW_TERMINAL_RUN_STATES :: "string list" where
  "AIRFLOW_TERMINAL_RUN_STATES = [''success'', ''failed'']"

definition REASONS_ES :: "(string \<times> string) list" where
  "REASONS_ES =
    [(''terminal'', ''La corrida ya termin'' @ [CHR 0xF3] @ ''.''),
     (''sync_now'', ''Sincronizaci'' @ [CHR 0xF3] @ ''n agregada: su estado se calcula a partir de sus corridas hijas.''),
     (''no_airflow_run'', ''La corrida no tiene identificador de Airflow.''),
     (''lease'', ''La corrida se gobierna por su propia concesi'' @ [CHR 0xF3] @ ''n de ejecuci'' @ [CHR 0xF3] @ ''n.''),
     (TOO_RECENT, ''Corrida reciente: sigue dentro del tiempo de espera normal.''),
     (LIVE, ''Airflow confirma que la corrida sigue trabajando.''),
     (WAITING_TURN, ''En espera de turno: otra corrida del mismo proceso est'' @ [CHR 0xE1] @ '' en curso.''),
     (AIRFLOW_TERMINAL, ''Airflow ya termin'' @ [CHR 0xF3] @ '' esta corrida; se sincroniza su estado final.''),
     (MISSING_IN_AIRFLOW, ''Airflow no tiene registro de esta corrida.''),
     (STALLED_QUEUED_PAUSED_DAG, ''La corrida qued'' @ [CHR 0xF3] @ '' en cola con el proceso pausado en Airflow.''),
     (STALLED_QUEUED_NO_PROGRESS, ''La corrida lleva en cola m'' @ [CHR 0xE1] @ ''s del tiempo l'' @ [CHR 0xED] @
       ''mite sin que Airflow la inicie.''),
     (STALLED_RUNNING_NO_TASKS, ''La corrida figura en ejecuci'' @ [CHR 0xF3] @ ''n, pero Airflow no tiene tareas activas.''),
     (UNVERIFIABLE, ''No se pudo verificar el estado en Airflow; no se modifica.''),
     (''scheduler_unhealthy'', ''El planificador de Airflow no responde; no se modifica la corrida.''),
     (''dag_missing'', ''Airflow no reconoce el proceso de esta corrida; no se modifica.''),
     (AIRFLOW_ORPHAN, ''La consola ya cerr'' @ [CHR 0xF3] @ '' esta corrida, pero Airflow la mantiene pendiente con el proceso pausado; se detiene en Airflow.'')]"

record airflow_run_truth =
  found :: "bool option"
  state :: "string option"
  queued_at :: "int option"
  start_date :: "int option"
  end_date :: "int option"
  active_tasks :: "int option"
  last_task_activity_at :: "int option"
  dag_found :: "bool option"
  dag_paused :: "bool option"
  schedule_kind :: "string option"
  sibling_running :: "bool option"
  scheduler_healthy :: "bool option"
  truth_error :: "string option"

record run_verdict =
  classification :: string
  action :: string
  neutralize_airflow :: bool
  certain :: bool
  reason_es :: string

definition verdict :: "string \<Rightarrow> string \<Rightarrow> string \<Rightarrow> bool \<Rightarrow> bool \<Rightarrow> run_verdict" where
  \<comment> \<open>the key of the reason is the class when none is given\<close>
  "verdict cls reason_key act neutralize cert =
     \<lparr>classification = cls, action = act, neutralize_airflow = neutralize, certain = cert,
      reason_es = (case map_of REASONS_ES (if reason_key = [] then cls else reason_key) of Some t \<Rightarrow> t | None \<Rightarrow> [])\<rparr>"

abbreviation plain :: "string \<Rightarrow> run_verdict" where
  "plain cls \<equiv> verdict cls [] ACTION_NONE False True"

abbreviation uncertain :: "string \<Rightarrow> run_verdict" where
  "uncertain reason_key \<equiv> verdict UNVERIFIABLE reason_key ACTION_NONE False False"

abbreviation stalled :: "string \<Rightarrow> run_verdict" where
  "stalled cls \<equiv> verdict cls [] ACTION_MARK_FAILED True True"

section \<open>Instants\<close>

definition MIN_INSTANT :: int where "MIN_INSTANT = - 62135596800 * 1000000"
definition MAX_INSTANT :: int where "MAX_INSTANT = 253402300800 * 1000000 - 1"

definition to_utc :: "int \<times> int option \<Rightarrow> int pyres" where
  \<comment> \<open>\<open>astimezone(timezone.utc)\<close>, a naive datetime read as UTC; years 1 to 9999\<close>
  "to_utc d =
     (let t = fst d - (case snd d of None \<Rightarrow> 0 | Some off \<Rightarrow> off * 1000000)
      in if MIN_INSTANT \<le> t \<and> t \<le> MAX_INSTANT then Inr t else Inl OverflowError)"

definition as_utc_datetime :: "fromiso \<Rightarrow> pv \<Rightarrow> int option pyres" where
  "as_utc_datetime fromisoformat value =
     (if value = PNone \<or> value = PStr [] then Inr None
      else case (case value of PDt t z \<Rightarrow> Some (t, z) | _ \<Rightarrow> parse_iso_datetime fromisoformat (PStr (py_str value))) of
             None \<Rightarrow> Inr None
           | Some d \<Rightarrow> rbind (to_utc d) (\<lambda>t. Inr (Some t)))"

definition age :: "fromiso \<Rightarrow> int \<Rightarrow> pv \<Rightarrow> int option pyres" where
  "age fromisoformat now value =
     rbind (as_utc_datetime fromisoformat value) (\<lambda>moment. Inr (map_option (\<lambda>t. now - t) moment))"

section \<open>Classification\<close>

definition pre_airflow_verdict :: "pdict \<Rightarrow> run_verdict option" where
  "pre_airflow_verdict row =
     (let status = normalize_pipeline_status (dget row ''status'')
      in if status \<in> set PIPELINE_TERMINAL_STATUSES then Some (verdict NOT_APPLICABLE ''terminal'' ACTION_NONE False True)
         else if str_or (dget row ''dag_id'') [] = SYNC_NOW_DAG_ID \<or> str_or (dget row ''entity'') [] = SYNC_NOW_ENTITY
           then Some (verdict NOT_APPLICABLE ''sync_now'' ACTION_NONE False True)
         else if str_or (dget row ''dag_id'') [] \<in> set LEASE_GOVERNED_DAG_IDS \<or> dget row ''lease_expires_at'' \<noteq> PNone
           then Some (verdict NOT_APPLICABLE ''lease'' ACTION_NONE False True)
         else if strip (str_or (dget row ''airflow_dag_run_id'') []) = [] \<or> strip (str_or (dget row ''dag_id'') []) = []
           then Some (verdict NOT_APPLICABLE ''no_airflow_run'' ACTION_NONE False True)
         else None)"

definition is_reserved :: "(string \<Rightarrow> pv option) \<Rightarrow> pdict \<Rightarrow> bool" where
  "is_reserved json_loads row = truthy (dget (pipeline_run_extra json_loads row) ''reserved'')"

definition idle_since :: "fromiso \<Rightarrow> airflow_run_truth \<Rightarrow> int \<Rightarrow> pv \<Rightarrow> int option pyres" where
  "idle_since fromisoformat truth now fallback_start =
     (case last_task_activity_at truth of
        Some t \<Rightarrow> Inr (Some (now - t))
      | None \<Rightarrow> (case start_date truth of
                   Some t \<Rightarrow> Inr (Some (now - t))
                 | None \<Rightarrow> age fromisoformat now fallback_start))"

definition younger :: "int option \<Rightarrow> int \<Rightarrow> bool" where
  \<comment> \<open>\<open>age is not None and age < limit\<close>\<close>
  "younger a limit = (case a of None \<Rightarrow> False | Some t \<Rightarrow> t < limit)"

definition running_liveness :: "fromiso \<Rightarrow> airflow_run_truth \<Rightarrow> int \<Rightarrow> int \<Rightarrow> pv \<Rightarrow> string pyres" where
  "running_liveness fromisoformat truth now threshold fallback_start =
     (case active_tasks truth of
        None \<Rightarrow> Inr UNVERIFIABLE
      | Some n \<Rightarrow>
          if n > 0 then Inr LIVE
          else rbind (idle_since fromisoformat truth now fallback_start) (\<lambda>idle.
            if younger idle threshold then Inr LIVE
            else if dag_paused truth = Some True then Inr STALLED_RUNNING_NO_TASKS
            else if scheduler_healthy truth \<noteq> Some True then Inr ''scheduler_unhealthy''
            else Inr STALLED_RUNNING_NO_TASKS))"

definition classify_running :: "fromiso \<Rightarrow> pdict \<Rightarrow> airflow_run_truth \<Rightarrow> int \<Rightarrow> int \<Rightarrow> run_verdict pyres" where
  "classify_running fromisoformat row truth now threshold =
     rbind (running_liveness fromisoformat truth now threshold (dget row ''started_at'')) (\<lambda>liveness.
       Inr (if liveness = LIVE then plain LIVE
            else if liveness = ''scheduler_unhealthy'' then uncertain ''scheduler_unhealthy''
            else if liveness = STALLED_RUNNING_NO_TASKS then stalled STALLED_RUNNING_NO_TASKS
            else uncertain []))"

definition classify_queued :: "airflow_run_truth \<Rightarrow> int option \<Rightarrow> int \<Rightarrow> int \<Rightarrow> run_verdict" where
  "classify_queued truth row_age now threshold =
     (if dag_paused truth = Some True then stalled STALLED_QUEUED_PAUSED_DAG
      else if dag_paused truth \<noteq> Some False then uncertain []
      else if scheduler_healthy truth \<noteq> Some True then uncertain ''scheduler_unhealthy''
      else if sibling_running truth = Some True then plain WAITING_TURN
      else if sibling_running truth \<noteq> Some False then uncertain []
      else if younger (case queued_at truth of Some t \<Rightarrow> Some (now - t) | None \<Rightarrow> row_age) threshold
        then plain TOO_RECENT
      else stalled STALLED_QUEUED_NO_PROGRESS)"

definition airflow_state :: "airflow_run_truth \<Rightarrow> string" where
  \<comment> \<open>\<open>str(truth.state or "").strip().lower()\<close>\<close>
  "airflow_state truth = lower (strip (case state truth of None \<Rightarrow> [] | Some s \<Rightarrow> s))"

definition unreliable :: "airflow_run_truth option \<Rightarrow> bool" where
  \<comment> \<open>\<open>truth is None or truth.error\<close>\<close>
  "unreliable truth = (case truth of None \<Rightarrow> True | Some t \<Rightarrow> truth_error t \<noteq> None \<and> truth_error t \<noteq> Some [])"

definition classify_unfinished ::
    "fromiso \<Rightarrow> (string \<Rightarrow> pv option) \<Rightarrow> pdict \<Rightarrow> airflow_run_truth \<Rightarrow> int \<Rightarrow> int \<Rightarrow> int \<Rightarrow> int option \<Rightarrow> run_verdict pyres" where
  \<comment> \<open>Airflow does not report an end of the run\<close>
  "classify_unfinished fromisoformat json_loads row truth now threshold missing_grace row_age =
     (if found truth = Some False then
        (if dag_found truth \<noteq> Some True then Inr (uncertain ''dag_missing'')
         else if younger row_age (if is_reserved json_loads row then missing_grace else threshold)
           then Inr (plain TOO_RECENT)
         else Inr (verdict MISSING_IN_AIRFLOW [] ACTION_MARK_FAILED False True))
      else if found truth \<noteq> Some True then Inr (uncertain [])
      else if younger row_age threshold then Inr (plain TOO_RECENT)
      else if airflow_state truth = ''running'' then classify_running fromisoformat row truth now threshold
      else if airflow_state truth = ''queued'' then Inr (classify_queued truth row_age now threshold)
      else Inr (uncertain []))"

definition classify_stuck_run ::
    "fromiso \<Rightarrow> (string \<Rightarrow> pv option) \<Rightarrow> pdict \<Rightarrow> airflow_run_truth option \<Rightarrow> int \<Rightarrow> int \<Rightarrow> int \<Rightarrow> run_verdict pyres" where
  "classify_stuck_run fromisoformat json_loads row observed now threshold missing_grace =
     (case pre_airflow_verdict row of
        Some early \<Rightarrow> Inr early
      | None \<Rightarrow>
          if unreliable observed then Inr (uncertain [])
          else let truth = the observed in
          if found truth = Some True \<and> airflow_state truth \<in> set AIRFLOW_TERMINAL_RUN_STATES
            then Inr (verdict AIRFLOW_TERMINAL [] ACTION_SYNC_TERMINAL False True)
          else rbind (age fromisoformat now (dget row ''started_at''))
            (classify_unfinished fromisoformat json_loads row truth now threshold missing_grace))"

definition orphan_verdict :: run_verdict where
  "orphan_verdict = verdict AIRFLOW_ORPHAN [] ACTION_NEUTRALIZE_AIRFLOW True True"

section \<open>The compare-and-swap\<close>

definition failed_literal :: string where
  "failed_literal = [CHR 0x27] @ ''failed'' @ [CHR 0x27] @ ''::text''"

definition recovered_status :: "string option \<Rightarrow> string option" where
  "recovered_status current =
     (case sql_value (\<lambda>name. if name = ''status'' then sql_of current else SNull)
        (postgres_monotonic_status ''status'' failed_literal) of Some (SText s) \<Rightarrow> Some s | _ \<Rightarrow> None)"

record recover_args =
  ra_run_id :: string
  ra_tenant :: string
  ra_workspace :: string
  ra_status :: string
  ra_started :: "int option"
  ra_token :: int
  ra_reconciliation :: pdict
  ra_recovery :: pdict
  ra_message :: string

definition recover_row :: "recover_args \<Rightarrow> int \<Rightarrow> string \<Rightarrow> pipeline_row \<Rightarrow> pipeline_row" where
  \<comment> \<open>\<open>now_text\<close>: the JSON text of \<open>now\<close>\<close>
  "recover_row args now now_text r =
     r\<lparr>rr_status := recovered_status (rr_status r), rr_finished := coalesce (rr_finished r) (Some now),
       rr_error := Some (ra_message args), rr_lease := None, rr_token := rr_token r + 1,
       rr_extra := Some (jsonb_concat (rr_extra r) (pdict_of
         [(''reconciliation'', PList (reconciliation_log (rr_extra r) @
            [PDict (dmerge (ra_reconciliation args) (pdict_of [(''applied_at'', PStr now_text)]))])),
          (''recovery'', PDict (dmerge (ra_recovery args) (pdict_of [(''previous_error'', opt_text (rr_error r)),
            (''applied_at'', PStr now_text)])))]))\<rparr>"

definition recover_hits :: "recover_args \<Rightarrow> string \<Rightarrow> string \<Rightarrow> pipeline_row \<Rightarrow> bool" where
  "recover_hits args tenant workspace r \<longleftrightarrow>
     rr_run_id r = ra_run_id args \<and> rr_tenant r = Some tenant \<and> rr_workspace r = Some workspace \<and>
     sql_status_text (rr_status r) = ra_status args \<and> rr_started r = ra_started args \<and> rr_token r = ra_token args"

definition recover_update ::
    "(string \<Rightarrow> string option) \<Rightarrow> (pipeline_row \<Rightarrow> bool) \<Rightarrow> int \<Rightarrow> string \<Rightarrow> recover_args \<Rightarrow> run_table \<Rightarrow>
     (pipeline_row option \<times> run_table) pyres" where
  "recover_update uuid rls now now_text args table =
     (case (uuid (ra_tenant args), uuid (ra_workspace args)) of
        (Some tenant, Some workspace) \<Rightarrow>
          (let hit = (\<lambda>r. rls r \<and> recover_hits args tenant workspace r);
               upd = recover_row args now now_text
           in Inr (map_option upd (List.find hit table), update_runs hit upd table))
      | _ \<Rightarrow> Inl (DatabaseError ''DataError''))"

section \<open>The plan\<close>

definition iso :: "fromiso \<Rightarrow> pv \<Rightarrow> pv pyres" where
  "iso fromisoformat value =
     rbind (as_utc_datetime fromisoformat value) (\<lambda>moment.
       Inr (case moment of None \<Rightarrow> PNone | Some t \<Rightarrow> PStr (isoformat t (Some 0))))"

definition entry_fields :: "string \<Rightarrow> string \<Rightarrow> pv \<Rightarrow> int \<Rightarrow> string \<Rightarrow> string \<Rightarrow> pdict" where
  "entry_fields run_id st started token cls act = pdict_of
     [(''run_id'', PStr run_id), (''status'', PStr st), (''started_at'', started), (''fencing_token'', PInt token),
      (''classification'', PStr cls), (''action'', PStr act)]"

definition plan_entry :: "fromiso \<Rightarrow> pdict \<Rightarrow> run_verdict \<Rightarrow> pdict pyres" where
  "plan_entry fromisoformat row v =
     rbind (iso fromisoformat (dget row ''started_at'')) (\<lambda>started.
     rbind (int_or0 (dget row ''fencing_token'')) (\<lambda>token.
       Inr (entry_fields (str_or (dget row ''run_id'') []) (normalize_pipeline_status (dget row ''status'')) started token
          (classification v) (action v))))"

definition canonical_entry :: "pdict \<Rightarrow> pdict pyres" where
  "canonical_entry entry =
     rbind (int_or0 (dget entry ''fencing_token'')) (\<lambda>token.
       Inr (entry_fields (str_or (dget entry ''run_id'') []) (normalize_pipeline_status (dget entry ''status''))
          (dget entry ''started_at'') token (str_or (dget entry ''classification'') []) (str_or (dget entry ''action'') [])))"

definition canonical_plan :: "pdict list \<Rightarrow> pdict list pyres" where
  \<comment> \<open>the actionable entries, by run id\<close>
  "canonical_plan entries =
     rbind (rmap canonical_entry (filter (\<lambda>e. str_or (dget e ''action'') ACTION_NONE \<noteq> ACTION_NONE) entries)) (\<lambda>es.
       Inr (sort_key (\<lambda>e. py_str (dget e ''run_id'')) es))"

definition plan_digest :: "(string \<Rightarrow> string) \<Rightarrow> pdict list \<Rightarrow> string pyres" where
  "plan_digest sha256 entries =
     rbind (canonical_plan entries) (\<lambda>plan.
     rbind (json_sorted True (PList (map PDict plan))) (\<lambda>payload. Inr (sha256 payload)))"

section \<open>What a verdict rests on\<close>

lemma verdict_fields [simp]:
  "classification (verdict c k a n t) = c" "action (verdict c k a n t) = a"
  "neutralize_airflow (verdict c k a n t) = n" "certain (verdict c k a n t) = t"
  by (simp_all add: verdict_def)

lemma action_eqs [simp]:
  "ACTION_NONE \<noteq> ACTION_MARK_FAILED" "ACTION_SYNC_TERMINAL \<noteq> ACTION_MARK_FAILED"
  "ACTION_MARK_FAILED \<noteq> ACTION_NONE" "ACTION_SYNC_TERMINAL \<noteq> ACTION_NONE"
  "ACTION_NEUTRALIZE_AIRFLOW \<noteq> ACTION_NONE" "ACTION_NEUTRALIZE_AIRFLOW \<noteq> ACTION_MARK_FAILED"
  "ACTION_NEUTRALIZE_AIRFLOW \<noteq> ACTION_SYNC_TERMINAL"
  by (simp_all add: action_defs)

lemmas [simp] = action_eqs [symmetric]

lemma pre_airflow_action: "pre_airflow_verdict row = Some v \<Longrightarrow> action v = ACTION_NONE \<and> \<not> neutralize_airflow v"
  by (auto simp: pre_airflow_verdict_def Let_def split: if_splits)

definition idle_running :: "fromiso \<Rightarrow> pdict \<Rightarrow> airflow_run_truth \<Rightarrow> int \<Rightarrow> int \<Rightarrow> bool" where
  \<comment> \<open>no active task, no activity within the threshold, and a reason to believe that none will come\<close>
  "idle_running fromisoformat row truth now threshold \<longleftrightarrow>
     (\<exists>n idle. active_tasks truth = Some n \<and> n \<le> 0 \<and>
        idle_since fromisoformat truth now (dget row ''started_at'') = Inr idle \<and> \<not> younger idle threshold) \<and>
     (dag_paused truth = Some True \<or> scheduler_healthy truth = Some True)"

definition starved_queue :: "airflow_run_truth \<Rightarrow> int option \<Rightarrow> int \<Rightarrow> int \<Rightarrow> bool" where
  \<comment> \<open>the process is paused, or a healthy scheduler with nothing else to run has left the run queued\<close>
  "starved_queue truth row_age now threshold \<longleftrightarrow>
     dag_paused truth = Some True \<or>
     (dag_paused truth = Some False \<and> scheduler_healthy truth = Some True \<and> sibling_running truth = Some False \<and>
      \<not> younger (case queued_at truth of Some t \<Rightarrow> Some (now - t) | None \<Rightarrow> row_age) threshold)"

definition stuck_evidence :: "fromiso \<Rightarrow> (string \<Rightarrow> pv option) \<Rightarrow> pdict \<Rightarrow> airflow_run_truth \<Rightarrow> int \<Rightarrow> int \<Rightarrow> int \<Rightarrow> bool" where
  "stuck_evidence fromisoformat json_loads row truth now threshold grace \<longleftrightarrow>
     (\<exists>row_age. age fromisoformat now (dget row ''started_at'') = Inr row_age \<and>
       (found truth = Some False \<and> dag_found truth = Some True \<and>
          \<not> younger row_age (if is_reserved json_loads row then grace else threshold) \<or>
        found truth = Some True \<and> \<not> younger row_age threshold \<and>
          (airflow_state truth = ''running'' \<and> idle_running fromisoformat row truth now threshold \<or>
           airflow_state truth = ''queued'' \<and> starved_queue truth row_age now threshold)))"

lemma liveness_iff:
  assumes "running_liveness fromisoformat truth now threshold (dget row ''started_at'') = Inr l"
  shows "l = STALLED_RUNNING_NO_TASKS \<longleftrightarrow> idle_running fromisoformat row truth now threshold"
proof (cases "active_tasks truth")
  case None
  with assms show ?thesis by (auto simp: running_liveness_def idle_running_def class_defs)
next
  case (Some n)
  show ?thesis
  proof (cases "n > 0")
    case True
    with assms Some show ?thesis by (auto simp: running_liveness_def idle_running_def class_defs)
  next
    case False
    with assms Some obtain idle where "idle_since fromisoformat truth now (dget row ''started_at'') = Inr idle"
      by (auto simp: running_liveness_def rbind_Inr_iff)
    with assms Some False show ?thesis
      by (auto simp: running_liveness_def idle_running_def class_defs split: if_splits)
  qed
qed

lemma classify_running_iff:
  assumes "classify_running fromisoformat row truth now threshold = Inr v"
  shows "(action v = ACTION_MARK_FAILED \<longleftrightarrow> idle_running fromisoformat row truth now threshold) \<and>
    (neutralize_airflow v \<longleftrightarrow> action v = ACTION_MARK_FAILED)"
proof -
  obtain l where l: "running_liveness fromisoformat truth now threshold (dget row ''started_at'') = Inr l"
    and v: "v = (if l = LIVE then plain LIVE
            else if l = ''scheduler_unhealthy'' then uncertain ''scheduler_unhealthy''
            else if l = STALLED_RUNNING_NO_TASKS then stalled STALLED_RUNNING_NO_TASKS
            else uncertain [])"
    using assms by (auto simp: classify_running_def rbind_Inr_iff)
  have "STALLED_RUNNING_NO_TASKS \<noteq> LIVE" "STALLED_RUNNING_NO_TASKS \<noteq> ''scheduler_unhealthy''"
    by (simp_all add: class_defs)
  then have "(action v = ACTION_MARK_FAILED \<longleftrightarrow> l = STALLED_RUNNING_NO_TASKS) \<and>
      (neutralize_airflow v \<longleftrightarrow> l = STALLED_RUNNING_NO_TASKS)"
    unfolding v by (auto split: if_splits)
  then show ?thesis using liveness_iff [OF l] by simp
qed

lemma classify_queued_iff:
  "(action (classify_queued truth row_age now threshold) = ACTION_MARK_FAILED \<longleftrightarrow>
     starved_queue truth row_age now threshold) \<and>
   (neutralize_airflow (classify_queued truth row_age now threshold) \<longleftrightarrow>
     action (classify_queued truth row_age now threshold) = ACTION_MARK_FAILED)"
  by (auto simp: classify_queued_def starved_queue_def)

lemma terminal_states: "''running'' \<notin> set AIRFLOW_TERMINAL_RUN_STATES" "''queued'' \<notin> set AIRFLOW_TERMINAL_RUN_STATES"
  by (simp_all add: AIRFLOW_TERMINAL_RUN_STATES_def)

lemma marked_failed_iff:
  assumes "classify_stuck_run fromisoformat json_loads row observed now threshold grace = Inr v"
  shows "(action v = ACTION_MARK_FAILED \<longleftrightarrow> pre_airflow_verdict row = None \<and>
      (\<exists>truth. observed = Some truth \<and> \<not> unreliable observed \<and>
         stuck_evidence fromisoformat json_loads row truth now threshold grace)) \<and>
    (neutralize_airflow v \<longleftrightarrow> action v = ACTION_MARK_FAILED \<and> found (the observed) = Some True)"
proof (cases "pre_airflow_verdict row = None \<and> \<not> unreliable observed")
  case False
  then have "action v = ACTION_NONE \<and> \<not> neutralize_airflow v"
    using assms pre_airflow_action by (auto simp: classify_stuck_run_def split: option.splits)
  with False show ?thesis by auto
next
  case True
  then obtain truth where truth: "observed = Some truth" by (auto simp: unreliable_def split: option.splits)
  show ?thesis
  proof (cases "found truth = Some True \<and> airflow_state truth \<in> set AIRFLOW_TERMINAL_RUN_STATES")
    case terminal: True
    then have "\<not> stuck_evidence fromisoformat json_loads row truth now threshold grace"
      using terminal_states by (auto simp: stuck_evidence_def)
    with terminal True assms truth show ?thesis by (auto simp: classify_stuck_run_def Let_def)
  next
    case False
    have "rbind (age fromisoformat now (dget row ''started_at''))
        (classify_unfinished fromisoformat json_loads row truth now threshold grace) = Inr v"
      using assms True False truth by (auto simp: classify_stuck_run_def Let_def split: if_splits)
    then obtain a where "age fromisoformat now (dget row ''started_at'') = Inr a"
        "classify_unfinished fromisoformat json_loads row truth now threshold grace a = Inr v"
      by (rule rbind_InrE)
    then show ?thesis
      using True truth classify_running_iff [of fromisoformat row truth now threshold v]
        classify_queued_iff [of truth a now threshold]
      by (auto simp: stuck_evidence_def classify_unfinished_def split: if_splits)
  qed
qed

text \<open>
  C13: a run is given up exactly on positive evidence. The verdict says that the run be marked as failed
  if and only if the row is not finished, not an aggregate, not governed by a lease and names its Airflow
  run, Airflow answered without an error, and either knows the process but not the run after the grace
  period, or still holds the run past the threshold with no active task and no recent activity while
  paused or under a healthy scheduler, or holds it queued while paused or with a free and healthy
  scheduler. The run is stopped in Airflow first exactly when Airflow still holds it.
\<close>

theorem giving_up_needs_evidence:
  assumes "classify_stuck_run fromisoformat json_loads row observed now threshold grace = Inr v"
  shows "(action v = ACTION_MARK_FAILED \<longleftrightarrow> pre_airflow_verdict row = None \<and>
      (\<exists>truth. observed = Some truth \<and> \<not> unreliable observed \<and>
         stuck_evidence fromisoformat json_loads row truth now threshold grace)) \<and>
    (neutralize_airflow v \<longleftrightarrow> action v = ACTION_MARK_FAILED \<and> found (the observed) = Some True)"
  using assms by (rule marked_failed_iff)

section \<open>The writers of the table together\<close>

text \<open>
  Any writer may act on the table at any time. \<open>run_step\<close> are the writers of the rows of runs; the operator's
  manifest is one that \<open>_expectation_from_dict\<close> accepted. \<open>table_step\<close> adds the slots of the materialisations,
  rows of their own in the same table.
\<close>

inductive run_step :: "run_table \<Rightarrow> run_table \<Rightarrow> bool" where
  step_trigger: "record_dag_pipeline_trigger uuid rls cols now cartridge entity dag_id dag_run_id mode st conf tenant
      workspace table = Inr table' \<Longrightarrow> run_step table table'"
| step_refresh: "refresh_dag_run_status fromisoformat seconds_repr uuid rls env row table = Inr (row', table') \<Longrightarrow>
    run_step table table'"
| step_save: "pipeline_run_save uuid pgtime rls available args table = Inr (answer, table') \<Longrightarrow> run_step table table'"
| step_reserve: "reserve_entity_extract_slot uuid rls reserve renv table = Inr (response, table') \<Longrightarrow> run_step table table'"
| step_recover: "recover_update uuid rls now now_text recover table = Inr (updated, table') \<Longrightarrow> run_step table table'"
| step_sync: "upsert_sync_run uuid rls cols now ctx run_id cartridge mode st extra err table = Inr table' \<Longrightarrow>
    run_step table table'"
| step_mirror: "run_step table (mirror_pipeline_run uuid rls source run_id margs table)"
| step_reconcile: "\<forall>e\<in>set manifest. allowed_transition e \<Longrightarrow>
    run_step table (reconcile recenv really actor change_id manifest table)"
| step_rename: "run_step table (rename_runs rls cartridge old_name new_name table)"

inductive_cases run_stepE: "run_step table table'"

inductive table_step :: "run_table \<Rightarrow> run_table \<Rightarrow> bool" where
  "run_step table table' \<Longrightarrow> table_step table table'"
| "slot_write table table' \<Longrightarrow> table_step table table'"

lemma recovered_status_eq [code]: "recovered_status current = monotonic_status current (Some ''failed'')"
proof -
  let ?env = "\<lambda>name. if name = ''status'' then sql_of current else SNull"
  let ?s = "if status_rank (folded (Some ''failed'')) > status_rank (folded current) then Some ''failed'' else current"
  have name: "column_name ''status''" by code_simp
  have "quote \<notin> set ''failed''" by (simp add: quote_def)
  from literal_reads [OF this] have literal: "reads 2 failed_literal (Text_Cast (Literal ''failed''))"
    by (simp add: failed_literal_def quote_def)
  have "sql_value ?env (postgres_monotonic_status ''status'' failed_literal) = Some (sql_of ?s)"
    by (rule monotonic_value [OF column_reads [OF name] literal]) (simp_all add: sql_text_def sql_of_def)
  then show ?thesis by (simp add: recovered_status_def monotonic_status_eq sql_status_folded sql_of_def split: option.splits)
qed

lemma recover_row_keeps [simp]:
  "rr_run_id (recover_row args now now_text r) = rr_run_id r"
  "rr_token (recover_row args now now_text r) = rr_token r + 1"
  by (simp_all add: recover_row_def)

lemma failed_rank: "status_rank (sql_status_text (Some ''failed'')) = 60"
  by (simp add: sql_status_text_def str_eval status_rank_def PIPELINE_STATUS_RANKS_def)

lemma recover_row_rank: "row_rank (recover_row args now now_text r) = 60"
  using row_rank_bounds [of r]
  by (simp add: row_rank_def recover_row_def recovered_status_eq monotonic_rank failed_rank)

lemma recover_keeps_run: "keeps_run hit (recover_row args now now_text)"
  using row_rank_bounds by (simp add: keeps_run_def recover_row_rank)

lemma recover_cases:
  assumes "recover_update uuid rls now now_text args table = Inr (updated, table')"
  obtains tenant workspace where "uuid (ra_tenant args) = Some tenant" "uuid (ra_workspace args) = Some workspace"
    "updated = map_option (recover_row args now now_text)
       (List.find (\<lambda>r. rls r \<and> recover_hits args tenant workspace r) table)"
    "table' = update_runs (\<lambda>r. rls r \<and> recover_hits args tenant workspace r) (recover_row args now now_text) table"
  using assms by (auto simp: recover_update_def Let_def split: option.splits)

lemma step_advances: "run_step table table' \<Longrightarrow> advances table table'"
  by (elim run_stepE)
     (auto intro: trigger_advances refresh_advances save_advances reserve_advances update_advances recover_keeps_run
       sync_advances(1) mirror_advances(1) reconcile_advances(1)
       rename_advances(1) elim!: recover_cases)

interpretation run_tokens: fenced_tokens run_step run_token
  by unfold_locales (use step_advances in \<open>auto simp: advances_def\<close>)

interpretation run_ranks: fenced_tokens run_step run_rank
  by unfold_locales (use step_advances in \<open>auto simp: advances_def\<close>)

lemma step_distinct: "run_step table table' \<Longrightarrow> distinct (map rr_run_id table) \<Longrightarrow> distinct (map rr_run_id table')"
  by (elim run_stepE)
     (auto dest: trigger_distinct refresh_distinct save_distinct reserve_distinct sync_advances(2)
       mirror_advances(2) reconcile_advances(2) elim!: recover_cases simp: update_runs_distinct rename_advances(2))

lemma steps_distinct: "run_step\<^sup>*\<^sup>* table table' \<Longrightarrow> distinct (map rr_run_id table) \<Longrightarrow> distinct (map rr_run_id table')"
  by (induction rule: rtranclp_induct) (auto dest: step_distinct)

lemma find_run_id: "find_run table run_id = Some r \<Longrightarrow> rr_run_id r = run_id"
  by (auto simp: find_run_def find_Some_iff)

lemma find_run_set: "find_run table run_id = Some r \<Longrightarrow> r \<in> set table"
  by (auto simp: find_run_def find_Some_iff)

lemma run_rank_Some: "0 \<le> run_rank table run_id \<longleftrightarrow> (\<exists>r. find_run table run_id = Some r)"
  using row_rank_bounds by (auto simp: run_rank_def split: option.splits)

lemma finished_stays:
  assumes "run_step\<^sup>*\<^sup>* table table'" "find_run table run_id = Some r"
  shows "\<exists>r'. find_run table' run_id = Some r' \<and> row_rank r \<le> row_rank r' \<and> rr_token r \<le> rr_token r'"
proof -
  have rank: "row_rank r \<le> run_rank table' run_id" and token: "rr_token r \<le> run_token table' run_id"
    using run_ranks.token_mono [OF assms(1), of run_id] run_tokens.token_mono [OF assms(1), of run_id] assms(2)
    by (simp_all add: run_rank_def run_token_def)
  then have "0 \<le> run_rank table' run_id" using row_rank_bounds [of r] by linarith
  then obtain r' where "find_run table' run_id = Some r'" using run_rank_Some by blast
  with rank token show ?thesis by (auto simp: run_rank_def run_token_def)
qed

lemma run_stays:
  assumes "table_step\<^sup>*\<^sup>* table table'" "\<not> is_slot_id run_id" "find_run table run_id = Some r"
  shows "\<exists>r'. find_run table' run_id = Some r' \<and> row_rank r \<le> row_rank r' \<and> rr_token r \<le> rr_token r'"
  using assms(1)
proof (induction rule: rtranclp_induct)
  case base
  then show ?case using assms(3) by simp
next
  case (step table1 table2)
  obtain r1 where r1: "find_run table1 run_id = Some r1" "row_rank r \<le> row_rank r1" "rr_token r \<le> rr_token r1"
    using step.IH by blast
  from step.hyps(2) show ?case
  proof cases
    case 1
    then show ?thesis using finished_stays [OF r_into_rtranclp [of run_step] r1(1)] r1(2,3) by (meson order_trans)
  next
    case 2
    then show ?thesis using slot_write_elsewhere [OF _ assms(2)] r1 by simp
  qed
qed

text \<open>
  C10: no writer reopens a run. The writers are those of the repository's services and scripts: the triggers, the
  reservations, the refreshes, the reports of the pipelines, the recoveries, the synchronisations of the
  console, the mirror of extraction runs, the operator's reconciliations and the renaming of an entity, and the
  materialisations, which keep their slots in the same table. Whatever they do, in any order and for any
  caller, a row of a run that is there stays there, its status never falls in rank, so a finished run stays
  finished, and its fencing token never falls. The rows of the slots are excepted: their identity begins with
  the prefix of \<open>_slot_id\<close>, and a slot that ended without a durable result is reserved again.
\<close>

theorem no_writer_reopens_a_run:
  assumes "table_step\<^sup>*\<^sup>* table table'" "\<not> is_slot_id run_id" "find_run table run_id = Some r"
  shows "\<exists>r'. find_run table' run_id = Some r' \<and> row_rank r \<le> row_rank r' \<and> rr_token r \<le> rr_token r' \<and>
    (sql_status_text (rr_status r) \<in> set PIPELINE_TERMINAL_STATUSES \<longrightarrow>
     sql_status_text (rr_status r') \<in> set PIPELINE_TERMINAL_STATUSES)"
proof -
  obtain r' where "find_run table' run_id = Some r'" "row_rank r \<le> row_rank r'" "rr_token r \<le> rr_token r'"
    using run_stays [OF assms] by blast
  then show ?thesis by (auto simp: terminal_iff_rank row_rank_def)
qed

lemma find_distinct:
  assumes "distinct (map rr_run_id table)" "List.find P table = Some r" "\<And>r. P r \<Longrightarrow> rr_run_id r = i"
  shows "find_run table i = Some r"
  using assms
proof (induction table)
  case (Cons a table)
  show ?case
  proof (cases "P a")
    case True
    with Cons.prems show ?thesis by (auto simp: find_run_def)
  next
    case False
    then have found: "List.find P table = Some r" using Cons.prems(2) by simp
    then have "r \<in> set table" "P r" by (auto simp: find_Some_iff)
    then have "rr_run_id a \<noteq> i" using Cons.prems(1,3) by (auto simp: image_iff)
    with Cons found show ?thesis by (simp add: find_run_def)
  qed
qed simp

lemma recover_update_closes:
  assumes "recover_update uuid rls now now_text args table = Inr (Some r, table')" "distinct (map rr_run_id table)"
  shows "row_rank r = 60 \<and> rr_token r = ra_token args + 1 \<and> find_run table' (ra_run_id args) = Some r"
proof -
  obtain tenant workspace where
    upd: "Some r = map_option (recover_row args now now_text) (List.find (\<lambda>r. rls r \<and> recover_hits args tenant workspace r) table)"
    and table': "table' = update_runs (\<lambda>r. rls r \<and> recover_hits args tenant workspace r) (recover_row args now now_text) table"
    by (rule recover_cases [OF assms(1)])
  from upd [symmetric] obtain r0 where r0: "List.find (\<lambda>r. rls r \<and> recover_hits args tenant workspace r) table = Some r0"
    "r = recover_row args now now_text r0" unfolding map_option_eq_Some by blast
  then have hit: "rls r0" "recover_hits args tenant workspace r0" by (auto simp: find_Some_iff)
  have "find_run table (ra_run_id args) = Some r0"
    using find_distinct [OF assms(2) r0(1)] by (simp add: recover_hits_def)
  then show ?thesis
    using hit r0(2) recover_row_rank by (simp add: table' find_update_runs recover_hits_def)
qed

text \<open>
  a recovery closes a run at most once for each reading. When the compare-and-swap closed a row, the
  row is now failed (or had a status of the same rank), its token is one higher, and after any further
  steps of any writer a second recovery that still expects the old token finds nothing and changes
  nothing.
\<close>

theorem recovery_closes_once:
  assumes "recover_update uuid rls now now_text args table = Inr (Some r, table1)" "distinct (map rr_run_id table)"
    and "run_step\<^sup>*\<^sup>* table1 table2"
    and "recover_update uuid2 rls2 now2 now_text2 args2 table2 = Inr (updated, table3)"
    and "ra_run_id args2 = ra_run_id args" "ra_token args2 = ra_token args"
  shows "row_rank r = 60 \<and> rr_token r = ra_token args + 1 \<and> find_run table1 (ra_run_id args) = Some r \<and>
    updated = None \<and> table3 = table2"
proof -
  let ?i = "ra_run_id args"
  note closed = recover_update_closes [OF assms(1,2)]
  then have now1: "find_run table1 ?i = Some r" and token: "rr_token r = ra_token args + 1" by simp_all
  obtain r2 where r2: "find_run table2 ?i = Some r2" "ra_token args < rr_token r2"
    using finished_stays [OF assms(3) now1] token by auto
  have "distinct (map rr_run_id table1)"
    using assms(2) step_distinct [OF step_recover [OF assms(1)]] by simp
  then have distinct2: "distinct (map rr_run_id table2)" by (rule steps_distinct [OF assms(3)])
  have none: "\<not> recover_hits args2 t w x" if "x \<in> set table2" for t w x
  proof
    assume "recover_hits args2 t w x"
    then have "rr_run_id x = ?i" "rr_token x = ra_token args" using assms(5,6) by (simp_all add: recover_hits_def)
    moreover have "rr_run_id r2 = ?i" "r2 \<in> set table2"
      by (rule find_run_id [OF r2(1)], rule find_run_set [OF r2(1)])
    ultimately have "x = r2" using distinct2 that by (simp add: distinct_map inj_on_def)
    with \<open>rr_token x = ra_token args\<close> r2(2) show False by simp
  qed
  have "updated = None \<and> table3 = table2"
    by (rule recover_cases [OF assms(4)])
       (use none in \<open>auto simp: update_runs_def find_None_iff intro!: map_idI\<close>)
  then show ?thesis using closed by simp
qed

section \<open>What the digest fixes\<close>

definition planned_entry :: "fromiso \<Rightarrow> pdict \<times> run_verdict \<times> string \<Rightarrow> pdict pyres" where
  \<comment> \<open>\<open>{**plan_entry(row, verdict), "action": action}\<close>\<close>
  "planned_entry fromisoformat p =
     (case p of (row, v, act) \<Rightarrow>
        rbind (plan_entry fromisoformat row v) (\<lambda>e. Inr (dset e ''action'' (PStr act))))"

lemma entry_fields_get [simp]:
  "dget (entry_fields i s t n c a) ''run_id'' = PStr i" "dget (entry_fields i s t n c a) ''status'' = PStr s"
  "dget (entry_fields i s t n c a) ''started_at'' = t" "dget (entry_fields i s t n c a) ''fencing_token'' = PInt n"
  "dget (entry_fields i s t n c a) ''classification'' = PStr c" "dget (entry_fields i s t n c a) ''action'' = PStr a"
  by (simp_all add: entry_fields_def)

lemma entry_fields_inj:
  assumes "sorted_value (PDict (entry_fields i s t n c a)) = sorted_value (PDict (entry_fields i' s' t' n' c' a'))"
    "scalar t \<or> is_str t" "scalar t' \<or> is_str t'"
  shows "entry_fields i s t n c a = entry_fields i' s' t' n' c' a'"
proof -
  have d: "distinct (map fst (entry_fields i s t n c a))" for i s t n c a by (simp add: entry_fields_def)
  note f = sorted_dict_fields [OF d d assms(1)]
  have t: "sorted_value u = u" if "scalar u \<or> is_str u" for u using that by (cases u) simp_all
  have "i = i'" "s = s'" "n = n'" "c = c'" "a = a'" "t = t'"
    using f [of "''run_id''"] f [of "''status''"] f [of "''fencing_token''"] f [of "''classification''"] f [of "''action''"]
      f [of "''started_at''"] t [OF assms(2)] t [OF assms(3)] by simp_all
  then show ?thesis by simp
qed

definition plan_item_ok :: "pdict \<Rightarrow> bool" where
  "plan_item_ok e \<longleftrightarrow> (\<exists>i s t n c a. e = entry_fields i s t n c a \<and> (t = PNone \<or> is_str t))"

lemma plan_item_okI: "t = PNone \<or> is_str t \<Longrightarrow> plan_item_ok (entry_fields i s t n c a)"
  unfolding plan_item_ok_def by blast

lemma planned_entry_ok: "planned_entry fromisoformat p = Inr e \<Longrightarrow> plan_item_ok e"
proof -
  have "dset (entry_fields i s t n c a) ''action'' (PStr b) = entry_fields i s t n c b" for i s t n c a b
    by (simp add: entry_fields_def dset_def)
  then show "planned_entry fromisoformat p = Inr e \<Longrightarrow> plan_item_ok e"
    by (auto simp: planned_entry_def plan_entry_def iso_def rbind_Inr_iff split: prod.splits option.splits
        intro!: plan_item_okI)
qed

lemma canonical_entry_ok: "canonical_entry e = Inr e' \<Longrightarrow> plan_item_ok e \<Longrightarrow> plan_item_ok e'"
  unfolding plan_item_ok_def [of e] by (auto simp: canonical_entry_def intro!: plan_item_okI)

lemma canonical_plan_ok:
  assumes "canonical_plan entries = Inr plan" "\<forall>e\<in>set entries. plan_item_ok e"
  shows "\<forall>e\<in>set plan. plan_item_ok e"
proof -
  obtain es where es: "rmap canonical_entry (filter (\<lambda>e. str_or (dget e ''action'') ACTION_NONE \<noteq> ACTION_NONE) entries) = Inr es"
    and plan: "set plan = set es"
    using assms(1) by (auto simp: canonical_plan_def rbind_Inr_iff)
  have "plan_item_ok x" if "x \<in> set es" for x
    using rmap_Inr_set [OF es that] assms(2) canonical_entry_ok by auto
  then show ?thesis by (simp add: plan)
qed

lemma plan_item_json: "plan_item_ok e \<Longrightarrow> json_value (PDict e)"
  unfolding plan_item_ok_def by (auto simp: entry_fields_def elim!: is_str.elims)

lemma sorted_plan_inj:
  assumes "map (\<lambda>e. sorted_value (PDict e)) xs = map (\<lambda>e. sorted_value (PDict e)) ys"
    "\<forall>e\<in>set xs. plan_item_ok e" "\<forall>e\<in>set ys. plan_item_ok e"
  shows "xs = ys"
proof (rule nth_equalityI)
  show "length xs = length ys" using assms(1) by (rule map_eq_imp_length_eq)
  fix i assume i: "i < length xs"
  then have "sorted_value (PDict (xs ! i)) = sorted_value (PDict (ys ! i))" "plan_item_ok (xs ! i)" "plan_item_ok (ys ! i)"
    using assms by (auto simp: list_eq_iff_nth_eq)
  then show "xs ! i = ys ! i"
    unfolding plan_item_ok_def using entry_fields_inj by (metis scalar.simps(4))
qed

text \<open>
  an approved digest fixes the plan. With a hash that does not collide, two plans with the same
  digest name the same runs with the same status, start, fencing token, class and action, whatever else
  was looked at; entries without an action do not count.
\<close>

theorem digest_fixes_plan:
  assumes "rmap (planned_entry fromisoformat) plan1 = Inr entries1" "rmap (planned_entry fromisoformat2) plan2 = Inr entries2"
    and "plan_digest sha256 entries1 = Inr digest" "plan_digest sha256 entries2 = Inr digest" "inj sha256"
  shows "\<exists>plan. canonical_plan entries1 = Inr plan \<and> canonical_plan entries2 = Inr plan"
proof -
  have ok: "\<forall>e\<in>set entries. plan_item_ok e" if "rmap (planned_entry f) p = Inr entries" for f p entries
    using rmap_Inr_set [OF that] planned_entry_ok by blast
  obtain c1 t1 where c1: "canonical_plan entries1 = Inr c1" "json_sorted True (PList (map PDict c1)) = Inr t1" "sha256 t1 = digest"
    using assms(3) by (auto simp: plan_digest_def rbind_Inr_iff)
  obtain c2 t2 where c2: "canonical_plan entries2 = Inr c2" "json_sorted True (PList (map PDict c2)) = Inr t2" "sha256 t2 = digest"
    using assms(4) by (auto simp: plan_digest_def rbind_Inr_iff)
  note ok1 = canonical_plan_ok [OF c1(1) ok [OF assms(1)]] and ok2 = canonical_plan_ok [OF c2(1) ok [OF assms(2)]]
  have json: "json_value (PList (map PDict c))" if "\<forall>e\<in>set c. plan_item_ok e" for c
    using that plan_item_json by (simp add: json_values_all list_all_iff)
  have "t1 = t2" using assms(5) c1(3) c2(3) by (auto dest: injD)
  then have "sorted_value (PList (map PDict c1)) = sorted_value (PList (map PDict c2))"
    using json_sorted_inj [OF json [OF ok1] json [OF ok2], of True] c1(2) c2(2) by simp
  moreover have "sorted_values xs = map sorted_value xs" for xs by (induction xs) simp_all
  ultimately have "c1 = c2" using sorted_plan_inj [OF _ ok1 ok2] by (simp add: comp_def)
  with c1(1) c2(1) show ?thesis by blast
qed

section \<open>Waiting states that a refresh cannot close\<close>

text \<open>
  the refresh of a row from Airflow leaves a run alone that waits as scheduled or for a retry, even
  when Airflow reports its end: the statement compares the stored status with its reduction to unknown.
  The row it returns still has the waiting status, so the recovery, which takes such runs as candidates,
  cannot synchronise them.
\<close>

theorem waiting_run_is_not_refreshed:
  assumes "find_run table run_id = Some r" "distinct (map rr_run_id table)" "rr_status r \<in> {Some ''scheduled'', Some ''up_for_retry''}"
    and "refresh_dag_run_status fromisoformat seconds_repr uuid rls env (candidate_row r) table = Inr (row', table')"
  shows "table' = table \<and> dget row' ''status'' = opt_text (rr_status r)"
proof -
  let ?row = "candidate_row r"
  have id: "rr_run_id r = run_id" "r \<in> set table" using assms(1) find_run_id find_run_set by blast+
  have row: "dget ?row ''status'' = opt_text (rr_status r)" "dget ?row ''run_id'' = PStr run_id"
    by (simp_all add: candidate_row_def id(1))
  have norm: "normalize_airflow_state (dget ?row ''status'') = Inr ''unknown''"
    using assms(3) row(1) by (auto simp: normalize_airflow_state_def py_or_def opt_text_def str_eval)
  have cases: "(row' = ?row \<and> table' = table) \<or> (\<exists>observed new_status started finished duration.
      persist_refresh uuid rls env ?row ''unknown'' observed new_status started finished duration table = Inr (row', table'))"
  proof (rule refresh_cases [OF assms(4)])
    fix st observed started finished duration
    assume "normalize_airflow_state (dget ?row ''status'') = Inr st"
      and persist: "persist_refresh uuid rls env ?row st observed (advance_pipeline_status (PStr st) (PStr observed)) started
        finished duration table = Inr (row', table')"
    with norm have "st = ''unknown''" by simp
    with persist show ?thesis by blast
  qed blast
  have no_hit: "List.find (\<lambda>x. rls x \<and> rr_run_id x = run_id \<and> in_scope scope x \<and>
      sql_status_text (rr_status x) = lower ''unknown'') table = None" for scope
  proof -
    have "sql_status_text (rr_status x) \<noteq> lower ''unknown''" if "x \<in> set table" "rr_run_id x = run_id" for x
    proof -
      have "x = r" using assms(2) that id by (simp add: distinct_map inj_on_def)
      then show ?thesis using assms(3) by (auto simp: sql_status_text_def str_eval)
    qed
    then show ?thesis by (auto simp: find_None_iff)
  qed
  have seen: "dget (full_row y) ''status'' = opt_text (rr_status r)"
    if "List.find (\<lambda>x. rls x \<and> rr_run_id x = run_id \<and> in_scope scope x) table = Some y" for scope y
  proof -
    have "y \<in> set table" "rr_run_id y = run_id" using that by (auto simp: find_Some_iff)
    then have "y = r" using assms(2) id by (simp add: distinct_map inj_on_def)
    then show ?thesis by (simp add: full_row_def candidate_row_def)
  qed
  show ?thesis
    using cases
  proof (elim disjE exE)
    fix observed new_status started finished duration
    assume "persist_refresh uuid rls env ?row ''unknown'' observed new_status started finished duration table = Inr (row', table')"
    then show ?thesis
      using no_hit seen row by (auto simp: persist_refresh_def rbind_Inr_iff Let_def split: if_splits option.splits)
  qed (use row in simp)
qed

section \<open>Witnesses\<close>

definition sample_run :: pipeline_row where
  "sample_run = \<lparr>rr_run_id = ''r1'', rr_dag_id = ''crm_extract'', rr_cartridge = ''crm'', rr_entity = ''deals'',
     rr_airflow = Some ''a1'', rr_mode = None, rr_status = Some ''running'', rr_started = Some 0, rr_finished = None,
     rr_duration = PNone, rr_record_count = PNone, rr_bytes_written = PNone, rr_storage_uri = None, rr_watermark = None,
     rr_error = None, rr_extra = None, rr_tenant = Some ''t'', rr_workspace = Some ''w'', rr_project = None, rr_token = 3,
     rr_lease = None\<rparr>"

definition gone_truth :: airflow_run_truth where
  "gone_truth = \<lparr>found = Some False, state = None, queued_at = None, start_date = None, end_date = None,
     active_tasks = None, last_task_activity_at = None, dag_found = Some True, dag_paused = Some False,
     schedule_kind = None, sibling_running = None, scheduler_healthy = Some True, truth_error = None\<rparr>"

definition gone_verdict :: run_verdict where
  "gone_verdict = verdict MISSING_IN_AIRFLOW [] ACTION_MARK_FAILED False True"

lemma gone_classified:
  "classify_stuck_run (\<lambda>_. None) (\<lambda>_. None) (candidate_row sample_run) (Some gone_truth) 3600000000 DEFAULT_THRESHOLD
     DEFAULT_MISSING_GRACE = Inr gone_verdict"
proof -
  have pre: "pre_airflow_verdict (candidate_row sample_run) = None" by code_simp
  have "age (\<lambda>_. None) 3600000000 (dget (candidate_row sample_run) ''started_at'') = Inr (Some 3600000000)" by code_simp
  then show ?thesis
    using pre
    by (simp add: classify_stuck_run_def classify_unfinished_def unreliable_def gone_truth_def gone_verdict_def
        younger_def DEFAULT_THRESHOLD_def DEFAULT_MISSING_GRACE_def)
qed

theorem giving_up_needs_evidence_witness:
  "stuck_evidence (\<lambda>_. None) (\<lambda>_. None) (candidate_row sample_run) gone_truth 3600000000 DEFAULT_THRESHOLD
     DEFAULT_MISSING_GRACE \<and> \<not> neutralize_airflow gone_verdict"
  using giving_up_needs_evidence [OF gone_classified] by (simp add: gone_verdict_def)

definition recover_sample :: recover_args where
  "recover_sample = \<lparr>ra_run_id = ''r1'', ra_tenant = ''t'', ra_workspace = ''w'', ra_status = ''running'',
     ra_started = Some 0, ra_token = 3, ra_reconciliation = [], ra_recovery = [], ra_message = ''m''\<rparr>"

lemma recover_sample:
  "recover_update Some (\<lambda>_. True) 7 ''now'' recover_sample [sample_run] =
     Inr (Some (recover_row recover_sample 7 ''now'' sample_run), [recover_row recover_sample 7 ''now'' sample_run])"
  by (simp add: recover_update_def recover_hits_def recover_sample_def sample_run_def update_runs_def sql_status_text_def
      str_eval Let_def)

definition slot_sample :: pipeline_row where
  "slot_sample = sample_run\<lparr>rr_run_id := slot_id (\<lambda>_. ''d'') ''a'' ''t'' ''w'' ''sales''\<rparr>"

theorem no_writer_reopens_a_run_witness:
  "\<exists>r. find_run ([recover_row recover_sample 7 ''now'' sample_run] @ [slot_sample]) ''r1'' = Some r \<and>
     20 \<le> row_rank r \<and> 3 \<le> rr_token r"
proof -
  have "table_step [sample_run] [recover_row recover_sample 7 ''now'' sample_run]"
    using step_recover [OF recover_sample] by (rule table_step.intros(1))
  moreover have "slot_write [recover_row recover_sample 7 ''now'' sample_run]
      ([recover_row recover_sample 7 ''now'' sample_run] @ [slot_sample])"
    by (rule slot_insert [of _ "\<lambda>_. ''d''" "''a''" "''t''" "''w''" "''sales''"]) (simp add: slot_sample_def)
  ultimately have steps: "table_step\<^sup>*\<^sup>* [sample_run] ([recover_row recover_sample 7 ''now'' sample_run] @ [slot_sample])"
    by (meson rtranclp.rtrancl_into_rtrancl rtranclp.rtrancl_refl table_step.intros(2))
  have "\<not> is_slot_id ''r1''" by (simp add: is_slot_id_def)
  moreover have "find_run [sample_run] ''r1'' = Some sample_run" by (simp add: find_run_def sample_run_def)
  moreover have "row_rank sample_run = 20" "rr_token sample_run = 3" by code_simp+
  ultimately show ?thesis using no_writer_reopens_a_run [OF steps] by fastforce
qed

lemma recover_sample_again:
  "\<exists>updated table. recover_update Some (\<lambda>_. True) 9 ''later'' recover_sample [recover_row recover_sample 7 ''now'' sample_run] =
     Inr (updated, table)"
  by (simp add: recover_update_def recover_sample_def Let_def)

theorem recovery_closes_once_witness:
  "\<exists>updated table. recover_update Some (\<lambda>_. True) 9 ''later'' recover_sample [recover_row recover_sample 7 ''now'' sample_run] =
     Inr (updated, table) \<and> updated = None \<and> table = [recover_row recover_sample 7 ''now'' sample_run]"
proof -
  obtain updated table where again:
    "recover_update Some (\<lambda>_. True) 9 ''later'' recover_sample [recover_row recover_sample 7 ''now'' sample_run] =
       Inr (updated, table)" using recover_sample_again by blast
  with recovery_closes_once [OF recover_sample _ rtranclp.rtrancl_refl again refl refl] show ?thesis by simp
qed

definition plan_a :: "(pdict \<times> run_verdict \<times> string) list" where
  "plan_a = [(candidate_row sample_run, gone_verdict, ACTION_MARK_FAILED)]"

definition plan_b :: "(pdict \<times> run_verdict \<times> string) list" where
  "plan_b = (candidate_row sample_run, plain LIVE, ACTION_NONE) # plan_a"

definition entry_a :: pdict where
  "entry_a = entry_fields ''r1'' ''running'' (PStr (isoformat 0 (Some 0))) 3 MISSING_IN_AIRFLOW ACTION_MARK_FAILED"

lemma plan_entries:
  "rmap (planned_entry (\<lambda>_. None)) plan_a = Inr [entry_a]"
  "rmap (planned_entry (\<lambda>_. None)) plan_b =
     Inr [entry_fields ''r1'' ''running'' (PStr (isoformat 0 (Some 0))) 3 LIVE ACTION_NONE, entry_a]"
  by code_simp+

lemma plan_canonical:
  "canonical_plan [entry_a] = Inr [entry_a]"
  "canonical_plan [entry_fields ''r1'' ''running'' (PStr (isoformat 0 (Some 0))) 3 LIVE ACTION_NONE, entry_a] = Inr [entry_a]"
  by code_simp+

lemma plan_digests:
  "plan_digest id [entry_a] = Inr (json_text True (sorted_value (PList [PDict entry_a])))"
  "plan_digest id [entry_fields ''r1'' ''running'' (PStr (isoformat 0 (Some 0))) 3 LIVE ACTION_NONE, entry_a] =
     Inr (json_text True (sorted_value (PList [PDict entry_a])))"
proof -
  have "json_value (PList [PDict entry_a])" by (simp add: entry_a_def entry_fields_def)
  then have "json_sorted True (PList [PDict entry_a]) = Inr (json_text True (sorted_value (PList [PDict entry_a])))"
    by (rule json_sorted_text(1))
  then show "plan_digest id [entry_a] = Inr (json_text True (sorted_value (PList [PDict entry_a])))"
    "plan_digest id [entry_fields ''r1'' ''running'' (PStr (isoformat 0 (Some 0))) 3 LIVE ACTION_NONE, entry_a] =
     Inr (json_text True (sorted_value (PList [PDict entry_a])))"
    by (simp_all add: plan_digest_def plan_canonical)
qed

theorem digest_fixes_plan_witness:
  "\<exists>plan. canonical_plan [entry_a] = Inr plan \<and>
     canonical_plan [entry_fields ''r1'' ''running'' (PStr (isoformat 0 (Some 0))) 3 LIVE ACTION_NONE, entry_a] = Inr plan"
  by (rule digest_fixes_plan [OF plan_entries plan_digests inj_on_id])

definition waiting_run :: pipeline_row where
  "waiting_run = sample_run\<lparr>rr_status := Some ''scheduled''\<rparr>"

definition waiting_env :: refresh_env where
  "waiting_env = \<lparr>re_answer = Inr (pdict_of [(''found'', PBool True), (''state'', PStr ''success'')]), re_context = [],
     re_database = True, re_now = ''now''\<rparr>"

theorem waiting_run_is_not_refreshed_witness:
  "\<exists>row. refresh_dag_run_status (\<lambda>_. None) (\<lambda>_. []) Some (\<lambda>_. True) waiting_env (candidate_row waiting_run) [waiting_run] =
     Inr (row, [waiting_run]) \<and> dget row ''status'' = PStr ''scheduled''"
proof -
  let ?run = "refresh_dag_run_status (\<lambda>_. None) (\<lambda>_. []) Some (\<lambda>_. True) waiting_env (candidate_row waiting_run) [waiting_run]"
  have "\<not> isl ?run" by code_simp
  then obtain row table where run: "?run = Inr (row, table)" by (cases ?run) auto
  have "find_run [waiting_run] ''r1'' = Some waiting_run" by (simp add: find_run_def waiting_run_def sample_run_def)
  from waiting_run_is_not_refreshed [OF this _ _ run] run show ?thesis
    by (simp add: waiting_run_def opt_text_def)
qed

end
