(* ===== verification/Recovery_Observe.thy ===== *)
theory Recovery_Observe
  imports Stuck_Recovery
begin

text \<open>
  Recovery of stuck runs, what it looks at: the reading half of
  \<open>console/app/domains/pipeline/stuck_run_recovery_service.py\<close>.

  The unfinished runs of a workspace are read from the table (\<open>load_recovery_candidates\<close>), each is observed
  in Airflow (\<open>observe_airflow_truth\<close>), and runs that Airflow holds although the console has closed them are
  looked for (\<open>find_airflow_orphans\<close>). What the infrastructure service answered, which calls took too long
  and what other writers did in between is a \<open>recovery_env\<close>. Observations of several runs are taken at once
  in the code; they only read, so their order does not matter.

  The theorem: an orphan is a run of a paused process, pending for longer than the threshold, all of whose
  rows in the console are finished.
\<close>

section \<open>Reading the candidates\<close>

definition MAX_ORPHAN_DAGS :: nat where "MAX_ORPHAN_DAGS = 40"
definition PENDING_AIRFLOW_STATES :: "string list" where "PENDING_AIRFLOW_STATES = [''queued'', ''running'']"

definition user_scope :: "pdict option \<Rightarrow> http_error + string \<times> string" where
  "user_scope user =
     (let data = (case user of None \<Rightarrow> [] | Some d \<Rightarrow> d);
          tenant = strip (py_str (py_or (py_or (dget data ''active_tenant_id'') (dget data ''tenant_id'')) (PStr [])));
          workspace = strip (py_str (py_or (py_or (dget data ''active_workspace_id'') (dget data ''workspace_id'')) (PStr [])))
      in if tenant = [] \<or> workspace = [] then Inl (HTTPException 403 ''active tenant/workspace is required'')
         else Inr (tenant, workspace))"

record run_query =
  rq_cartridge :: string
  rq_dag_ids :: "string list"
  rq_exclude :: "string list"
  rq_max_age :: int
  rq_visible :: "string list option"

definition query_matches :: "run_query \<Rightarrow> pipeline_row \<Rightarrow> bool" where
  \<comment> \<open>the clauses on the cartridge and the DAG\<close>
  "query_matches q r \<longleftrightarrow>
     (rq_cartridge q = [] \<or> rr_cartridge r = rq_cartridge q) \<and>
     (case rq_visible q of None \<Rightarrow> True | Some cs \<Rightarrow> rr_cartridge r \<in> set cs) \<and>
     (rq_dag_ids q = [] \<or> rr_dag_id r \<in> set (rq_dag_ids q))"

definition oldest_first :: "(string \<Rightarrow> string) \<Rightarrow> pipeline_row \<Rightarrow> (int \<times> int) \<times> string" where
  \<comment> \<open>\<open>ORDER BY started_at ASC NULLS FIRST, run_id ASC\<close>; \<open>collate\<close> is the collation of the database\<close>
  "oldest_first collate r = (case rr_started r of None \<Rightarrow> (0, 0) | Some t \<Rightarrow> (1, t), collate (rr_run_id r))"

definition scope_uuids :: "(string \<Rightarrow> string option) \<Rightarrow> string \<Rightarrow> string \<Rightarrow> (string \<times> string) pyres" where
  "scope_uuids uuid tenant workspace =
     (case (uuid tenant, uuid workspace) of (Some t, Some w) \<Rightarrow> Inr (t, w) | _ \<Rightarrow> Inl (DatabaseError ''DataError''))"

definition load_recovery_candidates ::
    "(string \<Rightarrow> string) \<Rightarrow> (pipeline_row \<Rightarrow> bool) \<Rightarrow> int \<Rightarrow> string \<times> string \<Rightarrow> run_query \<Rightarrow> int \<Rightarrow> run_table \<Rightarrow> pipeline_row list" where
  "load_recovery_candidates collate rls now scope q limit table =
     take (nat (max 1 limit + 1)) (sort_key (oldest_first collate) (filter (\<lambda>r.
       rls r \<and> in_scope (Some scope) r \<and> sql_status_text (rr_status r) \<in> set CANDIDATE_STATUSES \<and> query_matches q r \<and>
       rr_run_id r \<notin> set (rq_exclude q) \<and>
       (rq_max_age q = 0 \<or> (case rr_started r of None \<Rightarrow> False | Some t \<Rightarrow> t > now - rq_max_age q * 1000000))) table))"

definition load_orphan_dag_ids ::
    "(string \<Rightarrow> string) \<Rightarrow> (pipeline_row \<Rightarrow> bool) \<Rightarrow> string \<times> string \<Rightarrow> run_query \<Rightarrow> run_table \<Rightarrow> string list" where
  "load_orphan_dag_ids collate rls scope q table =
     take MAX_ORPHAN_DAGS (filter manual_trigger_dag (sort_key collate (remdups (map rr_dag_id
       (filter (\<lambda>r. rls r \<and> in_scope (Some scope) r \<and> query_matches q r) table)))))"

section \<open>Observing Airflow\<close>

text \<open>
  An answer of the infrastructure service is the name of the exception that the call raised, or a value.
\<close>

type_synonym tool_answer = "string + pv"

definition describe_result :: "tool_answer \<Rightarrow> pdict" where
  "describe_result a =
     (case a of
        Inl name \<Rightarrow> pdict_of [(''error'', PStr name)]
      | Inr (PDict d) \<Rightarrow> d
      | Inr _ \<Rightarrow> pdict_of [(''error'', PStr ''invalid_payload'')])"

definition dict_items :: "pv \<Rightarrow> pdict list pyres" where
  \<comment> \<open>\<open>[x for x in (value or []) if isinstance(x, dict)]\<close>\<close>
  "dict_items v = (if truthy v then rbind (py_iter v) (\<lambda>xs. Inr (List.map_filter as_dict xs)) else Inr [])"

definition describe_runs :: "pdict \<Rightarrow> pdict list pyres" where
  "describe_runs payload = dict_items (dget payload ''runs'')"

definition foreign_running :: "pdict \<Rightarrow> int pyres" where
  "foreign_running payload =
     (case dget payload ''foreign'' of
        PDict foreign \<Rightarrow>
          (case int_or0 (dget foreign ''running'') of
             Inr n \<Rightarrow> Inr (max 0 n)
           | Inl TypeError \<Rightarrow> Inr 0
           | Inl (ValueError m) \<Rightarrow> Inr 0
           | Inl e \<Rightarrow> Inl e)
      | _ \<Rightarrow> Inr 0)"

definition latest_task_activity :: "fromiso \<Rightarrow> pdict list \<Rightarrow> int option pyres" where
  "latest_task_activity fromisoformat tasks =
     rbind (rmap (as_utc_datetime fromisoformat)
       (concat (map (\<lambda>task. [dget task ''start_date'', dget task ''end_date'']) tasks))) (\<lambda>moments.
       Inr (case List.map_filter (\<lambda>m. m) moments of [] \<Rightarrow> None | ts \<Rightarrow> Some (Max (set ts))))"

definition lower_state :: "pdict \<Rightarrow> string" where
  \<comment> \<open>\<open>str(x.get("state") or "").lower()\<close>\<close>
  "lower_state d = lower (str_or (dget d ''state'') [])"

definition task_activity :: "fromiso \<Rightarrow> tool_answer \<Rightarrow> (int option \<times> int option) pyres" where
  "task_activity fromisoformat answer =
     (case answer of
        Inr (PDict payload) \<Rightarrow>
          if truthy (dget payload ''error'') then Inr (None, None)
          else rbind (dict_items (dget payload ''tasks'')) (\<lambda>tasks.
               rbind (latest_task_activity fromisoformat tasks) (\<lambda>latest.
                 Inr (Some (int (length (filter (\<lambda>task. lower_state task \<in> set ACTIVE_TASK_STATES) tasks))), latest)))
      | _ \<Rightarrow> Inr (None, None))"

definition no_truth :: "string \<Rightarrow> airflow_run_truth" where
  "no_truth err =
     \<lparr>found = None, state = None, queued_at = None, start_date = None, end_date = None, active_tasks = None,
      last_task_activity_at = None, dag_found = None, dag_paused = None, schedule_kind = None, sibling_running = None,
      scheduler_healthy = None, truth_error = Some err\<rparr>"

definition opt_bool :: "pv \<Rightarrow> bool option" where
  \<comment> \<open>\<open>bool(v) if v is not None else None\<close>\<close>
  "opt_bool v = (if v = PNone then None else Some (truthy v))"

definition sibling_of :: "pdict \<Rightarrow> pdict list \<Rightarrow> string \<Rightarrow> bool option pyres" where
  \<comment> \<open>another run of the DAG is running; unknown when the listing was cut\<close>
  "sibling_of dag own_runs dag_run_id =
     rbind (foreign_running dag) (\<lambda>foreign.
       let sibling = foreign > 0 \<or>
             list_ex (\<lambda>run. lower_state run = ''running'' \<and> dget run ''dag_run_id'' \<noteq> PStr dag_run_id) own_runs
       in Inr (if \<not> sibling \<and> truthy (dget dag ''running_truncated'') then None else Some sibling))"

definition observe_run :: "fromiso \<Rightarrow> pdict \<Rightarrow> tool_answer \<Rightarrow> tool_answer \<Rightarrow> string \<Rightarrow> airflow_run_truth pyres" where
  "observe_run fromisoformat dag status_answer tasks_answer dag_run_id =
     (case status_answer of
        Inl name \<Rightarrow> Inr (no_truth name)
      | Inr (PDict status) \<Rightarrow>
          if truthy (dget status ''error'') then Inr (no_truth ''airflow_status_unavailable'')
          else let st = lower (strip (str_or (dget status ''state'') []));
                   seen = (if dget status ''found'' = PNone then st \<noteq> [] \<and> st \<noteq> ''not_found'' else truthy (dget status ''found''));
                   dag_ok = \<not> truthy (dget dag ''error'')
               in rbind (if dag_ok then describe_runs dag else Inr []) (\<lambda>own_runs.
                  rbind (if dag_ok then sibling_of dag own_runs dag_run_id else Inr None) (\<lambda>sibling.
                  rbind (if seen \<and> st = ''running'' then task_activity fromisoformat tasks_answer else Inr (None, None)) (\<lambda>activity.
                  rbind (as_utc_datetime fromisoformat
                    (case List.find (\<lambda>run. dget run ''dag_run_id'' = PStr dag_run_id) own_runs of
                       None \<Rightarrow> PNone | Some run \<Rightarrow> dget run ''queued_at'')) (\<lambda>queued.
                  rbind (as_utc_datetime fromisoformat (dget status ''start_date'')) (\<lambda>started.
                  rbind (as_utc_datetime fromisoformat (dget status ''end_date'')) (\<lambda>ended.
                  Inr \<lparr>found = Some seen, state = (if st = [] then None else Some st), queued_at = queued,
                       start_date = started, end_date = ended, active_tasks = fst activity,
                       last_task_activity_at = snd activity,
                       dag_found = (if dag_ok then Some (truthy (dget dag ''found'')) else None),
                       dag_paused = (if dag_ok then opt_bool (dget dag ''is_paused'') else None),
                       schedule_kind = (if dag_ok then Some (py_str (dget dag ''schedule_kind'')) else None),
                       sibling_running = sibling,
                       scheduler_healthy = (if dag_ok then opt_bool (dget dag ''scheduler_healthy'') else None),
                       truth_error = None\<rparr>))))))
      | Inr _ \<Rightarrow> Inr (no_truth ''airflow_status_unavailable''))"

record recovery_env =
  ro_database :: bool
  ro_describe :: "string \<Rightarrow> tool_answer option"
  ro_status :: "string \<Rightarrow> tool_answer"
  ro_tasks :: "string \<Rightarrow> tool_answer"
  ro_timeout :: "string \<Rightarrow> bool"
  ro_describe_again :: "string \<Rightarrow> tool_answer"
  ro_orphan_tasks :: "string \<Rightarrow> tool_answer"
  ro_orphan_timeout :: bool
  ro_between :: "run_table \<Rightarrow> run_table"

definition row_id :: "pdict \<Rightarrow> string" where
  "row_id row = str_or (dget row ''run_id'') []"

definition row_dag :: "pdict \<Rightarrow> string" where
  "row_dag row = str_or (dget row ''dag_id'') []"

definition row_airflow :: "pdict \<Rightarrow> string" where
  "row_airflow row = str_or (dget row ''airflow_dag_run_id'') []"

definition observe_bounded :: "fromiso \<Rightarrow> recovery_env \<Rightarrow> pdict \<Rightarrow> airflow_run_truth pyres" where
  \<comment> \<open>a description that did not come in time holds up the observations of its runs\<close>
  "observe_bounded fromisoformat env row =
     (case ro_describe env (row_dag row) of
        None \<Rightarrow> Inr (no_truth ''timeout'')
      | Some a \<Rightarrow>
          if ro_timeout env (row_id row) then Inr (no_truth ''timeout'')
          else observe_run fromisoformat (describe_result a) (ro_status env (row_id row)) (ro_tasks env (row_id row))
            (row_airflow row))"

definition observe_airflow_truth :: "fromiso \<Rightarrow> recovery_env \<Rightarrow> pdict list \<Rightarrow> (string \<times> airflow_run_truth) list pyres" where
  \<comment> \<open>a dictionary: the last truth of a key counts\<close>
  "observe_airflow_truth fromisoformat env rows =
     rbind (rmap (observe_bounded fromisoformat env) rows) (\<lambda>truths. Inr (rev (zip (map row_id rows) truths)))"

section \<open>Orphans\<close>

definition pending_age :: "fromiso \<Rightarrow> pdict \<Rightarrow> int \<Rightarrow> int option pyres" where
  "pending_age fromisoformat run now =
     rbind (as_utc_datetime fromisoformat (dget run ''queued_at'')) (\<lambda>queued.
       case queued of
         Some t \<Rightarrow> Inr (Some (now - t))
       | None \<Rightarrow> rbind (as_utc_datetime fromisoformat (dget run ''start_date'')) (\<lambda>started. Inr (map_option (\<lambda>t. now - t) started)))"

type_synonym pending = "(string \<times> string \<times> pdict \<times> pdict) list"

definition pending_run ::
    "fromiso \<Rightarrow> int \<Rightarrow> int \<Rightarrow> string list \<Rightarrow> string \<Rightarrow> pdict \<Rightarrow> pending \<Rightarrow> pdict \<Rightarrow> pending pyres" where
  "pending_run fromisoformat now threshold skip dag_id dag pending run =
     (let run_id = str_or (dget run ''dag_run_id'') []
      in rbind (pending_age fromisoformat run now) (\<lambda>a.
         Inr (if run_id \<noteq> [] \<and> lower_state run \<in> set PENDING_AIRFLOW_STATES \<and> run_id \<notin> set skip \<and>
                 (case a of None \<Rightarrow> False | Some t \<Rightarrow> t \<ge> threshold)
              then AList.update run_id (dag_id, run, dag) pending else pending)))"

definition dag_description :: "recovery_env \<Rightarrow> string list \<Rightarrow> string \<Rightarrow> pdict option" where
  \<comment> \<open>what the observations already know of the DAG, or a new call; \<open>None\<close> adds no orphans\<close>
  "dag_description env described dag_id =
     (case (if dag_id \<in> set described then ro_describe env dag_id else None) of
        Some a \<Rightarrow> Some (describe_result a)
      | None \<Rightarrow> (case ro_describe_again env dag_id of Inr (PDict d) \<Rightarrow> Some d | _ \<Rightarrow> None))"

definition pending_dag ::
    "fromiso \<Rightarrow> recovery_env \<Rightarrow> int \<Rightarrow> int \<Rightarrow> string list \<Rightarrow> string list \<Rightarrow> pending \<Rightarrow> string \<Rightarrow> pending pyres" where
  "pending_dag fromisoformat env now threshold skip described pending dag_id =
     (case dag_description env described dag_id of
        None \<Rightarrow> Inr pending
      | Some dag \<Rightarrow>
          if truthy (dget dag ''error'') \<or> dget dag ''is_paused'' \<noteq> PBool True then Inr pending
          else rbind (describe_runs dag) (\<lambda>runs.
            rfold (pending_run fromisoformat now threshold skip dag_id dag) pending runs))"

definition orphan_rows ::
    "(string \<Rightarrow> string) \<Rightarrow> (pipeline_row \<Rightarrow> bool) \<Rightarrow> string \<times> string \<Rightarrow> run_query \<Rightarrow> pending \<Rightarrow> run_table \<Rightarrow> pdict list" where
  "orphan_rows collate rls scope q pending table =
     map candidate_row (sort_key (oldest_first collate) (filter (\<lambda>r. rls r \<and> in_scope (Some scope) r \<and>
       rr_dag_id r \<in> set (map (\<lambda>p. fst (snd p)) pending) \<and>
       (case rr_airflow r of None \<Rightarrow> False | Some a \<Rightarrow> a \<in> set (map fst pending)) \<and>
       (case rq_visible q of None \<Rightarrow> True | Some cs \<Rightarrow> rr_cartridge r \<in> set cs)) table))"

definition orphan_truth ::
    "fromiso \<Rightarrow> string \<Rightarrow> pdict \<Rightarrow> pdict \<Rightarrow> int option \<times> int option \<Rightarrow> airflow_run_truth pyres" where
  "orphan_truth fromisoformat st run dag activity =
     rbind (as_utc_datetime fromisoformat (dget run ''queued_at'')) (\<lambda>queued.
     rbind (as_utc_datetime fromisoformat (dget run ''start_date'')) (\<lambda>started.
       Inr \<lparr>found = Some True, state = Some st, queued_at = queued, start_date = started, end_date = None,
            active_tasks = fst activity, last_task_activity_at = snd activity, dag_found = Some True,
            dag_paused = Some True,
            schedule_kind = (let k = str_or (dget dag ''schedule_kind'') [] in if k = [] then None else Some k),
            sibling_running = None, scheduler_healthy = opt_bool (dget dag ''scheduler_healthy''), truth_error = None\<rparr>))"

definition orphan_of ::
    "fromiso \<Rightarrow> recovery_env \<Rightarrow> int \<Rightarrow> int \<Rightarrow> string list \<Rightarrow> pending \<Rightarrow> pdict list \<Rightarrow> string \<Rightarrow>
     (pdict \<times> airflow_run_truth) option pyres" where
  \<comment> \<open>\<open>console_rows\<close>: the rows of one Airflow run\<close>
  "orphan_of fromisoformat env now threshold exclude pending rows airflow_id =
     (let console_rows = filter (\<lambda>row. row_airflow row = airflow_id) rows
      in if list_ex (\<lambda>row. normalize_pipeline_status (dget row ''status'') \<notin> set PIPELINE_TERMINAL_STATUSES) console_rows
         then Inr None
         else let row = (case List.find (\<lambda>row. py_str (dget row ''run_id'') = airflow_id) console_rows of
                           Some r \<Rightarrow> r | None \<Rightarrow> hd console_rows)
              in if row_id row \<in> set exclude then Inr None
                 else case map_of pending airflow_id of
                   None \<Rightarrow> Inl (KeyError airflow_id)
                 | Some (dag_id, run, dag) \<Rightarrow>
                     let st = lower_state run in
                     rbind (if st = ''running'' then task_activity fromisoformat (ro_orphan_tasks env airflow_id)
                            else Inr (None, None)) (\<lambda>activity.
                     rbind (orphan_truth fromisoformat st run dag activity) (\<lambda>truth.
                       if st = ''running'' then
                         rbind (running_liveness fromisoformat truth now threshold (dget row ''started_at'')) (\<lambda>liveness.
                           Inr (if liveness = STALLED_RUNNING_NO_TASKS then Some (row, truth) else None))
                       else Inr (Some (row, truth)))))"

definition find_airflow_orphans ::
    "fromiso \<Rightarrow> (string \<Rightarrow> string) \<Rightarrow> (pipeline_row \<Rightarrow> bool) \<Rightarrow> recovery_env \<Rightarrow> string \<times> string \<Rightarrow> run_query \<Rightarrow> int \<Rightarrow> int \<Rightarrow>
     string list \<Rightarrow> string list \<Rightarrow> string list \<Rightarrow> run_table \<Rightarrow> (pdict \<times> airflow_run_truth) list pyres" where
  "find_airflow_orphans fromisoformat collate rls env scope q now threshold dag_ids described skip table =
     rbind (rfold (pending_dag fromisoformat env now threshold skip described) [] dag_ids) (\<lambda>pending.
       if pending = [] then Inr []
       else let rows = orphan_rows collate rls scope q pending table;
                airflow_ids = rev (remdups (rev (map row_airflow rows)))
            in rbind (rmap (orphan_of fromisoformat env now threshold (rq_exclude q) pending rows) airflow_ids) (\<lambda>found.
                 Inr (List.map_filter (\<lambda>x. x) found)))"

section \<open>What an orphan is\<close>

definition pending_ok :: "fromiso \<Rightarrow> int \<Rightarrow> int \<Rightarrow> string list \<Rightarrow> string \<times> string \<times> pdict \<times> pdict \<Rightarrow> bool" where
  \<comment> \<open>a run that Airflow lists as pending in a paused process, for longer than the threshold\<close>
  "pending_ok fromisoformat now threshold skip entry =
     (case entry of (run_id, dag_id, run, dag) \<Rightarrow>
        dget dag ''is_paused'' = PBool True \<and> str_or (dget run ''dag_run_id'') [] = run_id \<and> run_id \<noteq> [] \<and> run_id \<notin> set skip \<and>
        lower_state run \<in> set PENDING_AIRFLOW_STATES \<and>
        (\<exists>a. pending_age fromisoformat run now = Inr (Some a) \<and> threshold \<le> a))"

lemma update_ok: "\<forall>e\<in>set xs. P e \<Longrightarrow> P (k, v) \<Longrightarrow> \<forall>e\<in>set (AList.update k v xs). P e"
  by (induction xs) auto

lemma pending_run_ok:
  assumes "pending_run fromisoformat now threshold skip dag_id dag pending run = Inr pending'" "dget dag ''is_paused'' = PBool True"
    and "\<forall>e\<in>set pending. pending_ok fromisoformat now threshold skip e"
  shows "\<forall>e\<in>set pending'. pending_ok fromisoformat now threshold skip e"
proof -
  obtain a where a: "pending_age fromisoformat run now = Inr a"
    using assms(1) by (auto simp: pending_run_def Let_def rbind_Inr_iff)
  let ?i = "str_or (dget run ''dag_run_id'') []"
  show ?thesis
  proof (cases "?i \<noteq> [] \<and> lower_state run \<in> set PENDING_AIRFLOW_STATES \<and> ?i \<notin> set skip \<and>
      (case a of None \<Rightarrow> False | Some t \<Rightarrow> t \<ge> threshold)")
    case True
    then have "pending' = AList.update ?i (dag_id, run, dag) pending"
      using assms(1) by (simp add: pending_run_def a)
    moreover have "pending_ok fromisoformat now threshold skip (?i, dag_id, run, dag)"
      using True assms(2) a by (auto simp: pending_ok_def split: option.splits)
    ultimately show ?thesis using update_ok [OF assms(3)] by blast
  next
    case False
    then have "pending' = pending" using assms(1) by (auto simp: pending_run_def a Let_def split: if_splits)
    with assms(3) show ?thesis by simp
  qed
qed

lemma pending_dag_ok:
  assumes "pending_dag fromisoformat env now threshold skip described pending dag_id = Inr pending'"
    and "\<forall>e\<in>set pending. pending_ok fromisoformat now threshold skip e"
  shows "\<forall>e\<in>set pending'. pending_ok fromisoformat now threshold skip e"
proof (cases "dag_description env described dag_id")
  case (Some dag)
  show ?thesis
  proof (cases "truthy (dget dag ''error'') \<or> dget dag ''is_paused'' \<noteq> PBool True")
    case False
    then obtain runs where "rfold (pending_run fromisoformat now threshold skip dag_id dag) pending runs = Inr pending'"
      using assms(1) Some by (auto simp: pending_dag_def rbind_Inr_iff)
    then show ?thesis
      by (rule rfold_invariant) (use assms(2) False pending_run_ok in blast)+
  qed (use assms Some in \<open>auto simp: pending_dag_def\<close>)
qed (use assms in \<open>auto simp: pending_dag_def\<close>)

lemma orphan_truth_fields:
  "orphan_truth fromisoformat st run dag activity = Inr truth \<Longrightarrow> state truth = Some st \<and> dag_paused truth = Some True"
  by (auto simp: orphan_truth_def rbind_Inr_iff)

lemma stalled_has_no_tasks:
  "running_liveness fromisoformat truth now threshold (dget row ''started_at'') = Inr STALLED_RUNNING_NO_TASKS \<Longrightarrow>
     \<exists>n. active_tasks truth = Some n \<and> n \<le> 0"
  using liveness_iff by (fastforce simp: idle_running_def)

lemma find_or_hd: "xs \<noteq> [] \<Longrightarrow> (case List.find P xs of Some x \<Rightarrow> x | None \<Rightarrow> hd xs) \<in> set xs"
  by (auto simp: find_Some_iff split: option.split)

lemma orphan_of_cases:
  assumes "orphan_of fromisoformat env now threshold exclude pending rows airflow_id = Inr (Some (row, truth))"
    and "airflow_id \<in> row_airflow ` set rows"
  shows "row \<in> set rows \<and> row_airflow row = airflow_id \<and> row_id row \<notin> set exclude \<and>
    (\<forall>x\<in>set rows. row_airflow x = airflow_id \<longrightarrow> normalize_pipeline_status (dget x ''status'') \<in> set PIPELINE_TERMINAL_STATUSES) \<and>
    (\<exists>dag_id run dag. map_of pending airflow_id = Some (dag_id, run, dag) \<and> state truth = Some (lower_state run) \<and>
       dag_paused truth = Some True \<and> (lower_state run = ''running'' \<longrightarrow> (\<exists>n. active_tasks truth = Some n \<and> n \<le> 0)))"
proof -
  let ?rows = "filter (\<lambda>row. row_airflow row = airflow_id) rows"
  let ?row = "case List.find (\<lambda>row. py_str (dget row ''run_id'') = airflow_id) ?rows of Some r \<Rightarrow> r | None \<Rightarrow> hd ?rows"
  have ended: "\<not> list_ex (\<lambda>row. normalize_pipeline_status (dget row ''status'') \<notin> set PIPELINE_TERMINAL_STATUSES) ?rows"
    and kept: "row_id ?row \<notin> set exclude"
    using assms(1) by (auto simp: orphan_of_def Let_def split: if_splits)
  obtain dag_id run dag where p: "map_of pending airflow_id = Some (dag_id, run, dag)"
    using assms(1) ended kept by (auto simp: orphan_of_def Let_def split: if_splits option.splits)
  obtain activity where t: "orphan_truth fromisoformat (lower_state run) run dag activity = Inr truth" and row: "row = ?row"
    and live: "lower_state run = ''running'' \<Longrightarrow>
      running_liveness fromisoformat truth now threshold (dget row ''started_at'') = Inr STALLED_RUNNING_NO_TASKS"
    using assms(1) ended kept p by (auto simp: orphan_of_def Let_def rbind_Inr_iff split: if_splits)
  have "?rows \<noteq> []" using assms(2) by (auto simp: filter_empty_conv)
  then have "?row \<in> set ?rows" by (rule find_or_hd)
  then have "row \<in> set rows \<and> row_airflow row = airflow_id" by (simp add: row)
  moreover have "\<forall>x\<in>set rows. row_airflow x = airflow_id \<longrightarrow> normalize_pipeline_status (dget x ''status'') \<in> set PIPELINE_TERMINAL_STATUSES"
    using ended by (auto simp: list_ex_iff)
  ultimately show ?thesis
    using orphan_truth_fields [OF t] stalled_has_no_tasks [OF live] p kept row by auto
qed

lemma row_airflow_candidate: "row_airflow (candidate_row r) = (case rr_airflow r of None \<Rightarrow> [] | Some a \<Rightarrow> a)"
  by (auto simp: row_airflow_def candidate_row_def opt_text_def split: option.splits)

lemma row_dag_candidate [simp]: "row_dag (candidate_row r) = rr_dag_id r"
  by (simp add: row_dag_def candidate_row_def)

text \<open>
  an orphan may be stopped. Each run that the scan returns as an orphan is one that Airflow lists as
  pending in a paused process, for at least the threshold, that no candidate row names and whose row is not
  excluded; every row of this Airflow run that the caller can see in the scanned processes is finished;
  and when Airflow calls it running, no task of it is active and it has been idle for the threshold.
\<close>

theorem orphans_are_finished_and_paused:
  assumes "find_airflow_orphans fromisoformat collate rls env scope q now threshold dag_ids described skip table = Inr orphans"
    and "(row, truth) \<in> set orphans"
  shows "\<exists>dag_id run dag. pending_ok fromisoformat now threshold skip (row_airflow row, dag_id, run, dag) \<and>
    state truth = Some (lower_state run) \<and> dag_paused truth = Some True \<and> row_id row \<notin> set (rq_exclude q) \<and>
    (\<exists>r\<in>set table. row = candidate_row r \<and> rls r \<and> in_scope (Some scope) r) \<and>
    (\<forall>r\<in>set table. rls r \<and> in_scope (Some scope) r \<and> rr_airflow r = Some (row_airflow row) \<and> rr_dag_id r = row_dag row \<and>
       (case rq_visible q of None \<Rightarrow> True | Some cs \<Rightarrow> rr_cartridge r \<in> set cs) \<longrightarrow>
       normalize_pipeline_status (opt_text (rr_status r)) \<in> set PIPELINE_TERMINAL_STATUSES) \<and>
    (lower_state run = ''running'' \<longrightarrow> (\<exists>n. active_tasks truth = Some n \<and> n \<le> 0))"
proof -
  obtain pending where p: "rfold (pending_dag fromisoformat env now threshold skip described) [] dag_ids = Inr pending"
    and "pending \<noteq> []"
    using assms by (auto simp: find_airflow_orphans_def rbind_Inr_iff split: if_splits)
  let ?rows = "orphan_rows collate rls scope q pending table"
  have ok: "\<forall>e\<in>set pending. pending_ok fromisoformat now threshold skip e"
    using p by (rule rfold_invariant) (simp, use pending_dag_ok in blast)
  obtain i where i: "i \<in> row_airflow ` set ?rows"
    "orphan_of fromisoformat env now threshold (rq_exclude q) pending ?rows i = Inr (Some (row, truth))"
  proof -
    obtain found where f: "rmap (orphan_of fromisoformat env now threshold (rq_exclude q) pending ?rows)
        (rev (remdups (rev (map row_airflow ?rows)))) = Inr found" "orphans = List.map_filter (\<lambda>x. x) found"
      using assms(1) p \<open>pending \<noteq> []\<close> by (auto simp: find_airflow_orphans_def Let_def rbind_Inr_iff)
    then have "Some (row, truth) \<in> set found" using assms(2) by (auto simp: set_map_filter)
    with f(1) that show thesis by (auto dest!: rmap_Inr_set)
  qed
  note c = orphan_of_cases [OF i(2,1)]
  then obtain dag_id run dag where d: "map_of pending i = Some (dag_id, run, dag)" "state truth = Some (lower_state run)"
    "dag_paused truth = Some True" "lower_state run = ''running'' \<longrightarrow> (\<exists>n. active_tasks truth = Some n \<and> n \<le> 0)" by blast
  have pend: "pending_ok fromisoformat now threshold skip (i, dag_id, run, dag)" using ok map_of_SomeD [OF d(1)] by blast
  obtain r0 where r0: "r0 \<in> set table" "row = candidate_row r0" "rls r0" "in_scope (Some scope) r0"
    "rr_dag_id r0 \<in> set (map (\<lambda>p. fst (snd p)) pending)"
    using c by (auto simp: orphan_rows_def)
  have "candidate_row r \<in> set ?rows \<and> row_airflow (candidate_row r) = i"
    if "r \<in> set table" "rls r" "in_scope (Some scope) r" "rr_airflow r = Some i" "rr_dag_id r = row_dag row"
      "case rq_visible q of None \<Rightarrow> True | Some cs \<Rightarrow> rr_cartridge r \<in> set cs" for r
  proof
    have "i \<in> set (map fst pending)" using map_of_SomeD [OF d(1)] by force
    then show "candidate_row r \<in> set ?rows"
      unfolding orphan_rows_def set_map set_sort set_filter using that r0(2,5) by (intro imageI) simp
    show "row_airflow (candidate_row r) = i" using that(4) by (simp add: row_airflow_candidate)
  qed
  then have "\<forall>r\<in>set table. rls r \<and> in_scope (Some scope) r \<and> rr_airflow r = Some i \<and> rr_dag_id r = row_dag row \<and>
       (case rq_visible q of None \<Rightarrow> True | Some cs \<Rightarrow> rr_cartridge r \<in> set cs) \<longrightarrow>
       normalize_pipeline_status (opt_text (rr_status r)) \<in> set PIPELINE_TERMINAL_STATUSES"
    using c by (force simp: candidate_row_def)
  with c d pend r0(1-4) show ?thesis by blast
qed

section \<open>Witness\<close>

definition closed_run :: pipeline_row where
  "closed_run = sample_run\<lparr>rr_status := Some ''failed''\<rparr>"

definition paused_env :: recovery_env where
  "paused_env = \<lparr>ro_database = True, ro_describe = \<lambda>_. None, ro_status = \<lambda>_. Inl [], ro_tasks = \<lambda>_. Inl [], ro_timeout = \<lambda>_. False,
     ro_describe_again = \<lambda>_. Inr (PDict (pdict_of [(''is_paused'', PBool True), (''runs'', PList [PDict (pdict_of
       [(''dag_run_id'', PStr ''a1''), (''state'', PStr ''queued''), (''queued_at'', PDt 0 (Some 0))])])])),
     ro_orphan_tasks = \<lambda>_. Inl [], ro_orphan_timeout = False, ro_between = id\<rparr>"

definition any_query :: run_query where
  "any_query = \<lparr>rq_cartridge = [], rq_dag_ids = [], rq_exclude = [], rq_max_age = 0, rq_visible = None\<rparr>"

abbreviation sample_scan :: "(pdict \<times> airflow_run_truth) list pyres" where
  "sample_scan \<equiv> find_airflow_orphans (\<lambda>_. None) id (\<lambda>_. True) paused_env (''t'', ''w'') any_query 3600000000 DEFAULT_THRESHOLD
     [''crm_extract''] [] [] [closed_run]"

lemma sample_scan_orphan: "\<not> isl sample_scan \<and> map (\<lambda>orphan. row_airflow (fst orphan)) (projr sample_scan) = [''a1'']"
  by code_simp

theorem orphans_are_finished_and_paused_witness:
  "\<exists>dag_id run dag. pending_ok (\<lambda>_. None) 3600000000 DEFAULT_THRESHOLD [] (''a1'', dag_id, run, dag)"
proof -
  obtain orphans where scan: "sample_scan = Inr orphans" using sample_scan_orphan by (cases sample_scan) simp_all
  then obtain row truth where "(row, truth) \<in> set orphans" "row_airflow row = ''a1''" using sample_scan_orphan by auto
  with orphans_are_finished_and_paused [OF scan] show ?thesis by metis
qed

end
