(* ===== verification/Recovery_Service.thy ===== *)
theory Recovery_Service
  imports Recovery_Observe
begin

text \<open>
  Recovery of stuck runs, the service: \<open>console/app/domains/pipeline/stuck_run_recovery_service.py\<close>.

  \<open>recover_stuck_runs\<close> reads and observes the unfinished runs of a workspace, plans, and in the mode apply
  carries the plan out: it stops runs in Airflow, closes rows with the compare-and-swap, lets finished runs
  be refreshed, and counts what happened. The world outside is an \<open>apply_env\<close> per planned run: what
  Airflow answered, whether the database and the audit took part, and what the other writers did to the
  table meanwhile. The effects are the table and a log of events.

  The theorems: the log consists of one legal round per planned run, and is empty in a dry run and when
  the plan is not the approved one; a row is closed only on evidence, after its run was stopped in Airflow
  or found gone there, and stays closed under any interleaving with the other writers; a stuck run whose
  row has not changed is closed; the counts account for every planned run; the recovery before a
  reservation stops nothing unless permitted.
\<close>

definition MAX_CANDIDATES :: int where "MAX_CANDIDATES = 200"
definition MODE_DRY_RUN :: string where "MODE_DRY_RUN = ''dry_run''"
definition MODE_APPLY :: string where "MODE_APPLY = ''apply''"
definition PRE_TRIGGER_ACTOR :: string where "PRE_TRIGGER_ACTOR = ''system:pre-trigger-recovery''"
definition RECOVERY_MESSAGE :: string where
  "RECOVERY_MESSAGE = ''Recuperado por el sistema: tiempo de espera agotado''"
definition DEFAULT_ALLOWED_CLASSES :: "string list" where
  "DEFAULT_ALLOWED_CLASSES = AIRFLOW_TERMINAL # AIRFLOW_ORPHAN # MARK_FAILED_CLASSES"

record recovery_world =
  rw_fromiso :: fromiso
  rw_seconds_repr :: "int \<Rightarrow> string"
  rw_json_loads :: "string \<Rightarrow> pv option"
  rw_uuid :: "string \<Rightarrow> string option"
  rw_collate :: "string \<Rightarrow> string"
  rw_rls :: "pipeline_row \<Rightarrow> bool"
  rw_sha256 :: "string \<Rightarrow> string"

section \<open>The plan\<close>

definition total_minutes :: "int \<Rightarrow> int" where
  \<comment> \<open>\<open>int(delta.total_seconds() // 60)\<close> of microseconds\<close>
  "total_minutes n = (if n \<le> 0 then n div 60000000 else trunc_pos (fl_pos n 1000000) div 60)"

definition run_entry :: "fromiso \<Rightarrow> int \<Rightarrow> pdict \<Rightarrow> run_verdict \<Rightarrow> string \<Rightarrow> bool \<Rightarrow> pdict pyres" where
  "run_entry fromisoformat now row v act neutralize =
     rbind (as_utc_datetime fromisoformat (dget row ''started_at'')) (\<lambda>started.
       Inr (pdict_of
         [(''run_id'', PStr (row_id row)), (''dag_id'', PStr (row_dag row)),
          (''cartridge'', PStr (str_or (dget row ''cartridge_id'') [])), (''entity'', PStr (str_or (dget row ''entity'') [])),
          (''status_before'', PStr (normalize_pipeline_status (dget row ''status''))), (''status_after'', PNone),
          (''started_at'', opt_time started),
          (''age_minutes'', case started of None \<Rightarrow> PNone | Some t \<Rightarrow> PInt (max 0 (total_minutes (now - t)))),
          (''created_today'', PBool (case started of None \<Rightarrow> False | Some t \<Rightarrow> t div 86400000000 = now div 86400000000)),
          (''classification'', PStr (classification v)), (''action'', PStr act),
          (''neutralize_airflow'', PBool neutralize), (''reason_es'', PStr (reason_es v))]))"

definition planned_action :: "string list \<Rightarrow> bool \<Rightarrow> run_verdict \<Rightarrow> string \<times> bool" where
  "planned_action allowed neutralize v =
     (if action v = ACTION_NONE \<or> classification v \<notin> set allowed then (ACTION_NONE, False)
      else if neutralize_airflow v \<and> \<not> neutralize then (ACTION_NONE, False)
      else (action v, neutralize_airflow v))"

record planned =
  pl_row :: pdict
  pl_verdict :: run_verdict
  pl_action :: string
  pl_neutralize :: bool
  pl_entry :: pdict

definition plan_run :: "fromiso \<Rightarrow> int \<Rightarrow> string list \<Rightarrow> bool \<Rightarrow> pdict \<Rightarrow> run_verdict \<Rightarrow> planned pyres" where
  "plan_run fromisoformat now allowed neutralize row v =
     (case planned_action allowed neutralize v of (act, stop) \<Rightarrow>
        rbind (run_entry fromisoformat now row v act stop) (\<lambda>entry.
          Inr \<lparr>pl_row = row, pl_verdict = v, pl_action = act, pl_neutralize = stop, pl_entry = entry\<rparr>))"

definition plan_row ::
    "fromiso \<Rightarrow> (string \<Rightarrow> pv option) \<Rightarrow> int \<Rightarrow> int \<Rightarrow> string list \<Rightarrow> bool \<Rightarrow> (string \<times> airflow_run_truth) list \<Rightarrow> pdict \<Rightarrow>
     planned pyres" where
  "plan_row fromisoformat json_loads now threshold allowed neutralize truths row =
     rbind (classify_stuck_run fromisoformat json_loads row (map_of truths (row_id row)) now threshold DEFAULT_MISSING_GRACE)
       (plan_run fromisoformat now allowed neutralize row)"

record recovery_counts =
  rc_candidates :: int
  rc_recoverable :: int
  rc_recovered :: int
  rc_synced_terminal :: int
  rc_live :: int
  rc_unverifiable :: int
  rc_not_applicable :: int
  rc_conflicts :: int
  rc_airflow_neutralized :: int
  rc_airflow_neutralize_failed :: int

definition count_planned :: "(planned \<Rightarrow> bool) \<Rightarrow> planned list \<Rightarrow> int" where
  "count_planned P ps = int (length (filter P ps))"

definition plan_counts :: "planned list \<Rightarrow> planned list \<Rightarrow> recovery_counts" where
  \<comment> \<open>the counters after planning the rows and the orphans\<close>
  "plan_counts rows orphans =
     (let cls = (\<lambda>p. classification (pl_verdict p)); acts = (\<lambda>p. pl_action p \<noteq> ACTION_NONE)
      in \<lparr>rc_candidates = int (length rows) + int (length orphans),
          rc_recoverable = count_planned acts rows + count_planned acts orphans, rc_recovered = 0, rc_synced_terminal = 0,
          rc_live = count_planned (\<lambda>p. cls p \<in> set IN_PROGRESS_CLASSES) rows,
          rc_unverifiable = count_planned (\<lambda>p. cls p = UNVERIFIABLE) rows,
          rc_not_applicable = count_planned (\<lambda>p. cls p = NOT_APPLICABLE) rows, rc_conflicts = 0,
          rc_airflow_neutralized = 0, rc_airflow_neutralize_failed = 0\<rparr>)"

section \<open>Carrying the plan out\<close>

datatype recovery_event =
    StopRequest string string
  | RowClosed string
  | AuditEvent string
  | RefreshRequest string

text \<open>
  \<open>StopRequest\<close> carries the run id of the row and how the request ended; \<open>RowClosed\<close> and \<open>AuditEvent\<close> of
  one row belong to one transaction.
\<close>

record apply_env =
  ap_before :: "run_table \<Rightarrow> run_table"
  ap_stop :: tool_answer
  ap_refresh :: refresh_env
  ap_database :: bool
  ap_audit :: bool
  ap_now :: int
  ap_now_text :: string

record recovery_state =
  rs_table :: run_table
  rs_log :: "recovery_event list"
  rs_counts :: recovery_counts
  rs_orphans_stopped :: int
  rs_entries :: "pdict list"

definition neutralize_outcome :: "tool_answer \<Rightarrow> string" where
  "neutralize_outcome answer =
     (case answer of
        Inr (PDict result) \<Rightarrow>
          if truthy (dget result ''error'') then ''failed''
          else if truthy (dget result ''marked'') then ''ok''
          else if dget result ''found'' = PBool False then ''gone''
          else if dget result ''reason'' = PStr ''state_changed'' then ''state_changed''
          else ''failed''
      | _ \<Rightarrow> ''failed'')"

definition neutralize_run :: "airflow_run_truth option \<Rightarrow> tool_answer \<Rightarrow> string \<Rightarrow> string \<times> recovery_event list" where
  \<comment> \<open>the outcome, and the request if one was made\<close>
  "neutralize_run truth answer run_id =
     (let st = lower (case truth of None \<Rightarrow> [] | Some t \<Rightarrow> (case state t of None \<Rightarrow> [] | Some s \<Rightarrow> s))
      in if st \<notin> {''queued'', ''running''} then (''failed'', [])
         else (neutralize_outcome answer, [StopRequest run_id (neutralize_outcome answer)]))"

definition mark_failed_args :: "pdict \<Rightarrow> run_verdict \<Rightarrow> airflow_run_truth option \<Rightarrow> string \<Rightarrow> bool \<Rightarrow> recover_args pyres" where
  "mark_failed_args row v truth actor neutralized =
     rbind (timestamptz (dget row ''started_at'')) (\<lambda>started.
     rbind (int_or0 (dget row ''fencing_token'')) (\<lambda>token.
       let st = (case truth of None \<Rightarrow> PNone | Some t \<Rightarrow> opt_text (state t));
           paused = (case truth of None \<Rightarrow> PNone | Some t \<Rightarrow> (case dag_paused t of None \<Rightarrow> PNone | Some b \<Rightarrow> PBool b))
       in Inr \<lparr>ra_run_id = py_str (dget row ''run_id''), ra_tenant = py_str (dget row ''tenant_id''),
            ra_workspace = py_str (dget row ''workspace_id''),
            ra_status = normalize_pipeline_status (dget row ''status''), ra_started = started, ra_token = token,
            ra_reconciliation = pdict_of [(''reason'', PStr (classification v)), (''actor'', PStr actor),
              (''source'', PStr ''console.stuck_run_recovery''), (''airflow_state'', st),
              (''airflow_neutralized'', PBool neutralized)],
            ra_recovery = pdict_of [(''reason'', PStr (classification v)), (''airflow_state'', st),
              (''dag_paused'', paused), (''actor'', PStr actor)],
            ra_message = RECOVERY_MESSAGE\<rparr>))"

definition apply_mark_failed ::
    "recovery_world \<Rightarrow> apply_env \<Rightarrow> string \<Rightarrow> pdict \<Rightarrow> run_verdict \<Rightarrow>
     airflow_run_truth option \<Rightarrow> bool \<Rightarrow> run_table \<Rightarrow> (pipeline_row option \<times> run_table) pyres" where
  \<comment> \<open>a critical audit event that fails takes the update back\<close>
  "apply_mark_failed w env actor row v truth neutralized table =
     rbind (mark_failed_args row v truth actor neutralized) (\<lambda>args.
       if \<not> ap_database env then Inl (DatabaseError ''InterfaceError'')
       else rbind (recover_update (rw_uuid w) (rw_rls w) (ap_now env) (ap_now_text env) args table) (\<lambda>(updated, table').
         case updated of
           None \<Rightarrow> Inr (None, table)
         | Some r \<Rightarrow> if ap_audit env then Inr (Some r, table') else Inl (RuntimeError ''audit'')))"

definition count_conflict :: "recovery_state \<Rightarrow> recovery_state" where
  "count_conflict s = s\<lparr>rs_counts := (rs_counts s)\<lparr>rc_conflicts := rc_conflicts (rs_counts s) + 1\<rparr>\<rparr>"

definition count_stop_failed :: "recovery_state \<Rightarrow> recovery_state" where
  "count_stop_failed s =
     s\<lparr>rs_counts := (rs_counts s)\<lparr>rc_airflow_neutralize_failed := rc_airflow_neutralize_failed (rs_counts s) + 1\<rparr>\<rparr>"

definition count_stopped :: "recovery_state \<Rightarrow> recovery_state" where
  "count_stopped s =
     s\<lparr>rs_counts := (rs_counts s)\<lparr>rc_airflow_neutralized := rc_airflow_neutralized (rs_counts s) + 1\<rparr>\<rparr>"

definition log_events :: "recovery_event list \<Rightarrow> recovery_state \<Rightarrow> recovery_state" where
  "log_events es s = s\<lparr>rs_log := rs_log s @ es\<rparr>"

definition after_status :: "pdict \<Rightarrow> string \<Rightarrow> pdict" where
  "after_status entry st = dset entry ''status_after'' (PStr st)"

definition apply_orphan :: "apply_env \<Rightarrow> planned \<Rightarrow> airflow_run_truth option \<Rightarrow> recovery_state \<Rightarrow> recovery_state \<times> pdict" where
  "apply_orphan env p truth s =
     (case neutralize_run truth (ap_stop env) (row_id (pl_row p)) of (outcome, sent) \<Rightarrow>
        let s' = log_events sent s in
        if outcome = ''state_changed'' then (count_conflict s', pl_entry p)
        else if outcome = ''failed'' then (count_stop_failed s', pl_entry p)
        else if outcome = ''ok'' then
          (log_events (if ap_audit env then [AuditEvent (row_id (pl_row p))] else [])
             ((count_stopped s')\<lparr>rs_orphans_stopped := rs_orphans_stopped s' + 1\<rparr>),
           after_status (pl_entry p) (normalize_pipeline_status (dget (pl_row p) ''status'')))
        else (s', pl_entry p))"

definition default_refresh_dag_run_status ::
    "recovery_world \<Rightarrow> apply_env \<Rightarrow> pdict \<Rightarrow> run_table \<Rightarrow> (pdict \<times> run_table) pyres" where
  "default_refresh_dag_run_status w env row table =
     refresh_dag_run_status (rw_fromiso w) (rw_seconds_repr w) (rw_uuid w) (rw_rls w) (ap_refresh env) row table"

definition apply_sync :: "recovery_world \<Rightarrow> apply_env \<Rightarrow> planned \<Rightarrow> recovery_state \<Rightarrow> recovery_state \<times> pdict" where
  "apply_sync w env p s =
     (let s' = log_events [RefreshRequest (row_id (pl_row p))] s
      in case default_refresh_dag_run_status w env (pl_row p) (rs_table s) of
           Inl _ \<Rightarrow> (count_conflict s', pl_entry p)
         | Inr (refreshed, table) \<Rightarrow>
             let st = normalize_pipeline_status (dget refreshed ''status''); s'' = s'\<lparr>rs_table := table\<rparr>
             in if st \<in> set PIPELINE_TERMINAL_STATUSES
                then (s''\<lparr>rs_counts := (rs_counts s'')\<lparr>rc_synced_terminal := rc_synced_terminal (rs_counts s'') + 1\<rparr>\<rparr>,
                      after_status (pl_entry p) st)
                else (count_conflict s'', pl_entry p))"

definition close_row ::
    "recovery_world \<Rightarrow> apply_env \<Rightarrow> string \<Rightarrow> planned \<Rightarrow> airflow_run_truth option \<Rightarrow> bool \<Rightarrow>
     recovery_state \<Rightarrow> recovery_state \<times> pdict" where
  "close_row w env actor p truth neutralized s =
     (case apply_mark_failed w env actor (pl_row p) (pl_verdict p) truth neutralized (rs_table s) of
        Inr (Some r, table) \<Rightarrow>
          (log_events [RowClosed (row_id (pl_row p)), AuditEvent (row_id (pl_row p))] (s\<lparr>rs_table := table,
             rs_counts := (rs_counts s)\<lparr>rc_recovered := rc_recovered (rs_counts s) + 1\<rparr>\<rparr>),
           after_status (pl_entry p) (normalize_pipeline_status (opt_text (rr_status r))))
      | _ \<Rightarrow> (count_conflict s, pl_entry p))"

definition apply_close ::
    "recovery_world \<Rightarrow> apply_env \<Rightarrow> string \<Rightarrow> planned \<Rightarrow> airflow_run_truth option \<Rightarrow>
     recovery_state \<Rightarrow> recovery_state \<times> pdict" where
  "apply_close w env actor p truth s =
     (if pl_neutralize p then
        (case neutralize_run truth (ap_stop env) (row_id (pl_row p)) of (outcome, sent) \<Rightarrow>
           let s' = log_events sent s in
           if outcome = ''ok'' then close_row w env actor p truth True (count_stopped s')
           else if outcome = ''state_changed'' then (count_conflict s', pl_entry p)
           else if outcome \<noteq> ''gone'' then (count_stop_failed s', pl_entry p)
           else close_row w env actor p truth False s')
      else close_row w env actor p truth False s)"

definition apply_planned ::
    "recovery_world \<Rightarrow> apply_env \<Rightarrow> string \<Rightarrow> (string \<times> airflow_run_truth) list \<Rightarrow> planned \<Rightarrow>
     recovery_state \<Rightarrow> recovery_state" where
  \<comment> \<open>one round of the loop; the other writers act first\<close>
  "apply_planned w env actor truths p s0 =
     (let s = s0\<lparr>rs_table := ap_before env (rs_table s0)\<rparr>; truth = map_of truths (row_id (pl_row p));
          r = (if pl_action p = ACTION_NONE then (s, pl_entry p)
               else if pl_action p = ACTION_NEUTRALIZE_AIRFLOW then apply_orphan env p truth s
               else if pl_action p = ACTION_SYNC_TERMINAL then apply_sync w env p s
               else if pl_action p \<noteq> ACTION_MARK_FAILED then (s, pl_entry p)
               else apply_close w env actor p truth s)
      in (fst r)\<lparr>rs_entries := rs_entries (fst r) @ [snd r]\<rparr>)"

fun apply_plan ::
    "recovery_world \<Rightarrow> (nat \<Rightarrow> apply_env) \<Rightarrow> string \<Rightarrow> (string \<times> airflow_run_truth) list \<Rightarrow>
     planned list \<Rightarrow> recovery_state \<Rightarrow> recovery_state" where
  "apply_plan w envs actor truths [] s = s"
| "apply_plan w envs actor truths (p # ps) s =
     apply_plan w (\<lambda>i. envs (Suc i)) actor truths ps (apply_planned w (envs 0) actor truths p s)"

section \<open>The report\<close>

definition sentence :: "bool \<Rightarrow> string \<Rightarrow> string list" where
  "sentence b t = (if b then [t] else [])"

definition message_es :: "string \<Rightarrow> recovery_counts \<Rightarrow> bool \<Rightarrow> int \<Rightarrow> string" where
  "message_es mode c truncated orphans_stopped =
     join '' '' (
       (if mode = MODE_DRY_RUN then
          [if rc_recoverable c \<noteq> 0 then
             str_of_int (rc_recoverable c) @ '' de '' @ str_of_int (rc_candidates c) @
               '' corridas revisadas se pueden cerrar o sincronizar con Airflow.''
           else if rc_candidates c \<noteq> 0 then
             ''Se revisaron '' @ str_of_int (rc_candidates c) @ '' corridas; ninguna requiere recuperaci'' @ [CHR 0xF3] @ ''n.''
           else ''No hay corridas pendientes que revisar.'']
        else
          [''Se cerraron '' @ str_of_int (rc_recovered c) @ '' corridas atascadas y se sincronizaron '' @
             str_of_int (rc_synced_terminal c) @ '' con su estado final en Airflow.''] @
          sentence (orphans_stopped \<noteq> 0) (''Se detuvieron en Airflow '' @ str_of_int orphans_stopped @
             '' corridas que la consola ya hab'' @ [CHR 0xED] @ ''a cerrado.'') @
          sentence (rc_conflicts c \<noteq> 0) (str_of_int (rc_conflicts c) @
             '' cambiaron mientras se revisaban y no se tocaron.'') @
          sentence (rc_airflow_neutralize_failed c \<noteq> 0) (str_of_int (rc_airflow_neutralize_failed c) @
             '' no se pudieron detener en Airflow y se dejaron sin cambios.'')) @
       sentence (rc_unverifiable c \<noteq> 0) (str_of_int (rc_unverifiable c) @
         '' no se pudieron verificar en Airflow y no se modifican.'') @
       sentence truncated (''Se revisaron las 200 corridas m'' @ [CHR 0xE1] @ ''s antiguas; repite la revisi'' @ [CHR 0xF3] @ ''n.''))"

record recovery_report =
  rp_mode :: string
  rp_checked_at :: int
  rp_threshold_minutes :: int
  rp_plan_digest :: string
  rp_counts :: recovery_counts
  rp_runs :: "pdict list"
  rp_truncated :: bool
  rp_message_es :: string
  rp_verdicts :: "(string \<times> run_verdict) list"

datatype recovery_error = PlanChanged string | RecoveryError http_error

record recovery_request =
  rk_user :: "pdict option"
  rk_mode :: string
  rk_actor :: string
  rk_query :: run_query
  rk_threshold :: int
  rk_allowed :: "string list"
  rk_neutralize :: bool
  rk_expected :: "string option"
  rk_now :: int
  rk_max_candidates :: int
  rk_orphan_scan :: bool

text \<open>
  \<open>rk_allowed\<close> is empty for None, \<open>rk_now\<close> the instant of the check. The query is the part of the
  arguments that selects rows; \<open>rq_max_age\<close> is 0 for None and fits an integer of the database.
\<close>

record recovery_plan =
  pn_rows :: "planned list"
  pn_orphans :: "planned list"
  pn_truths :: "(string \<times> airflow_run_truth) list"
  pn_truncated :: bool
  pn_digest :: string

definition allowed_classes :: "recovery_request \<Rightarrow> string list" where
  "allowed_classes req = (if rk_allowed req = [] then DEFAULT_ALLOWED_CLASSES else rk_allowed req)"

definition candidate_limit :: "recovery_request \<Rightarrow> int" where
  "candidate_limit req = max 1 (min (rk_max_candidates req) MAX_CANDIDATES)"

definition plan_orphans ::
    "recovery_world \<Rightarrow> recovery_env \<Rightarrow> recovery_request \<Rightarrow> string \<times> string \<Rightarrow> string list \<Rightarrow> string list \<Rightarrow> pdict list \<Rightarrow> run_table \<Rightarrow>
     ((pdict \<times> airflow_run_truth) list \<times> bool) pyres" where
  \<comment> \<open>the orphans there is room for, and whether some were left out\<close>
  "plan_orphans w env req scope orphan_dags described rows table =
     (if orphan_dags = [] then Inr ([], False)
      else rbind (if ro_orphan_timeout env then Inr []
                  else find_airflow_orphans (rw_fromiso w) (rw_collate w) (rw_rls w) env scope (rk_query req) (rk_now req)
                    (rk_threshold req) orphan_dags described (map row_airflow rows) (ro_between env table)) (\<lambda>orphans.
             let room = nat (max 0 (candidate_limit req - int (length rows)))
             in Inr (take room orphans, length orphans > room)))"

definition digest_entries :: "fromiso \<Rightarrow> planned list \<Rightarrow> pdict list pyres" where
  "digest_entries fromisoformat ps = rmap (\<lambda>p. planned_entry fromisoformat (pl_row p, pl_verdict p, pl_action p)) ps"

definition make_plan :: "recovery_world \<Rightarrow> recovery_env \<Rightarrow> recovery_request \<Rightarrow> string \<times> string \<Rightarrow> run_table \<Rightarrow> recovery_plan pyres" where
  \<comment> \<open>the first half of \<open>recover_stuck_runs\<close>: read, observe, classify, digest\<close>
  "make_plan w env req scope table =
     (if \<not> ro_database env then Inl (DatabaseError ''InterfaceError'')
      else rbind (scope_uuids (rw_uuid w) (fst scope) (snd scope)) (\<lambda>uuids.
        let limit = candidate_limit req; allowed = allowed_classes req;
            loaded = load_recovery_candidates (rw_collate w) (rw_rls w) (rk_now req) uuids (rk_query req) limit table;
            orphan_dags = (if rk_orphan_scan req then load_orphan_dag_ids (rw_collate w) (rw_rls w) uuids (rk_query req) table
                           else []);
            rows = map candidate_row (take (nat limit) loaded);
            needs_airflow = filter (\<lambda>row. pre_airflow_verdict row = None) rows
        in rbind (observe_airflow_truth (rw_fromiso w) env needs_airflow) (\<lambda>truths.
        rbind (plan_orphans w env req uuids orphan_dags (map row_dag needs_airflow) rows table) (\<lambda>(orphans, cut_off).
        rbind (rmap (plan_row (rw_fromiso w) (rw_json_loads w) (rk_now req) (rk_threshold req) allowed (rk_neutralize req) truths)
          rows) (\<lambda>planned_rows.
        rbind (rmap (\<lambda>orphan. plan_run (rw_fromiso w) (rk_now req) allowed (rk_neutralize req) (fst orphan) orphan_verdict) orphans)
          (\<lambda>planned_orphans.
        rbind (rbind (digest_entries (rw_fromiso w) (planned_rows @ planned_orphans)) (plan_digest (rw_sha256 w))) (\<lambda>digest.
          Inr \<lparr>pn_rows = planned_rows, pn_orphans = planned_orphans,
               pn_truths = rev (map (\<lambda>(row, truth). (row_id row, truth)) orphans) @ truths,
               pn_truncated = (int (length loaded) > limit \<or> cut_off), pn_digest = digest\<rparr>)))))))"

definition planned_runs :: "recovery_plan \<Rightarrow> planned list" where
  "planned_runs plan = pn_rows plan @ pn_orphans plan"

definition start_state :: "recovery_plan \<Rightarrow> run_table \<Rightarrow> recovery_state" where
  "start_state plan table =
     \<lparr>rs_table = table, rs_log = [], rs_counts = plan_counts (pn_rows plan) (pn_orphans plan), rs_orphans_stopped = 0,
      rs_entries = []\<rparr>"

definition recovery_outcome :: "recovery_request \<Rightarrow> recovery_plan \<Rightarrow> recovery_state \<Rightarrow> pdict list \<Rightarrow> recovery_report" where
  "recovery_outcome req plan s entries =
     \<lparr>rp_mode = (if rk_mode req = MODE_APPLY then ''applied'' else MODE_DRY_RUN), rp_checked_at = rk_now req,
      rp_threshold_minutes = max 1 (total_minutes (rk_threshold req)), rp_plan_digest = pn_digest plan,
      rp_counts = rs_counts s, rp_runs = entries, rp_truncated = pn_truncated plan,
      rp_message_es = message_es (rk_mode req) (rs_counts s) (pn_truncated plan) (rs_orphans_stopped s),
      rp_verdicts = rev (map (\<lambda>p. (row_id (pl_row p), pl_verdict p)) (planned_runs plan))\<rparr>"

definition plan_for :: "recovery_world \<Rightarrow> recovery_env \<Rightarrow> recovery_request \<Rightarrow> run_table \<Rightarrow> http_error + recovery_plan" where
  "plan_for w env req table = rbind (user_scope (rk_user req)) (\<lambda>scope. lift (make_plan w env req scope table))"

definition apply_rounds ::
    "recovery_world \<Rightarrow> (nat \<Rightarrow> apply_env) \<Rightarrow> recovery_request \<Rightarrow> recovery_plan \<Rightarrow> nat \<Rightarrow> run_table \<Rightarrow> recovery_state" where
  "apply_rounds w envs req plan rounds table =
     apply_plan w envs (rk_actor req) (pn_truths plan) (take rounds (planned_runs plan)) (start_state plan table)"

definition recover_stuck_runs ::
    "recovery_world \<Rightarrow> recovery_env \<Rightarrow> (nat \<Rightarrow> apply_env) \<Rightarrow> recovery_request \<Rightarrow> run_table \<Rightarrow>
     (recovery_error + recovery_report) \<times> run_table \<times> recovery_event list" where
  \<comment> \<open>what it returns or raises, the table afterwards and the events\<close>
  "recover_stuck_runs w env envs req table =
     (let seen = ro_between env table in
      if rk_mode req \<noteq> MODE_DRY_RUN \<and> rk_mode req \<noteq> MODE_APPLY
      then (Inl (RecoveryError (Raised (ValueError ''mode must be dry_run or apply''))), seen, [])
      else case plan_for w env req table of
        Inl e \<Rightarrow> (Inl (RecoveryError e), seen, [])
      | Inr plan \<Rightarrow>
          if rk_mode req \<noteq> MODE_APPLY
          then (Inr (recovery_outcome req plan (start_state plan seen) (map pl_entry (planned_runs plan))), seen, [])
          else if rk_expected req \<noteq> None \<and> rk_expected req \<noteq> Some (pn_digest plan)
          then (Inl (PlanChanged (pn_digest plan)), seen, [])
          else let s = apply_rounds w envs req plan (length (planned_runs plan)) seen
               in (Inr (recovery_outcome req plan s (rs_entries s)), rs_table s, rs_log s))"

section \<open>Callers\<close>

definition console_run_ids ::
    "recovery_world \<Rightarrow> bool \<Rightarrow> pdict option \<Rightarrow> string \<Rightarrow> string list \<Rightarrow> run_table \<Rightarrow> http_error + string set" where
  "console_run_ids w database user dag_id run_ids table =
     (if run_ids = [] then Inr {}
      else rbind (user_scope user) (\<lambda>(tenant, workspace).
           rbind (lift (if database then scope_uuids (rw_uuid w) tenant workspace
                        else Inl (DatabaseError ''InterfaceError''))) (\<lambda>scope.
             Inr (set (List.map_filter rr_airflow (filter (\<lambda>r. rw_rls w r \<and> in_scope (Some scope) r \<and> rr_dag_id r = dag_id \<and>
               rr_airflow r \<in> Some ` set (take (nat MAX_CANDIDATES) run_ids)) table))))))"

definition pre_trigger_allowed_classes :: "bool \<Rightarrow> string list" where
  "pre_trigger_allowed_classes neutralize =
     [AIRFLOW_TERMINAL, MISSING_IN_AIRFLOW] @ (if neutralize then STALLED_CLASSES else [])"

definition pre_trigger_request :: "pdict option \<Rightarrow> string \<Rightarrow> string list \<Rightarrow> bool \<Rightarrow> int \<Rightarrow> int \<Rightarrow> int \<Rightarrow> int \<Rightarrow> recovery_request" where
  "pre_trigger_request user cartridge dag_ids neutralize threshold max_age max_candidates now =
     \<lparr>rk_user = user, rk_mode = MODE_APPLY, rk_actor = PRE_TRIGGER_ACTOR,
      rk_query = \<lparr>rq_cartridge = cartridge, rq_dag_ids = dag_ids, rq_exclude = [], rq_max_age = max_age, rq_visible = None\<rparr>,
      rk_threshold = threshold, rk_allowed = pre_trigger_allowed_classes neutralize, rk_neutralize = neutralize,
      rk_expected = None, rk_now = now, rk_max_candidates = max_candidates, rk_orphan_scan = False\<rparr>"

text \<open>
  The caller waits a bounded time; when it runs out the recovery is cancelled, after the reading or in
  some round. \<open>Some rounds\<close> leaves the effects of that many rounds and no report; None means that it
  ended in time. A cancellation inside a round is a round whose update failed.
\<close>

definition recover_before_reservation ::
    "recovery_world \<Rightarrow> recovery_env \<Rightarrow> (nat \<Rightarrow> apply_env) \<Rightarrow> pdict option \<Rightarrow> string \<Rightarrow> string list \<Rightarrow> bool \<Rightarrow> int \<Rightarrow> int \<Rightarrow> int \<Rightarrow> int \<Rightarrow>
     nat option \<Rightarrow> run_table \<Rightarrow> recovery_report option \<times> run_table \<times> recovery_event list" where
  "recover_before_reservation w env envs user cartridge dag_ids neutralize threshold max_age max_candidates now cut_off table =
     (let req = pre_trigger_request user cartridge dag_ids neutralize threshold max_age max_candidates now
      in if user = None \<or> user = Some [] then (None, table, [])
         else case cut_off of
           None \<Rightarrow> (case recover_stuck_runs w env envs req table of
                     (Inl _, table', log) \<Rightarrow> (None, table', log)
                   | (Inr report, table', log) \<Rightarrow> (Some report, table', log))
         | Some rounds \<Rightarrow> (case plan_for w env req table of
                     Inl _ \<Rightarrow> (None, ro_between env table, [])
                   | Inr plan \<Rightarrow> let s = apply_rounds w envs req plan rounds (ro_between env table)
                                in (None, rs_table s, rs_log s)))"

section \<open>What a round may do\<close>

text \<open>
  The events that one round of the loop may log for a planned run, as the contract of the service: a row
  is closed in one transaction with its audit event, and a run that Airflow holds only after the request
  to stop it was answered with success or with its absence.
\<close>

inductive round_log :: "planned \<Rightarrow> recovery_event list \<Rightarrow> bool" where
  round_idle: "round_log p []"
| round_stop: "pl_action p = ACTION_NEUTRALIZE_AIRFLOW \<or> pl_action p = ACTION_MARK_FAILED \<and> pl_neutralize p \<Longrightarrow>
    round_log p [StopRequest (row_id (pl_row p)) outcome]"
| round_orphan: "pl_action p = ACTION_NEUTRALIZE_AIRFLOW \<Longrightarrow>
    round_log p [StopRequest (row_id (pl_row p)) ''ok'', AuditEvent (row_id (pl_row p))]"
| round_refresh: "pl_action p = ACTION_SYNC_TERMINAL \<Longrightarrow> round_log p [RefreshRequest (row_id (pl_row p))]"
| round_close: "pl_action p = ACTION_MARK_FAILED \<Longrightarrow> \<not> pl_neutralize p \<Longrightarrow>
    round_log p [RowClosed (row_id (pl_row p)), AuditEvent (row_id (pl_row p))]"
| round_stop_close: "pl_action p = ACTION_MARK_FAILED \<Longrightarrow> pl_neutralize p \<Longrightarrow> outcome \<in> {''ok'', ''gone''} \<Longrightarrow>
    round_log p [StopRequest (row_id (pl_row p)) outcome, RowClosed (row_id (pl_row p)), AuditEvent (row_id (pl_row p))]"

inductive_cases round_logE: "round_log p es"

definition logs_round :: "planned \<Rightarrow> recovery_state \<Rightarrow> recovery_state \<Rightarrow> bool" where
  "logs_round p s s' \<longleftrightarrow> (\<exists>es. rs_log s' = rs_log s @ es \<and> round_log p es)"

lemmas count_defs = count_conflict_def count_stop_failed_def count_stopped_def log_events_def

lemma log_counts [simp]:
  "rs_log (count_conflict s) = rs_log s" "rs_log (count_stop_failed s) = rs_log s" "rs_log (count_stopped s) = rs_log s"
  "rs_log (log_events es s) = rs_log s @ es"
  by (simp_all add: count_defs)

lemma neutralize_sent:
  "neutralize_run truth answer i = (outcome, sent) \<Longrightarrow>
     sent = [] \<and> outcome = ''failed'' \<or> sent = [StopRequest i outcome] \<and> outcome \<in> {''ok'', ''gone'', ''state_changed'', ''failed''}"
  by (auto simp: neutralize_run_def Let_def neutralize_outcome_def split: if_splits sum.splits pv.splits)

lemma apply_orphan_log: "pl_action p = ACTION_NEUTRALIZE_AIRFLOW \<Longrightarrow> logs_round p s (fst (apply_orphan env p truth s))"
proof (cases "neutralize_run truth (ap_stop env) (row_id (pl_row p))")
  case (Pair outcome sent)
  assume "pl_action p = ACTION_NEUTRALIZE_AIRFLOW"
  with neutralize_sent [OF Pair] show ?thesis
    by (auto simp: apply_orphan_def Pair logs_round_def Let_def intro: round_log.intros)
qed

lemma apply_sync_log: "pl_action p = ACTION_SYNC_TERMINAL \<Longrightarrow> logs_round p s (fst (apply_sync w env p s))"
  by (auto simp: apply_sync_def logs_round_def Let_def intro: round_log.intros split: sum.splits prod.splits)

lemma close_row_cases:
  obtains (closed) r table where "apply_mark_failed w env actor (pl_row p) (pl_verdict p) truth n (rs_table s) = Inr (Some r, table)"
      "close_row w env actor p truth n s =
        (log_events [RowClosed (row_id (pl_row p)), AuditEvent (row_id (pl_row p))] (s\<lparr>rs_table := table,
             rs_counts := (rs_counts s)\<lparr>rc_recovered := rc_recovered (rs_counts s) + 1\<rparr>\<rparr>),
           after_status (pl_entry p) (normalize_pipeline_status (opt_text (rr_status r))))"
  | (conflict) "close_row w env actor p truth n s = (count_conflict s, pl_entry p)"
proof (cases "apply_mark_failed w env actor (pl_row p) (pl_verdict p) truth n (rs_table s)")
  case (Inl e)
  then show thesis by (intro conflict) (simp add: close_row_def)
next
  case (Inr x)
  obtain u table where x: "x = (u, table)" by fastforce
  show thesis
  proof (cases u)
    case None
    with Inr x show thesis by (intro conflict) (simp add: close_row_def)
  next
    case (Some r)
    with Inr x show thesis by (intro closed [of r table]) (simp_all add: close_row_def)
  qed
qed

lemma apply_close_log: "pl_action p = ACTION_MARK_FAILED \<Longrightarrow> logs_round p s (fst (apply_close w env actor p truth s))"
proof -
  assume act: "pl_action p = ACTION_MARK_FAILED"
  have row: "rs_log (fst (close_row w env actor p truth n s')) = rs_log s' \<or>
      rs_log (fst (close_row w env actor p truth n s')) = rs_log s' @ [RowClosed (row_id (pl_row p)), AuditEvent (row_id (pl_row p))]"
    for n s' by (cases rule: close_row_cases [of w env actor p truth n s']) simp_all
  show ?thesis
  proof (cases "pl_neutralize p")
    case False
    with row [of False s] act show ?thesis
      by (auto simp: apply_close_def logs_round_def intro: round_log.intros)
  next
    case True
    obtain outcome sent where n: "neutralize_run truth (ap_stop env) (row_id (pl_row p)) = (outcome, sent)" by fastforce
    note sent = neutralize_sent [OF n] and rows = row [of True "count_stopped (log_events sent s)"] row [of False "log_events sent s"]
    note stop = round_stop [of p outcome] round_stop_close [of p outcome] round_idle [of p]
    show ?thesis
      using sent rows stop act True
      by (auto simp: apply_close_def n logs_round_def Let_def)
  qed
qed

lemma apply_planned_log: "logs_round p s (apply_planned w env actor truths p s)"
proof -
  let ?s = "s\<lparr>rs_table := ap_before env (rs_table s)\<rparr>" and ?t = "map_of truths (row_id (pl_row p))"
  have idle: "logs_round p s s'" if "rs_log s' = rs_log s" for s' using that by (auto simp: logs_round_def intro: round_idle)
  have "logs_round p ?s s' \<Longrightarrow> logs_round p s (s'\<lparr>rs_entries := es\<rparr>)" for s' es by (simp add: logs_round_def)
  then show ?thesis
    using apply_orphan_log [of p ?s env ?t] apply_sync_log [of p ?s w env] apply_close_log [of p ?s w env actor ?t]
    by (auto simp: apply_planned_def Let_def idle)
qed

lemma apply_plan_log:
  "\<exists>ess. list_all2 round_log ps ess \<and> rs_log (apply_plan w envs actor truths ps s) = rs_log s @ concat ess"
proof (induction ps arbitrary: envs s)
  case (Cons p ps)
  obtain es where es: "rs_log (apply_planned w (envs 0) actor truths p s) = rs_log s @ es" "round_log p es"
    using apply_planned_log [of p s w "envs 0" actor truths] by (auto simp: logs_round_def)
  obtain ess where "list_all2 round_log ps ess"
    "rs_log (apply_plan w envs actor truths (p # ps) s) = rs_log s @ es @ concat ess"
    using Cons.IH [of "\<lambda>i. envs (Suc i)" "apply_planned w (envs 0) actor truths p s"] es(1) by auto
  with es(2) show ?case by (intro exI [of _ "es # ess"]) simp
qed simp

section \<open>Where planned runs come from\<close>

lemma row_id_candidate [simp]: "row_id (candidate_row r) = rr_run_id r"
  by (simp add: row_id_def candidate_row_def)

lemma plan_run_fields:
  assumes "plan_run fromisoformat now allowed neutralize row v = Inr p"
  shows "pl_row p = row \<and> pl_verdict p = v \<and> (pl_action p, pl_neutralize p) = planned_action allowed neutralize v"
  using assms by (auto simp: plan_run_def rbind_Inr_iff split: prod.splits)

lemma planned_action_cases:
  "planned_action allowed neutralize v = (act, stop) \<Longrightarrow> act \<noteq> ACTION_NONE \<Longrightarrow>
     act = action v \<and> stop = neutralize_airflow v \<and> classification v \<in> set allowed \<and> (stop \<longrightarrow> neutralize)"
  by (auto simp: planned_action_def split: if_splits)

abbreviation rows_read :: "recovery_world \<Rightarrow> recovery_request \<Rightarrow> string \<times> string \<Rightarrow> run_table \<Rightarrow> pipeline_row list" where
  "rows_read w req uuids table \<equiv> take (nat (candidate_limit req))
     (load_recovery_candidates (rw_collate w) (rw_rls w) (rk_now req) uuids (rk_query req) (candidate_limit req) table)"

lemma plan_orphans_none:
  "plan_orphans w env req uuids (if scan then dags else []) described rows table = Inr (orphans, b) \<Longrightarrow> scan \<or> orphans = []"
  by (cases scan) (simp_all add: plan_orphans_def)

lemma plan_for_cases:
  assumes "plan_for w env req table = Inr plan"
  obtains scope uuids truths and orphans :: "(pdict \<times> airflow_run_truth) list" where "user_scope (rk_user req) = Inr scope"
    "scope_uuids (rw_uuid w) (fst scope) (snd scope) = Inr uuids"
    "observe_airflow_truth (rw_fromiso w) env (filter (\<lambda>row. pre_airflow_verdict row = None)
       (map candidate_row (rows_read w req uuids table))) = Inr truths"
    "rmap (plan_row (rw_fromiso w) (rw_json_loads w) (rk_now req) (rk_threshold req) (allowed_classes req) (rk_neutralize req) truths)
       (map candidate_row (rows_read w req uuids table)) = Inr (pn_rows plan)"
    "rmap (\<lambda>orphan. plan_run (rw_fromiso w) (rk_now req) (allowed_classes req) (rk_neutralize req) (fst orphan) orphan_verdict)
       orphans = Inr (pn_orphans plan)"
    "rk_orphan_scan req \<or> orphans = []"
proof -
  from assms obtain scope where scope: "user_scope (rk_user req) = Inr scope" "make_plan w env req scope table = Inr plan"
    by (auto simp: plan_for_def rbind_Inr_iff)
  then obtain uuids where uuids: "scope_uuids (rw_uuid w) (fst scope) (snd scope) = Inr uuids" and db: "ro_database env"
    by (auto simp: make_plan_def rbind_Inr_iff split: if_splits)
  have "\<exists>truths orphans b.
    observe_airflow_truth (rw_fromiso w) env (filter (\<lambda>row. pre_airflow_verdict row = None)
       (map candidate_row (rows_read w req uuids table))) = Inr truths \<and>
    plan_orphans w env req uuids (if rk_orphan_scan req then load_orphan_dag_ids (rw_collate w) (rw_rls w) uuids (rk_query req) table
       else []) (map row_dag (filter (\<lambda>row. pre_airflow_verdict row = None) (map candidate_row (rows_read w req uuids table))))
       (map candidate_row (rows_read w req uuids table)) table = Inr (orphans, b) \<and>
    rmap (plan_row (rw_fromiso w) (rw_json_loads w) (rk_now req) (rk_threshold req) (allowed_classes req) (rk_neutralize req) truths)
       (map candidate_row (rows_read w req uuids table)) = Inr (pn_rows plan) \<and>
    rmap (\<lambda>orphan. plan_run (rw_fromiso w) (rk_now req) (allowed_classes req) (rk_neutralize req) (fst orphan) orphan_verdict)
       orphans = Inr (pn_orphans plan)"
    using scope(2) unfolding make_plan_def Let_def uuids by (simp add: db rbind_Inr_iff) fastforce
  then obtain truths orphans b where f: "observe_airflow_truth (rw_fromiso w) env (filter (\<lambda>row. pre_airflow_verdict row = None)
       (map candidate_row (rows_read w req uuids table))) = Inr truths"
    "plan_orphans w env req uuids (if rk_orphan_scan req then load_orphan_dag_ids (rw_collate w) (rw_rls w) uuids (rk_query req) table
       else []) (map row_dag (filter (\<lambda>row. pre_airflow_verdict row = None) (map candidate_row (rows_read w req uuids table))))
       (map candidate_row (rows_read w req uuids table)) table = Inr (orphans, b)"
    "rmap (plan_row (rw_fromiso w) (rw_json_loads w) (rk_now req) (rk_threshold req) (allowed_classes req) (rk_neutralize req) truths)
       (map candidate_row (rows_read w req uuids table)) = Inr (pn_rows plan)"
    "rmap (\<lambda>orphan. plan_run (rw_fromiso w) (rk_now req) (allowed_classes req) (rk_neutralize req) (fst orphan) orphan_verdict)
       orphans = Inr (pn_orphans plan)" by blast
  show thesis by (rule that [OF scope(1) uuids f(1,3,4) plan_orphans_none [OF f(2)]])
qed

lemma rows_read_set:
  "r \<in> set (rows_read w req uuids table) \<Longrightarrow> r \<in> set table \<and> in_scope (Some uuids) r \<and>
     sql_status_text (rr_status r) \<in> set CANDIDATE_STATUSES \<and> query_matches (rk_query req) r \<and>
     rr_run_id r \<notin> set (rq_exclude (rk_query req))"
  unfolding load_recovery_candidates_def by (auto dest!: in_set_takeD)

definition run_observed :: "recovery_world \<Rightarrow> recovery_env \<Rightarrow> pipeline_row \<Rightarrow> airflow_run_truth \<Rightarrow> bool" where
  \<comment> \<open>the answers came in time, the one on the run carries no error, and they say \<open>truth\<close>\<close>
  "run_observed w env r truth \<longleftrightarrow>
     (\<exists>answer status. ro_describe env (rr_dag_id r) = Some answer \<and> \<not> ro_timeout env (rr_run_id r) \<and>
        ro_status env (rr_run_id r) = Inr (PDict status) \<and> \<not> truthy (dget status ''error'') \<and>
        observe_run (rw_fromiso w) (describe_result answer) (Inr (PDict status)) (ro_tasks env (rr_run_id r))
          (row_airflow (candidate_row r)) = Inr truth)"

lemma no_truth_unreliable: "name \<noteq> [] \<Longrightarrow> unreliable (Some (no_truth name))"
  by (simp add: unreliable_def no_truth_def)

lemma observe_run_reliable:
  assumes "observe_run fromisoformat dag status_answer tasks i = Inr truth" "found truth \<noteq> None"
  shows "\<exists>status. status_answer = Inr (PDict status) \<and> \<not> truthy (dget status ''error'')"
  using assms
  by (cases status_answer)
    (auto simp: observe_run_def no_truth_def split: sum.splits pv.splits if_splits)

lemma reliable_run_observed:
  assumes "observe_bounded (rw_fromiso w) env (candidate_row r) = Inr truth" "found truth \<noteq> None"
  shows "run_observed w env r truth"
proof (cases "ro_describe env (rr_dag_id r)")
  case None
  with assms show ?thesis by (auto simp: observe_bounded_def no_truth_def)
next
  case (Some answer)
  then have time: "\<not> ro_timeout env (rr_run_id r)"
    and run: "observe_run (rw_fromiso w) (describe_result answer) (ro_status env (rr_run_id r)) (ro_tasks env (rr_run_id r))
      (row_airflow (candidate_row r)) = Inr truth"
    using assms by (auto simp: observe_bounded_def no_truth_def split: if_splits)
  obtain status where "ro_status env (rr_run_id r) = Inr (PDict status)" "\<not> truthy (dget status ''error'')"
    using observe_run_reliable [OF run assms(2)] by blast
  with Some time run show ?thesis unfolding run_observed_def by auto
qed

lemma rows_read_distinct:
  "distinct (map rr_run_id table) \<Longrightarrow> distinct (map rr_run_id (rows_read w req uuids table))"
  unfolding load_recovery_candidates_def
  by (intro distinct_map_take) (simp add: distinct_map_sort_key distinct_map_filter)

lemma truth_of_row:
  assumes "observe_airflow_truth fromisoformat env rows = Inr truths" "row \<in> set rows" "distinct (map row_id rows)"
    and "map_of truths (row_id row) = Some truth"
  shows "observe_bounded fromisoformat env row = Inr truth"
proof -
  obtain ts where ts: "rmap (observe_bounded fromisoformat env) rows = Inr ts" "truths = rev (zip (map row_id rows) ts)"
    using assms(1) by (auto simp: observe_airflow_truth_def rbind_Inr_iff)
  then have all: "list_all2 (\<lambda>x y. observe_bounded fromisoformat env x = Inr y) rows ts" by (simp add: rmap_Inr_iff)
  have "(row_id row, truth) \<in> set (zip (map row_id rows) ts)"
    using map_of_SomeD [OF assms(4)] by (simp add: ts(2))
  then obtain n where n: "n < length rows" "n < length ts" "row_id (rows ! n) = row_id row" "ts ! n = truth"
    by (auto simp: set_zip)
  then have "rows ! n = row" using assms(2,3) by (auto simp: distinct_map dest: inj_onD)
  with list_all2_nthD [OF all n(1)] n(4) show ?thesis by simp
qed

lemma planned_row_cases:
  assumes "plan_for w env req table = Inr plan" "p \<in> set (pn_rows plan)"
  obtains r observed where "r \<in> set table" "pl_row p = candidate_row r" "query_matches (rk_query req) r \<and> rr_run_id r \<notin> set (rq_exclude (rk_query req))"
    "\<exists>tenant workspace uuids. user_scope (rk_user req) = Inr (tenant, workspace) \<and>
       scope_uuids (rw_uuid w) tenant workspace = Inr uuids \<and> in_scope (Some uuids) r"
    "classify_stuck_run (rw_fromiso w) (rw_json_loads w) (candidate_row r) observed (rk_now req) (rk_threshold req)
       DEFAULT_MISSING_GRACE = Inr (pl_verdict p)"
    "(pl_action p, pl_neutralize p) = planned_action (allowed_classes req) (rk_neutralize req) (pl_verdict p)"
    "distinct (map rr_run_id table) \<and> pre_airflow_verdict (candidate_row r) = None \<longrightarrow>
       (\<forall>truth. observed = Some truth \<longrightarrow> observe_bounded (rw_fromiso w) env (candidate_row r) = Inr truth)"
proof (rule plan_for_cases [OF assms(1)])
  fix scope uuids truths orphans
  assume scope: "user_scope (rk_user req) = Inr scope" "scope_uuids (rw_uuid w) (fst scope) (snd scope) = Inr uuids"
    and obs: "observe_airflow_truth (rw_fromiso w) env (filter (\<lambda>row. pre_airflow_verdict row = None)
       (map candidate_row (rows_read w req uuids table))) = Inr truths"
    and rows: "rmap (plan_row (rw_fromiso w) (rw_json_loads w) (rk_now req) (rk_threshold req) (allowed_classes req)
      (rk_neutralize req) truths) (map candidate_row (rows_read w req uuids table)) = Inr (pn_rows plan)"
  obtain row where row: "row \<in> set (map candidate_row (rows_read w req uuids table))"
    "plan_row (rw_fromiso w) (rw_json_loads w) (rk_now req) (rk_threshold req) (allowed_classes req) (rk_neutralize req) truths row = Inr p"
    using rmap_Inr_set [OF rows assms(2)] by blast
  then obtain r where r: "r \<in> set (rows_read w req uuids table)" "row = candidate_row r" by auto
  obtain v where v: "classify_stuck_run (rw_fromiso w) (rw_json_loads w) row (map_of truths (row_id row)) (rk_now req)
      (rk_threshold req) DEFAULT_MISSING_GRACE = Inr v"
    "plan_run (rw_fromiso w) (rk_now req) (allowed_classes req) (rk_neutralize req) row v = Inr p"
    using row(2) by (auto simp: plan_row_def rbind_Inr_iff)
  note f = plan_run_fields [OF v(2)] and m = rows_read_set [OF r(1)]
  have "\<exists>tenant workspace uuids. user_scope (rk_user req) = Inr (tenant, workspace) \<and>
       scope_uuids (rw_uuid w) tenant workspace = Inr uuids \<and> in_scope (Some uuids) r"
    using m scope by (metis prod.collapse)
  moreover have "distinct (map rr_run_id table) \<and> pre_airflow_verdict (candidate_row r) = None \<longrightarrow>
      (\<forall>truth. map_of truths (row_id row) = Some truth \<longrightarrow> observe_bounded (rw_fromiso w) env (candidate_row r) = Inr truth)"
  proof (intro impI allI)
    fix truth
    assume d: "distinct (map rr_run_id table) \<and> pre_airflow_verdict (candidate_row r) = None"
      and t: "map_of truths (row_id row) = Some truth"
    have "distinct (map row_id (filter (\<lambda>row. pre_airflow_verdict row = None) (map candidate_row (rows_read w req uuids table))))"
      using rows_read_distinct [of table req w uuids] d by (intro distinct_map_filter) (simp add: comp_def)
    from truth_of_row [OF obs _ this, of "candidate_row r"] r d t
    show "observe_bounded (rw_fromiso w) env (candidate_row r) = Inr truth" by simp
  qed
  ultimately show thesis using f m r(2) v(1) by (intro that [of r "map_of truths (row_id row)"]) simp_all
qed

lemma orphan_action:
  assumes "plan_for w env req table = Inr plan" "p \<in> set (pn_orphans plan)"
  shows "pl_action p \<in> {ACTION_NONE, ACTION_NEUTRALIZE_AIRFLOW} \<and> rk_orphan_scan req \<and> pl_neutralize p = (pl_action p \<noteq> ACTION_NONE)"
proof (rule plan_for_cases [OF assms(1)])
  fix orphans :: "(pdict \<times> airflow_run_truth) list"
  assume o: "rmap (\<lambda>orphan. plan_run (rw_fromiso w) (rk_now req) (allowed_classes req) (rk_neutralize req) (fst orphan) orphan_verdict)
       orphans = Inr (pn_orphans plan)" and scan: "rk_orphan_scan req \<or> orphans = []"
  obtain x where x: "x \<in> set orphans"
    "plan_run (rw_fromiso w) (rk_now req) (allowed_classes req) (rk_neutralize req) (fst x) orphan_verdict = Inr p"
    using rmap_Inr_set [OF o assms(2)] by blast
  then show ?thesis
    using plan_run_fields [OF x(2)] scan by (auto simp: planned_action_def orphan_verdict_def split: if_splits)
qed


section \<open>What a recovery does\<close>

lemma recover_cases_run:
  assumes "recover_stuck_runs w env envs req table = (res, table', log)"
  obtains (applied) plan where "rk_mode req = MODE_APPLY" "plan_for w env req table = Inr plan"
      "rk_expected req \<in> {None, Some (pn_digest plan)}"
      "table' = rs_table (apply_rounds w envs req plan (length (planned_runs plan)) (ro_between env table))"
      "log = rs_log (apply_rounds w envs req plan (length (planned_runs plan)) (ro_between env table))"
      "res = Inr (recovery_outcome req plan (apply_rounds w envs req plan (length (planned_runs plan)) (ro_between env table))
         (rs_entries (apply_rounds w envs req plan (length (planned_runs plan)) (ro_between env table))))"
  | (nothing) "log = []" "table' = ro_between env table" "isl res \<or> rk_mode req \<noteq> MODE_APPLY"
proof (cases "rk_mode req = MODE_APPLY \<and> \<not> isl (plan_for w env req table)")
  case True
  then obtain plan where "plan_for w env req table = Inr plan" by (cases "plan_for w env req table") auto
  note run = assms [unfolded recover_stuck_runs_def Let_def, simplified True this, simplified]
  show thesis
  proof (cases "rk_expected req \<in> {None, Some (pn_digest plan)}")
    case True
    with run \<open>rk_mode req = MODE_APPLY \<and> _\<close> \<open>plan_for w env req table = Inr plan\<close> show thesis
      by (intro applied [of plan]) (auto split: if_splits)
  next
    case False
    with run have "log = []" "table' = ro_between env table" "isl res \<or> rk_mode req \<noteq> MODE_APPLY" by (auto split: if_splits)
    then show thesis by (rule nothing)
  qed
next
  case False
  with assms have "log = []" "table' = ro_between env table" "isl res \<or> rk_mode req \<noteq> MODE_APPLY"
    by (auto simp: recover_stuck_runs_def Let_def split: if_splits sum.splits)
  then show thesis by (rule nothing)
qed

lemma failed_recovery_logs_nothing: "recover_stuck_runs w env envs req table = (Inl e, table', log) \<Longrightarrow> log = []"
  by (auto elim!: recover_cases_run)

lemma apply_rounds_log:
  "\<exists>ess. list_all2 round_log (take rounds (planned_runs plan)) ess \<and> rs_log (apply_rounds w envs req plan rounds table) = concat ess"
  using apply_plan_log [of "take rounds (planned_runs plan)" w envs "rk_actor req" "pn_truths plan" "start_state plan table"]
  by (simp add: apply_rounds_def start_state_def)

lemma logged_round:
  assumes "list_all2 round_log ps ess" "e \<in> set (concat ess)"
  obtains p es where "p \<in> set ps" "es \<in> set ess" "round_log p es" "e \<in> set es"
  using assms by (induction ps ess rule: list_all2_induct) auto

text \<open>
  C6: a recovery does what was approved, round by round, or nothing. Either nothing was logged and the
  table is as the other writers left it, which covers every dry run, every error and every plan that is
  not the approved one; or the mode is apply, the digest of the plan is the expected one if one was
  given, and the log consists of one legal round for each planned run, in the order of the plan.
\<close>

theorem recovery_follows_the_plan:
  assumes "recover_stuck_runs w env envs req table = (res, table', log)"
  shows "log = [] \<and> table' = ro_between env table \<or>
    rk_mode req = MODE_APPLY \<and>
    (\<exists>plan ess. plan_for w env req table = Inr plan \<and> rk_expected req \<in> {None, Some (pn_digest plan)} \<and>
       list_all2 round_log (planned_runs plan) ess \<and> log = concat ess)"
proof (rule recover_cases_run [OF assms])
  fix plan
  assume p: "rk_mode req = MODE_APPLY" "plan_for w env req table = Inr plan" "rk_expected req \<in> {None, Some (pn_digest plan)}"
    and log: "log = rs_log (apply_rounds w envs req plan (length (planned_runs plan)) (ro_between env table))"
  obtain ess where "list_all2 round_log (take (length (planned_runs plan)) (planned_runs plan)) ess" "log = concat ess"
    using apply_rounds_log log by metis
  with p show ?thesis by auto
qed simp

lemma closed_in_round:
  assumes "round_log p es" "RowClosed i \<in> set es"
  shows "i = row_id (pl_row p) \<and> pl_action p = ACTION_MARK_FAILED \<and>
    (pl_neutralize p \<longrightarrow> (\<exists>outcome\<in>{''ok'', ''gone''}. StopRequest i outcome \<in> set es))"
  using assms by (auto elim!: round_logE)

lemma mark_failed_class:
  assumes "classify_stuck_run fromisoformat json_loads row observed now threshold grace = Inr v" "action v = ACTION_MARK_FAILED"
  shows "classification v \<in> set MARK_FAILED_CLASSES"
proof (cases "pre_airflow_verdict row")
  case None
  then show ?thesis
    using assms
    by (auto simp: classify_stuck_run_def Let_def rbind_Inr_iff classify_unfinished_def classify_running_def
        classify_queued_def MARK_FAILED_CLASSES_def STALLED_CLASSES_def split: if_splits)
qed (use assms pre_airflow_action in \<open>auto simp: classify_stuck_run_def\<close>)

lemma planned_mark_failed:
  assumes "plan_for w env req table = Inr plan" "p \<in> set (planned_runs plan)" "pl_action p = ACTION_MARK_FAILED"
  obtains r truth where "r \<in> set table" "pl_row p = candidate_row r" "query_matches (rk_query req) r \<and> rr_run_id r \<notin> set (rq_exclude (rk_query req))"
    "\<exists>tenant workspace uuids. user_scope (rk_user req) = Inr (tenant, workspace) \<and>
       scope_uuids (rw_uuid w) tenant workspace = Inr uuids \<and> in_scope (Some uuids) r"
    "pre_airflow_verdict (candidate_row r) = None" "classification (pl_verdict p) \<in> set (allowed_classes req)"
    "classification (pl_verdict p) \<in> set MARK_FAILED_CLASSES"
    "stuck_evidence (rw_fromiso w) (rw_json_loads w) (candidate_row r) truth (rk_now req) (rk_threshold req) DEFAULT_MISSING_GRACE"
    "found truth = Some True \<longleftrightarrow> pl_neutralize p" "pl_neutralize p \<longrightarrow> rk_neutralize req"
    "distinct (map rr_run_id table) \<longrightarrow> run_observed w env r truth"
proof -
  have "p \<in> set (pn_rows plan)"
    using assms(2,3) orphan_action [OF assms(1), of p] by (auto simp: planned_runs_def)
  from assms(1) this show thesis
  proof (rule planned_row_cases)
    fix r observed
    assume r: "r \<in> set table" "pl_row p = candidate_row r" "query_matches (rk_query req) r \<and> rr_run_id r \<notin> set (rq_exclude (rk_query req))"
      "\<exists>tenant workspace uuids. user_scope (rk_user req) = Inr (tenant, workspace) \<and>
         scope_uuids (rw_uuid w) tenant workspace = Inr uuids \<and> in_scope (Some uuids) r"
      and c: "classify_stuck_run (rw_fromiso w) (rw_json_loads w) (candidate_row r) observed (rk_now req) (rk_threshold req)
        DEFAULT_MISSING_GRACE = Inr (pl_verdict p)"
      and a: "(pl_action p, pl_neutralize p) = planned_action (allowed_classes req) (rk_neutralize req) (pl_verdict p)"
      and o: "distinct (map rr_run_id table) \<and> pre_airflow_verdict (candidate_row r) = None \<longrightarrow>
        (\<forall>truth. observed = Some truth \<longrightarrow> observe_bounded (rw_fromiso w) env (candidate_row r) = Inr truth)"
    have v: "action (pl_verdict p) = ACTION_MARK_FAILED" "pl_neutralize p = neutralize_airflow (pl_verdict p)"
      "classification (pl_verdict p) \<in> set (allowed_classes req)" "pl_neutralize p \<longrightarrow> rk_neutralize req"
      using planned_action_cases [OF a [symmetric]] assms(3) by auto
    from marked_failed_iff [OF c] v(1,2) obtain truth where t: "pre_airflow_verdict (candidate_row r) = None"
      "stuck_evidence (rw_fromiso w) (rw_json_loads w) (candidate_row r) truth (rk_now req) (rk_threshold req) DEFAULT_MISSING_GRACE"
      "found truth = Some True \<longleftrightarrow> pl_neutralize p" "observed = Some truth" by auto
    have "found truth \<noteq> None" using t(2) by (auto simp: stuck_evidence_def)
    then have "distinct (map rr_run_id table) \<longrightarrow> run_observed w env r truth" using o t(1,4) reliable_run_observed by blast
    with t r v(3,4) mark_failed_class [OF c v(1)] show thesis by (intro that) auto
  qed
qed

lemma closed_row_facts:
  assumes "recover_stuck_runs w env envs req table = (res, table', log)" "RowClosed i \<in> set log"
  shows "\<exists>r truth tenant workspace uuids. r \<in> set table \<and> rr_run_id r = i \<and> i \<notin> set (rq_exclude (rk_query req)) \<and>
    user_scope (rk_user req) = Inr (tenant, workspace) \<and> scope_uuids (rw_uuid w) tenant workspace = Inr uuids \<and>
    in_scope (Some uuids) r \<and> query_matches (rk_query req) r \<and> pre_airflow_verdict (candidate_row r) = None \<and>
    stuck_evidence (rw_fromiso w) (rw_json_loads w) (candidate_row r) truth (rk_now req) (rk_threshold req) DEFAULT_MISSING_GRACE \<and>
    (found truth = Some True \<longrightarrow> rk_neutralize req \<and> (StopRequest i ''ok'' \<in> set log \<or> StopRequest i ''gone'' \<in> set log))"
proof (rule recover_cases_run [OF assms(1)])
  fix plan
  assume plan: "plan_for w env req table = Inr plan"
    and log: "log = rs_log (apply_rounds w envs req plan (length (planned_runs plan)) (ro_between env table))"
  obtain ess where ess: "list_all2 round_log (take (length (planned_runs plan)) (planned_runs plan)) ess" "log = concat ess"
    using apply_rounds_log log by metis
  then obtain p es where p: "p \<in> set (planned_runs plan)" "es \<in> set ess" "round_log p es" "RowClosed i \<in> set es"
    using assms(2) logged_round by (metis take_all order_refl)
  note c = closed_in_round [OF p(3,4)]
  have sub: "set es \<subseteq> set log" using p(2) ess(2) by auto
  from plan p(1) show ?thesis
    by (rule planned_mark_failed) (use c sub in \<open>fastforce+\<close>)
qed (use assms(2) in simp)

definition closed_after_stop :: "apply_env \<Rightarrow> string \<Rightarrow> recovery_event list \<Rightarrow> bool" where
  \<comment> \<open>Airflow's answer confirmed the stop or the absence of the run, and then the row was closed\<close>
  "closed_after_stop env i es \<longleftrightarrow> neutralize_outcome (ap_stop env) \<in> {''ok'', ''gone''} \<and>
     es = [StopRequest i (neutralize_outcome (ap_stop env)), RowClosed i, AuditEvent i]"

lemma close_row_log:
  "rs_log (fst (close_row w env actor p truth n s)) = rs_log s \<or>
   rs_log (fst (close_row w env actor p truth n s)) = rs_log s @ [RowClosed (row_id (pl_row p)), AuditEvent (row_id (pl_row p))]"
  by (cases rule: close_row_cases [of w env actor p truth n s]) simp_all

lemma apply_close_confirmed:
  assumes "pl_neutralize p" "rs_log (fst (apply_close w env actor p truth s)) = rs_log s @ es" "RowClosed i \<in> set es"
  shows "closed_after_stop env (row_id (pl_row p)) es"
proof -
  obtain outcome sent where n: "neutralize_run truth (ap_stop env) (row_id (pl_row p)) = (outcome, sent)" by fastforce
  let ?i = "row_id (pl_row p)" and ?out = "neutralize_outcome (ap_stop env)"
  have sent: "sent = [] \<and> outcome = ''failed'' \<or> sent = [StopRequest ?i ?out] \<and> outcome = ?out"
    using n by (auto simp: neutralize_run_def Let_def split: if_splits)
  have es: "es = sent \<or> es = sent @ [RowClosed ?i, AuditEvent ?i] \<and> outcome \<in> {''ok'', ''gone''}"
  proof (cases "outcome = ''ok''")
    case True
    then show ?thesis using assms(1,2) close_row_log [of w env actor p truth True "count_stopped (log_events sent s)"]
      by (simp add: apply_close_def n Let_def)
  next
    case False
    show ?thesis
    proof (cases "outcome = ''gone''")
      case True
      then show ?thesis using assms(1,2) close_row_log [of w env actor p truth False "log_events sent s"]
        by (simp add: apply_close_def n Let_def)
    next
      case gone: False
      then show ?thesis using assms(1,2) False by (simp add: apply_close_def n Let_def split: if_splits)
    qed
  qed
  have "sent = [] \<longrightarrow> outcome \<notin> {''ok'', ''gone''}" "RowClosed i \<notin> set sent" using sent by auto
  with es sent assms(3) show ?thesis by (auto simp: closed_after_stop_def)
qed

lemma apply_planned_confirmed:
  assumes "pl_action p = ACTION_MARK_FAILED" "pl_neutralize p" "RowClosed i \<in> set es"
    and "rs_log (apply_planned w env actor truths p s) = rs_log s @ es"
  shows "closed_after_stop env (row_id (pl_row p)) es"
proof -
  let ?s = "s\<lparr>rs_table := ap_before env (rs_table s)\<rparr>"
  have "ACTION_MARK_FAILED \<noteq> ACTION_NONE" "ACTION_MARK_FAILED \<noteq> ACTION_NEUTRALIZE_AIRFLOW" "ACTION_MARK_FAILED \<noteq> ACTION_SYNC_TERMINAL"
    by (simp_all add: action_defs)
  then have "rs_log (fst (apply_close w env actor p (map_of truths (row_id (pl_row p))) ?s)) = rs_log ?s @ es"
    using assms(1,4) by (simp add: apply_planned_def Let_def)
  from apply_close_confirmed [OF assms(2) this assms(3)] show ?thesis .
qed

lemma apply_plan_rounds:
  "\<exists>ess. list_all2 round_log ps ess \<and> rs_log (apply_plan w envs actor truths ps s) = rs_log s @ concat ess \<and>
     (\<forall>n < length ps. \<forall>i. pl_action (ps ! n) = ACTION_MARK_FAILED \<and> pl_neutralize (ps ! n) \<and> RowClosed i \<in> set (ess ! n) \<longrightarrow>
        closed_after_stop (envs n) (row_id (pl_row (ps ! n))) (ess ! n))"
proof (induction ps arbitrary: envs s)
  case (Cons p ps)
  obtain es where es: "rs_log (apply_planned w (envs 0) actor truths p s) = rs_log s @ es" "round_log p es"
    using apply_planned_log [of p s w "envs 0" actor truths] by (auto simp: logs_round_def)
  obtain ess where ess: "list_all2 round_log ps ess"
    "rs_log (apply_plan w envs actor truths (p # ps) s) = rs_log s @ es @ concat ess"
    "\<forall>n < length ps. \<forall>i. pl_action (ps ! n) = ACTION_MARK_FAILED \<and> pl_neutralize (ps ! n) \<and> RowClosed i \<in> set (ess ! n) \<longrightarrow>
        closed_after_stop (envs (Suc n)) (row_id (pl_row (ps ! n))) (ess ! n)"
    using Cons.IH [of "\<lambda>i. envs (Suc i)" "apply_planned w (envs 0) actor truths p s"] es(1) by auto
  have "\<forall>n < length (p # ps). \<forall>i. pl_action ((p # ps) ! n) = ACTION_MARK_FAILED \<and> pl_neutralize ((p # ps) ! n) \<and>
      RowClosed i \<in> set ((es # ess) ! n) \<longrightarrow> closed_after_stop (envs n) (row_id (pl_row ((p # ps) ! n))) ((es # ess) ! n)"
    unfolding length_Cons All_less_Suc2 nth_Cons_0 nth_Cons_Suc using apply_planned_confirmed [OF _ _ _ es(1)] ess(3) by blast
  with es(2) ess(1,2) show ?case by (intro exI [of _ "es # ess"]) simp
qed simp

lemma closed_row_round:
  assumes "plan_for w env req table = Inr plan"
    and "log = rs_log (apply_rounds w envs req plan (length (planned_runs plan)) (ro_between env table))" "RowClosed i \<in> set log"
  obtains n p before es later where "n < length (planned_runs plan)" "p = planned_runs plan ! n" "log = before @ es @ later"
    "row_id (pl_row p) = i" "pl_action p = ACTION_MARK_FAILED" "pl_neutralize p \<longrightarrow> closed_after_stop (envs n) i es"
    "\<not> pl_neutralize p \<longrightarrow> es = [RowClosed i, AuditEvent i]"
proof -
  obtain ess where ess: "list_all2 round_log (planned_runs plan) ess" "log = concat ess"
    "\<forall>n < length (planned_runs plan). \<forall>i. pl_action (planned_runs plan ! n) = ACTION_MARK_FAILED \<and>
       pl_neutralize (planned_runs plan ! n) \<and> RowClosed i \<in> set (ess ! n) \<longrightarrow>
       closed_after_stop (envs n) (row_id (pl_row (planned_runs plan ! n))) (ess ! n)"
    using apply_plan_rounds [of "planned_runs plan" w envs "rk_actor req" "pn_truths plan" "start_state plan (ro_between env table)"]
      assms(2) by (auto simp: apply_rounds_def start_state_def)
  obtain n where n: "n < length ess" "RowClosed i \<in> set (ess ! n)" using assms(3) ess(2) by (auto simp: in_set_conv_nth [of _ ess])
  have len: "n < length (planned_runs plan)" using n(1) ess(1) by (simp add: list_all2_lengthD)
  note c = closed_in_round [OF list_all2_nthD [OF ess(1) len] n(2)]
  have "\<not> pl_neutralize (planned_runs plan ! n) \<longrightarrow> ess ! n = [RowClosed i, AuditEvent i]"
    using list_all2_nthD [OF ess(1) len] n(2) c by (auto elim!: round_logE)
  moreover have "log = concat (take n ess) @ ess ! n @ concat (drop (Suc n) ess)"
    unfolding ess(2) by (subst id_take_nth_drop [OF n(1)]) simp
  ultimately show thesis using that [OF len refl] c ess(3) len n(2) by blast
qed

text \<open>
  C2: a row is closed only on what Airflow answered. If a recovery closed the row of a run, the caller's scope
  holds that row in the table that was read, it was asked for and not excluded, is no aggregate and not governed by
  a lease; the infrastructure service described its process and answered for the run, in time and without an error;
  the observation built from these answers is the evidence that giving the run up needs; and if by that observation
  Airflow still held the run, stopping it was permitted, and in the round of this run Airflow's answer confirmed
  the stop or the absence of the run before the row was closed. The run id is the primary key of the table.
\<close>

theorem closed_row_was_stuck:
  assumes "distinct (map rr_run_id table)" "recover_stuck_runs w env envs req table = (res, table', log)" "RowClosed i \<in> set log"
  shows "\<exists>r tenant workspace uuids answer status truth n before es later. r \<in> set table \<and> rr_run_id r = i \<and>
    i \<notin> set (rq_exclude (rk_query req)) \<and>
    user_scope (rk_user req) = Inr (tenant, workspace) \<and> scope_uuids (rw_uuid w) tenant workspace = Inr uuids \<and>
    in_scope (Some uuids) r \<and> query_matches (rk_query req) r \<and> pre_airflow_verdict (candidate_row r) = None \<and>
    ro_describe env (rr_dag_id r) = Some answer \<and> \<not> ro_timeout env i \<and>
    ro_status env i = Inr (PDict status) \<and> \<not> truthy (dget status ''error'') \<and>
    observe_run (rw_fromiso w) (describe_result answer) (Inr (PDict status)) (ro_tasks env i) (row_airflow (candidate_row r)) =
      Inr truth \<and>
    stuck_evidence (rw_fromiso w) (rw_json_loads w) (candidate_row r) truth (rk_now req) (rk_threshold req) DEFAULT_MISSING_GRACE \<and>
    log = before @ es @ [RowClosed i, AuditEvent i] @ later \<and>
    es = (if found truth = Some True then [StopRequest i (neutralize_outcome (ap_stop (envs n)))] else []) \<and>
    (found truth = Some True \<longrightarrow> rk_neutralize req \<and> neutralize_outcome (ap_stop (envs n)) \<in> {''ok'', ''gone''})"
  using assms(2)
proof (rule recover_cases_run)
  fix plan
  assume plan: "plan_for w env req table = Inr plan"
    and log: "log = rs_log (apply_rounds w envs req plan (length (planned_runs plan)) (ro_between env table))"
  obtain n p before es later where c: "n < length (planned_runs plan)" "p = planned_runs plan ! n" "log = before @ es @ later"
    "row_id (pl_row p) = i" "pl_action p = ACTION_MARK_FAILED" "pl_neutralize p \<longrightarrow> closed_after_stop (envs n) i es"
    "\<not> pl_neutralize p \<longrightarrow> es = [RowClosed i, AuditEvent i]"
    by (rule closed_row_round [OF plan log assms(3)])
  have "p \<in> set (planned_runs plan)" using c(1,2) by simp
  from planned_mark_failed [OF plan this c(5)] obtain r truth tenant workspace uuids
    where r: "r \<in> set table" "rr_run_id r = i" "query_matches (rk_query req) r \<and> i \<notin> set (rq_exclude (rk_query req))"
      "user_scope (rk_user req) = Inr (tenant, workspace)" "scope_uuids (rw_uuid w) tenant workspace = Inr uuids"
      "in_scope (Some uuids) r" "pre_airflow_verdict (candidate_row r) = None"
      "stuck_evidence (rw_fromiso w) (rw_json_loads w) (candidate_row r) truth (rk_now req) (rk_threshold req) DEFAULT_MISSING_GRACE"
      "found truth = Some True \<longleftrightarrow> pl_neutralize p" "pl_neutralize p \<longrightarrow> rk_neutralize req" "run_observed w env r truth"
    using c(4) assms(1) by (smt (verit, best) row_id_candidate)
  from r(11) [unfolded run_observed_def] r(2) obtain answer status where a: "ro_describe env (rr_dag_id r) = Some answer"
    "\<not> ro_timeout env i" "ro_status env i = Inr (PDict status)" "\<not> truthy (dget status ''error'')"
    "observe_run (rw_fromiso w) (describe_result answer) (Inr (PDict status)) (ro_tasks env i) (row_airflow (candidate_row r)) =
      Inr truth" by auto
  let ?stop = "if found truth = Some True then [StopRequest i (neutralize_outcome (ap_stop (envs n)))] else []"
  have stop: "found truth = Some True \<longrightarrow> rk_neutralize req \<and> neutralize_outcome (ap_stop (envs n)) \<in> {''ok'', ''gone''}"
    and log: "log = before @ ?stop @ [RowClosed i, AuditEvent i] @ later"
    using r(9,10) c(3,6,7) by (auto simp: closed_after_stop_def)
  show ?thesis
    by (intro exI conjI) (rule r a refl log stop | (use r in \<open>simp; fail\<close>))+
qed (use assms(3) in simp)

section \<open>The counts\<close>

definition closings :: "recovery_event list \<Rightarrow> int" where
  "closings es = int (length (filter (\<lambda>e. case e of RowClosed _ \<Rightarrow> True | _ \<Rightarrow> False) es))"

definition stops :: "recovery_event list \<Rightarrow> int" where
  "stops es = int (length (filter (\<lambda>e. case e of StopRequest _ outcome \<Rightarrow> outcome = ''ok'' | _ \<Rightarrow> False) es))"

definition accounted :: "recovery_counts \<Rightarrow> int" where
  "accounted c = rc_recovered c + rc_synced_terminal c + rc_conflicts c + rc_airflow_neutralize_failed c"

definition round_counts :: "int \<Rightarrow> int \<Rightarrow> recovery_state \<Rightarrow> recovery_state \<Rightarrow> bool" where
  "round_counts lo hi s s' \<longleftrightarrow>
     rc_candidates (rs_counts s') = rc_candidates (rs_counts s) \<and> rc_recoverable (rs_counts s') = rc_recoverable (rs_counts s) \<and>
     closings (rs_log s') - rc_recovered (rs_counts s') = closings (rs_log s) - rc_recovered (rs_counts s) \<and>
     stops (rs_log s') - rc_airflow_neutralized (rs_counts s') = stops (rs_log s) - rc_airflow_neutralized (rs_counts s) \<and>
     accounted (rs_counts s) + lo \<le> accounted (rs_counts s') \<and> accounted (rs_counts s') \<le> accounted (rs_counts s) + hi"

lemma round_counts_trans:
  "round_counts a b s s' \<Longrightarrow> round_counts c d s' s'' \<Longrightarrow> round_counts (a + c) (b + d) s s''"
  by (simp add: round_counts_def)

lemma closings_append [simp]: "closings (xs @ ys) = closings xs + closings ys" by (simp add: closings_def)

lemma stops_append [simp]: "stops (xs @ ys) = stops xs + stops ys" by (simp add: stops_def)

lemma count_events [simp]:
  "closings [] = 0" "stops [] = 0"
  "closings (RowClosed i # es) = closings es + 1" "closings (StopRequest i out # es) = closings es"
  "closings (AuditEvent i # es) = closings es" "closings (RefreshRequest i # es) = closings es"
  "stops (RowClosed i # es) = stops es" "stops (StopRequest i out # es) = (if out = ''ok'' then 1 else 0) + stops es"
  "stops (AuditEvent i # es) = stops es" "stops (RefreshRequest i # es) = stops es"
  by (simp_all add: closings_def stops_def)

lemmas round_count_defs = round_counts_def accounted_def count_defs

lemma apply_orphan_counts: "round_counts 0 1 s (fst (apply_orphan env p truth s))"
proof (cases "neutralize_run truth (ap_stop env) (row_id (pl_row p))")
  case (Pair outcome sent)
  with neutralize_sent [OF Pair] show ?thesis by (auto simp: apply_orphan_def round_count_defs Let_def)
qed

lemma apply_sync_counts: "round_counts 1 1 s (fst (apply_sync w env p s))"
  by (auto simp: apply_sync_def round_count_defs Let_def split: sum.splits)

lemma close_row_counts: "round_counts 1 1 s (fst (close_row w env actor p truth n s))"
  by (cases rule: close_row_cases [of w env actor p truth n s]) (simp_all add: round_count_defs)

lemma apply_close_counts: "round_counts 1 1 s (fst (apply_close w env actor p truth s))"
proof -
  obtain outcome sent where n: "neutralize_run truth (ap_stop env) (row_id (pl_row p)) = (outcome, sent)" by fastforce
  note sent = neutralize_sent [OF n]
  have ok: "round_counts 0 0 s (count_stopped (log_events sent s))" if "outcome = ''ok''"
    using sent that by (auto simp: round_count_defs)
  have other: "round_counts 0 0 s (log_events sent s)" if "outcome \<noteq> ''ok''"
    using sent that by (auto simp: round_count_defs)
  have one: "round_counts 1 1 s' (count_conflict s')" "round_counts 1 1 s' (count_stop_failed s')" for s'
    by (simp_all add: round_count_defs)
  show ?thesis
    using round_counts_trans [OF ok close_row_counts, of w env actor p truth True]
      round_counts_trans [OF other close_row_counts, of w env actor p truth False]
      round_counts_trans [OF other one(1)] round_counts_trans [OF other one(2)] close_row_counts [of s w env actor p truth False]
    by (auto simp: apply_close_def n Let_def)
qed

definition certain_round :: "planned \<Rightarrow> bool" where
  "certain_round p \<longleftrightarrow> pl_action p = ACTION_MARK_FAILED \<or> pl_action p = ACTION_SYNC_TERMINAL"

lemma round_counts_cong:
  "rs_counts t = rs_counts s \<Longrightarrow> rs_log t = rs_log s \<Longrightarrow> rs_counts t' = rs_counts s' \<Longrightarrow> rs_log t' = rs_log s' \<Longrightarrow>
     round_counts lo hi t t' = round_counts lo hi s s'"
  by (simp add: round_counts_def)

lemma apply_planned_counts:
  "round_counts (if certain_round p then 1 else 0) (if pl_action p \<noteq> ACTION_NONE then 1 else 0) s
     (apply_planned w env actor truths p s)"
proof -
  let ?s = "s\<lparr>rs_table := ap_before env (rs_table s)\<rparr>" and ?t = "map_of truths (row_id (pl_row p))"
  have cong: "round_counts lo hi s (s'\<lparr>rs_entries := es\<rparr>) = round_counts lo hi ?s s'" for lo hi s' es
    by (rule round_counts_cong) simp_all
  have still: "round_counts 0 0 ?s ?s" "round_counts 0 1 ?s ?s" by (simp_all add: round_counts_def)
  show ?thesis
    using apply_orphan_counts [of ?s env p ?t] apply_sync_counts [of ?s w env p] apply_close_counts [of ?s w env actor p ?t] still
    by (auto simp: apply_planned_def Let_def cong certain_round_def)
qed

lemma apply_orphan_entries [simp]: "rs_entries (fst (apply_orphan env p truth s)) = rs_entries s"
  by (auto simp: apply_orphan_def Let_def count_defs split: prod.splits)

lemma apply_sync_entries [simp]: "rs_entries (fst (apply_sync w env p s)) = rs_entries s"
  by (auto simp: apply_sync_def Let_def count_defs split: sum.splits)

lemma close_row_entries [simp]: "rs_entries (fst (close_row w env actor p truth n s)) = rs_entries s"
  by (cases rule: close_row_cases [of w env actor p truth n s]) (simp_all add: count_defs)

lemma apply_close_entries [simp]: "rs_entries (fst (apply_close w env actor p truth s)) = rs_entries s"
  by (auto simp: apply_close_def Let_def split: prod.splits) (simp_all add: count_defs)

lemma apply_planned_entries [simp]:
  "length (rs_entries (apply_planned w env actor truths p s)) = Suc (length (rs_entries s))"
  by (auto simp: apply_planned_def Let_def)

lemma apply_plan_entries:
  "length (rs_entries (apply_plan w envs actor truths ps s)) = length (rs_entries s) + length ps"
  by (induction ps arbitrary: envs s) simp_all

lemma apply_plan_counts:
  "round_counts (count_planned certain_round ps) (count_planned (\<lambda>p. pl_action p \<noteq> ACTION_NONE) ps) s
     (apply_plan w envs actor truths ps s)"
proof (induction ps arbitrary: envs s)
  case (Cons p ps)
  note round_counts_trans [OF apply_planned_counts [of p s w "envs 0" actor truths]
      Cons.IH [of "apply_planned w (envs 0) actor truths p s" "\<lambda>i. envs (Suc i)"]]
  then show ?case by (simp add: count_planned_def add.commute split: if_splits)
qed (simp add: round_counts_def count_planned_def)

lemma classify_action:
  assumes "classify_stuck_run fromisoformat json_loads row observed now threshold grace = Inr v"
  shows "action v \<in> {ACTION_NONE, ACTION_MARK_FAILED, ACTION_SYNC_TERMINAL}"
proof (cases "pre_airflow_verdict row")
  case None
  then show ?thesis
    using assms
    by (auto simp: classify_stuck_run_def Let_def rbind_Inr_iff classify_unfinished_def classify_running_def
        classify_queued_def split: if_splits)
qed (use assms pre_airflow_action in \<open>auto simp: classify_stuck_run_def\<close>)

lemma certain_rows:
  assumes "plan_for w env req table = Inr plan"
  shows "count_planned certain_round (pn_rows plan) = count_planned (\<lambda>p. pl_action p \<noteq> ACTION_NONE) (pn_rows plan)"
proof -
  have "certain_round p \<longleftrightarrow> pl_action p \<noteq> ACTION_NONE" if "p \<in> set (pn_rows plan)" for p
    using assms that
  proof (rule planned_row_cases)
    fix r observed
    assume c: "classify_stuck_run (rw_fromiso w) (rw_json_loads w) (candidate_row r) observed (rk_now req) (rk_threshold req)
        DEFAULT_MISSING_GRACE = Inr (pl_verdict p)"
      and a: "(pl_action p, pl_neutralize p) = planned_action (allowed_classes req) (rk_neutralize req) (pl_verdict p)"
    show ?thesis
      using classify_action [OF c] planned_action_cases [OF a [symmetric]] by (auto simp: certain_round_def)
  qed
  then show ?thesis by (simp add: count_planned_def cong: filter_cong)
qed

lemma count_planned_append [simp]: "count_planned P (xs @ ys) = count_planned P xs + count_planned P ys"
  by (simp add: count_planned_def)

lemma count_planned_bounds: "0 \<le> count_planned P ps \<and> count_planned P ps \<le> int (length ps)"
  by (simp add: count_planned_def)

lemma start_counts [simp]:
  "rs_log (start_state plan table) = []" "accounted (rs_counts (start_state plan table)) = 0"
  "rc_recovered (rs_counts (start_state plan table)) = 0" "rc_airflow_neutralized (rs_counts (start_state plan table)) = 0"
  "rc_candidates (rs_counts (start_state plan table)) = int (length (planned_runs plan))"
  "rc_recoverable (rs_counts (start_state plan table)) = count_planned (\<lambda>p. pl_action p \<noteq> ACTION_NONE) (planned_runs plan)"
  by (simp_all add: start_state_def plan_counts_def Let_def accounted_def planned_runs_def)

lemma start_entries [simp]: "rs_entries (start_state plan table) = []"
  by (simp add: start_state_def)

lemma report_adds_up:
  assumes "recover_stuck_runs w env envs req table = (Inr report, table', log)" "rk_mode req = MODE_APPLY"
  shows "\<exists>plan. plan_for w env req table = Inr plan \<and>
    rc_candidates (rp_counts report) = int (length (rp_runs report)) \<and> rc_recovered (rp_counts report) = closings log \<and>
    rc_airflow_neutralized (rp_counts report) = stops log \<and> accounted (rp_counts report) \<le> rc_recoverable (rp_counts report) \<and>
    rc_recoverable (rp_counts report) \<le> accounted (rp_counts report) + int (length (pn_orphans plan)) \<and>
    (pn_orphans plan = [] \<or> rk_orphan_scan req)"
  using assms(1)
proof (rule recover_cases_run)
  fix plan
  let ?s = "apply_rounds w envs req plan (length (planned_runs plan)) (ro_between env table)"
  assume plan: "plan_for w env req table = Inr plan" and log: "log = rs_log ?s"
    and res: "Inr report = Inr (recovery_outcome req plan ?s (rs_entries ?s))"
  have report: "rp_counts report = rs_counts ?s" "rp_runs report = rs_entries ?s" using res by (simp_all add: recovery_outcome_def)
  have entries: "length (rs_entries ?s) = length (planned_runs plan)" by (simp add: apply_rounds_def apply_plan_entries)
  have counts: "round_counts (count_planned certain_round (planned_runs plan))
      (count_planned (\<lambda>p. pl_action p \<noteq> ACTION_NONE) (planned_runs plan)) (start_state plan (ro_between env table)) ?s"
    using apply_plan_counts [of "planned_runs plan"] by (simp add: apply_rounds_def)
  have "count_planned (\<lambda>p. pl_action p \<noteq> ACTION_NONE) (planned_runs plan) \<le>
      count_planned certain_round (planned_runs plan) + int (length (pn_orphans plan))"
    using certain_rows [OF plan] count_planned_bounds [of certain_round "pn_orphans plan"]
      count_planned_bounds [of "\<lambda>p. pl_action p \<noteq> ACTION_NONE" "pn_orphans plan"]
    by (simp add: planned_runs_def)
  moreover have "pn_orphans plan = [] \<or> rk_orphan_scan req"
    using orphan_action [OF plan] by (cases "pn_orphans plan") auto
  ultimately show ?thesis
    using counts plan by (intro exI [of _ plan]) (simp add: report entries log round_counts_def)
qed (use assms(2) in simp)

text \<open>
  the report adds up. The report of an applied recovery has one entry per candidate; the closed rows
  and the confirmed stops it counts are the events of the log; and every run it set out to recover is
  counted once as closed, synchronised, in conflict or not stoppable, apart from orphans, of which there
  are none unless they were asked for.
\<close>

theorem recovery_report_adds_up:
  assumes "recover_stuck_runs w env envs req table = (Inr report, table', log)" "rk_mode req = MODE_APPLY"
  shows "\<exists>plan. plan_for w env req table = Inr plan \<and>
    rc_candidates (rp_counts report) = int (length (rp_runs report)) \<and> rc_recovered (rp_counts report) = closings log \<and>
    rc_airflow_neutralized (rp_counts report) = stops log \<and> accounted (rp_counts report) \<le> rc_recoverable (rp_counts report) \<and>
    rc_recoverable (rp_counts report) \<le> accounted (rp_counts report) + int (length (pn_orphans plan)) \<and>
    (pn_orphans plan = [] \<or> rk_orphan_scan req)"
  using assms by (rule report_adds_up)

section \<open>The recovery as one of the writers\<close>

lemma apply_mark_failed_cases:
  assumes "apply_mark_failed w env actor row v truth n table = Inr (Some r, table')"
  obtains args where "mark_failed_args row v truth actor n = Inr args"
    "recover_update (rw_uuid w) (rw_rls w) (ap_now env) (ap_now_text env) args table = Inr (Some r, table')"
  using assms by (auto simp: apply_mark_failed_def rbind_Inr_iff split: if_splits option.splits)

lemma mark_failed_args_row:
  assumes "mark_failed_args (candidate_row r) v truth actor n = Inr args"
  shows "ra_run_id args = rr_run_id r \<and> ra_token args = rr_token r"
  using assms by (auto simp: mark_failed_args_def rbind_Inr_iff candidate_row_def Let_def)

definition row_changed :: "recovery_world \<Rightarrow> apply_env \<Rightarrow> string \<Rightarrow> planned \<Rightarrow> run_table \<Rightarrow> run_table \<Rightarrow> bool" where
  "row_changed w env actor p table table' \<longleftrightarrow>
     (\<exists>v truth n args r. mark_failed_args (pl_row p) v truth actor n = Inr args \<and>
        recover_update (rw_uuid w) (rw_rls w) (ap_now env) (ap_now_text env) args table = Inr (Some r, table'))"

lemma row_changedI:
  "mark_failed_args (pl_row p) v truth actor n = Inr args \<Longrightarrow>
   recover_update (rw_uuid w) (rw_rls w) (ap_now env) (ap_now_text env) args table = Inr (Some r, table') \<Longrightarrow>
   row_changed w env actor p table table'"
  unfolding row_changed_def by blast

lemma row_changed_step: "row_changed w env actor p table table' \<Longrightarrow> run_step table table'"
  by (auto simp: row_changed_def intro: step_recover)

lemma row_changed_closes:
  assumes "row_changed w env actor p table table'" "pl_row p = candidate_row r0" "distinct (map rr_run_id table)"
  shows "\<exists>r. find_run table' (rr_run_id r0) = Some r \<and> row_rank r = 60 \<and> rr_token r0 < rr_token r"
proof -
  obtain v truth n args r where "mark_failed_args (candidate_row r0) v truth actor n = Inr args"
    "recover_update (rw_uuid w) (rw_rls w) (ap_now env) (ap_now_text env) args table = Inr (Some r, table')"
    using assms(1,2) by (auto simp: row_changed_def)
  then show ?thesis using mark_failed_args_row recover_update_closes [OF _ assms(3)] by force
qed

definition round_effect :: "recovery_world \<Rightarrow> apply_env \<Rightarrow> string \<Rightarrow> planned \<Rightarrow> recovery_state \<Rightarrow> recovery_state \<Rightarrow> bool" where
  \<comment> \<open>the row was closed by the compare-and-swap, or none was and some writer acted or nobody\<close>
  "round_effect w env actor p s s' \<longleftrightarrow>
     row_changed w env actor p (rs_table s) (rs_table s') \<or>
     (\<exists>es. rs_log s' = rs_log s @ es \<and> (\<forall>i. RowClosed i \<notin> set es)) \<and> run_step\<^sup>*\<^sup>* (rs_table s) (rs_table s')"

lemma table_counts [simp]:
  "rs_table (count_conflict s) = rs_table s" "rs_table (count_stop_failed s) = rs_table s" "rs_table (count_stopped s) = rs_table s"
  "rs_table (log_events es s) = rs_table s"
  by (simp_all add: count_defs)

lemma close_row_effect: "round_effect w env actor p s (fst (close_row w env actor p truth n s))"
proof (cases rule: close_row_cases [of w env actor p truth n s])
  case (closed r table)
  from closed(1) show ?thesis
    by (rule apply_mark_failed_cases) (simp add: closed(2) round_effect_def log_events_def row_changedI)
qed (simp add: round_effect_def)

lemma round_effect_after:
  assumes "round_effect w env actor p s1 s'" "rs_log s1 = rs_log s @ es" "\<forall>i. RowClosed i \<notin> set es" "rs_table s1 = rs_table s"
  shows "round_effect w env actor p s s'"
  using assms by (force simp: round_effect_def)

lemma silent_effect:
  "rs_log s' = rs_log s @ es \<Longrightarrow> \<forall>i. RowClosed i \<notin> set es \<Longrightarrow> rs_table s' = rs_table s \<Longrightarrow> round_effect w env actor p s s'"
  by (auto simp: round_effect_def)

lemma apply_close_effect: "round_effect w env actor p s (fst (apply_close w env actor p truth s))"
proof -
  obtain outcome sent where n: "neutralize_run truth (ap_stop env) (row_id (pl_row p)) = (outcome, sent)" by fastforce
  then have sent: "\<forall>i. RowClosed i \<notin> set sent" using neutralize_sent by fastforce
  note [intro] = round_effect_after [OF close_row_effect, where s = s and es = sent] silent_effect [where s = s and es = sent]
  show ?thesis
    using sent close_row_effect [of w env actor p s] by (auto simp: apply_close_def n Let_def)
qed

lemma apply_orphan_effect: "round_effect w env' actor p s (fst (apply_orphan env p truth s))"
proof -
  obtain outcome sent where n: "neutralize_run truth (ap_stop env) (row_id (pl_row p)) = (outcome, sent)" by fastforce
  have "rs_table (fst (apply_orphan env p truth s)) = rs_table s"
    by (auto simp: apply_orphan_def Let_def split: prod.splits)
  moreover have "\<exists>es. rs_log (fst (apply_orphan env p truth s)) = rs_log s @ es \<and> (\<forall>i. RowClosed i \<notin> set es)"
    using neutralize_sent [OF n] by (auto simp: apply_orphan_def n Let_def)
  ultimately show ?thesis by (auto simp: round_effect_def)
qed

lemma apply_sync_effect: "round_effect w env' actor p s (fst (apply_sync w env p s))"
proof -
  have "run_step\<^sup>*\<^sup>* (rs_table s) (rs_table (fst (apply_sync w env p s)))"
    by (auto simp: apply_sync_def Let_def default_refresh_dag_run_status_def split: sum.splits
        intro!: r_into_rtranclp step_refresh)
  moreover have "rs_log (fst (apply_sync w env p s)) = rs_log s @ [RefreshRequest (row_id (pl_row p))]"
    by (auto simp: apply_sync_def Let_def split: sum.splits)
  ultimately show ?thesis by (auto simp: round_effect_def)
qed

lemma apply_planned_effect:
  "round_effect w env actor p (s\<lparr>rs_table := ap_before env (rs_table s)\<rparr>) (apply_planned w env actor truths p s)"
proof -
  let ?s = "s\<lparr>rs_table := ap_before env (rs_table s)\<rparr>" and ?t = "map_of truths (row_id (pl_row p))"
  have entries: "round_effect w env actor p t (t'\<lparr>rs_entries := es\<rparr>) = round_effect w env actor p t t'" for t t' es
    by (simp add: round_effect_def)
  have "round_effect w env actor p ?s ?s" by (simp add: round_effect_def)
  then show ?thesis
    using apply_orphan_effect [of w env actor p ?s env ?t] apply_sync_effect [of w env actor p ?s env]
      apply_close_effect [of w env actor p ?s ?t]
    by (auto simp: apply_planned_def Let_def entries)
qed

text \<open>The other writers of the table act by steps of their own.\<close>

definition writers :: "(run_table \<Rightarrow> run_table) \<Rightarrow> bool" where
  "writers f \<longleftrightarrow> (\<forall>table. run_step\<^sup>*\<^sup>* table (f table))"

lemma apply_planned_steps:
  assumes "writers (ap_before env)"
  shows "run_step\<^sup>*\<^sup>* (rs_table s) (rs_table (apply_planned w env actor truths p s))"
proof -
  have "run_step\<^sup>*\<^sup>* (rs_table s) (ap_before env (rs_table s))" using assms by (simp add: writers_def)
  moreover have "run_step\<^sup>*\<^sup>* (ap_before env (rs_table s)) (rs_table (apply_planned w env actor truths p s))"
    using apply_planned_effect [of w env actor p s truths] by (auto simp: round_effect_def dest: row_changed_step)
  ultimately show ?thesis by (rule rtranclp_trans)
qed

lemma apply_plan_steps:
  "\<forall>n. writers (ap_before (envs n)) \<Longrightarrow> run_step\<^sup>*\<^sup>* (rs_table s) (rs_table (apply_plan w envs actor truths ps s))"
proof (induction ps arbitrary: envs s)
  case (Cons p ps)
  have "run_step\<^sup>*\<^sup>* (rs_table s) (rs_table (apply_planned w (envs 0) actor truths p s))"
    using Cons.prems by (intro apply_planned_steps) simp
  with Cons.IH [of "\<lambda>i. envs (Suc i)"] Cons.prems show ?case by (auto intro: rtranclp_trans)
qed simp

lemma apply_plan_closes:
  assumes "\<forall>n. writers (ap_before (envs n))" "distinct (map rr_run_id (rs_table s))"
    and "RowClosed i \<in> set (rs_log (apply_plan w envs actor truths ps s))" "RowClosed i \<notin> set (rs_log s)"
  shows "\<exists>p\<in>set ps. pl_action p = ACTION_MARK_FAILED \<and> row_id (pl_row p) = i \<and> (\<forall>r0. pl_row p = candidate_row r0 \<longrightarrow>
    (\<exists>r. find_run (rs_table (apply_plan w envs actor truths ps s)) i = Some r \<and> 60 \<le> row_rank r \<and> rr_token r0 < rr_token r))"
  using assms
proof (induction ps arbitrary: envs s)
  case (Cons p ps)
  let ?s = "apply_planned w (envs 0) actor truths p s"
  let ?t = "apply_plan w (\<lambda>i. envs (Suc i)) actor truths ps ?s"
  have before: "run_step\<^sup>*\<^sup>* (rs_table s) (ap_before (envs 0) (rs_table s))" using Cons.prems(1) by (simp add: writers_def)
  have rest: "run_step\<^sup>*\<^sup>* (rs_table ?s) (rs_table ?t)" using Cons.prems(1) by (intro apply_plan_steps) simp
  show ?case
  proof (cases "RowClosed i \<in> set (rs_log ?s)")
    case True
    obtain es where es: "rs_log ?s = rs_log s @ es" "round_log p es"
      using apply_planned_log [of p s w "envs 0" actor truths] by (auto simp: logs_round_def)
    with True Cons.prems(4) have "RowClosed i \<in> set es" by simp
    note c = closed_in_round [OF es(2) this]
    have changed: "row_changed w (envs 0) actor p (ap_before (envs 0) (rs_table s)) (rs_table ?s)"
      using apply_planned_effect [of w "envs 0" actor p s truths] es(1) \<open>RowClosed i \<in> set es\<close> by (auto simp: round_effect_def)
    have "\<exists>r. find_run (rs_table ?t) i = Some r \<and> 60 \<le> row_rank r \<and> rr_token r0 < rr_token r" if r0: "pl_row p = candidate_row r0" for r0
    proof -
      obtain r1 where r1: "find_run (rs_table ?s) i = Some r1" "row_rank r1 = 60" "rr_token r0 < rr_token r1"
        using row_changed_closes [OF changed r0 steps_distinct [OF before Cons.prems(2)]] c r0 by auto
      from finished_stays [OF rest r1(1)] r1(2,3) show ?thesis by auto
    qed
    with c show ?thesis by auto
  next
    case False
    have "distinct (map rr_run_id (rs_table ?s))"
      using steps_distinct [OF apply_planned_steps Cons.prems(2)] Cons.prems(1) by simp
    then show ?thesis
      using Cons.IH [of "\<lambda>i. envs (Suc i)" ?s] Cons.prems(1,3) False by simp
  qed
qed simp

text \<open>
  C11: a closed row stays closed, under any interleaving. Whatever other writers do to the table before
  the plan is carried out and between its rounds, if a recovery closed the row of a run then the table it
  leaves holds that run, finished, with a fencing token above the one that was read, so that no writer
  with the old token can touch it.
\<close>

theorem closed_row_stays_closed:
  assumes "recover_stuck_runs w env envs req table = (res, table', log)" "RowClosed i \<in> set log"
    and "distinct (map rr_run_id table)" "writers (ro_between env)" "\<forall>n. writers (ap_before (envs n))"
  shows "\<exists>r r'. r \<in> set table \<and> rr_run_id r = i \<and> find_run table' i = Some r' \<and> rr_token r < rr_token r' \<and>
    sql_status_text (rr_status r') \<in> set PIPELINE_TERMINAL_STATUSES"
proof (rule recover_cases_run [OF assms(1)])
  fix plan
  let ?s = "start_state plan (ro_between env table)"
  assume plan: "plan_for w env req table = Inr plan"
    and log: "log = rs_log (apply_rounds w envs req plan (length (planned_runs plan)) (ro_between env table))"
    and table': "table' = rs_table (apply_rounds w envs req plan (length (planned_runs plan)) (ro_between env table))"
  have "distinct (map rr_run_id (rs_table ?s))"
    using steps_distinct [OF _ assms(3), of "ro_between env table"] assms(4) by (simp add: start_state_def writers_def)
  with assms(2,5) log obtain p where p: "p \<in> set (planned_runs plan)" "pl_action p = ACTION_MARK_FAILED" "row_id (pl_row p) = i"
    "\<forall>r0. pl_row p = candidate_row r0 \<longrightarrow> (\<exists>r. find_run table' i = Some r \<and> 60 \<le> row_rank r \<and> rr_token r0 < rr_token r)"
    using apply_plan_closes [of envs ?s i w "rk_actor req" "pn_truths plan" "planned_runs plan"]
    by (auto simp: apply_rounds_def table')
  from plan p(1,2) obtain r where r: "r \<in> set table" "pl_row p = candidate_row r" by (rule planned_mark_failed)
  then obtain r' where r': "find_run table' i = Some r'" "60 \<le> row_rank r'" "rr_token r < rr_token r'" using p(4) by blast
  have "sql_status_text (rr_status r') \<in> set PIPELINE_TERMINAL_STATUSES" using r'(2) by (simp add: terminal_iff_rank row_rank_def)
  moreover have "rr_run_id r = i" using r(2) p(3) by simp
  ultimately show ?thesis using r(1) r' by blast
qed (use assms(2) in simp)

section \<open>Progress\<close>

lemma candidate_status:
  assumes "sql_status_text x \<in> set CANDIDATE_STATUSES"
  shows "normalize_pipeline_status (opt_text x) = sql_status_text x"
proof (cases x)
  case None
  then show ?thesis by (simp add: opt_text_def sql_status_text_def normalize_pipeline_status_def normalize_unknown str_eval)
next
  case (Some s)
  have fixed: "strip t = t" if "t \<in> set CANDIDATE_STATUSES" for t using that by (auto simp: CANDIDATE_STATUSES_def str_eval)
  have "lower (strip s) = lower s" using fixed [OF assms] by (simp add: Some sql_status_text_def strip_lower)
  moreover have "lower s \<noteq> []" using assms by (auto simp: Some sql_status_text_def CANDIDATE_STATUSES_def lower_def)
  ultimately show ?thesis by (simp add: Some opt_text_def sql_status_text_def normalize_PStr Let_def)
qed

lemma mark_failed_update:
  assumes "find_run table (rr_run_id r) = Some r" "rw_rls w r" "sql_status_text (rr_status r) \<in> set CANDIDATE_STATUSES"
    and "rr_tenant r = Some t" "rr_workspace r = Some ws" "rw_uuid w t = Some t" "rw_uuid w ws = Some ws"
    and "ap_database env" "ap_audit env"
  shows "\<exists>r' table'. apply_mark_failed w env actor (candidate_row r) v truth n table = Inr (Some r', table')"
proof -
  have "timestamptz (opt_time (rr_started r)) = Inr (rr_started r)"
    by (simp add: timestamptz_def opt_time_def split: option.split)
  then obtain args where args: "mark_failed_args (candidate_row r) v truth actor n = Inr args"
    and fields: "ra_run_id args = rr_run_id r" "ra_tenant args = t" "ra_workspace args = ws"
      "ra_status args = normalize_pipeline_status (opt_text (rr_status r))" "ra_started args = rr_started r" "ra_token args = rr_token r"
    using assms(4,5) by (simp add: mark_failed_args_def candidate_row_def opt_text_def Let_def)
  have "recover_hits args t ws r"
    using assms(3-5) by (simp add: recover_hits_def fields candidate_status)
  then have "List.find (\<lambda>r. rw_rls w r \<and> recover_hits args t ws r) table \<noteq> None"
    using assms(1,2) find_run_set by (auto simp: find_None_iff)
  then show ?thesis
    using args assms(6-9) by (auto simp: apply_mark_failed_def recover_update_def fields Let_def)
qed

text \<open>
  C26: a stuck run is closed. The round of a run that is to be marked as failed closes it, with its audit
  event, whenever its row is still as it was read and visible, the database and the audit work, and
  Airflow, if it holds the run in the observed state, confirms the stop or no longer knows the run.
\<close>

theorem unchanged_stuck_run_is_closed:
  assumes "pl_action p = ACTION_MARK_FAILED" "pl_row p = candidate_row r"
    and "find_run (ap_before env (rs_table s)) (rr_run_id r) = Some r" "distinct (map rr_run_id (ap_before env (rs_table s)))"
    and "rw_rls w r" "sql_status_text (rr_status r) \<in> set CANDIDATE_STATUSES"
    and "rr_tenant r = Some t" "rr_workspace r = Some ws" "rw_uuid w t = Some t" "rw_uuid w ws = Some ws"
    and "ap_database env" "ap_audit env"
    and "pl_neutralize p \<longrightarrow> fst (neutralize_run (map_of truths (rr_run_id r)) (ap_stop env) (rr_run_id r)) \<in> {''ok'', ''gone''}"
  shows "\<exists>r' es. find_run (rs_table (apply_planned w env actor truths p s)) (rr_run_id r) = Some r' \<and> row_rank r' = 60 \<and>
    rr_token r' = rr_token r + 1 \<and>
    rs_log (apply_planned w env actor truths p s) = rs_log s @ es @ [RowClosed (rr_run_id r), AuditEvent (rr_run_id r)]"
proof -
  let ?s = "s\<lparr>rs_table := ap_before env (rs_table s)\<rparr>" and ?t = "map_of truths (rr_run_id r)"
  obtain outcome sent where n: "neutralize_run ?t (ap_stop env) (rr_run_id r) = (outcome, sent)" by fastforce
  define s1 where "s1 = (if pl_neutralize p then if outcome = ''ok'' then count_stopped (log_events sent ?s) else log_events sent ?s else ?s)"
  define stopped where "stopped = (pl_neutralize p \<and> outcome = ''ok'')"
  have s1: "rs_table s1 = ap_before env (rs_table s)" "\<exists>es. rs_log s1 = rs_log s @ es" by (simp_all add: s1_def)
  have round: "apply_planned w env actor truths p s =
      (fst (close_row w env actor p ?t stopped s1))\<lparr>rs_entries := rs_entries (fst (close_row w env actor p ?t stopped s1)) @
        [snd (close_row w env actor p ?t stopped s1)]\<rparr>"
    using assms(13) n by (auto simp: apply_planned_def apply_close_def assms(1,2) s1_def stopped_def Let_def)
  obtain r' table' where m: "apply_mark_failed w env actor (candidate_row r) (pl_verdict p) ?t stopped (rs_table s1) = Inr (Some r', table')"
    using mark_failed_update [OF assms(3,5-12)] s1(1) by metis
  then obtain args where args: "mark_failed_args (candidate_row r) (pl_verdict p) ?t actor stopped = Inr args"
    "recover_update (rw_uuid w) (rw_rls w) (ap_now env) (ap_now_text env) args (rs_table s1) = Inr (Some r', table')"
    by (rule apply_mark_failed_cases)
  have "row_rank r' = 60 \<and> rr_token r' = rr_token r + 1 \<and> find_run table' (rr_run_id r) = Some r'"
    using recover_update_closes [OF args(2)] mark_failed_args_row [OF args(1)] assms(4) s1(1) by simp
  moreover have "rs_table (apply_planned w env actor truths p s) = table'"
    "rs_log (apply_planned w env actor truths p s) = rs_log s1 @ [RowClosed (rr_run_id r), AuditEvent (rr_run_id r)]"
    using m by (simp_all add: round close_row_def assms(2) log_events_def)
  ultimately show ?thesis using s1(2) by auto
qed

section \<open>Before a reservation\<close>

lemma before_reservation_cases:
  assumes "recover_before_reservation w env envs user cartridge dag_ids neutralize threshold max_age max_candidates now cut_off table =
    (report, table', log)"
  obtains "log = []"
  | plan rounds where "plan_for w env (pre_trigger_request user cartridge dag_ids neutralize threshold max_age max_candidates now) table = Inr plan"
    "log = rs_log (apply_rounds w envs (pre_trigger_request user cartridge dag_ids neutralize threshold max_age max_candidates now)
       plan rounds (ro_between env table))"
proof (cases cut_off)
  case None
  let ?req = "pre_trigger_request user cartridge dag_ids neutralize threshold max_age max_candidates now"
  obtain res table1 log1 where run: "recover_stuck_runs w env envs ?req table = (res, table1, log1)"
    by (cases "recover_stuck_runs w env envs ?req table") auto
  have "log = [] \<or> log = log1" using assms None run by (auto simp: recover_before_reservation_def Let_def split: if_splits sum.splits)
  then show thesis using recover_cases_run [OF run] that by metis
next
  case (Some rounds)
  with assms that show thesis
    by (auto simp: recover_before_reservation_def Let_def split: if_splits sum.splits)
qed

lemma stop_in_round:
  "round_log p es \<Longrightarrow> StopRequest i outcome \<in> set es \<Longrightarrow>
     pl_action p = ACTION_NEUTRALIZE_AIRFLOW \<or> pl_action p = ACTION_MARK_FAILED \<and> pl_neutralize p"
  by (auto elim!: round_logE)

lemma row_is_no_orphan:
  assumes "plan_for w env req table = Inr plan" "p \<in> set (pn_rows plan)"
  shows "pl_action p \<noteq> ACTION_NEUTRALIZE_AIRFLOW"
  using assms
proof (rule planned_row_cases)
  fix r observed
  assume c: "classify_stuck_run (rw_fromiso w) (rw_json_loads w) (candidate_row r) observed (rk_now req) (rk_threshold req)
      DEFAULT_MISSING_GRACE = Inr (pl_verdict p)"
    and a: "(pl_action p, pl_neutralize p) = planned_action (allowed_classes req) (rk_neutralize req) (pl_verdict p)"
  show ?thesis using classify_action [OF c] planned_action_cases [OF a [symmetric]] by auto
qed

lemma quiet_plan:
  assumes "plan_for w env req table = Inr plan" "\<not> rk_orphan_scan req" "\<not> rk_neutralize req" "p \<in> set (planned_runs plan)"
  shows "pl_action p \<noteq> ACTION_NEUTRALIZE_AIRFLOW \<and> (pl_action p = ACTION_MARK_FAILED \<longrightarrow> \<not> pl_neutralize p \<and>
    (\<exists>r truth. r \<in> set table \<and> pl_row p = candidate_row r \<and> query_matches (rk_query req) r \<and> found truth \<noteq> Some True \<and>
     stuck_evidence (rw_fromiso w) (rw_json_loads w) (candidate_row r) truth (rk_now req) (rk_threshold req) DEFAULT_MISSING_GRACE))"
proof (intro conjI impI)
  have "p \<in> set (pn_rows plan)" using assms(2,4) orphan_action [OF assms(1)] by (auto simp: planned_runs_def)
  then show "pl_action p \<noteq> ACTION_NEUTRALIZE_AIRFLOW" by (rule row_is_no_orphan [OF assms(1)])
next
  assume act: "pl_action p = ACTION_MARK_FAILED"
  show "\<not> pl_neutralize p" by (rule planned_mark_failed [OF assms(1,4) act]) (use assms(3) in blast)
  show "\<exists>r truth. r \<in> set table \<and> pl_row p = candidate_row r \<and> query_matches (rk_query req) r \<and> found truth \<noteq> Some True \<and>
     stuck_evidence (rw_fromiso w) (rw_json_loads w) (candidate_row r) truth (rk_now req) (rk_threshold req) DEFAULT_MISSING_GRACE"
    by (rule planned_mark_failed [OF assms(1,4) act]) (use assms(3) in blast)
qed

text \<open>
  the recovery before a reservation, which no operator has approved, stops nothing in Airflow unless
  its caller permits it, and then closes only rows of the caller's cartridge and processes for which
  Airflow knows the process but has no such run. This holds also when it is cut off by its time limit.
\<close>

theorem pre_trigger_recovery_stops_nothing:
  assumes "recover_before_reservation w env envs user cartridge dag_ids False threshold max_age max_candidates now cut_off table =
    (report, table', log)"
  shows "(\<forall>i outcome. StopRequest i outcome \<notin> set log) \<and>
    (\<forall>i. RowClosed i \<in> set log \<longrightarrow> (\<exists>r truth. r \<in> set table \<and> rr_run_id r = i \<and> (cartridge = [] \<or> rr_cartridge r = cartridge) \<and>
       (dag_ids = [] \<or> rr_dag_id r \<in> set dag_ids) \<and> found truth = Some False \<and> dag_found truth = Some True \<and>
       stuck_evidence (rw_fromiso w) (rw_json_loads w) (candidate_row r) truth now threshold DEFAULT_MISSING_GRACE))"
  using assms
proof (rule before_reservation_cases)
  let ?req = "pre_trigger_request user cartridge dag_ids False threshold max_age max_candidates now"
  fix plan rounds
  assume plan: "plan_for w env ?req table = Inr plan"
    and log: "log = rs_log (apply_rounds w envs ?req plan rounds (ro_between env table))"
  have req: "\<not> rk_orphan_scan ?req" "\<not> rk_neutralize ?req" "rk_now ?req = now" "rk_threshold ?req = threshold"
    "query_matches (rk_query ?req) r \<Longrightarrow> (cartridge = [] \<or> rr_cartridge r = cartridge) \<and> (dag_ids = [] \<or> rr_dag_id r \<in> set dag_ids)" for r
    by (simp_all add: pre_trigger_request_def query_matches_def)
  obtain ess where ess: "list_all2 round_log (take rounds (planned_runs plan)) ess" "log = concat ess"
    using apply_rounds_log log by metis
  have quiet: "pl_action p \<noteq> ACTION_NEUTRALIZE_AIRFLOW" "pl_action p = ACTION_MARK_FAILED \<Longrightarrow> \<not> pl_neutralize p \<and>
      (\<exists>r truth. r \<in> set table \<and> pl_row p = candidate_row r \<and> query_matches (rk_query ?req) r \<and> found truth \<noteq> Some True \<and>
       stuck_evidence (rw_fromiso w) (rw_json_loads w) (candidate_row r) truth now threshold DEFAULT_MISSING_GRACE)"
    if "p \<in> set (take rounds (planned_runs plan))" for p
    using quiet_plan [OF plan req(1,2) in_set_takeD [OF that]] unfolding req(3,4) by blast+
  show ?thesis
  proof (intro conjI allI impI notI)
    fix i outcome assume "StopRequest i outcome \<in> set log"
    then obtain p es where p: "p \<in> set (take rounds (planned_runs plan))" "round_log p es" "StopRequest i outcome \<in> set es"
      using logged_round [OF ess(1)] ess(2) by metis
    from stop_in_round [OF p(2,3)] quiet [OF p(1)] show False by blast
  next
    fix i assume "RowClosed i \<in> set log"
    then obtain p es where p: "p \<in> set (take rounds (planned_runs plan))" "round_log p es" "RowClosed i \<in> set es"
      using logged_round [OF ess(1)] ess(2) by metis
    note c = closed_in_round [OF p(2,3)]
    obtain r truth where r: "r \<in> set table" "pl_row p = candidate_row r" "query_matches (rk_query ?req) r" "found truth \<noteq> Some True"
      "stuck_evidence (rw_fromiso w) (rw_json_loads w) (candidate_row r) truth now threshold DEFAULT_MISSING_GRACE"
      using quiet(2) [OF p(1)] c by blast
    have "found truth = Some False \<and> dag_found truth = Some True" using r(4,5) by (auto simp: stuck_evidence_def)
    with r c req(5) [OF r(3)] show "\<exists>r truth. r \<in> set table \<and> rr_run_id r = i \<and> (cartridge = [] \<or> rr_cartridge r = cartridge) \<and>
       (dag_ids = [] \<or> rr_dag_id r \<in> set dag_ids) \<and> found truth = Some False \<and> dag_found truth = Some True \<and>
       stuck_evidence (rw_fromiso w) (rw_json_loads w) (candidate_row r) truth now threshold DEFAULT_MISSING_GRACE"
      by auto
  qed
qed simp

section \<open>Witnesses\<close>

definition sample_world :: recovery_world where
  "sample_world = \<lparr>rw_fromiso = \<lambda>_. None, rw_seconds_repr = \<lambda>_. [], rw_json_loads = \<lambda>_. None, rw_uuid = Some, rw_collate = id,
     rw_rls = \<lambda>_. True, rw_sha256 = \<lambda>_. ''d''\<rparr>"

definition sample_env :: recovery_env where
  "sample_env = \<lparr>ro_database = True,
     ro_describe = \<lambda>_. Some (Inr (PDict (pdict_of [(''found'', PBool True), (''is_paused'', PBool False)]))),
     ro_status = \<lambda>_. Inr (PDict (pdict_of [(''found'', PBool False)])), ro_tasks = \<lambda>_. Inl [], ro_timeout = \<lambda>_. False,
     ro_describe_again = \<lambda>_. Inl [], ro_orphan_tasks = \<lambda>_. Inl [], ro_orphan_timeout = False, ro_between = id\<rparr>"

definition sample_apply :: apply_env where
  "sample_apply = \<lparr>ap_before = id, ap_stop = Inl [],
     ap_refresh = \<lparr>re_answer = Inl TypeError, re_context = [], re_database = True, re_now = ''now''\<rparr>,
     ap_database = True, ap_audit = True, ap_now = 7, ap_now_text = ''now''\<rparr>"

abbreviation sample_user :: "pdict option" where
  "sample_user \<equiv> Some (pdict_of [(''tenant_id'', PStr ''t''), (''workspace_id'', PStr ''w'')])"

definition sample_request :: recovery_request where
  "sample_request = pre_trigger_request sample_user ''crm'' [] False DEFAULT_THRESHOLD 0 50 3600000000"

abbreviation sample_recovery :: "(recovery_error + recovery_report) \<times> run_table \<times> recovery_event list" where
  "sample_recovery \<equiv> recover_stuck_runs sample_world sample_env (\<lambda>_. sample_apply) sample_request [sample_run]"

lemma sample_log: "snd (snd sample_recovery) = [RowClosed ''r1'', AuditEvent ''r1'']"
  by code_simp

lemma sample_run_recovered:
  obtains report table where "sample_recovery = (Inr report, table, [RowClosed ''r1'', AuditEvent ''r1''])"
proof -
  obtain res table log where run: "sample_recovery = (res, table, log)" by (cases sample_recovery) auto
  then have log: "log = [RowClosed ''r1'', AuditEvent ''r1'']" using sample_log by simp
  from run log that show thesis by (auto elim!: recover_cases_run)
qed

lemma sample_apply_mode: "rk_mode sample_request = MODE_APPLY"
  by (simp add: sample_request_def pre_trigger_request_def)

theorem recovery_follows_the_plan_witness:
  "\<exists>plan ess. plan_for sample_world sample_env sample_request [sample_run] = Inr plan \<and>
     list_all2 round_log (planned_runs plan) ess \<and> concat ess = [RowClosed ''r1'', AuditEvent ''r1'']"
  by (rule sample_run_recovered, drule recovery_follows_the_plan) fastforce

text \<open>
  A recovery of a run that Airflow still holds: a queued run of a paused process, which is stopped first.
\<close>

definition held_env :: recovery_env where
  "held_env = sample_env\<lparr>ro_describe := \<lambda>_. Some (Inr (PDict (pdict_of [(''found'', PBool True), (''is_paused'', PBool True)]))),
     ro_status := \<lambda>_. Inr (PDict (pdict_of [(''found'', PBool True), (''state'', PStr ''queued'')]))\<rparr>"

definition held_request :: recovery_request where
  "held_request = pre_trigger_request sample_user ''crm'' [] True DEFAULT_THRESHOLD 0 50 3600000000"

definition stopping_apply :: apply_env where
  "stopping_apply = sample_apply\<lparr>ap_stop := Inr (PDict (pdict_of [(''marked'', PBool True)]))\<rparr>"

abbreviation held_recovery :: "(recovery_error + recovery_report) \<times> run_table \<times> recovery_event list" where
  "held_recovery \<equiv> recover_stuck_runs sample_world held_env (\<lambda>_. stopping_apply) held_request [sample_run]"

lemma held_log: "snd (snd held_recovery) = [StopRequest ''r1'' ''ok'', RowClosed ''r1'', AuditEvent ''r1'']"
  by code_simp

theorem closed_row_was_stuck_witness:
  "\<exists>answer status truth. ro_describe held_env ''crm_extract'' = Some answer \<and> ro_status held_env ''r1'' = Inr (PDict status) \<and>
     observe_run (rw_fromiso sample_world) (describe_result answer) (Inr (PDict status)) (ro_tasks held_env ''r1'')
       (row_airflow (candidate_row sample_run)) = Inr truth \<and>
     stuck_evidence (rw_fromiso sample_world) (rw_json_loads sample_world) (candidate_row sample_run) truth (rk_now held_request)
       (rk_threshold held_request) DEFAULT_MISSING_GRACE"
proof -
  obtain res table where run: "held_recovery = (res, table, [StopRequest ''r1'' ''ok'', RowClosed ''r1'', AuditEvent ''r1''])"
    using held_log by (cases held_recovery) auto
  have "distinct (map rr_run_id [sample_run])" by simp
  from closed_row_was_stuck [OF this run, of "''r1''"] have "\<exists>r answer status truth. r \<in> set [sample_run] \<and>
     ro_describe held_env (rr_dag_id r) = Some answer \<and> ro_status held_env ''r1'' = Inr (PDict status) \<and>
     observe_run (rw_fromiso sample_world) (describe_result answer) (Inr (PDict status)) (ro_tasks held_env ''r1'')
       (row_airflow (candidate_row r)) = Inr truth \<and>
     stuck_evidence (rw_fromiso sample_world) (rw_json_loads sample_world) (candidate_row r) truth (rk_now held_request)
       (rk_threshold held_request) DEFAULT_MISSING_GRACE" by (simp (no_asm_use)) blast
  moreover have "rr_dag_id sample_run = ''crm_extract''" by (simp add: sample_run_def)
  ultimately show ?thesis by auto
qed

theorem recovery_report_adds_up_witness:
  "\<exists>report table. sample_recovery = (Inr report, table, [RowClosed ''r1'', AuditEvent ''r1'']) \<and>
     rc_recovered (rp_counts report) = 1 \<and> rc_airflow_neutralized (rp_counts report) = 0"
proof (rule sample_run_recovered)
  fix report table
  assume run: "sample_recovery = (Inr report, table, [RowClosed ''r1'', AuditEvent ''r1''])"
  from recovery_report_adds_up [OF run sample_apply_mode] run show ?thesis by auto
qed

lemma writers_id [simp]: "writers id"
  by (simp add: writers_def)

theorem closed_row_stays_closed_witness:
  "\<exists>r. find_run (fst (snd sample_recovery)) ''r1'' = Some r \<and> 3 < rr_token r \<and>
     sql_status_text (rr_status r) \<in> set PIPELINE_TERMINAL_STATUSES"
proof (rule sample_run_recovered)
  fix report table
  assume run: "sample_recovery = (Inr report, table, [RowClosed ''r1'', AuditEvent ''r1''])"
  have "rr_token sample_run = 3" by (simp add: sample_run_def)
  with closed_row_stays_closed [OF run, of "''r1''"] run show ?thesis
    by (auto simp: sample_env_def sample_apply_def)
qed

definition sample_planned :: planned where
  "sample_planned = \<lparr>pl_row = candidate_row sample_run, pl_verdict = gone_verdict, pl_action = ACTION_MARK_FAILED,
     pl_neutralize = False, pl_entry = []\<rparr>"

definition sample_state :: recovery_state where
  "sample_state = \<lparr>rs_table = [sample_run], rs_log = [], rs_counts = plan_counts [sample_planned] [], rs_orphans_stopped = 0,
     rs_entries = []\<rparr>"

theorem unchanged_stuck_run_is_closed_witness:
  "\<exists>r es. find_run (rs_table (apply_planned sample_world sample_apply ''a'' [] sample_planned sample_state)) ''r1'' = Some r \<and>
     row_rank r = 60 \<and> rr_token r = 4 \<and>
     rs_log (apply_planned sample_world sample_apply ''a'' [] sample_planned sample_state) = es @ [RowClosed ''r1'', AuditEvent ''r1'']"
proof -
  have r: "rr_run_id sample_run = ''r1''" "rr_tenant sample_run = Some ''t''" "rr_workspace sample_run = Some ''w''"
    "rr_token sample_run = 3" "sql_status_text (rr_status sample_run) \<in> set CANDIDATE_STATUSES"
    by (simp_all add: sample_run_def sql_status_text_def str_eval CANDIDATE_STATUSES_def)
  have p: "pl_action sample_planned = ACTION_MARK_FAILED" "pl_row sample_planned = candidate_row sample_run"
    "\<not> pl_neutralize sample_planned" by (simp_all add: sample_planned_def)
  have e: "ap_before sample_apply (rs_table sample_state) = [sample_run]" "ap_database sample_apply" "ap_audit sample_apply"
    "rw_rls sample_world sample_run" "rw_uuid sample_world = Some" "rs_log sample_state = []"
    by (simp_all add: sample_apply_def sample_state_def sample_world_def)
  show ?thesis
    using unchanged_stuck_run_is_closed [OF p(1,2), of sample_apply sample_state sample_world "''t''" "''w''" "[]" "''a''"] r p(3) e
    by (simp add: find_run_def)
qed

theorem pre_trigger_recovery_stops_nothing_witness:
  "\<exists>truth. found truth = Some False \<and>
     stuck_evidence (\<lambda>_. None) (\<lambda>_. None) (candidate_row sample_run) truth 3600000000 DEFAULT_THRESHOLD DEFAULT_MISSING_GRACE"
proof (rule sample_run_recovered)
  fix report table
  assume run: "sample_recovery = (Inr report, table, [RowClosed ''r1'', AuditEvent ''r1''])"
  have "recover_before_reservation sample_world sample_env (\<lambda>_. sample_apply) sample_user ''crm'' [] False DEFAULT_THRESHOLD 0 50
      3600000000 None [sample_run] = (Some report, table, [RowClosed ''r1'', AuditEvent ''r1''])"
    using run by (simp add: recover_before_reservation_def sample_request_def)
  from pre_trigger_recovery_stops_nothing [OF this] show ?thesis by (auto simp: sample_world_def)
qed

end
