(* ===== verification/Trigger_Preflight.thy ===== *)
theory Trigger_Preflight
  imports Recovery_Service
begin

text \<open>
  Preflight of a manual trigger: \<open>console/app/domains/pipeline/trigger_preflight.py\<close>.

  Before a console row is written for a manual extraction, \<open>ensure_dag_ready_for_manual_trigger\<close> asks
  Airflow about the process, resumes it when it is paused, refuses when that would start a backlog, and
  for an extraction of everything finds a live run to attach to. It keeps a cache of processes that were
  ready, may call the recovery of stuck runs, and sends requests; these are the state. The answers of
  the infrastructure service and the readings of the monotonic clock are a \<open>preflight_env\<close>; readings are
  whole seconds.

  The theorems: a process is resumed only when it is a manual one, found paused, with no backlog left; a run
  is offered for reuse only when it is the caller's own live run; the recovery it starts keeps to the
  process at hand.
\<close>

section \<open>Data\<close>

definition PREFLIGHT_CACHE_TTL_SECONDS :: int where "PREFLIGHT_CACHE_TTL_SECONDS = 30"
definition PREFLIGHT_RECOVERY_ACTOR :: string where "PREFLIGHT_RECOVERY_ACTOR = ''system:trigger-preflight''"
definition PREFLIGHT_RECOVERY_CLASSES :: "string list" where
  "PREFLIGHT_RECOVERY_CLASSES = [AIRFLOW_TERMINAL, MISSING_IN_AIRFLOW, STALLED_QUEUED_PAUSED_DAG, STALLED_RUNNING_NO_TASKS,
     AIRFLOW_ORPHAN]"
definition PENDING_STATES :: "string list" where "PENDING_STATES = [''queued'', ''running'']"
definition UNPAUSED_MESSAGE_ES :: string where
  "UNPAUSED_MESSAGE_ES = ''El proceso de extracci'' @ [CHR 0xF3] @ ''n estaba en pausa en Airflow; se reactiv'' @ [CHR 0xF3] @
     '' para ejecutar tu solicitud.''"

record dag_preflight =
  df_dag_id :: string
  df_schedule_kind :: string
  df_was_paused :: "bool option"
  df_unpaused :: bool
  df_reuse_run_id :: "string option"
  df_message_es :: "string option"
  df_checked :: bool

definition preflight_result :: "string \<Rightarrow> string \<Rightarrow> bool option \<Rightarrow> bool \<Rightarrow> dag_preflight" where
  \<comment> \<open>the constructor with its default values\<close>
  "preflight_result dag_id kind was_paused unpaused =
     \<lparr>df_dag_id = dag_id, df_schedule_kind = kind, df_was_paused = was_paused, df_unpaused = unpaused, df_reuse_run_id = None,
      df_message_es = None, df_checked = True\<rparr>"

text \<open>A conflict, answered with 409, carries the key of its messages.\<close>

datatype preflight_error = PreflightConflict string | PreflightRecovery recovery_error | PreflightRaised pyexc

definition wire_reason :: "string \<Rightarrow> string" where
  "wire_reason reason = (if reason = ''dag_unpause_failed'' then ''dag_unavailable'' else reason)"

type_synonym scope_key = "string \<times> string \<times> string"

datatype preflight_event = Recovered "recovery_event list" | UnpauseRequest string | UnpauseAudit string

record preflight_state =
  ps_cache :: "scope_key \<Rightarrow> int option"
  ps_table :: run_table
  ps_events :: "preflight_event list"

record preflight_args =
  pa_dag_id :: string
  pa_user :: "pdict option"
  pa_auto_unpause :: bool
  pa_auto_neutralize :: bool
  pa_ttl :: int
  pa_stale_after :: int
  pa_mode :: "string option"
  pa_target :: "string option"
  pa_now :: int

record preflight_env =
  pe_describe :: tool_answer
  pe_describe_again :: tool_answer
  pe_unpause :: tool_answer
  pe_audit :: bool
  pe_clock :: int
  pe_clock_after :: int
  pe_known :: "(string list \<Rightarrow> run_table \<Rightarrow> string set) option"
  pe_recover :: "(run_table \<Rightarrow> (recovery_error + recovery_report) \<times> run_table \<times> recovery_event list) option"

section \<open>Settings\<close>

definition flag :: "string option \<Rightarrow> bool \<Rightarrow> bool" where
  \<comment> \<open>\<open>raw\<close>: the environment variable\<close>
  "flag raw fallback =
     (case raw of
        None \<Rightarrow> fallback
      | Some s \<Rightarrow> if strip s = [] then fallback else lower (strip s) \<notin> {''0'', ''false'', ''no'', ''off''})"

definition manual_dag_auto_unpause_enabled :: "(string \<Rightarrow> string option) \<Rightarrow> bool" where
  "manual_dag_auto_unpause_enabled environ = flag (environ ''PIPELINE_MANUAL_DAG_AUTO_UNPAUSE'') True"

definition auto_recovery_neutralize_enabled :: "(string \<Rightarrow> string option) \<Rightarrow> bool" where
  "auto_recovery_neutralize_enabled environ = flag (environ ''PIPELINE_AUTO_RECOVERY_NEUTRALIZE'') False"

definition stuck_run_threshold_seconds :: "(string \<Rightarrow> string option) \<Rightarrow> int" where
  "stuck_run_threshold_seconds environ =
     max 900 (case environ ''PIPELINE_STUCK_RUN_THRESHOLD_SECONDS'' of
                None \<Rightarrow> 900
              | Some raw \<Rightarrow> if strip raw = [] then 900 else case parse_int (strip raw) of None \<Rightarrow> 900 | Some n \<Rightarrow> n)"

section \<open>Reading the description\<close>

definition user_field :: "pdict option \<Rightarrow> string \<Rightarrow> string \<Rightarrow> string" where
  "user_field user active plain_key =
     (let data = (case user of None \<Rightarrow> [] | Some d \<Rightarrow> d) in py_str (py_or (py_or (dget data active) (dget data plain_key)) (PStr [])))"

definition scope_key :: "string \<Rightarrow> pdict option \<Rightarrow> scope_key" where
  "scope_key dag_id user =
     (dag_id, user_field user ''active_tenant_id'' ''tenant_id'', user_field user ''active_workspace_id'' ''workspace_id'')"

definition run_is_stale :: "fromiso \<Rightarrow> pdict \<Rightarrow> int \<Rightarrow> int \<Rightarrow> bool pyres" where
  \<comment> \<open>the age in seconds is a float, exact enough for windows of less than 272 years\<close>
  "run_is_stale fromisoformat run now stale_after =
     (if lower_state run \<notin> set PENDING_STATES then Inr False
      else if dget run ''stale'' = PBool True then Inr True
      else rbind (pending_age fromisoformat run now) (\<lambda>a.
        Inr (case a of None \<Rightarrow> False | Some t \<Rightarrow> t \<ge> stale_after * 1000000)))"

definition run_conf :: "pdict \<Rightarrow> pdict" where
  "run_conf run = (case dget run ''conf'' of PDict d \<Rightarrow> d | _ \<Rightarrow> [])"

definition owned_by :: "pdict \<Rightarrow> pdict option \<Rightarrow> bool" where
  "owned_by run user \<longleftrightarrow>
     (case scope_key [] user of (_, tenant_id, workspace_id) \<Rightarrow>
        let tenant = lower (strip tenant_id); workspace = lower (strip workspace_id) in
        tenant \<noteq> [] \<and> workspace \<noteq> [] \<and> lower (strip (str_or (dget (run_conf run) ''tenant_id'') [])) = tenant \<and>
        lower (strip (str_or (dget (run_conf run) ''workspace_id'') [])) = workspace)"

definition conf_field_matches :: "pdict \<Rightarrow> string \<Rightarrow> string option \<Rightarrow> bool" where
  "conf_field_matches conf key wanted =
     (case wanted of None \<Rightarrow> True | Some v \<Rightarrow> dget conf key = PNone \<or> py_str (dget conf key) = v)"

definition conf_matches :: "pdict \<Rightarrow> string option \<Rightarrow> string option \<Rightarrow> bool" where
  "conf_matches run mode target \<longleftrightarrow>
     conf_field_matches (run_conf run) ''mode'' mode \<and> conf_field_matches (run_conf run) ''target'' target"

fun rfilter :: "('a \<Rightarrow> 'e + bool) \<Rightarrow> 'a list \<Rightarrow> 'e + 'a list" where
  "rfilter f [] = Inr []"
| "rfilter f (x # xs) = rbind (f x) (\<lambda>b. rbind (rfilter f xs) (\<lambda>ys. Inr (if b then x # ys else ys)))"

definition live_own_run :: "fromiso \<Rightarrow> preflight_args \<Rightarrow> bool \<Rightarrow> pdict \<Rightarrow> bool pyres" where
  "live_own_run fromisoformat args paused run =
     (if lower_state run \<notin> set PENDING_STATES \<or> strip (str_or (dget run ''dag_run_id'') []) = [] then Inr False
      else if \<not> owned_by run (pa_user args) \<or> \<not> conf_matches run (pa_mode args) (pa_target args) then Inr False
      else rbind (run_is_stale fromisoformat run (pa_now args) (pa_stale_after args)) (\<lambda>stale.
        Inr (\<not> (stale \<and> (paused \<or> lower_state run = ''queued''))))) "

definition reusable_run :: "fromiso \<Rightarrow> preflight_args \<Rightarrow> bool \<Rightarrow> pdict list \<Rightarrow> string option pyres" where
  "reusable_run fromisoformat args paused runs =
     rbind (rfilter (live_own_run fromisoformat args paused) runs) (\<lambda>live.
       Inr (case sort_key (\<lambda>run. if lower_state run = ''running'' then (0::int) else 1) live of
              [] \<Rightarrow> None | run # _ \<Rightarrow> Some (py_str (dget run ''dag_run_id''))))"

definition count_field :: "pdict \<Rightarrow> string \<Rightarrow> int pyres" where
  "count_field foreign key =
     (case int_or0 (dget foreign key) of
        Inr n \<Rightarrow> Inr (max 0 n)
      | Inl TypeError \<Rightarrow> Inr 0
      | Inl (ValueError m) \<Rightarrow> Inr 0
      | Inl e \<Rightarrow> Inl e)"

definition foreign_stale :: "pdict \<Rightarrow> int pyres" where
  "foreign_stale info =
     (let foreign = (case dget info ''foreign'' of PDict d \<Rightarrow> d | _ \<Rightarrow> [])
      in rbind (count_field foreign ''stale_queued'') (\<lambda>q. rbind (count_field foreign ''stale_running'') (\<lambda>r. Inr (q + r))))"

definition describe_dag :: "tool_answer \<Rightarrow> pdict option" where
  "describe_dag answer =
     (case answer of Inr (PDict info) \<Rightarrow> if truthy (dget info ''error'') then None else Some info | _ \<Rightarrow> None)"

section \<open>Making the process ready\<close>

type_synonym 'a preflight = "(preflight_error + 'a) \<times> preflight_state"

definition ready :: "preflight_args \<Rightarrow> preflight_env \<Rightarrow> preflight_state \<Rightarrow> preflight_state" where
  \<comment> \<open>\<open>_READY_CACHE[key] = clock()\<close>\<close>
  "ready args env st =
     st\<lparr>ps_cache := (ps_cache st)(scope_key (strip (pa_dag_id args)) (pa_user args) \<mapsto> pe_clock_after env)\<rparr>"

definition unpause :: "preflight_args \<Rightarrow> preflight_env \<Rightarrow> string \<Rightarrow> string option \<Rightarrow> preflight_state \<Rightarrow> dag_preflight preflight" where
  "unpause args env dag_id reuse st0 =
     (let st = st0\<lparr>ps_events := ps_events st0 @ [UnpauseRequest dag_id]\<rparr> in
      case pe_unpause env of
        Inr (PDict result) \<Rightarrow>
          if \<not> (truthy (dget result ''unpaused'') \<or> dget result ''was_paused'' = PBool False)
          then (Inl (PreflightConflict ''dag_unpause_failed''), st)
          else let unpaused = truthy (dget result ''unpaused'');
                   st1 = (if unpaused \<and> pe_audit env then st\<lparr>ps_events := ps_events st @ [UnpauseAudit dag_id]\<rparr> else st);
                   st2 = (if endswith dag_id ''_extract_all'' then st1 else ready args env st1)
               in (Inr ((preflight_result dag_id ''manual'' (Some True) unpaused)\<lparr>df_reuse_run_id := reuse,
                     df_message_es := (if unpaused then Some UNPAUSED_MESSAGE_ES else None)\<rparr>), st2)
      | _ \<Rightarrow> (Inl (PreflightConflict ''dag_unpause_failed''), st))"

definition stale_ids :: "fromiso \<Rightarrow> preflight_args \<Rightarrow> pdict \<Rightarrow> string list pyres" where
  \<comment> \<open>the ids of the stale runs of a description\<close>
  "stale_ids fromisoformat args info =
     rbind (describe_runs info) (\<lambda>runs.
     rbind (rfilter (\<lambda>run. run_is_stale fromisoformat run (pa_now args) (pa_stale_after args)) runs) (\<lambda>stale.
       Inr (map (\<lambda>run. py_str (dget run ''dag_run_id'')) stale)))"

definition recover_backlog ::
    "fromiso \<Rightarrow> preflight_args \<Rightarrow> preflight_env \<Rightarrow> string list \<Rightarrow> preflight_state \<Rightarrow> unit preflight" where
  "recover_backlog fromisoformat args env recoverable st =
     (case (pa_auto_neutralize args, pe_recover env) of
        (True, Some recover) \<Rightarrow>
          (case recover (ps_table st) of (res, table, log) \<Rightarrow>
             let st' = st\<lparr>ps_table := table, ps_events := ps_events st @ [Recovered log]\<rparr> in
             case res of
               Inl e \<Rightarrow> (Inl (PreflightRecovery e), st')
             | Inr _ \<Rightarrow>
                 (case describe_dag (pe_describe_again env) of
                    None \<Rightarrow> (Inl (PreflightConflict ''stale_runs_require_recovery''), st')
                  | Some refreshed \<Rightarrow>
                      (case stale_ids fromisoformat args refreshed of
                         Inl e \<Rightarrow> (Inl (PreflightRaised e), st')
                       | Inr remaining \<Rightarrow>
                           if set remaining \<inter> set recoverable \<noteq> {}
                           then (Inl (PreflightConflict ''stale_runs_require_recovery''), st')
                           else (Inr (), st'))))
      | _ \<Rightarrow> (Inl (PreflightConflict ''stale_runs_require_recovery''), st))"

definition known_ids :: "preflight_env \<Rightarrow> string list \<Rightarrow> run_table \<Rightarrow> string set" where
  "known_ids env ids table = (case pe_known env of None \<Rightarrow> set ids | Some known \<Rightarrow> known ids table)"

definition clear_backlog ::
    "fromiso \<Rightarrow> preflight_args \<Rightarrow> preflight_env \<Rightarrow> pdict \<Rightarrow> pdict list \<Rightarrow> preflight_state \<Rightarrow> unit preflight" where
  \<comment> \<open>\<open>stale_listed\<close>: the stale runs apart from the one to be reused\<close>
  "clear_backlog fromisoformat args env info stale_listed st =
     (case foreign_stale info of
        Inl e \<Rightarrow> (Inl (PreflightRaised e), st)
      | Inr foreign \<Rightarrow>
          let stale_own = map (\<lambda>run. py_str (dget run ''dag_run_id'')) (filter (\<lambda>run. owned_by run (pa_user args)) stale_listed);
              recoverable = filter (\<lambda>i. i \<in> known_ids env stale_own (ps_table st)) stale_own;
              others = foreign + int (length stale_listed) - int (length recoverable);
              r = (if recoverable = [] then (Inr (), st) else recover_backlog fromisoformat args env recoverable st)
          in case r of
               (Inl e, st') \<Rightarrow> (Inl e, st')
             | (Inr _, st') \<Rightarrow>
                 if others \<noteq> 0 then (Inl (PreflightConflict ''foreign_backlog_requires_platform_recovery''), st')
                 else if \<not> pa_auto_unpause args then (Inl (PreflightConflict ''auto_unpause_disabled''), st')
                 else (Inr (), st'))"

definition resume_paused ::
    "fromiso \<Rightarrow> preflight_args \<Rightarrow> preflight_env \<Rightarrow> string \<Rightarrow> pdict \<Rightarrow> pdict list \<Rightarrow> string option \<Rightarrow> preflight_state \<Rightarrow>
     dag_preflight preflight" where
  "resume_paused fromisoformat args env dag_id info runs reuse st0 =
     (let st = st0\<lparr>ps_cache := (ps_cache st0)(scope_key dag_id (pa_user args) := None)\<rparr> in
      if truthy (dget info ''running_truncated'') \<or> truthy (dget info ''queued_truncated'')
      then (Inl (PreflightConflict ''foreign_backlog_requires_platform_recovery''), st)
      else case rfilter (\<lambda>run. run_is_stale fromisoformat run (pa_now args) (pa_stale_after args)) runs of
             Inl e \<Rightarrow> (Inl (PreflightRaised e), st)
           | Inr stale \<Rightarrow>
               (case clear_backlog fromisoformat args env info
                       (filter (\<lambda>run. str_or (dget run ''dag_run_id'') [] \<noteq> (case reuse of None \<Rightarrow> [] | Some i \<Rightarrow> i)) stale) st of
                  (Inl e, st') \<Rightarrow> (Inl e, st')
                | (Inr _, st') \<Rightarrow> unpause args env dag_id reuse st'))"

definition dag_unavailable :: "pdict \<Rightarrow> bool" where
  "dag_unavailable info \<longleftrightarrow>
     dget info ''found'' = PBool False \<or> dget info ''is_active'' = PBool False \<or> truthy (dget info ''has_import_errors'')"

definition prepare_manual ::
    "fromiso \<Rightarrow> preflight_args \<Rightarrow> preflight_env \<Rightarrow> string \<Rightarrow> pdict \<Rightarrow> preflight_state \<Rightarrow> dag_preflight preflight" where
  \<comment> \<open>the process has no schedule\<close>
  "prepare_manual fromisoformat args env dag_id info st =
     (let paused = truthy (dget info ''is_paused''); aggregate = endswith dag_id ''_extract_all'' in
      case rbind (describe_runs info) (\<lambda>runs.
             rbind (if aggregate then reusable_run fromisoformat args paused runs else Inr None) (\<lambda>reuse. Inr (runs, reuse))) of
        Inl e \<Rightarrow> (Inl (PreflightRaised e), st)
      | Inr (runs, reuse) \<Rightarrow>
          if \<not> paused
          then (Inr ((preflight_result dag_id ''manual'' (Some False) False)\<lparr>df_reuse_run_id := reuse\<rparr>),
                if aggregate then st else ready args env st)
          else resume_paused fromisoformat args env dag_id info runs reuse st)"

definition ensure_dag_ready_for_manual_trigger ::
    "fromiso \<Rightarrow> preflight_args \<Rightarrow> preflight_env \<Rightarrow> preflight_state \<Rightarrow> dag_preflight preflight" where
  "ensure_dag_ready_for_manual_trigger fromisoformat args env st =
     (let dag_id = strip (pa_dag_id args);
          unchecked = (preflight_result dag_id ''unknown'' None False)\<lparr>df_checked := False\<rparr>
      in if \<not> manual_trigger_dag dag_id then (Inr unchecked, st)
         else if \<not> endswith dag_id ''_extract_all'' \<and>
                 (case ps_cache st (scope_key dag_id (pa_user args)) of None \<Rightarrow> False | Some t \<Rightarrow> pe_clock env - t < pa_ttl args)
           then (Inr (preflight_result dag_id ''manual'' (Some False) False), st)
         else case describe_dag (pe_describe env) of
           None \<Rightarrow> (Inr unchecked, st)
         | Some info \<Rightarrow>
             if dag_unavailable info then (Inl (PreflightConflict ''dag_unavailable''), st)
             else let kind = str_or (dget info ''schedule_kind'') ''unknown'' in
                  if kind \<noteq> ''manual'' then
                    (if truthy (dget info ''is_paused'') then (Inl (PreflightConflict ''dag_paused_by_operator''), st)
                     else (Inr (preflight_result dag_id kind (Some False) False), st))
                  else prepare_manual fromisoformat args env dag_id info st)"

section \<open>The entry point of the console\<close>

definition preflight_request :: "pdict option \<Rightarrow> string \<Rightarrow> int \<Rightarrow> int \<Rightarrow> recovery_request" where
  "preflight_request user dag_id threshold now =
     \<lparr>rk_user = Some (case user of None \<Rightarrow> [] | Some d \<Rightarrow> d), rk_mode = MODE_APPLY, rk_actor = PREFLIGHT_RECOVERY_ACTOR,
      rk_query = \<lparr>rq_cartridge = [], rq_dag_ids = [dag_id], rq_exclude = [], rq_max_age = 0, rq_visible = None\<rparr>,
      rk_threshold = threshold * 1000000, rk_allowed = PREFLIGHT_RECOVERY_CLASSES, rk_neutralize = True, rk_expected = None,
      rk_now = now, rk_max_candidates = MAX_CANDIDATES, rk_orphan_scan = True\<rparr>"

definition preflight_known :: "recovery_world \<Rightarrow> bool \<Rightarrow> pdict option \<Rightarrow> string \<Rightarrow> string list \<Rightarrow> run_table \<Rightarrow> string set" where
  "preflight_known w database user dag_id ids table =
     (case console_run_ids w database user dag_id ids table of Inl _ \<Rightarrow> set ids | Inr known \<Rightarrow> known)"

definition run_manual_trigger_preflight ::
    "recovery_world \<Rightarrow> (string \<Rightarrow> string option) \<Rightarrow> recovery_env \<Rightarrow> (nat \<Rightarrow> apply_env) \<Rightarrow> bool \<Rightarrow> preflight_env \<Rightarrow> string \<Rightarrow>
     pdict option \<Rightarrow> string option \<Rightarrow> string option \<Rightarrow> int \<Rightarrow> int \<Rightarrow> preflight_state \<Rightarrow> dag_preflight preflight" where
  \<comment> \<open>\<open>later\<close>: the instant at which the recovery looks\<close>
  "run_manual_trigger_preflight w environ renv envs database env dag_id user mode target now later st =
     (let threshold = stuck_run_threshold_seconds environ
      in ensure_dag_ready_for_manual_trigger (rw_fromiso w)
           \<lparr>pa_dag_id = dag_id, pa_user = user, pa_auto_unpause = manual_dag_auto_unpause_enabled environ,
            pa_auto_neutralize = auto_recovery_neutralize_enabled environ, pa_ttl = PREFLIGHT_CACHE_TTL_SECONDS, pa_stale_after = threshold,
            pa_mode = mode, pa_target = target, pa_now = now\<rparr>
           (env\<lparr>pe_known := Some (preflight_known w database user (strip dag_id)),
                pe_recover := Some (recover_stuck_runs w renv envs (preflight_request user (strip dag_id) threshold later))\<rparr>) st)"

section \<open>What the steps do\<close>

lemma rfilter_set: "rfilter f xs = Inr ys \<Longrightarrow> set ys = {x \<in> set xs. f x = Inr True}"
  by (induction xs arbitrary: ys) (auto simp: rbind_Inr_iff split: if_splits)

lemma count_field_nonneg: "count_field foreign key = Inr n \<Longrightarrow> 0 \<le> n"
  by (auto simp: count_field_def split: sum.splits pyexc.splits)

lemma foreign_stale_nonneg: "foreign_stale info = Inr n \<Longrightarrow> 0 \<le> n"
  by (auto simp: foreign_stale_def Let_def rbind_Inr_iff dest!: count_field_nonneg)

lemma recover_backlog_cases:
  assumes "recover_backlog fromisoformat args env recoverable st = (res, st')"
  obtains (refused) "st' = st" "isl res"
  | (recovered) recover res' table log where "pa_auto_neutralize args" "pe_recover env = Some recover"
      "recover (ps_table st) = (res', table, log)" "st' = st\<lparr>ps_table := table, ps_events := ps_events st @ [Recovered log]\<rparr>"
      "\<not> isl res \<Longrightarrow> \<exists>refreshed remaining. describe_dag (pe_describe_again env) = Some refreshed \<and>
         stale_ids fromisoformat args refreshed = Inr remaining \<and> set remaining \<inter> set recoverable = {}"
proof (cases "pa_auto_neutralize args \<and> pe_recover env \<noteq> None")
  case True
  then obtain recover where r: "pe_recover env = Some recover" by auto
  obtain res' table log where run: "recover (ps_table st) = (res', table, log)" by (cases "recover (ps_table st)") auto
  show thesis
    by (rule recovered [OF _ r run])
       (use assms True r run in \<open>auto simp: recover_backlog_def Let_def split: sum.splits option.splits if_splits\<close>)
next
  case False
  then have "st' = st" "isl res" using assms by (auto simp: recover_backlog_def split: option.splits bool.splits)
  then show thesis by (rule refused)
qed

lemma all_listed:
  assumes "length (filter P (map f (filter Q xs))) = length xs" "x \<in> set xs"
  shows "Q x \<and> P (f x)"
proof -
  have "length (filter P (map f (filter Q xs))) \<le> length (filter Q xs)" by (metis length_filter_le length_map)
  moreover have "length (filter Q xs) \<le> length xs" by simp
  ultimately have "length (filter Q xs) = length xs" using assms(1) by linarith
  then have all: "filter Q xs = xs" by (metis filter_id_conv length_filter_less less_irrefl)
  with assms(1) have "filter P (map f xs) = map f xs" by (metis filter_id_conv length_filter_less less_irrefl length_map)
  with all assms(2) show ?thesis by (metis filter_id_conv imageI set_map)
qed

lemma clear_backlog_ok:
  assumes "clear_backlog fromisoformat args env info stale_listed st = (Inr u, st')"
  shows "pa_auto_unpause args \<and> foreign_stale info = Inr 0 \<and>
    (\<forall>run\<in>set stale_listed. owned_by run (pa_user args) \<and> pa_auto_neutralize args \<and>
       (\<exists>refreshed remaining. describe_dag (pe_describe_again env) = Some refreshed \<and>
          stale_ids fromisoformat args refreshed = Inr remaining \<and> py_str (dget run ''dag_run_id'') \<notin> set remaining))"
proof -
  obtain foreign where f: "foreign_stale info = Inr foreign" using assms by (auto simp: clear_backlog_def split: sum.splits)
  define own where "own = map (\<lambda>run. py_str (dget run ''dag_run_id'')) (filter (\<lambda>run. owned_by run (pa_user args)) stale_listed)"
  define recoverable where "recoverable = filter (\<lambda>i. i \<in> known_ids env own (ps_table st)) own"
  define r where "r = (if recoverable = [] then (Inr (), st) else recover_backlog fromisoformat args env recoverable st)"
  have ok: "fst r = Inr ()" and none: "foreign + int (length stale_listed) - int (length recoverable) = 0" and auto: "pa_auto_unpause args"
    using assms
    by (auto simp: clear_backlog_def f Let_def own_def [symmetric] recoverable_def [symmetric] r_def
        split: prod.splits sum.splits if_splits)
  have "length recoverable \<le> length own" by (simp add: recoverable_def)
  also have "\<dots> \<le> length stale_listed" by (simp add: own_def)
  finally have "foreign = 0 \<and> length recoverable = length stale_listed" using none foreign_stale_nonneg [OF f] by linarith
  then have zero: "foreign = 0" and all: "length recoverable = length stale_listed" by simp_all
  have each: "owned_by run (pa_user args) \<and> pa_auto_neutralize args \<and>
       (\<exists>refreshed remaining. describe_dag (pe_describe_again env) = Some refreshed \<and>
          stale_ids fromisoformat args refreshed = Inr remaining \<and> py_str (dget run ''dag_run_id'') \<notin> set remaining)"
    if run: "run \<in> set stale_listed" for run
  proof -
    have own_run: "owned_by run (pa_user args)" and known: "py_str (dget run ''dag_run_id'') \<in> set recoverable"
      using all_listed [OF all [unfolded recoverable_def own_def] run] run by (auto simp: recoverable_def own_def)
    then have "recover_backlog fromisoformat args env recoverable st = (Inr (), snd r)"
      using ok by (cases r) (auto simp: r_def split: if_splits)
    then show ?thesis by (rule recover_backlog_cases) (use own_run known in auto)
  qed
  show ?thesis using auto f zero each by simp
qed

lemma clear_backlog_events:
  assumes "clear_backlog fromisoformat args env info stale_listed st = (res, st')"
  shows "ps_events st' = ps_events st \<or>
    (\<exists>recover res' table log. pa_auto_neutralize args \<and> pe_recover env = Some recover \<and>
       recover (ps_table st) = (res', table, log) \<and> ps_events st' = ps_events st @ [Recovered log])"
proof (cases "foreign_stale info")
  case (Inr foreign)
  let ?own = "map (\<lambda>run. py_str (dget run ''dag_run_id'')) (filter (\<lambda>run. owned_by run (pa_user args)) stale_listed)"
  let ?recoverable = "filter (\<lambda>i. i \<in> known_ids env ?own (ps_table st)) ?own"
  have "st' = st \<or> (\<exists>res'. recover_backlog fromisoformat args env ?recoverable st = (res', st'))"
    using assms by (auto simp: clear_backlog_def Inr Let_def split: prod.splits sum.splits if_splits)
  then show ?thesis
  proof
    assume "\<exists>res'. recover_backlog fromisoformat args env ?recoverable st = (res', st')"
    then obtain res' where "recover_backlog fromisoformat args env ?recoverable st = (res', st')" by blast
    then show ?thesis by (rule recover_backlog_cases) auto
  qed simp
qed (use assms in \<open>simp add: clear_backlog_def\<close>)

lemma unpause_events:
  assumes "unpause args env dag_id reuse st = (res, st')"
  shows "\<exists>es. ps_events st' = ps_events st @ UnpauseRequest dag_id # es \<and> set es \<subseteq> {UnpauseAudit dag_id}"
  using assms by (auto simp: unpause_def Let_def ready_def split: sum.splits pv.splits if_splits)

lemma unpause_reuse: "unpause args env dag_id reuse st = (Inr pf, st') \<Longrightarrow> df_reuse_run_id pf = reuse"
  by (auto simp: unpause_def Let_def split: sum.splits pv.splits if_splits)

lemma resume_cases:
  assumes "resume_paused fromisoformat args env dag_id info runs reuse st = (res, st')"
  obtains (refused) "isl res" "ps_events st' = ps_events st"
  | (listed) stale res1 st0 st1 where "\<not> truthy (dget info ''running_truncated'')" "\<not> truthy (dget info ''queued_truncated'')"
      "rfilter (\<lambda>run. run_is_stale fromisoformat run (pa_now args) (pa_stale_after args)) runs = Inr stale"
      "clear_backlog fromisoformat args env info
         (filter (\<lambda>run. str_or (dget run ''dag_run_id'') [] \<noteq> (case reuse of None \<Rightarrow> [] | Some i \<Rightarrow> i)) stale) st0 = (res1, st1)"
      "ps_events st0 = ps_events st" "ps_table st0 = ps_table st"
      "isl res1 \<and> isl res \<and> st' = st1 \<or> \<not> isl res1 \<and> unpause args env dag_id reuse st1 = (res, st')"
proof -
  let ?st = "st\<lparr>ps_cache := (ps_cache st)(scope_key dag_id (pa_user args) := None)\<rparr>"
  show thesis
  proof (cases "truthy (dget info ''running_truncated'') \<or> truthy (dget info ''queued_truncated'')")
    case True
    with assms have "isl res" "ps_events st' = ps_events st" by (auto simp: resume_paused_def Let_def)
    then show thesis by (rule refused)
  next
    case False
    show thesis
    proof (cases "rfilter (\<lambda>run. run_is_stale fromisoformat run (pa_now args) (pa_stale_after args)) runs")
      case (Inl e)
      with assms False have "isl res" "ps_events st' = ps_events st" by (auto simp: resume_paused_def Let_def)
      then show thesis by (rule refused)
    next
      case (Inr stale)
      obtain res1 st1 where c: "clear_backlog fromisoformat args env info
         (filter (\<lambda>run. str_or (dget run ''dag_run_id'') [] \<noteq> (case reuse of None \<Rightarrow> [] | Some i \<Rightarrow> i)) stale) ?st = (res1, st1)"
        by fastforce
      have "isl res1 \<and> isl res \<and> st' = st1 \<or> \<not> isl res1 \<and> unpause args env dag_id reuse st1 = (res, st')"
        using assms False Inr c by (cases res1) (auto simp: resume_paused_def Let_def)
      then show thesis using False by (intro listed [OF _ _ Inr c]) auto
    qed
  qed
qed

lemma ensure_cases:
  assumes "ensure_dag_ready_for_manual_trigger fromisoformat args env st = (res, st')"
  obtains (unprepared) "ps_events st' = ps_events st" "\<And>pf. res = Inr pf \<Longrightarrow> df_reuse_run_id pf = None"
  | (ready_now) info runs reuse where "manual_trigger_dag (strip (pa_dag_id args))" "describe_dag (pe_describe env) = Some info"
      "\<not> dag_unavailable info" "\<not> truthy (dget info ''is_paused'')" "describe_runs info = Inr runs"
      "reuse = None \<or> reusable_run fromisoformat args False runs = Inr reuse" "ps_events st' = ps_events st"
      "\<And>pf. res = Inr pf \<Longrightarrow> df_reuse_run_id pf = reuse"
  | (paused) info runs reuse where "manual_trigger_dag (strip (pa_dag_id args))" "describe_dag (pe_describe env) = Some info"
      "\<not> dag_unavailable info" "str_or (dget info ''schedule_kind'') ''unknown'' = ''manual''" "truthy (dget info ''is_paused'')"
      "describe_runs info = Inr runs" "reuse = None \<or> reusable_run fromisoformat args True runs = Inr reuse"
      "resume_paused fromisoformat args env (strip (pa_dag_id args)) info runs reuse st = (res, st')"
proof -
  let ?d = "strip (pa_dag_id args)"
  consider (early) "ps_events st' = ps_events st \<and> (\<forall>pf. res = Inr pf \<longrightarrow> df_reuse_run_id pf = None)"
    | (manual) info where "manual_trigger_dag ?d" "describe_dag (pe_describe env) = Some info" "\<not> dag_unavailable info"
        "str_or (dget info ''schedule_kind'') ''unknown'' = ''manual''" "prepare_manual fromisoformat args env ?d info st = (res, st')"
    using assms
    by (auto simp: ensure_dag_ready_for_manual_trigger_def Let_def preflight_result_def split: if_splits option.splits)
  then show thesis
  proof cases
    case early
    then show thesis by (intro unprepared) auto
  next
    case (manual info)
    show thesis
    proof (cases "rbind (describe_runs info) (\<lambda>runs. rbind (if endswith ?d ''_extract_all''
        then reusable_run fromisoformat args (truthy (dget info ''is_paused'')) runs else Inr None) (\<lambda>reuse. Inr (runs, reuse)))")
      case (Inl e)
      with manual(5) show thesis by (intro unprepared) (auto simp: prepare_manual_def Let_def)
    next
      case (Inr x)
      then obtain runs reuse where x: "describe_runs info = Inr runs" "x = (runs, reuse)"
        "reuse = None \<or> reusable_run fromisoformat args (truthy (dget info ''is_paused'')) runs = Inr reuse"
        by (auto simp: rbind_Inr_iff split: if_splits)
      show thesis
      proof (cases "truthy (dget info ''is_paused'')")
        case True
        then have "resume_paused fromisoformat args env ?d info runs reuse st = (res, st')"
          using manual(5) unfolding prepare_manual_def Let_def Inr x(2) by simp
        with True x show thesis by (intro paused [OF manual(1-4) True x(1)]) simp_all
      next
        case False
        then have "ps_events st' = ps_events st" "\<And>pf. res = Inr pf \<Longrightarrow> df_reuse_run_id pf = reuse"
          using manual(5) unfolding prepare_manual_def Let_def Inr x(2) by (auto simp: ready_def split: if_splits)
        with False x show thesis by (intro ready_now [OF manual(1-3) False x(1)]) simp_all
      qed
    qed
  qed
qed

text \<open>
  C25: a process is resumed only when that starts no backlog. If the preflight asks Airflow to resume a
  process, it is a manual one that Airflow reported as found, active, sound and paused, with complete
  listings and no stale run of others, and resuming is enabled; and every stale run on the list, apart
  from the one to be reused, is the caller's own, recovering was enabled, and after the recovery Airflow
  no longer listed it as stale.
\<close>

theorem resuming_starts_no_backlog:
  assumes "ensure_dag_ready_for_manual_trigger fromisoformat args env st = (res, st')"
    and "UnpauseRequest d \<in> set (ps_events st')" "UnpauseRequest d \<notin> set (ps_events st)"
  shows "\<exists>info runs reuse. d = strip (pa_dag_id args) \<and> manual_trigger_dag d \<and> describe_dag (pe_describe env) = Some info \<and>
    \<not> dag_unavailable info \<and> str_or (dget info ''schedule_kind'') ''unknown'' = ''manual'' \<and> truthy (dget info ''is_paused'') \<and>
    pa_auto_unpause args \<and> \<not> truthy (dget info ''running_truncated'') \<and> \<not> truthy (dget info ''queued_truncated'') \<and>
    foreign_stale info = Inr 0 \<and> describe_runs info = Inr runs \<and>
    (reuse = None \<or> reusable_run fromisoformat args True runs = Inr reuse) \<and>
    (\<forall>run\<in>set runs. run_is_stale fromisoformat run (pa_now args) (pa_stale_after args) = Inr True \<longrightarrow>
       str_or (dget run ''dag_run_id'') [] = (case reuse of None \<Rightarrow> [] | Some i \<Rightarrow> i) \<or>
       owned_by run (pa_user args) \<and> pa_auto_neutralize args \<and>
       (\<exists>refreshed remaining. describe_dag (pe_describe_again env) = Some refreshed \<and>
          stale_ids fromisoformat args refreshed = Inr remaining \<and> py_str (dget run ''dag_run_id'') \<notin> set remaining))"
  using assms(1)
proof (cases rule: ensure_cases)
  case (paused info runs reuse)
  from paused(8) show ?thesis
  proof (cases rule: resume_cases)
    case (listed stale res1 st0 st1)
    have no_request: "UnpauseRequest d \<notin> set (ps_events st1)"
      using clear_backlog_events [OF listed(4)] assms(3) listed(5) by auto
    then have "\<not> isl res1" "unpause args env (strip (pa_dag_id args)) reuse st1 = (res, st')" using listed(7) assms(2) by auto
    then obtain u where res1: "res1 = Inr u" by (cases res1) auto
    have d: "d = strip (pa_dag_id args)"
      using unpause_events [OF \<open>unpause _ _ _ _ _ = _\<close>] assms(2) no_request by auto
    note ok = clear_backlog_ok [OF listed(4) [unfolded res1]]
    have each: "str_or (dget run ''dag_run_id'') [] = (case reuse of None \<Rightarrow> [] | Some i \<Rightarrow> i) \<or>
       owned_by run (pa_user args) \<and> pa_auto_neutralize args \<and>
       (\<exists>refreshed remaining. describe_dag (pe_describe_again env) = Some refreshed \<and>
          stale_ids fromisoformat args refreshed = Inr remaining \<and> py_str (dget run ''dag_run_id'') \<notin> set remaining)"
      if "run \<in> set runs" "run_is_stale fromisoformat run (pa_now args) (pa_stale_after args) = Inr True" for run
      using ok rfilter_set [OF listed(3)] that by auto
    show ?thesis
      using d paused(1-7) listed(1,2) ok each by (intro exI [of _ info] exI [of _ runs] exI [of _ reuse]) blast
  qed (use assms(2,3) in simp)
qed (use assms(2,3) in simp_all)

lemma reusable_run_cases:
  assumes "reusable_run fromisoformat args paused runs = Inr (Some i)"
  shows "\<exists>run\<in>set runs. py_str (dget run ''dag_run_id'') = i \<and> lower_state run \<in> set PENDING_STATES \<and> owned_by run (pa_user args) \<and>
    conf_matches run (pa_mode args) (pa_target args) \<and>
    (run_is_stale fromisoformat run (pa_now args) (pa_stale_after args) = Inr False \<or> \<not> paused \<and> lower_state run = ''running'')"
proof -
  let ?sort = "sort_key (\<lambda>run. if lower_state run = ''running'' then (0::int) else 1)"
  obtain live where live: "rfilter (live_own_run fromisoformat args paused) runs = Inr live"
    and pick: "(case ?sort live of [] \<Rightarrow> None | run # _ \<Rightarrow> Some (py_str (dget run ''dag_run_id''))) = Some i"
    using assms by (auto simp: reusable_run_def rbind_Inr_iff)
  obtain run rest where sorted: "?sort live = run # rest" using pick by (cases "?sort live") auto
  have i: "py_str (dget run ''dag_run_id'') = i" using pick by (simp add: sorted)
  have "run \<in> set (?sort live)" by (simp add: sorted)
  then have "run \<in> set live" by simp
  then have run: "run \<in> set runs" "live_own_run fromisoformat args paused run = Inr True" using rfilter_set [OF live] by auto
  then have "lower_state run = ''queued'' \<or> lower_state run = ''running''"
    by (auto simp: live_own_run_def PENDING_STATES_def split: if_splits)
  then show ?thesis
    using run i by (intro bexI [OF _ run(1)]) (auto simp: live_own_run_def rbind_Inr_iff split: if_splits)
qed

text \<open>
  a run is offered for reuse only when it is the caller's own live run: Airflow lists it as queued or
  running, its configuration names the tenant and workspace of the caller and agrees with the mode and
  target asked for, and it is not stale, unless it is running in a process that is not paused.
\<close>

theorem reused_run_is_own_and_live:
  assumes "ensure_dag_ready_for_manual_trigger fromisoformat args env st = (Inr pf, st')" "df_reuse_run_id pf = Some i"
  shows "\<exists>info runs run. describe_dag (pe_describe env) = Some info \<and> describe_runs info = Inr runs \<and> run \<in> set runs \<and>
    py_str (dget run ''dag_run_id'') = i \<and> lower_state run \<in> set PENDING_STATES \<and> owned_by run (pa_user args) \<and>
    conf_matches run (pa_mode args) (pa_target args) \<and>
    (run_is_stale fromisoformat run (pa_now args) (pa_stale_after args) = Inr False \<or>
     \<not> truthy (dget info ''is_paused'') \<and> lower_state run = ''running'')"
  using assms(1)
proof (cases rule: ensure_cases)
  case (ready_now info runs reuse)
  then have "reusable_run fromisoformat args False runs = Inr (Some i)" using assms(2) by auto
  with reusable_run_cases [OF this] ready_now(2,4,5) show ?thesis by blast
next
  case (paused info runs reuse)
  from paused(8) show ?thesis
  proof (cases rule: resume_cases)
    case (listed stale res1 st0 st1)
    then have "reuse = Some i" using unpause_reuse assms(2) by fastforce
    then have "reusable_run fromisoformat args True runs = Inr (Some i)" using paused(7) by auto
    with reusable_run_cases [OF this] paused(2,6) show ?thesis by blast
  qed simp
qed (use assms(2) in auto)

section \<open>The recovery of a preflight\<close>

lemma ensure_recovered:
  assumes "ensure_dag_ready_for_manual_trigger fromisoformat args env st = (res, st')"
    and "Recovered log \<in> set (ps_events st')" "Recovered log \<notin> set (ps_events st)"
  shows "manual_trigger_dag (strip (pa_dag_id args)) \<and> pa_auto_neutralize args \<and>
    (\<exists>recover res' table. pe_recover env = Some recover \<and> recover (ps_table st) = (res', table, log))"
  using assms(1)
proof (cases rule: ensure_cases)
  case (paused info runs reuse)
  from paused(8) show ?thesis
  proof (cases rule: resume_cases)
    case (listed stale res1 st0 st1)
    have "Recovered log \<in> set (ps_events st1)"
      using listed(7) assms(2) unpause_events [of args env "strip (pa_dag_id args)" reuse st1 res st'] by fastforce
    then show ?thesis using clear_backlog_events [OF listed(4)] assms(3) listed(5,6) paused(1) by auto
  qed (use assms(2,3) in simp)
qed (use assms(2,3) in simp_all)

text \<open>
  The recovery that a preflight starts keeps to the process at hand. It is started only when it is
  enabled and for a manual process; every row it closes is a row of that process, stuck by the evidence of
  Airflow with a threshold of at least fifteen minutes.
\<close>

theorem preflight_recovery_keeps_to_its_process:
  assumes "run_manual_trigger_preflight w environ renv envs database env dag_id user mode target now later st = (res, st')"
    and "Recovered log \<in> set (ps_events st')" "Recovered log \<notin> set (ps_events st)" "RowClosed i \<in> set log"
  shows "auto_recovery_neutralize_enabled environ \<and> manual_trigger_dag (strip dag_id) \<and> 900 \<le> stuck_run_threshold_seconds environ \<and>
    (\<exists>r truth. r \<in> set (ps_table st) \<and> rr_run_id r = i \<and> rr_dag_id r = strip dag_id \<and>
       stuck_evidence (rw_fromiso w) (rw_json_loads w) (candidate_row r) truth later
         (stuck_run_threshold_seconds environ * 1000000) DEFAULT_MISSING_GRACE)"
proof -
  let ?req = "preflight_request user (strip dag_id) (stuck_run_threshold_seconds environ) later"
  obtain res' table where run: "recover_stuck_runs w renv envs ?req (ps_table st) = (res', table, log)"
    and on: "auto_recovery_neutralize_enabled environ" "manual_trigger_dag (strip dag_id)"
    using ensure_recovered [OF assms(1) [unfolded run_manual_trigger_preflight_def Let_def] assms(2,3)] by auto
  have req: "rk_now ?req = later" "rk_threshold ?req = stuck_run_threshold_seconds environ * 1000000"
    "query_matches (rk_query ?req) r \<Longrightarrow> rr_dag_id r = strip dag_id" for r
    by (simp_all add: preflight_request_def query_matches_def)
  have "\<exists>r truth. r \<in> set (ps_table st) \<and> rr_run_id r = i \<and> query_matches (rk_query ?req) r \<and>
      stuck_evidence (rw_fromiso w) (rw_json_loads w) (candidate_row r) truth (rk_now ?req) (rk_threshold ?req) DEFAULT_MISSING_GRACE"
    using closed_row_facts [OF run assms(4)] by blast
  then show ?thesis using on req by (auto simp: stuck_run_threshold_seconds_def)
qed

section \<open>Witnesses\<close>

definition ready_state :: preflight_state where
  "ready_state = \<lparr>ps_cache = \<lambda>_. None, ps_table = [sample_run], ps_events = []\<rparr>"

definition preflight_sample :: preflight_args where
  "preflight_sample = \<lparr>pa_dag_id = ''crm_extract_all'', pa_user = sample_user, pa_auto_unpause = True, pa_auto_neutralize = False,
     pa_ttl = 30, pa_stale_after = 900, pa_mode = None, pa_target = None, pa_now = 3600000000\<rparr>"

abbreviation answer_dict :: "(string \<times> pv) list \<Rightarrow> tool_answer" where
  "answer_dict items \<equiv> Inr (PDict (pdict_of items))"

definition listed_run :: "string \<Rightarrow> int \<Rightarrow> pv" where
  "listed_run st queued = PDict (pdict_of [(''dag_run_id'', PStr ''a1''), (''state'', PStr st), (''queued_at'', PDt queued (Some 0)),
     (''conf'', PDict (pdict_of [(''tenant_id'', PStr ''t''), (''workspace_id'', PStr ''w'')]))])"

definition preflight_sample_env :: "pv list \<Rightarrow> preflight_env" where
  "preflight_sample_env runs = \<lparr>pe_describe = answer_dict [(''found'', PBool True), (''schedule_kind'', PStr ''manual''),
       (''is_paused'', PBool True), (''runs'', PList runs)],
     pe_describe_again = answer_dict [(''runs'', PList [])], pe_unpause = answer_dict [(''unpaused'', PBool True)], pe_audit = True,
     pe_clock = 0, pe_clock_after = 1, pe_known = None, pe_recover = None\<rparr>"

abbreviation sample_preflight :: "dag_preflight preflight" where
  "sample_preflight \<equiv> ensure_dag_ready_for_manual_trigger (\<lambda>_. None) preflight_sample
     (preflight_sample_env [listed_run ''running'' 3500000000]) ready_state"

lemma sample_preflight_events:
  "ps_events (snd sample_preflight) = [UnpauseRequest ''crm_extract_all'', UnpauseAudit ''crm_extract_all''] \<and>
   \<not> isl (fst sample_preflight) \<and> df_reuse_run_id (projr (fst sample_preflight)) = Some ''a1''"
  by code_simp

theorem resuming_starts_no_backlog_witness:
  "\<exists>info. describe_dag (pe_describe (preflight_sample_env [listed_run ''running'' 3500000000])) = Some info \<and> foreign_stale info = Inr 0 \<and>
     truthy (dget info ''is_paused'')"
proof -
  obtain res st' where run: "sample_preflight = (res, st')" by fastforce
  then have "UnpauseRequest ''crm_extract_all'' \<in> set (ps_events st')" using sample_preflight_events by simp
  with resuming_starts_no_backlog [OF run, of "''crm_extract_all''"] show ?thesis by (auto simp: ready_state_def)
qed

theorem reused_run_is_own_and_live_witness:
  "\<exists>run. py_str (dget run ''dag_run_id'') = ''a1'' \<and> owned_by run sample_user \<and> lower_state run \<in> set PENDING_STATES"
proof -
  obtain pf st' where run: "sample_preflight = (Inr pf, st')"
    using sample_preflight_events by (cases sample_preflight; cases "fst sample_preflight") auto
  then have "df_reuse_run_id pf = Some ''a1''" using sample_preflight_events by simp
  from reused_run_is_own_and_live [OF run this] show ?thesis by (auto simp: preflight_sample_def)
qed

end
