(* ===== verification/Run_Janitor.thy ===== *)
theory Run_Janitor
  imports Trigger_Preflight
begin

text \<open>
  The janitor of pipeline runs: \<open>console/app/services/pipeline_run_janitor.py\<close>.

  At intervals, the one console instance that holds an advisory lock goes through the workspaces and
  recovers the stuck runs of each under its own scope. What the session of a workspace sees of the table is
  part of its \<open>recovery_world\<close>; the workspaces follow one another, so the table and the log of events are
  threaded through. The waiting between the passes is left out, the loop ends when a stop was requested.

  The theorems: a pass accounts for every workspace and every closed row; in the mode sync it closes and
  stops nothing.
\<close>

section \<open>Settings\<close>

definition JANITOR_ACTOR :: string where "JANITOR_ACTOR = ''system:pipeline-janitor''"
definition MODES :: "string list" where "MODES = [''off'', ''sync'', ''recover'']"
definition DEFAULT_MODE :: string where "DEFAULT_MODE = ''sync''"
definition DEFAULT_INTERVAL_SECONDS :: int where "DEFAULT_INTERVAL_SECONDS = 300"
definition MIN_INTERVAL_SECONDS :: int where "MIN_INTERVAL_SECONDS = 60"

definition janitor_mode :: "(string \<Rightarrow> string option) \<Rightarrow> string" where
  "janitor_mode environ =
     (let value = (case environ ''PIPELINE_RUN_JANITOR_MODE'' of None \<Rightarrow> DEFAULT_MODE | Some s \<Rightarrow> if s = [] then DEFAULT_MODE else s);
          raw = lower (strip value)
      in if raw \<in> set MODES then raw else DEFAULT_MODE)"

definition janitor_interval_seconds :: "(string \<Rightarrow> string option) \<Rightarrow> int" where
  "janitor_interval_seconds environ =
     max MIN_INTERVAL_SECONDS (case environ ''PIPELINE_RUN_JANITOR_INTERVAL_SECONDS'' of
       None \<Rightarrow> DEFAULT_INTERVAL_SECONDS
     | Some raw \<Rightarrow> if strip raw = [] then DEFAULT_INTERVAL_SECONDS
                  else case parse_int (strip raw) of None \<Rightarrow> DEFAULT_INTERVAL_SECONDS | Some n \<Rightarrow> n)"

definition janitor_allowed_classes :: "string \<Rightarrow> bool \<Rightarrow> string list" where
  "janitor_allowed_classes mode neutralize =
     (if mode = ''recover'' then [AIRFLOW_TERMINAL, MISSING_IN_AIRFLOW] @ (if neutralize then STALLED_CLASSES else [])
      else [AIRFLOW_TERMINAL])"

definition system_user :: "string \<Rightarrow> string \<Rightarrow> pdict" where
  "system_user tenant_id workspace_id = pdict_of
     [(''id'', PInt 0), (''email'', PStr JANITOR_ACTOR), (''role'', PStr ''admin''), (''active_tenant_id'', PStr tenant_id),
      (''active_workspace_id'', PStr workspace_id), (''tenant_id'', PStr tenant_id), (''workspace_id'', PStr workspace_id),
      (''allowed_cartridges'', PList [PStr ''*''])]"

section \<open>One pass\<close>

record workspace_row =
  ws_id :: string
  ws_tenant :: "string option"
  ws_name :: string
  ws_created :: int

record tick_summary =
  ts_status :: string
  ts_mode :: string
  ts_workspaces :: int
  ts_recovered :: int
  ts_synced_terminal :: int
  ts_failed_workspaces :: int

datatype tick_result = TickSkipped string | TickDone tick_summary

record janitor_env =
  jv_pool :: bool
  jv_leader :: bool
  jv_database :: bool
  jv_workspaces :: "workspace_row list"
  jv_recovery :: "nat \<Rightarrow> recovery_env"
  jv_apply :: "nat \<Rightarrow> nat \<Rightarrow> apply_env"
  jv_now :: "nat \<Rightarrow> int"

definition listed_workspaces :: "(string \<Rightarrow> string) \<Rightarrow> workspace_row list \<Rightarrow> int \<Rightarrow> (string \<times> string) list" where
  \<comment> \<open>the tenant and the workspace of each, oldest first\<close>
  "listed_workspaces collate rows limit =
     take (nat (max 1 limit)) (List.map_filter (\<lambda>r. map_option (\<lambda>t. (t, ws_id r)) (ws_tenant r))
       (sort_key (\<lambda>r. (ws_created r, collate (ws_name r))) rows))"

definition janitor_request :: "string \<Rightarrow> bool \<Rightarrow> int \<Rightarrow> int \<Rightarrow> string \<times> string \<Rightarrow> recovery_request" where
  "janitor_request mode neutralize threshold now scope =
     \<lparr>rk_user = Some (system_user (fst scope) (snd scope)), rk_mode = MODE_APPLY, rk_actor = JANITOR_ACTOR,
      rk_query = \<lparr>rq_cartridge = [], rq_dag_ids = [], rq_exclude = [], rq_max_age = 0, rq_visible = None\<rparr>,
      rk_threshold = threshold * 1000000, rk_allowed = janitor_allowed_classes mode neutralize, rk_neutralize = neutralize,
      rk_expected = None, rk_now = now, rk_max_candidates = MAX_CANDIDATES, rk_orphan_scan = False\<rparr>"

record tick_state =
  tk_summary :: tick_summary
  tk_table :: run_table
  tk_log :: "recovery_event list"

definition count_workspace :: "(recovery_error + recovery_report) \<Rightarrow> tick_summary \<Rightarrow> tick_summary" where
  "count_workspace res sm =
     (case res of
        Inl _ \<Rightarrow> sm\<lparr>ts_workspaces := ts_workspaces sm + 1, ts_failed_workspaces := ts_failed_workspaces sm + 1\<rparr>
      | Inr report \<Rightarrow> sm\<lparr>ts_workspaces := ts_workspaces sm + 1,
          ts_recovered := ts_recovered sm + rc_recovered (rp_counts report),
          ts_synced_terminal := ts_synced_terminal sm + rc_synced_terminal (rp_counts report)\<rparr>)"

definition janitor_workspace ::
    "(string \<times> string \<Rightarrow> recovery_world) \<Rightarrow> recovery_env \<Rightarrow> (nat \<Rightarrow> apply_env) \<Rightarrow> recovery_request \<Rightarrow> string \<times> string \<Rightarrow>
     tick_state \<Rightarrow> tick_state" where
  "janitor_workspace w renv envs req scope s =
     (case recover_stuck_runs (w scope) renv envs req (tk_table s) of (res, table, log) \<Rightarrow>
        \<lparr>tk_summary = count_workspace res (tk_summary s), tk_table = table, tk_log = tk_log s @ log\<rparr>)"

fun janitor_pass ::
    "(string \<times> string \<Rightarrow> recovery_world) \<Rightarrow> janitor_env \<Rightarrow> string \<Rightarrow> bool \<Rightarrow> int \<Rightarrow> nat \<Rightarrow> (string \<times> string) list \<Rightarrow> tick_state \<Rightarrow>
     tick_state" where
  "janitor_pass w env mode neutralize threshold n [] s = s"
| "janitor_pass w env mode neutralize threshold n (scope # scopes) s =
     janitor_pass w env mode neutralize threshold (Suc n) scopes
       (janitor_workspace w (jv_recovery env n) (jv_apply env n)
          (janitor_request mode neutralize threshold (jv_now env n) scope) scope s)"

definition run_janitor_tick ::
    "(string \<Rightarrow> string) \<Rightarrow> (string \<times> string \<Rightarrow> recovery_world) \<Rightarrow> (string \<Rightarrow> string option) \<Rightarrow> janitor_env \<Rightarrow> string \<Rightarrow> bool option \<Rightarrow>
     int \<Rightarrow> int \<Rightarrow> run_table \<Rightarrow> (tick_result \<times> run_table \<times> recovery_event list) pyres" where
  \<comment> \<open>an absent mode is the empty text, an absent threshold 0\<close>
  "run_janitor_tick collate w environ env mode_arg neutralize_arg threshold_arg limit table =
     (let mode = (if mode_arg = [] then janitor_mode environ else mode_arg);
          neutralize = ((case neutralize_arg of None \<Rightarrow> auto_recovery_neutralize_enabled environ | Some b \<Rightarrow> b) \<and> mode = ''recover'');
          threshold = (if threshold_arg = 0 then stuck_run_threshold_seconds environ else threshold_arg)
      in if mode = ''off'' then Inr (TickSkipped ''disabled'', table, [])
         else if \<not> jv_pool env then Inl (DatabaseError ''InterfaceError'')
         else if \<not> jv_leader env then Inr (TickSkipped ''not_leader'', table, [])
         else if \<not> jv_database env then Inl (DatabaseError ''InterfaceError'')
         else let s = janitor_pass w env mode neutralize threshold 0 (listed_workspaces collate (jv_workspaces env) limit)
                    \<lparr>tk_summary = \<lparr>ts_status = ''ok'', ts_mode = mode, ts_workspaces = 0, ts_recovered = 0, ts_synced_terminal = 0,
                       ts_failed_workspaces = 0\<rparr>, tk_table = table, tk_log = []\<rparr>;
                  sm = tk_summary s
              in Inr (TickDone (if ts_failed_workspaces sm \<noteq> 0 then sm\<lparr>ts_status := ''partial''\<rparr> else sm), tk_table s, tk_log s))"

section \<open>The loop\<close>

partial_function (option) janitor_rounds :: "(nat \<Rightarrow> bool) \<Rightarrow> (nat \<Rightarrow> run_table \<Rightarrow> run_table) \<Rightarrow> nat \<Rightarrow> run_table \<Rightarrow> (nat \<times> run_table) option" where
  \<comment> \<open>\<open>stop n\<close>: the stop event was set while waiting for round \<open>n\<close>; an exception of a tick is only logged\<close>
  "janitor_rounds stop tick n table = (if stop n then Some (n, table) else janitor_rounds stop tick (Suc n) (tick n table))"

definition janitor_loop :: "(string \<Rightarrow> string option) \<Rightarrow> (nat \<Rightarrow> bool) \<Rightarrow> (nat \<Rightarrow> run_table \<Rightarrow> run_table) \<Rightarrow> run_table \<Rightarrow> (nat \<times> run_table) option" where
  "janitor_loop environ stop tick table =
     (if janitor_mode environ = ''off'' then Some (0, table) else janitor_rounds stop tick 0 table)"

section \<open>What a pass does\<close>

lemma janitor_rounds_end:
  assumes "stop m" "n \<le> m"
  shows "\<exists>k table'. janitor_rounds stop tick n table = Some (k, table') \<and> n \<le> k \<and> k \<le> m"
  using assms
proof (induction "m - n" arbitrary: n table)
  case 0
  then have "n = m" by simp
  then show ?case using 0 by (subst janitor_rounds.simps) auto
next
  case (Suc d)
  show ?case
  proof (cases "stop n")
    case True
    then show ?thesis using Suc.prems by (subst janitor_rounds.simps) auto
  next
    case False
    then have "n \<noteq> m" using Suc.prems(1) by auto
    then obtain k table' where "janitor_rounds stop tick (Suc n) (tick n table) = Some (k, table')" "Suc n \<le> k" "k \<le> m"
      using Suc.hyps(1) [of "Suc n" "tick n table"] Suc.hyps(2) Suc.prems by fastforce
    with False show ?thesis by (subst janitor_rounds.simps) auto
  qed
qed

lemma request_apply [simp]: "rk_mode (janitor_request mode neutralize threshold now scope) = MODE_APPLY"
  by (simp add: janitor_request_def)

definition tick_ok :: "tick_state \<Rightarrow> bool" where
  \<comment> \<open>the closed rows of the log are counted, and no workspace is counted twice\<close>
  "tick_ok s \<longleftrightarrow> ts_recovered (tk_summary s) = closings (tk_log s) \<and> 0 \<le> ts_failed_workspaces (tk_summary s) \<and>
     ts_failed_workspaces (tk_summary s) \<le> ts_workspaces (tk_summary s)"

lemma janitor_workspace_ok:
  assumes "tick_ok s" "rk_mode req = MODE_APPLY"
  shows "tick_ok (janitor_workspace w renv envs req scope s) \<and>
    ts_workspaces (tk_summary (janitor_workspace w renv envs req scope s)) = ts_workspaces (tk_summary s) + 1"
proof -
  obtain res table log where run: "recover_stuck_runs (w scope) renv envs req (tk_table s) = (res, table, log)"
    by (cases "recover_stuck_runs (w scope) renv envs req (tk_table s)") auto
  show ?thesis
  proof (cases res)
    case (Inl e)
    then have "log = []" using failed_recovery_logs_nothing run by blast
    then show ?thesis using assms(1) run Inl by (simp add: janitor_workspace_def count_workspace_def tick_ok_def)
  next
    case (Inr report)
    have "rc_recovered (rp_counts report) = closings log" using report_adds_up [OF run [unfolded Inr] assms(2)] by auto
    then show ?thesis using assms(1) run Inr by (simp add: janitor_workspace_def count_workspace_def tick_ok_def)
  qed
qed

lemma janitor_pass_ok:
  "tick_ok s \<Longrightarrow> tick_ok (janitor_pass w env mode neutralize threshold n scopes s) \<and>
     ts_workspaces (tk_summary (janitor_pass w env mode neutralize threshold n scopes s)) =
       ts_workspaces (tk_summary s) + int (length scopes)"
  by (induction scopes arbitrary: n s) (simp_all add: janitor_workspace_ok)

lemma sync_round:
  assumes "plan_for w env req table = Inr plan" "rk_allowed req = [AIRFLOW_TERMINAL]" "\<not> rk_orphan_scan req"
    and "p \<in> set (planned_runs plan)" "round_log p es" "e \<in> set es"
  shows "\<exists>i. e = RefreshRequest i"
proof -
  have "p \<in> set (pn_rows plan)" using assms(3,4) orphan_action [OF assms(1)] by (auto simp: planned_runs_def)
  then have "pl_action p \<noteq> ACTION_NEUTRALIZE_AIRFLOW" by (rule row_is_no_orphan [OF assms(1)])
  moreover have "pl_action p \<noteq> ACTION_MARK_FAILED"
  proof
    assume act: "pl_action p = ACTION_MARK_FAILED"
    have notin: "AIRFLOW_TERMINAL \<notin> set MARK_FAILED_CLASSES"
      by (simp add: MARK_FAILED_CLASSES_def STALLED_CLASSES_def class_defs)
    show False
      by (rule planned_mark_failed [OF assms(1,4) act]) (use notin in \<open>simp add: allowed_classes_def assms(2)\<close>)
  qed
  ultimately show ?thesis using assms(5,6) by (auto elim!: round_logE)
qed

lemma sync_recovery:
  assumes "recover_stuck_runs w env envs req table = (res, table', log)" "rk_allowed req = [AIRFLOW_TERMINAL]"
    "\<not> rk_orphan_scan req" "e \<in> set log"
  shows "\<exists>i. e = RefreshRequest i"
  using assms(1)
proof (rule recover_cases_run)
  fix plan
  assume plan: "plan_for w env req table = Inr plan"
    and log: "log = rs_log (apply_rounds w envs req plan (length (planned_runs plan)) (ro_between env table))"
  obtain ess where ess: "list_all2 round_log (take (length (planned_runs plan)) (planned_runs plan)) ess" "log = concat ess"
    using apply_rounds_log log by metis
  then obtain p es where "p \<in> set (planned_runs plan)" "round_log p es" "e \<in> set es"
    using assms(4) logged_round by (metis take_all order_refl)
  then show ?thesis by (rule sync_round [OF plan assms(2,3)])
qed (use assms(4) in simp)

lemma sync_pass:
  assumes "mode \<noteq> ''recover''" "e \<in> set (tk_log (janitor_pass w env mode neutralize threshold n scopes s))" "e \<notin> set (tk_log s)"
  shows "\<exists>i. e = RefreshRequest i"
  using assms
proof (induction scopes arbitrary: n s)
  case (Cons scope scopes)
  let ?req = "janitor_request mode neutralize threshold (jv_now env n) scope"
  obtain res table log where run: "recover_stuck_runs (w scope) (jv_recovery env n) (jv_apply env n) ?req (tk_table s) = (res, table, log)"
    by (cases "recover_stuck_runs (w scope) (jv_recovery env n) (jv_apply env n) ?req (tk_table s)") auto
  have req: "rk_allowed ?req = [AIRFLOW_TERMINAL]" "\<not> rk_orphan_scan ?req"
    using Cons.prems(1) by (simp_all add: janitor_request_def janitor_allowed_classes_def)
  show ?case
  proof (cases "e \<in> set log")
    case True
    then show ?thesis by (rule sync_recovery [OF run req])
  next
    case False
    with Cons.prems Cons.IH [of "Suc n" "janitor_workspace w (jv_recovery env n) (jv_apply env n) ?req scope s"] show ?thesis
      by (simp add: janitor_workspace_def run)
  qed
qed simp

text \<open>
  a pass of the janitor accounts for what it did. The one that is leader visits every listed workspace
  also when the recovery of some fails, the closed rows it counts are those of the log, the pass is partial
  exactly when some workspace failed, and unless the mode is recover nothing is closed and nothing is
  stopped: every event is a request to refresh a run.
\<close>

theorem janitor_accounts_for_its_pass:
  assumes "run_janitor_tick collate w environ env mode_arg neutralize_arg threshold_arg limit table = Inr (TickDone sm, table', log)"
  shows "ts_workspaces sm = int (length (listed_workspaces collate (jv_workspaces env) limit)) \<and>
    ts_recovered sm = closings log \<and> ts_failed_workspaces sm \<le> ts_workspaces sm \<and>
    (ts_status sm = ''partial'' \<longleftrightarrow> 0 < ts_failed_workspaces sm) \<and> jv_leader env \<and>
    ((if mode_arg = [] then janitor_mode environ else mode_arg) = ''recover'' \<or> (\<forall>e\<in>set log. \<exists>i. e = RefreshRequest i))"
proof -
  let ?mode = "if mode_arg = [] then janitor_mode environ else mode_arg"
  let ?start = "\<lparr>tk_summary = \<lparr>ts_status = ''ok'', ts_mode = ?mode, ts_workspaces = 0, ts_recovered = 0, ts_synced_terminal = 0,
     ts_failed_workspaces = 0\<rparr>, tk_table = table, tk_log = []\<rparr>"
  obtain neutralize threshold where pass:
    "log = tk_log (janitor_pass w env ?mode neutralize threshold 0 (listed_workspaces collate (jv_workspaces env) limit) ?start)"
    "sm = (let s = tk_summary (janitor_pass w env ?mode neutralize threshold 0 (listed_workspaces collate (jv_workspaces env) limit) ?start)
           in if ts_failed_workspaces s \<noteq> 0 then s\<lparr>ts_status := ''partial''\<rparr> else s)"
    and leader: "jv_leader env"
    using assms by (auto simp: run_janitor_tick_def Let_def split: if_splits)
  note ok = janitor_pass_ok [of ?start w env ?mode neutralize threshold 0 "listed_workspaces collate (jv_workspaces env) limit"]
  have "tick_ok ?start" by (simp add: tick_ok_def)
  have status: "ts_status (tk_summary (janitor_pass w env m n t k scopes s)) = ts_status (tk_summary s)" for m n t k scopes s
    by (induction scopes arbitrary: k s) (auto simp: janitor_workspace_def count_workspace_def split: prod.splits sum.splits)
  show ?thesis
    using ok [OF \<open>tick_ok ?start\<close>] leader pass sync_pass [of ?mode _ w env neutralize threshold 0
        "listed_workspaces collate (jv_workspaces env) limit" ?start] status
    by (auto simp: tick_ok_def Let_def)
qed

section \<open>Witness\<close>

definition janitor_sample :: janitor_env where
  \<comment> \<open>the second of two workspaces cannot be read\<close>
  "janitor_sample = \<lparr>jv_pool = True, jv_leader = True, jv_database = True,
     jv_workspaces = [\<lparr>ws_id = ''w'', ws_tenant = Some ''t'', ws_name = ''main'', ws_created = 0\<rparr>,
       \<lparr>ws_id = ''v'', ws_tenant = Some ''t'', ws_name = ''other'', ws_created = 1\<rparr>],
     jv_recovery = \<lambda>n. sample_env\<lparr>ro_database := n = 0\<rparr>, jv_apply = \<lambda>_ _. sample_apply, jv_now = \<lambda>_. 3600000000\<rparr>"

abbreviation sample_tick :: "(tick_result \<times> run_table \<times> recovery_event list) pyres" where
  "sample_tick \<equiv> run_janitor_tick id (\<lambda>_. sample_world) (\<lambda>_. None) janitor_sample ''recover'' None 0 500 []"

definition sample_summary :: tick_summary where
  "sample_summary = \<lparr>ts_status = ''partial'', ts_mode = ''recover'', ts_workspaces = 2, ts_recovered = 0, ts_synced_terminal = 0,
     ts_failed_workspaces = 1\<rparr>"

lemma sample_tick_done: "sample_tick = Inr (TickDone sample_summary, [], [])"
  by code_simp

theorem janitor_accounts_for_its_pass_witness:
  "int (length (listed_workspaces id (jv_workspaces janitor_sample) 500)) = 2 \<and> closings [] = 0"
  using janitor_accounts_for_its_pass [OF sample_tick_done] by (simp add: sample_summary_def)

end
