(* ===== verification/Run_Admission.thy ===== *)
theory Run_Admission
  imports Refresh_Admission
begin

text \<open>
  The admission of cartridge runs: \<open>airflow/dags/cartridge_run_admission.py\<close>.

  A DAG of a cartridge acts only for the scope of a signed run authority. The environment, the clock and
  the hashes are those of \<open>Signed_Context\<close>; \<open>RunAdmissionError\<close> is the \<open>ValueError\<close> it extends.

  The theorems: an admitted run acts for the cartridge, the scope and the DAG run its authority was signed
  for; what an admitted run signs on behalf of its caller names that scope and no other one.
\<close>

section \<open>The rules\<close>

definition RUN_ISSUERS :: "string list" where "RUN_ISSUERS = [''console'', ''workspace'', ''mcp-infra'', ''airflow'']"
definition RUN_PERMISSIONS :: "string list" where "RUN_PERMISSIONS = [''pipelines.run'', ''cartridges.execute'']"
definition RUN_PURPOSE :: string where "RUN_PURPOSE = ''cartridge.run''"
definition RUN_AUDIENCE :: string where "RUN_AUDIENCE = ''airflow''"

definition RESERVED_CONF_KEYS :: "string list" where
  "RESERVED_CONF_KEYS = [''security_context'', ''tenant_id'', ''workspace_id'', ''cartridge_id'', ''conn_id'',
     ''connection_id'', ''triggered_by'']"

definition MINTED_PERMISSIONS :: "string list" where
  "MINTED_PERMISSIONS = [''cartridges.execute'', ''vault.secrets.reveal'', ''pipelines.run'']"

definition PRINCIPAL_MAX :: nat where "PRINCIPAL_MAX = 200"

definition uuid_fullmatch :: "string \<Rightarrow> bool" where
  "uuid_fullmatch s \<longleftrightarrow>
     list_all2 (\<lambda>p c. if p = CHR ''-'' then c = CHR ''-'' else lower_hex c) ''00000000-0000-0000-0000-000000000000'' s"

definition cartridge_char :: "char \<Rightarrow> bool" where
  "cartridge_char c \<longleftrightarrow> (97 \<le> code c \<and> code c \<le> 122) \<or> is_ascii_digit c \<or> c = CHR ''_''"

definition run_cartridge :: "pv \<Rightarrow> string pyres" where
  "run_cartridge value =
     (let cartridge = strip (str_or value []) in
      if cartridge = [] \<or> 64 < length cartridge \<or> \<not> list_all cartridge_char cartridge
      then Inl (ValueError ''run cartridge is invalid'') else Inr cartridge)"

definition run_scope :: "pv \<Rightarrow> pv \<Rightarrow> (string \<times> string) pyres" where
  "run_scope tenant_id workspace_id =
     (let tenant = lower (strip (str_or tenant_id [])); workspace = lower (strip (str_or workspace_id [])) in
      if \<not> uuid_fullmatch tenant \<or> \<not> uuid_fullmatch workspace
      then Inl (ValueError ''run needs tenant_id and workspace_id UUIDs'') else Inr (tenant, workspace))"

definition run_principal :: "pv \<Rightarrow> string \<Rightarrow> string" where
  "run_principal value fallback =
     (let text = take PRINCIPAL_MAX (strip (if value = PNone \<or> value = PStr [] then fallback else py_str value))
      in if text = [] then fallback else text)"

section \<open>The run\<close>

text \<open>The times of a DAG run are microseconds since the epoch.\<close>

record dag_run =
  dr_dag_id :: string
  dr_run_id :: string
  dr_queued_at :: "int option"
  dr_start_date :: "int option"

definition timestamp_int :: "int \<Rightarrow> int" where
  \<comment> \<open>\<open>int(moment.timestamp())\<close> truncates\<close>
  "timestamp_int t = (if 0 \<le> t then t div 1000000 else - ((- t) div 1000000))"

definition admission_time :: "dag_run \<Rightarrow> int option" where
  "admission_time run =
     (case dr_queued_at run of
        Some t \<Rightarrow> Some (timestamp_int t)
      | None \<Rightarrow> map_option timestamp_int (dr_start_date run))"

record admitted_run =
  ar_cartridge_id :: string
  ar_tenant_id :: string
  ar_workspace_id :: string
  ar_principal :: string
  ar_source :: string

definition ar_scope :: "admitted_run \<Rightarrow> string" where
  "ar_scope run = ''tenant_id='' @ ar_tenant_id run @ ''/workspace_id='' @ ar_workspace_id run @ ''/''"

definition default_prefixes :: "admitted_run \<Rightarrow> string list" where
  "default_prefixes run =
     [''raw/'' @ ar_cartridge_id run @ ''/'', ''silver/'' @ ar_cartridge_id run @ ''/'' @ ar_scope run,
      ''gold/'' @ ar_cartridge_id run @ ''/'' @ ar_scope run]"

definition allowed_buckets :: "world \<Rightarrow> string list" where
  "allowed_buckets w =
     foldl (\<lambda>buckets candidate. let value = strip candidate in
        if value \<noteq> [] \<and> value \<notin> set buckets then buckets @ [value] else buckets)
       [] [''lakehouse'', getenv w ''MINIO_BUCKET'', getenv w ''S3_BUCKET_NAME'']"

definition run_context :: "world \<Rightarrow> admitted_run \<Rightarrow> pv \<Rightarrow> string list option \<Rightarrow> pdict pyres" where
  "run_context w run user_id prefixes =
     (let actor = strip (str_or user_id []) in
      if actor = [] then Inl (ValueError ''minted context needs a user_id'')
      else sign_runtime_context w (pdict_of
        [(''trusted'', PBool True), (''source'', PStr ''airflow''), (''user_id'', PStr actor),
         (''on_behalf_of'', PStr (ar_principal run)), (''role'', PStr ''admin''), (''workspace_role'', PStr ''service''),
         (''tenant_id'', PStr (ar_tenant_id run)), (''workspace_id'', PStr (ar_workspace_id run)),
         (''permissions'', strs MINTED_PERMISSIONS), (''allowed_cartridges'', strs [ar_cartridge_id run]),
         (''allowed_buckets'', strs (allowed_buckets w)),
         (''allowed_prefixes'', strs (case prefixes of None \<Rightarrow> default_prefixes run | Some ps \<Rightarrow> ps))]))"

section \<open>Admission\<close>

definition authority_items :: "pv \<Rightarrow> string list pyres" where
  \<comment> \<open>\<open>{str(item).strip() for item in value or []}\<close>\<close>
  "authority_items value = rbind (str_items value) (\<lambda>items. Inr (map strip items))"

definition run_rejected :: "unit pyres \<Rightarrow> unit pyres" where
  \<comment> \<open>\<open>except ValueError as exc: raise RunAdmissionError(f"run authority rejected: {exc}")\<close>\<close>
  "run_rejected m =
     (case m of Inl (ValueError problem) \<Rightarrow> Inl (ValueError (''run authority rejected: '' @ problem)) | _ \<Rightarrow> m)"

definition conf_scope_differs :: "pdict \<Rightarrow> string \<Rightarrow> string \<Rightarrow> bool" where
  "conf_scope_differs values key expected \<longleftrightarrow>
     (let supplied = lower (strip (str_or (dget values key) [])) in supplied \<noteq> [] \<and> supplied \<noteq> expected)"

definition bound_elsewhere :: "pdict \<Rightarrow> dag_run \<Rightarrow> bool" where
  "bound_elsewhere ctx run \<longleftrightarrow>
     (let dag = str_or (dget ctx ''dag_id'') []; run_id = str_or (dget ctx ''dag_run_id'') [] in
      (dhas ctx ''dag_id'' \<or> dhas ctx ''dag_run_id'') \<and>
      (dag = [] \<or> run_id = [] \<or> (dag, run_id) \<noteq> (dr_dag_id run, dr_run_id run)))"

definition admit_authority :: "pdict \<Rightarrow> pdict \<Rightarrow> string \<Rightarrow> string \<Rightarrow> dag_run \<Rightarrow> admitted_run pyres" where
  \<comment> \<open>the checks after the signature\<close>
  "admit_authority values ctx cartridge source run =
     rbind (run_scope (dget ctx ''tenant_id'') (dget ctx ''workspace_id'')) (\<lambda>(tenant, workspace).
       if conf_scope_differs values ''tenant_id'' tenant
       then Inl (ValueError ''conf tenant_id does not match run authority'')
       else if conf_scope_differs values ''workspace_id'' workspace
       then Inl (ValueError ''conf workspace_id does not match run authority'')
       else
         rbind (authority_items (dget ctx ''allowed_cartridges'')) (\<lambda>allowed.
           if ''*'' \<notin> set allowed \<and> cartridge \<notin> set allowed
           then Inl (ValueError ''cartridge is not allowed by run authority'')
           else
             rbind (str_items (dget ctx ''permissions'')) (\<lambda>permissions.
               if \<not> list_ex (\<lambda>p. p \<in> set permissions) RUN_PERMISSIONS
               then Inl (ValueError ''run authority lacks a run permission'')
               else if bound_elsewhere ctx run then Inl (ValueError ''run authority is bound to another run'')
               else Inr \<lparr>ar_cartridge_id = cartridge, ar_tenant_id = tenant, ar_workspace_id = workspace,
                 ar_principal = run_principal (dget ctx ''user_id'') source, ar_source = source\<rparr>)))"

definition run_clock :: "world \<Rightarrow> dag_run \<Rightarrow> int option \<Rightarrow> int" where
  \<comment> \<open>the time at which the signature is checked\<close>
  "run_clock w run admitted_at =
     (case admitted_at of
        Some t \<Rightarrow> t
      | None \<Rightarrow> (case admission_time run of Some t \<Rightarrow> t | None \<Rightarrow> w_now w))"

definition admit_run :: "world \<Rightarrow> pv \<Rightarrow> pv \<Rightarrow> dag_run \<Rightarrow> int option \<Rightarrow> admitted_run pyres" where
  "admit_run w conf cartridge_id run admitted_at =
     rbind (run_cartridge cartridge_id) (\<lambda>cartridge.
       let values = (case conf of PDict d \<Rightarrow> d | _ \<Rightarrow> []) in
       case dget values ''security_context'' of
         PDict ctx \<Rightarrow>
           if dget ctx ''trusted'' \<noteq> PBool True then Inl (ValueError ''signed run authority is required'')
           else
             let source = str_or (dget ctx ''source'') [] in
             if source \<notin> set RUN_ISSUERS then Inl (ValueError ''run authority issuer is not accepted'')
             else if dget ctx ''purpose'' \<notin> {PNone, PStr RUN_PURPOSE} \<or> dget ctx ''audience'' \<notin> {PNone, PStr RUN_AUDIENCE}
             then Inl (ValueError ''run authority was issued for another purpose'')
             else
               rbind (run_rejected (verify_runtime_signature (w\<lparr>w_now := run_clock w run admitted_at\<rparr>) ctx))
                 (\<lambda>_. admit_authority values ctx cartridge source run)
       | _ \<Rightarrow> Inl (ValueError ''signed run authority is required''))"

definition service_run :: "string \<Rightarrow> pv \<Rightarrow> pv \<Rightarrow> pv \<Rightarrow> admitted_run pyres" where
  "service_run cartridge_id tenant_id workspace_id principal_name =
     rbind (run_scope tenant_id workspace_id) (\<lambda>(tenant, workspace).
       let actor = strip (str_or principal_name []) in
       if actor = [] then Inl (ValueError ''service run needs a principal'')
       else rbind (run_cartridge (PStr cartridge_id)) (\<lambda>cartridge.
         Inr \<lparr>ar_cartridge_id = cartridge, ar_tenant_id = tenant, ar_workspace_id = workspace,
           ar_principal = take PRINCIPAL_MAX actor, ar_source = ''airflow''\<rparr>))"

definition strip_reserved :: "pv \<Rightarrow> pdict" where
  "strip_reserved params =
     (case params of
        PDict d \<Rightarrow> filter (\<lambda>kv. case fst kv of
            PStr key \<Rightarrow> key \<notin> set RESERVED_CONF_KEYS \<and> \<not> startswith key ''_'' | _ \<Rightarrow> False) d
      | _ \<Rightarrow> [])"

section \<open>Guarantees\<close>

lemma sorted_value_PStr [simp]: "sorted_value v = PStr s \<longleftrightarrow> v = PStr s"
  by (cases v) simp_all

lemma sorted_value_strs: "sorted_value v = strs ss \<longleftrightarrow> v = strs ss"
proof -
  have "map sorted_value xs = map PStr ss \<longleftrightarrow> xs = map PStr ss" for xs
    by (induction xs arbitrary: ss) (auto simp: Cons_eq_map_conv)
  then show ?thesis by (cases v) (simp_all add: strs_def sorted_values_map)
qed

lemma sorted_strs: "sorted_value (strs ss) = strs ss"
  by (simp add: sorted_value_strs)

lemma str_items_strs: "str_items (strs ss) = Inr ss"
  by (cases ss) (simp_all add: str_items_def strs_def py_or_def comp_def)

lemma uuid_fullmatch_chars: "uuid_fullmatch s \<Longrightarrow> s \<noteq> [] \<and> (\<forall>c\<in>set s. lower_hex c \<or> c = CHR ''-'')"
  by (auto simp: uuid_fullmatch_def list_all2_Cons1 split: if_splits)

lemma uuid_fullmatch_id:
  assumes "uuid_fullmatch s"
  shows "strip s = s \<and> lower s = s"
proof -
  have chars: "\<not> is_space c \<and> \<not> is_upper c" if "c \<in> set s" for c
    using uuid_fullmatch_chars [OF assms] that
    by (auto simp: lower_hex_def is_ascii_digit_def is_space_def is_upper_def)
  have "strip s = s" unfolding strip_def
    by (rule strip_by_id) (use chars uuid_fullmatch_chars [OF assms] in auto)
  moreover have "map lower_char s = map (\<lambda>c. c) s"
    by (rule map_cong) (use chars in \<open>auto simp: lower_char_def\<close>)
  ultimately show ?thesis by (simp add: lower_def)
qed

lemma admit_run_Inr:
  assumes "admit_run w conf cartridge_id run admitted_at = Inr r"
  obtains vals ctx allowed where "conf = PDict vals" "dget vals ''security_context'' = PDict ctx"
    "verify_runtime_signature (w\<lparr>w_now := run_clock w run admitted_at\<rparr>) ctx = Inr ()"
    "run_cartridge cartridge_id = Inr (ar_cartridge_id r)"
    "run_scope (dget ctx ''tenant_id'') (dget ctx ''workspace_id'') = Inr (ar_tenant_id r, ar_workspace_id r)"
    "authority_items (dget ctx ''allowed_cartridges'') = Inr allowed"
    "''*'' \<in> set allowed \<or> ar_cartridge_id r \<in> set allowed" "\<not> bound_elsewhere ctx run"
    "ar_source r = str_or (dget ctx ''source'') []" "ar_source r \<in> set RUN_ISSUERS"
    "ar_principal r = run_principal (dget ctx ''user_id'') (ar_source r)"
proof -
  let ?vals = "case conf of PDict d \<Rightarrow> d | _ \<Rightarrow> []"
  have rejected: "run_rejected m = Inr () \<longleftrightarrow> m = Inr ()" for m
    by (auto simp: run_rejected_def split: sum.splits pyexc.splits)
  obtain ctx where ctx: "dget ?vals ''security_context'' = PDict ctx"
    using assms by (cases "dget ?vals ''security_context''") (auto simp: admit_run_def rbind_Inr_iff Let_def)
  then have conf: "conf = PDict ?vals" by (cases conf) simp_all
  obtain cartridge where cartridge: "run_cartridge cartridge_id = Inr cartridge"
    and checks: "str_or (dget ctx ''source'') [] \<in> set RUN_ISSUERS"
    "verify_runtime_signature (w\<lparr>w_now := run_clock w run admitted_at\<rparr>) ctx = Inr ()"
    "admit_authority ?vals ctx cartridge (str_or (dget ctx ''source'') []) run = Inr r"
    using assms ctx by (auto simp: admit_run_def rbind_Inr_iff rejected Let_def split: if_splits)
  obtain allowed where "run_scope (dget ctx ''tenant_id'') (dget ctx ''workspace_id'') = Inr (ar_tenant_id r, ar_workspace_id r)"
    "authority_items (dget ctx ''allowed_cartridges'') = Inr allowed" "''*'' \<in> set allowed \<or> cartridge \<in> set allowed"
    "\<not> bound_elsewhere ctx run" "ar_source r = str_or (dget ctx ''source'') []" "ar_cartridge_id r = cartridge"
    "ar_principal r = run_principal (dget ctx ''user_id'') (ar_source r)"
    using checks(3) by (auto simp: admit_authority_def rbind_Inr_iff split: if_splits)
  then show ?thesis using that [OF conf ctx checks(2)] cartridge checks(1) by simp
qed

lemma authority_items_strs: "authority_items (strs ss) = Inr (map strip ss)"
  by (simp add: authority_items_def str_items_strs)

lemma run_scope_Inr: "run_scope t u = Inr (tenant, workspace) \<longleftrightarrow>
    tenant = lower (strip (str_or t [])) \<and> workspace = lower (strip (str_or u [])) \<and>
    uuid_fullmatch tenant \<and> uuid_fullmatch workspace"
  by (auto simp: run_scope_def Let_def)

lemma run_cartridge_Inr: "run_cartridge v = Inr c \<longleftrightarrow>
    c = strip (str_or v []) \<and> c \<noteq> [] \<and> length c \<le> 64 \<and> list_all cartridge_char c"
  by (auto simp: run_cartridge_def Let_def)

lemma cartridge_not_star: "run_cartridge v = Inr c \<Longrightarrow> c \<noteq> ''*'' \<and> strip c = c"
  by (auto simp: run_cartridge_Inr cartridge_char_def is_ascii_digit_def)

definition run_well_formed :: "admitted_run \<Rightarrow> bool" where
  "run_well_formed r \<longleftrightarrow>
     ar_cartridge_id r \<noteq> [] \<and> length (ar_cartridge_id r) \<le> 64 \<and> list_all cartridge_char (ar_cartridge_id r) \<and>
     uuid_fullmatch (ar_tenant_id r) \<and> uuid_fullmatch (ar_workspace_id r) \<and>
     ar_principal r \<noteq> [] \<and> length (ar_principal r) \<le> PRINCIPAL_MAX \<and> ar_source r \<in> set RUN_ISSUERS"

lemma run_principal_bounds:
  assumes "fallback \<noteq> []" "length fallback \<le> PRINCIPAL_MAX"
  shows "run_principal v fallback \<noteq> [] \<and> length (run_principal v fallback) \<le> PRINCIPAL_MAX"
  using assms by (auto simp: run_principal_def Let_def)

text \<open>
  C39: every run the module hands out is well formed, whether it was admitted with a signature or built by
  the DAG itself: its cartridge fits into a path segment, its scope is two canonical UUIDs, it has a
  principal of at most two hundred characters and one of the known issuers.
\<close>

theorem admitted_run_is_well_formed:
  "pred_sum (\<lambda>_. True) run_well_formed (admit_run w conf cartridge_id run admitted_at) \<and>
   pred_sum (\<lambda>_. True) run_well_formed (service_run c tenant_id workspace_id actor)"
proof
  have "run_well_formed r" if admitted: "admit_run w conf cartridge_id run admitted_at = Inr r" for r
  proof -
    obtain ctx where rules: "run_cartridge cartridge_id = Inr (ar_cartridge_id r)"
      "run_scope (dget ctx ''tenant_id'') (dget ctx ''workspace_id'') = Inr (ar_tenant_id r, ar_workspace_id r)"
      "ar_source r \<in> set RUN_ISSUERS" "ar_principal r = run_principal (dget ctx ''user_id'') (ar_source r)"
      by (rule admit_run_Inr [OF admitted]) blast
    have "ar_source r \<noteq> []" "length (ar_source r) \<le> PRINCIPAL_MAX"
      using rules(3) by (auto simp: RUN_ISSUERS_def PRINCIPAL_MAX_def)
    note principal = run_principal_bounds [OF this, of "dget ctx ''user_id''", folded rules(4)]
    show ?thesis
      using rules(1,2,3) principal unfolding run_well_formed_def run_cartridge_Inr run_scope_Inr by blast
  qed
  then show "pred_sum (\<lambda>_. True) run_well_formed (admit_run w conf cartridge_id run admitted_at)"
    by (cases "admit_run w conf cartridge_id run admitted_at") simp_all
  have "run_well_formed r" if "service_run c tenant_id workspace_id actor = Inr r" for r
    using that by (auto simp: service_run_def Let_def rbind_Inr_iff run_scope_Inr run_cartridge_Inr run_well_formed_def
        PRINCIPAL_MAX_def RUN_ISSUERS_def split: if_splits)
  then show "pred_sum (\<lambda>_. True) run_well_formed (service_run c tenant_id workspace_id actor)"
    by (cases "service_run c tenant_id workspace_id actor") simp_all
qed

definition scheduled_fields :: "string \<Rightarrow> string \<Rightarrow> string \<Rightarrow> string \<Rightarrow> string \<Rightarrow> string \<Rightarrow> (string \<times> pv) list" where
  "scheduled_fields issuer tenant workspace cartridge dag dag_run =
     [(''trusted'', PBool True), (''source'', PStr ''airflow''), (''issuer'', PStr issuer),
      (''audience'', PStr ''airflow''), (''purpose'', PStr SCHEDULED_RUN_PURPOSE),
      (''user_id'', PStr (''airflow:'' @ issuer)), (''role'', PStr ''service''),
      (''workspace_role'', PStr ''service''), (''tenant_id'', PStr tenant), (''workspace_id'', PStr workspace),
      (''permissions'', strs [''pipelines.run'']), (''allowed_cartridges'', strs [cartridge]),
      (''dag_id'', PStr dag), (''dag_run_id'', PStr dag_run)]"

lemma scheduled_built:
  assumes "build_scheduled_run_context w cartridge_id tenant_id workspace_id dag_id dag_run_id issuer = Inr issued"
  obtains i t u c d r where "sign_runtime_context w (pdict_of (scheduled_fields i t u c d r)) = Inr issued"
    "required issuer ''issuer'' = Inr i" "required tenant_id ''tenant_id'' = Inr t"
    "required workspace_id ''workspace_id'' = Inr u" "required cartridge_id ''cartridge_id'' = Inr c"
    "required dag_id ''dag_id'' = Inr d" "required dag_run_id ''dag_run_id'' = Inr r"
  using assms
  by (auto simp: build_scheduled_run_context_def sign_runtime_context_def scheduled_fields_def rbind_Inr_iff)

text \<open>
  C17: an admitted run acts only for what its authority was signed for. When a run is admitted with the
  signature of an authority that was issued for a scheduled run, then it is that run of that DAG, acts for
  the tenant and the workspace of the authority, for its cartridge (or any one, when the authority names
  \<open>*\<close>) and in the name of the issuer, and the authority was checked within its time window.
\<close>

theorem admitted_run_is_the_signed_one:
  assumes built: "build_scheduled_run_context w cartridge_id tenant_id workspace_id dag_id dag_run_id issuer = Inr issued"
    and admitted: "admit_run w' (PDict values) cartridge run admitted_at = Inr r"
    and ctx: "dget values ''security_context'' = PDict ctx" "dget ctx ''_signature'' = dget issued ''_signature''"
    and hashes: "w_environ w' = w_environ w" "w_hmac w' = w_hmac w" "\<forall>key. inj (w_hmac w key)" "hex_digests w"
    and json: "json_value (PDict ctx)"
  shows "dr_dag_id run = strip (str_or dag_id []) \<and> dr_run_id run = strip (str_or dag_run_id []) \<and>
    ar_tenant_id r = lower (strip (str_or tenant_id [])) \<and> ar_workspace_id r = lower (strip (str_or workspace_id [])) \<and>
    strip (str_or cartridge_id []) \<in> {''*'', ar_cartridge_id r} \<and> ar_source r = ''airflow'' \<and>
    ar_principal r = run_principal (PStr (''airflow:'' @ strip (str_or issuer []))) ''airflow'' \<and>
    w_now w \<le> run_clock w' run admitted_at + 30 \<and> run_clock w' run admitted_at \<le> w_now w + 300"
proof -
  obtain i t u c d e where sign: "sign_runtime_context w (pdict_of (scheduled_fields i t u c d e)) = Inr issued"
    and texts: "i = strip (str_or issuer [])" "t = strip (str_or tenant_id [])" "u = strip (str_or workspace_id [])"
      "c = strip (str_or cartridge_id [])" "d = strip (str_or dag_id [])" "e = strip (str_or dag_run_id [])"
    by (rule scheduled_built [OF built]) (auto simp: required_Inr)
  obtain allowed where verified: "verify_runtime_signature (w'\<lparr>w_now := run_clock w' run admitted_at\<rparr>) ctx = Inr ()"
    and rules: "run_cartridge cartridge = Inr (ar_cartridge_id r)"
    "run_scope (dget ctx ''tenant_id'') (dget ctx ''workspace_id'') = Inr (ar_tenant_id r, ar_workspace_id r)"
    "authority_items (dget ctx ''allowed_cartridges'') = Inr allowed"
    "''*'' \<in> set allowed \<or> ar_cartridge_id r \<in> set allowed" "\<not> bound_elsewhere ctx run"
    "ar_source r = str_or (dget ctx ''source'') []" "ar_principal r = run_principal (dget ctx ''user_id'') (ar_source r)"
    by (rule admit_run_Inr [OF admitted]) (use ctx(1) in auto)
  have payload: "json_value (PDict (pdict_of (scheduled_fields i t u c d e)))"
    by (simp add: scheduled_fields_def strs_def)
  have bound: "(\<forall>k. sorted_value (dget ctx k) = sorted_value (dget issued k)) \<and>
      w_now w \<le> run_clock w' run admitted_at + 30 \<and> run_clock w' run admitted_at \<le> w_now w + 300"
    using signature_binds_fields [OF sign verified ctx(2) _ _ hashes(3,4) payload json] hashes(1,2) by simp
  have "dget issued k = dget (pdict_of (scheduled_fields i t u c d e)) k"
    if "k \<notin> {''_signature'', ''_signed_at'', ''_signature_version''}" for k
    by (rule sign_context_Inr [OF sign [unfolded sign_runtime_context_def]]) (use that in blast)
  then have "sorted_value (dget ctx k) = sorted_value (dget (pdict_of (scheduled_fields i t u c d e)) k)"
    if "k \<notin> {''_signature'', ''_signed_at'', ''_signature_version''}" for k
    using bound that by simp
  from this [of "''tenant_id''"] this [of "''workspace_id''"] this [of "''source''"] this [of "''user_id''"]
    this [of "''dag_id''"] this [of "''dag_run_id''"] this [of "''allowed_cartridges''"]
  have fields: "dget ctx ''tenant_id'' = PStr t" "dget ctx ''workspace_id'' = PStr u" "dget ctx ''source'' = PStr ''airflow''"
      "dget ctx ''user_id'' = PStr (''airflow:'' @ i)" "dget ctx ''dag_id'' = PStr d" "dget ctx ''dag_run_id'' = PStr e"
      "dget ctx ''allowed_cartridges'' = strs [c]"
    by (simp_all add: scheduled_fields_def sorted_strs sorted_value_strs)
  have "dhas ctx ''dag_id''" using fields(5) dget_not_dhas by fastforce
  then show ?thesis
    using rules fields texts bound cartridge_not_star [OF rules(1)]
    by (auto simp: run_scope_Inr authority_items_strs bound_elsewhere_def Let_def)
qed

definition minted_fields :: "world \<Rightarrow> admitted_run \<Rightarrow> string \<Rightarrow> string list option \<Rightarrow> (string \<times> pv) list" where
  "minted_fields w run actor prefixes =
     [(''trusted'', PBool True), (''source'', PStr ''airflow''), (''user_id'', PStr actor),
      (''on_behalf_of'', PStr (ar_principal run)), (''role'', PStr ''admin''), (''workspace_role'', PStr ''service''),
      (''tenant_id'', PStr (ar_tenant_id run)), (''workspace_id'', PStr (ar_workspace_id run)),
      (''permissions'', strs MINTED_PERMISSIONS), (''allowed_cartridges'', strs [ar_cartridge_id run]),
      (''allowed_buckets'', strs (allowed_buckets w)),
      (''allowed_prefixes'', strs (case prefixes of None \<Rightarrow> default_prefixes run | Some ps \<Rightarrow> ps))]"

text \<open>
  C21: authority cannot be widened by passing it on. Whatever an admitted run signs for others, a run that is
  admitted with it acts for the same cartridge, tenant and workspace.
\<close>

theorem delegated_authority_keeps_scope:
  assumes first: "admit_run w1 conf1 cartridge1 run1 at1 = Inr r1"
    and minted: "run_context w2 r1 user_id prefixes = Inr ctx"
    and second: "admit_run w3 (PDict values) cartridge2 run2 at2 = Inr r2" "dget values ''security_context'' = PDict ctx"
  shows "ar_cartridge_id r2 = ar_cartridge_id r1 \<and> ar_tenant_id r2 = ar_tenant_id r1 \<and>
    ar_workspace_id r2 = ar_workspace_id r1 \<and> ar_source r2 = ''airflow''"
proof -
  obtain ctx1 allowed1 where rules1: "run_cartridge cartridge1 = Inr (ar_cartridge_id r1)"
    "run_scope (dget ctx1 ''tenant_id'') (dget ctx1 ''workspace_id'') = Inr (ar_tenant_id r1, ar_workspace_id r1)"
    by (rule admit_run_Inr [OF first]) blast
  obtain actor where sign: "sign_context w2 SIGNATURE_VERSION (pdict_of (minted_fields w2 r1 actor prefixes)) = Inr ctx"
    using minted by (auto simp: run_context_def Let_def sign_runtime_context_def minted_fields_def split: if_splits)
  have "dget ctx k = dget (pdict_of (minted_fields w2 r1 actor prefixes)) k"
    if "k \<notin> {''_signature'', ''_signed_at'', ''_signature_version''}" for k
    by (rule sign_context_Inr [OF sign]) (use that in blast)
  from this [of "''tenant_id''"] this [of "''workspace_id''"] this [of "''allowed_cartridges''"] this [of "''source''"]
  have fields: "dget ctx ''tenant_id'' = PStr (ar_tenant_id r1)" "dget ctx ''workspace_id'' = PStr (ar_workspace_id r1)"
      "dget ctx ''allowed_cartridges'' = strs [ar_cartridge_id r1]" "dget ctx ''source'' = PStr ''airflow''"
    by (simp_all add: minted_fields_def)
  obtain allowed where rules2: "run_cartridge cartridge2 = Inr (ar_cartridge_id r2)"
    "run_scope (dget ctx ''tenant_id'') (dget ctx ''workspace_id'') = Inr (ar_tenant_id r2, ar_workspace_id r2)"
    "authority_items (dget ctx ''allowed_cartridges'') = Inr allowed"
    "''*'' \<in> set allowed \<or> ar_cartridge_id r2 \<in> set allowed" "ar_source r2 = str_or (dget ctx ''source'') []"
    by (rule admit_run_Inr [OF second(1)]) (use second(2) in auto)
  have "uuid_fullmatch (ar_tenant_id r1)" "uuid_fullmatch (ar_workspace_id r1)"
    using rules1(2) unfolding run_scope_Inr by blast+
  note uuids = uuid_fullmatch_id [OF this(1)] uuid_fullmatch_id [OF this(2)]
    conjunct1 [OF uuid_fullmatch_chars [OF this(1)]] conjunct1 [OF uuid_fullmatch_chars [OF this(2)]]
  have "ar_tenant_id r2 = ar_tenant_id r1 \<and> ar_workspace_id r2 = ar_workspace_id r1"
    using rules2(2) fields(1,2) uuids by (simp add: run_scope_Inr)
  moreover have "ar_cartridge_id r2 = ar_cartridge_id r1 \<and> ar_source r2 = ''airflow''"
    using rules2(3-5) fields(3,4) cartridge_not_star [OF rules1(1)] by (auto simp: authority_items_strs)
  ultimately show ?thesis by simp
qed

text \<open>An authority that was issued for a run admits it.\<close>

definition signature_keys :: "string set" where
  "signature_keys = {''_signature'', ''_signed_at'', ''_signature_version''}"

lemma signed_field:
  assumes "sign_runtime_context w (pdict_of fs) = Inr issued" "set (map fst fs) \<inter> signature_keys = {}" "k \<notin> signature_keys"
  shows "dget issued k = dget (pdict_of fs) k" "dhas issued k = dhas (pdict_of fs) k"
proof -
  obtain key msg where issued: "issued = pdict_of (fs @ [(''_signed_at'', PInt (w_now w)),
      (''_signature_version'', PStr SIGNATURE_VERSION), (''_signature'', PStr (w_hmac w key msg))])"
    by (rule sign_context_pdict_of [OF assms(1) [unfolded sign_runtime_context_def] assms(2) [unfolded signature_keys_def]])
  have "dget (pdict_of (gs @ hs)) k = dget (pdict_of gs) k \<and> dhas (pdict_of (gs @ hs)) k = dhas (pdict_of gs) k"
    if "\<not> dhas (pdict_of hs) k" for gs hs
    using that dget_not_dhas [OF that] by (induction gs) auto
  note more = this
  let ?hs = "[(''_signed_at'', PInt (w_now w)), (''_signature_version'', PStr SIGNATURE_VERSION),
    (''_signature'', PStr (w_hmac w key msg))]"
  have "\<not> dhas (pdict_of ?hs) k" using assms(3) by (auto simp: signature_keys_def)
  from more [OF this, of fs] show "dget issued k = dget (pdict_of fs) k" "dhas issued k = dhas (pdict_of fs) k"
    by (simp_all only: issued)
qed

lemma signed_authority_admits:
  assumes sign: "sign_runtime_context w (pdict_of fs) = Inr issued" "set (map fst fs) \<inter> signature_keys = {}"
    and worlds: "w_environ w' = w_environ w" "w_hmac w' = w_hmac w" "hex_digests w"
    and fs: "dget (pdict_of fs) ''trusted'' = PBool True" "dget (pdict_of fs) ''source'' = PStr source" "source \<in> set RUN_ISSUERS"
      "dget (pdict_of fs) ''purpose'' \<in> {PNone, PStr RUN_PURPOSE}" "dget (pdict_of fs) ''audience'' \<in> {PNone, PStr RUN_AUDIENCE}"
    and conf: "dget values ''security_context'' = PDict issued"
    and cartridge: "run_cartridge cartridge = Inr c"
  shows "admit_run w' (PDict values) cartridge run admitted_at =
    (let t = run_clock w' run admitted_at in
     if t + 30 < w_now w \<or> 300 < t - w_now w
     then Inl (ValueError ''run authority rejected: runtime context signature expired'')
     else admit_authority values issued c source run)"
proof -
  let ?w = "w'\<lparr>w_now := run_clock w' run admitted_at\<rparr>"
  have "verify_runtime_signature ?w issued =
      (if w_now ?w + 30 < w_now w \<or> 300 < w_now ?w - w_now w
       then Inl (ValueError ''runtime context signature expired'') else Inr ())"
    by (rule verify_signed [OF sign(1) worlds(3)]) (use worlds in simp_all)
  moreover have "source \<noteq> []" using fs(3) by (auto simp: RUN_ISSUERS_def)
  ultimately show ?thesis
    using conf cartridge fs signed_field(1) [OF sign]
    by (simp add: admit_run_def run_rejected_def signature_keys_def Let_def)
qed

lemma issued_authority_admits:
  assumes built: "build_scheduled_run_context w cartridge_id tenant_id workspace_id dag_id dag_run_id issuer = Inr issued"
    and worlds: "w_environ w' = w_environ w" "w_hmac w' = w_hmac w" "hex_digests w"
    and conf: "dget values ''security_context'' = PDict issued"
      "\<not> conf_scope_differs values ''tenant_id'' tenant" "\<not> conf_scope_differs values ''workspace_id'' workspace"
    and scope: "run_scope tenant_id workspace_id = Inr (tenant, workspace)"
    and cartridge: "run_cartridge cartridge = Inr (strip (str_or cartridge_id []))"
    and run: "dr_dag_id run = strip (str_or dag_id [])" "dr_run_id run = strip (str_or dag_run_id [])"
  shows "admit_run w' (PDict values) cartridge run admitted_at =
    (let t = run_clock w' run admitted_at in
     if t + 30 < w_now w \<or> 300 < t - w_now w
     then Inl (ValueError ''run authority rejected: runtime context signature expired'')
     else Inr \<lparr>ar_cartridge_id = strip (str_or cartridge_id []), ar_tenant_id = tenant, ar_workspace_id = workspace,
       ar_principal = run_principal (PStr (''airflow:'' @ strip (str_or issuer []))) ''airflow'', ar_source = ''airflow''\<rparr>)"
proof -
  obtain i t u c d e where sign: "sign_runtime_context w (pdict_of (scheduled_fields i t u c d e)) = Inr issued"
    and texts: "i = strip (str_or issuer [])" "t = strip (str_or tenant_id [])" "u = strip (str_or workspace_id [])"
      "c = strip (str_or cartridge_id [])" "d = strip (str_or dag_id [])" "d \<noteq> []" "e = strip (str_or dag_run_id [])" "e \<noteq> []"
    by (rule scheduled_built [OF built]) (auto simp: required_Inr)
  let ?fs = "scheduled_fields i t u c d e"
  have keys: "set (map fst ?fs) \<inter> signature_keys = {}" by (simp add: scheduled_fields_def signature_keys_def)
  note issued = signed_field [OF sign keys]
  have fields: "dget issued ''tenant_id'' = PStr t" "dget issued ''workspace_id'' = PStr u"
      "dget issued ''user_id'' = PStr (''airflow:'' @ i)" "dget issued ''allowed_cartridges'' = strs [c]"
      "dget issued ''permissions'' = strs [''pipelines.run'']" "dget issued ''dag_id'' = PStr d" "dget issued ''dag_run_id'' = PStr e"
    by (simp_all add: issued signature_keys_def scheduled_fields_def)
  have "run_scope (PStr t) (PStr u) = Inr (tenant, workspace)"
    using scope texts(2,3) by (auto simp: run_scope_def Let_def split: if_splits)
  moreover have "\<not> bound_elsewhere issued run" using fields(6,7) texts run by (simp add: bound_elsewhere_def Let_def)
  moreover have "strip c = c" using texts(4) by simp
  ultimately have "admit_authority values issued c ''airflow'' run = Inr \<lparr>ar_cartridge_id = c, ar_tenant_id = tenant,
      ar_workspace_id = workspace, ar_principal = run_principal (PStr (''airflow:'' @ i)) ''airflow'', ar_source = ''airflow''\<rparr>"
    using conf(2,3) fields
    by (simp add: admit_authority_def authority_items_strs str_items_strs RUN_PERMISSIONS_def)
  moreover have cartridge': "run_cartridge cartridge = Inr c" using texts(4) cartridge by simp
  ultimately show ?thesis
    using signed_authority_admits [OF sign keys worlds _ _ _ _ _ conf(1) cartridge', of "''airflow''" run admitted_at] texts(1,4)
    by (simp add: Let_def scheduled_fields_def RUN_ISSUERS_def RUN_PURPOSE_def RUN_AUDIENCE_def SCHEDULED_RUN_PURPOSE_def)
qed

text \<open>What an admitted run signs for others admits any run of its cartridge.\<close>

lemma delegated_authority_admits:
  assumes minted: "run_context w r user_id prefixes = Inr issued"
    and worlds: "w_environ w' = w_environ w" "w_hmac w' = w_hmac w" "hex_digests w"
    and conf: "dget values ''security_context'' = PDict issued"
      "\<not> conf_scope_differs values ''tenant_id'' (ar_tenant_id r)" "\<not> conf_scope_differs values ''workspace_id'' (ar_workspace_id r)"
    and scope: "run_scope (PStr (ar_tenant_id r)) (PStr (ar_workspace_id r)) = Inr (ar_tenant_id r, ar_workspace_id r)"
    and cartridge: "run_cartridge cartridge = Inr (ar_cartridge_id r)"
  shows "admit_run w' (PDict values) cartridge run admitted_at =
    (let t = run_clock w' run admitted_at in
     if t + 30 < w_now w \<or> 300 < t - w_now w
     then Inl (ValueError ''run authority rejected: runtime context signature expired'')
     else Inr (r\<lparr>ar_principal := run_principal (PStr (strip (str_or user_id []))) ''airflow'', ar_source := ''airflow''\<rparr>))"
proof -
  let ?actor = "strip (str_or user_id [])"
  have sign: "sign_runtime_context w (pdict_of (minted_fields w r ?actor prefixes)) = Inr issued"
    using minted by (auto simp: run_context_def Let_def minted_fields_def split: if_splits)
  have keys: "set (map fst (minted_fields w r ?actor prefixes)) \<inter> signature_keys = {}"
    by (simp add: minted_fields_def signature_keys_def)
  note issued = signed_field [OF sign keys]
  have fields: "dget issued ''tenant_id'' = PStr (ar_tenant_id r)" "dget issued ''workspace_id'' = PStr (ar_workspace_id r)"
      "dget issued ''user_id'' = PStr ?actor" "dget issued ''allowed_cartridges'' = strs [ar_cartridge_id r]"
      "dget issued ''permissions'' = strs MINTED_PERMISSIONS" "\<not> dhas issued ''dag_id''" "\<not> dhas issued ''dag_run_id''"
    by (simp_all add: issued signature_keys_def minted_fields_def)
  have "admit_authority values issued (ar_cartridge_id r) ''airflow'' run = Inr (r\<lparr>ar_principal := run_principal (PStr ?actor) ''airflow'',
      ar_source := ''airflow''\<rparr>)"
    using conf(2,3) fields scope cartridge_not_star [OF cartridge]
    by (simp add: admit_authority_def authority_items_strs str_items_strs RUN_PERMISSIONS_def MINTED_PERMISSIONS_def bound_elsewhere_def)
  then show ?thesis
    using signed_authority_admits [OF sign keys worlds _ _ _ _ _ conf(1) cartridge, of "''airflow''" run admitted_at]
    by (simp add: minted_fields_def RUN_ISSUERS_def Let_def)
qed

section \<open>Witnesses\<close>

lemma scheduled_builds:
  assumes "signing_key w = Inr key" "list_all (\<lambda>v. strip (str_or v []) \<noteq> [])
    [cartridge_id, tenant_id, workspace_id, dag_id, dag_run_id, issuer]"
  shows "\<exists>issued. build_scheduled_run_context w cartridge_id tenant_id workspace_id dag_id dag_run_id issuer = Inr issued"
proof -
  have "\<exists>issued. sign_context w SIGNATURE_VERSION (pdict_of (scheduled_fields i t u c d r)) = Inr issued" for i t u c d r
    by (rule sign_context_total [OF _ assms(1)]) (simp add: scheduled_fields_def strs_def)
  then show ?thesis
    using assms(2) by (simp add: build_scheduled_run_context_def required_def scheduled_fields_def Let_def)
qed

lemma conf_scope_absent: "dget values k = PNone \<Longrightarrow> \<not> conf_scope_differs values k expected"
  by (simp add: conf_scope_differs_def strip_def strip_by_def lstrip_def rstrip_def)

definition uuid_sample :: string where "uuid_sample = ''0000000a-0000-0000-0000-000000000001''"

definition run_sample :: dag_run where
  "run_sample = \<lparr>dr_dag_id = ''dag'', dr_run_id = ''run'', dr_queued_at = Some 1200500000, dr_start_date = None\<rparr>"

definition admitted_sample :: admitted_run where
  "admitted_sample = \<lparr>ar_cartridge_id = ''crm'', ar_tenant_id = uuid_sample, ar_workspace_id = uuid_sample,
     ar_principal = ''airflow:entity_scheduler'', ar_source = ''airflow''\<rparr>"

lemma sample_run_admitted:
  obtains issued where "build_scheduled_run_context sample_world (PStr ''crm'') (PStr uuid_sample) (PStr uuid_sample)
      (PStr ''dag'') (PStr ''run'') (PStr ''entity_scheduler'') = Inr issued"
    "json_value (PDict issued)"
    "admit_run sample_world (PDict (pdict_of [(''security_context'', PDict issued)])) (PStr ''crm'') run_sample None =
       Inr admitted_sample"
proof -
  have "signing_key sample_world = Inr ''0123456789abcdef0123456789abcdef''" "list_all (\<lambda>v. strip (str_or v []) \<noteq> [])
      [PStr ''crm'', PStr uuid_sample, PStr uuid_sample, PStr ''dag'', PStr ''run'', PStr ''entity_scheduler'']" by code_simp+
  from scheduled_builds [OF this] obtain issued where built: "build_scheduled_run_context sample_world (PStr ''crm'')
      (PStr uuid_sample) (PStr uuid_sample) (PStr ''dag'') (PStr ''run'') (PStr ''entity_scheduler'') = Inr issued" by blast
  obtain i t u c d r where sign: "sign_runtime_context sample_world (pdict_of (scheduled_fields i t u c d r)) = Inr issued"
    by (rule scheduled_built [OF built]) blast
  have json: "json_value (PDict issued)"
    by (rule sign_context_Inr [OF sign [unfolded sign_runtime_context_def]]) (simp add: scheduled_fields_def strs_def)
  let ?conf = "pdict_of [(''security_context'', PDict issued)]"
  have conf: "dget ?conf ''security_context'' = PDict issued" "\<not> conf_scope_differs ?conf ''tenant_id'' uuid_sample"
    "\<not> conf_scope_differs ?conf ''workspace_id'' uuid_sample" by (simp_all add: conf_scope_absent)
  have scope: "run_scope (PStr uuid_sample) (PStr uuid_sample) = Inr (uuid_sample, uuid_sample)"
    "run_cartridge (PStr ''crm'') = Inr (strip (str_or (PStr ''crm'') []))"
    "dr_dag_id run_sample = strip (str_or (PStr ''dag'') [])" "dr_run_id run_sample = strip (str_or (PStr ''run'') [])" by code_simp+
  have "admit_run sample_world (PDict ?conf) (PStr ''crm'') run_sample None = Inr admitted_sample"
    unfolding issued_authority_admits [OF built refl refl sample_digests(1) conf scope] by code_simp
  with built json show ?thesis using that by blast
qed

theorem admitted_run_is_the_signed_one_witness:
  "\<exists>issued r. build_scheduled_run_context sample_world (PStr ''crm'') (PStr uuid_sample) (PStr uuid_sample)
      (PStr ''dag'') (PStr ''run'') (PStr ''entity_scheduler'') = Inr issued \<and>
    admit_run sample_world (PDict (pdict_of [(''security_context'', PDict issued)])) (PStr ''crm'') run_sample None = Inr r \<and>
    ar_principal r = run_principal (PStr (''airflow:'' @ strip (str_or (PStr ''entity_scheduler'') []))) ''airflow''"
proof -
  obtain issued where issued: "build_scheduled_run_context sample_world (PStr ''crm'') (PStr uuid_sample) (PStr uuid_sample)
      (PStr ''dag'') (PStr ''run'') (PStr ''entity_scheduler'') = Inr issued" "json_value (PDict issued)"
    "admit_run sample_world (PDict (pdict_of [(''security_context'', PDict issued)])) (PStr ''crm'') run_sample None =
       Inr admitted_sample" by (rule sample_run_admitted)
  have "dget (pdict_of [(''security_context'', PDict issued)]) ''security_context'' = PDict issued" by simp
  from admitted_run_is_the_signed_one [OF issued(1,3) this refl refl refl _ sample_digests(1) issued(2)] sample_digests(2) issued
  show ?thesis by blast
qed

lemma json_values_PStr: "json_values (map PStr ss)"
  by (induction ss) simp_all

lemma sample_delegated:
  obtains ctx where "run_context sample_world admitted_sample (PStr ''console'') None = Inr ctx"
    "admit_run sample_world (PDict (pdict_of [(''security_context'', PDict ctx)])) (PStr ''crm'') (run_sample\<lparr>dr_run_id := ''other''\<rparr>)
       None = Inr (admitted_sample\<lparr>ar_principal := ''console''\<rparr>)"
proof -
  have "json_value (PDict (pdict_of (minted_fields sample_world admitted_sample ''console'' None)))"
    by (simp add: minted_fields_def strs_def json_values_PStr)
  moreover have "signing_key sample_world = Inr ''0123456789abcdef0123456789abcdef''" by code_simp
  ultimately obtain ctx where "sign_runtime_context sample_world (pdict_of (minted_fields sample_world admitted_sample
      ''console'' None)) = Inr ctx"
    using sign_context_total unfolding sign_runtime_context_def by blast
  moreover have "strip (str_or (PStr ''console'') []) = ''console''" by code_simp
  ultimately have minted: "run_context sample_world admitted_sample (PStr ''console'') None = Inr ctx"
    by (simp add: run_context_def minted_fields_def)
  let ?conf = "pdict_of [(''security_context'', PDict ctx)]"
  have conf: "dget ?conf ''security_context'' = PDict ctx" "\<not> conf_scope_differs ?conf ''tenant_id'' (ar_tenant_id admitted_sample)"
    "\<not> conf_scope_differs ?conf ''workspace_id'' (ar_workspace_id admitted_sample)" by (simp_all add: conf_scope_absent)
  have scope: "run_scope (PStr (ar_tenant_id admitted_sample)) (PStr (ar_workspace_id admitted_sample)) =
      Inr (ar_tenant_id admitted_sample, ar_workspace_id admitted_sample)"
    "run_cartridge (PStr ''crm'') = Inr (ar_cartridge_id admitted_sample)" by code_simp+
  have "admit_run sample_world (PDict ?conf) (PStr ''crm'') (run_sample\<lparr>dr_run_id := ''other''\<rparr>) None =
      Inr (admitted_sample\<lparr>ar_principal := ''console''\<rparr>)"
    unfolding delegated_authority_admits [OF minted refl refl sample_digests(1) conf scope] by code_simp
  with minted show ?thesis using that by blast
qed

theorem delegated_authority_keeps_scope_witness:
  "\<exists>conf r. admit_run sample_world conf (PStr ''crm'') (run_sample\<lparr>dr_run_id := ''other''\<rparr>) None = Inr r \<and>
    ar_cartridge_id r = ''crm'' \<and> ar_tenant_id r = uuid_sample"
proof -
  obtain issued where first: "admit_run sample_world (PDict (pdict_of [(''security_context'', PDict issued)])) (PStr ''crm'')
      run_sample None = Inr admitted_sample" by (rule sample_run_admitted)
  obtain ctx where second: "run_context sample_world admitted_sample (PStr ''console'') None = Inr ctx"
    "admit_run sample_world (PDict (pdict_of [(''security_context'', PDict ctx)])) (PStr ''crm'') (run_sample\<lparr>dr_run_id := ''other''\<rparr>)
       None = Inr (admitted_sample\<lparr>ar_principal := ''console''\<rparr>)" by (rule sample_delegated)
  have "dget (pdict_of [(''security_context'', PDict ctx)]) ''security_context'' = PDict ctx" by simp
  from delegated_authority_keeps_scope [OF first second(1,2) this] second(2) show ?thesis
    by (metis admitted_run.select_convs(1,2) admitted_sample_def)
qed

end
