(* ===== verification/Schedule_Window.thy ===== *)
theory Schedule_Window
  imports Py_Base
begin

text \<open>
  When a scheduled entity is due: \<open>airflow/dags/entity_scheduler_window.py\<close>.

  An instant is a number of microseconds since the epoch in UTC. A time zone gives for each instant the
  wall clock, in microseconds since the epoch as if it were UTC, and the \<open>fold\<close> flag of Python's datetimes,
  which marks the second occurrence of a wall time when clocks are set back. The zone data base and the
  package \<open>croniter\<close> are parameters (\<open>cron_env\<close>); \<open>None\<close> stands for an exception.

  The theorems: the search returns the first minute of the window that fires; and for plain expressions no
  wall time that matches is ever lost, whatever the zone does to its clocks: one of the consecutive windows
  of the scheduler fires for it.
\<close>

section \<open>Times\<close>

type_synonym zone = "int \<Rightarrow> int \<times> bool"

definition MINUTE :: int where "MINUTE = 60000000"

definition moment_utc :: "int \<times> int option \<Rightarrow> int" where
  \<comment> \<open>\<open>_utc\<close>: a naive datetime counts as UTC, an offset is in seconds\<close>
  "moment_utc moment = (case moment of (t, z) \<Rightarrow> case z of None \<Rightarrow> t | Some off \<Rightarrow> t - off * 1000000)"

definition wall_minute :: "int \<Rightarrow> int" where "wall_minute wall = wall div MINUTE mod 60"
definition wall_hour :: "int \<Rightarrow> int" where "wall_hour wall = wall div (60 * MINUTE) mod 24"

definition wall_day :: "int \<Rightarrow> int" where
  "wall_day wall = (case civil_from_days (wall div (1440 * MINUTE)) of (y, m, d) \<Rightarrow> d)"

definition wall_month :: "int \<Rightarrow> int" where
  "wall_month wall = (case civil_from_days (wall div (1440 * MINUTE)) of (y, m, d) \<Rightarrow> m)"

definition wall_weekday :: "int \<Rightarrow> int" where
  \<comment> \<open>\<open>isoweekday() % 7\<close>; the epoch is a Thursday\<close>
  "wall_weekday wall = (wall div (1440 * MINUTE) + 4) mod 7"

section \<open>Cron expressions\<close>

datatype cron_entry = Star | At int | Special string

record cron_env =
  ce_expand :: "string \<Rightarrow> (cron_entry list list \<times> bool) option"
  ce_match :: "string \<Rightarrow> zone \<Rightarrow> int \<Rightarrow> bool option"
  ce_is_valid :: "string \<Rightarrow> bool option"
  ce_zone :: "string \<Rightarrow> zone option"

definition zone_of :: "cron_env \<Rightarrow> pv \<Rightarrow> zone option" where
  "zone_of env tz_name = ce_zone env (str_or tz_name ''UTC'')"

definition plain_entry :: "cron_entry \<Rightarrow> bool" where
  "plain_entry entry = (case entry of Special _ \<Rightarrow> False | _ \<Rightarrow> True)"

definition cron_fields :: "cron_env \<Rightarrow> string \<Rightarrow> (cron_entry list list \<times> bool) option" where
  "cron_fields env expression =
     (case ce_expand env expression of
        None \<Rightarrow> None
      | Some (expanded, nth_weekday) \<Rightarrow>
          if length expanded \<noteq> 5 then None
          else Some (expanded, \<not> nth_weekday \<and> list_all (list_all plain_entry) expanded))"

definition has_entry :: "cron_entry list \<Rightarrow> int \<Rightarrow> bool" where
  "has_entry field v \<longleftrightarrow> Star \<in> set field \<or> At v \<in> set field"

definition wall_matches :: "cron_entry list list \<Rightarrow> int \<Rightarrow> bool" where
  "wall_matches cols wall =
     (case cols of
        [minutes, hours, days, months, dows] \<Rightarrow>
          if \<not> (has_entry minutes (wall_minute wall) \<and> has_entry hours (wall_hour wall) \<and>
                has_entry months (wall_month wall))
          then False
          else
            let day_ok = has_entry days (wall_day wall); dow_ok = has_entry dows (wall_weekday wall)
            in if Star \<in> set days \<or> Star \<in> set dows then day_ok \<and> dow_ok else day_ok \<or> dow_ok
      | _ \<Rightarrow> False)"

definition fold_skips :: "cron_entry list list \<Rightarrow> int \<times> bool \<Rightarrow> bool" where
  "fold_skips cols local \<longleftrightarrow> snd local \<and> Star \<notin> set (cols ! 0) \<and> Star \<notin> set (cols ! 1)"

function skipped_match :: "cron_entry list list \<Rightarrow> int \<Rightarrow> int \<Rightarrow> bool" where
  \<comment> \<open>the loop of \<open>_gap_backfill_matches\<close>\<close>
  "skipped_match cols wall end_wall =
     (if wall < end_wall
      then wall_matches cols wall \<or> skipped_match cols (wall + MINUTE) end_wall
      else False)"
  by pat_completeness auto
termination
  by (relation "measure (\<lambda>(cols, wall, end_wall). nat (end_wall - wall))") (auto simp: MINUTE_def)

declare skipped_match.simps [simp del]

definition gap_backfill_matches :: "cron_entry list list \<Rightarrow> int \<Rightarrow> zone \<Rightarrow> bool" where
  "gap_backfill_matches cols mark zone =
     (let end_wall = fst (zone mark); wall = fst (zone (mark - MINUTE)) + MINUTE in
      if end_wall - wall \<le> 0 then False else skipped_match cols wall end_wall)"

section \<open>The search\<close>

definition fires :: "cron_env \<Rightarrow> string \<Rightarrow> zone \<Rightarrow> cron_entry list list \<Rightarrow> bool \<Rightarrow> int \<Rightarrow> bool option" where
  "fires env expression zone cols plain mark =
     (if plain
      then Some (\<not> fold_skips cols (zone mark) \<and> wall_matches cols (fst (zone mark)) \<or>
                 gap_backfill_matches cols mark zone)
      else ce_match env expression zone mark)"

function first_fire :: "(int \<Rightarrow> bool option) \<Rightarrow> int \<Rightarrow> int \<Rightarrow> int option" where
  "first_fire fire mark stop =
     (if mark < stop
      then case fire mark of
          None \<Rightarrow> None
        | Some hit \<Rightarrow> if hit then Some mark else first_fire fire (mark + MINUTE) stop
      else None)"
  by pat_completeness auto
termination
  by (relation "measure (\<lambda>(fire, mark, stop). nat (stop - mark))") (auto simp: MINUTE_def)

declare first_fire.simps [simp del]

definition first_mark :: "int \<Rightarrow> int" where
  \<comment> \<open>the first whole minute that is not before the start\<close>
  "first_mark start =
     (let mark = start - start mod MINUTE in if mark < start then mark + MINUTE else mark)"

definition fire_in_window :: "cron_env \<Rightarrow> pv \<Rightarrow> pv \<Rightarrow> int \<times> int option \<Rightarrow> int \<times> int option \<Rightarrow> int option" where
  "fire_in_window env cron_expr tz_name window_start window_end =
     (let expression = strip (str_or cron_expr []) in
      if expression = [] then None
      else (case zone_of env tz_name of
          None \<Rightarrow> None
        | Some zone \<Rightarrow> (case cron_fields env expression of
            None \<Rightarrow> None
          | Some (cols, plain) \<Rightarrow>
              first_fire (fires env expression zone cols plain) (first_mark (moment_utc window_start)) (moment_utc window_end))))"

definition schedule_is_valid :: "cron_env \<Rightarrow> pv \<Rightarrow> pv \<Rightarrow> bool" where
  "schedule_is_valid env cron_expr tz_name =
     (let expression = strip (str_or cron_expr []) in
      zone_of env tz_name \<noteq> None \<and> expression \<noteq> [] \<and> ce_is_valid env expression = Some True \<and>
      (case ce_expand env expression of None \<Rightarrow> False | Some (expanded, _) \<Rightarrow> length expanded = 5))"

section \<open>The first minute of a window\<close>

lemma minute_steps:
  "a \<le> k \<and> (k - a) mod MINUTE = 0 \<longleftrightarrow> k = a \<or> (a + MINUTE \<le> k \<and> (k - (a + MINUTE)) mod MINUTE = 0)"
proof -
  have same: "(k - (a + MINUTE)) mod MINUTE = (k - a) mod MINUTE"
    using minus_mod_self2 [of "k - a" MINUTE] by (simp add: algebra_simps)
  have "a + MINUTE \<le> k" if h: "a \<le> k" "k \<noteq> a" "(k - a) mod MINUTE = 0"
  proof -
    obtain j where j: "k - a = MINUTE * j" using h(3) by auto
    with h(1,2) have "0 < j" by (auto simp: MINUTE_def zero_less_mult_iff)
    then have "MINUTE * 1 \<le> MINUTE * j" by (intro mult_left_mono) (simp_all add: MINUTE_def)
    then show ?thesis using j by simp
  qed
  then show ?thesis using same by (auto simp: MINUTE_def)
qed

lemma minute_diff: "a mod MINUTE = 0 \<Longrightarrow> (k - a) mod MINUTE = 0 \<longleftrightarrow> k mod MINUTE = 0"
  by (metis diff_zero mod_diff_right_eq)

lemma first_fire_iff:
  assumes "mark mod MINUTE = 0"
  shows "first_fire fire mark stop = Some m \<longleftrightarrow>
    mark \<le> m \<and> m < stop \<and> m mod MINUTE = 0 \<and> fire m = Some True \<and>
    (\<forall>k. mark \<le> k \<longrightarrow> k < m \<longrightarrow> k mod MINUTE = 0 \<longrightarrow> fire k = Some False)"
  using assms
proof (induction fire mark stop rule: first_fire.induct)
  case (1 fire mark stop)
  have step: "(mark + MINUTE) mod MINUTE = 0" using 1(2) by simp
  have reach: "mark \<le> k \<longleftrightarrow> k = mark \<or> mark + MINUTE \<le> k" if "k mod MINUTE = 0" for k
    using minute_steps [of mark k] minute_diff [OF 1(2), of k] minute_diff [OF step, of k] that by auto
  show ?case
  proof (cases "mark < stop \<and> fire mark = Some False")
    case True
    then have eq: "first_fire fire mark stop = first_fire fire (mark + MINUTE) stop"
      by (subst first_fire.simps) simp
    have IH: "first_fire fire (mark + MINUTE) stop = Some m \<longleftrightarrow>
        mark + MINUTE \<le> m \<and> m < stop \<and> m mod MINUTE = 0 \<and> fire m = Some True \<and>
        (\<forall>k. mark + MINUTE \<le> k \<longrightarrow> k < m \<longrightarrow> k mod MINUTE = 0 \<longrightarrow> fire k = Some False)"
      by (rule 1(1) [of False]) (use True step in simp_all)
    show ?thesis
    proof (cases "m mod MINUTE = 0 \<and> fire m = Some True")
      case m: True
      then have "m \<noteq> mark" using True by auto
      then have "mark \<le> m \<longleftrightarrow> mark + MINUTE \<le> m" using reach [of m] m by simp
      moreover have "(\<forall>k. mark \<le> k \<longrightarrow> k < m \<longrightarrow> k mod MINUTE = 0 \<longrightarrow> fire k = Some False) \<longleftrightarrow>
          (\<forall>k. mark + MINUTE \<le> k \<longrightarrow> k < m \<longrightarrow> k mod MINUTE = 0 \<longrightarrow> fire k = Some False)"
      proof (intro iffI allI impI)
        fix k assume all: "\<forall>k\<ge>mark. k < m \<longrightarrow> k mod MINUTE = 0 \<longrightarrow> fire k = Some False"
          and k: "mark + MINUTE \<le> k" "k < m" "k mod MINUTE = 0"
        from reach [OF k(3)] k(1) have "mark \<le> k" by simp
        with all k(2,3) show "fire k = Some False" by simp
      next
        fix k assume all: "\<forall>k\<ge>mark + MINUTE. k < m \<longrightarrow> k mod MINUTE = 0 \<longrightarrow> fire k = Some False"
          and k: "mark \<le> k" "k < m" "k mod MINUTE = 0"
        from reach [OF k(3)] k(1) have "k = mark \<or> mark + MINUTE \<le> k" by simp
        with all True k(2,3) show "fire k = Some False" by auto
      qed
      ultimately show ?thesis unfolding eq IH by simp
    next
      case False
      then show ?thesis unfolding eq IH by auto
    qed
  next
    case False
    have eq: "first_fire fire mark stop = Some m \<longleftrightarrow> m = mark \<and> mark < stop \<and> fire mark = Some True"
      using False by (subst first_fire.simps) (auto split: option.splits)
    have "m = mark" if "mark \<le> m" "m < stop" "\<forall>k. mark \<le> k \<longrightarrow> k < m \<longrightarrow> k mod MINUTE = 0 \<longrightarrow> fire k = Some False"
    proof (rule ccontr)
      assume "m \<noteq> mark"
      with that have "mark < stop" "fire mark = Some False" using 1(2) by simp_all
      with False show "False" by simp
    qed
    then show ?thesis unfolding eq using 1(2) by auto
  qed
qed

lemma first_fire_finds:
  assumes "\<forall>k. fire k \<noteq> None" "mark mod MINUTE = 0" "mark \<le> m" "m < stop" "m mod MINUTE = 0" "fire m = Some True"
  shows "\<exists>f. first_fire fire mark stop = Some f \<and> mark \<le> f \<and> f \<le> m"
  using assms
proof (induction fire mark stop rule: first_fire.induct)
  case (1 fire mark stop)
  obtain hit where hit: "fire mark = Some hit" using 1(2) by fastforce
  show ?case
  proof (cases hit)
    case True
    then show ?thesis using 1(4,5) hit by (subst first_fire.simps) simp
  next
    case False
    then have "m \<noteq> mark" using 1(7) hit by auto
    moreover have "(m - mark) mod MINUTE = 0" using minute_diff [OF 1(3)] 1(6) by simp
    ultimately have next_mark: "mark + MINUTE \<le> m" using minute_steps [of mark m] 1(4) by simp
    have "\<exists>f. first_fire fire (mark + MINUTE) stop = Some f \<and> mark + MINUTE \<le> f \<and> f \<le> m"
      by (rule 1(1) [of False]) (use 1 hit False next_mark in simp_all)
    moreover have "first_fire fire mark stop = first_fire fire (mark + MINUTE) stop"
      using 1(4,5) hit False by (subst first_fire.simps) simp
    ultimately show ?thesis by (auto simp: MINUTE_def)
  qed
qed

lemma first_mark_props:
  "first_mark start mod MINUTE = 0 \<and> (m mod MINUTE = 0 \<longrightarrow> (first_mark start \<le> m \<longleftrightarrow> start \<le> m))"
proof -
  define q where "q = start div MINUTE"
  define r where "r = start mod MINUTE"
  have start: "start = MINUTE * q + r" "0 \<le> r" "r < MINUTE"
    by (simp_all add: q_def r_def MINUTE_def)
  have mark: "first_mark start = (if r = 0 then MINUTE * q else MINUTE * (q + 1))"
    using start by (auto simp: first_mark_def Let_def r_def [symmetric] algebra_simps)
  moreover have "first_mark start \<le> m \<longleftrightarrow> start \<le> m" if m: "m mod MINUTE = 0"
  proof -
    obtain j where j: "m = MINUTE * j" using m by auto
    have "q + 1 \<le> j \<longleftrightarrow> MINUTE * q + r \<le> MINUTE * j" if "r \<noteq> 0"
      using start(2,3) that by (auto simp: MINUTE_def)
    then show ?thesis using mark start(1) j by (auto simp: MINUTE_def)
  qed
  ultimately show ?thesis by simp
qed

text \<open>
  the search of a window returns exactly the first whole minute in it that fires: none is skipped, none
  before the start or from the end on is returned, and nothing is returned past a minute the cron package
  cannot judge. An expression or a time zone that cannot be read never fires.
\<close>

theorem fire_is_the_first_minute:
  "fire_in_window env cron_expr tz_name window_start window_end = Some m \<longleftrightarrow>
    (\<exists>zone cols plain. strip (str_or cron_expr []) \<noteq> [] \<and> zone_of env tz_name = Some zone \<and>
       cron_fields env (strip (str_or cron_expr [])) = Some (cols, plain) \<and>
       moment_utc window_start \<le> m \<and> m < moment_utc window_end \<and> m mod MINUTE = 0 \<and>
       fires env (strip (str_or cron_expr [])) zone cols plain m = Some True \<and>
       (\<forall>k. moment_utc window_start \<le> k \<longrightarrow> k < m \<longrightarrow> k mod MINUTE = 0 \<longrightarrow>
         fires env (strip (str_or cron_expr [])) zone cols plain k = Some False))"
proof -
  have "first_fire fire (first_mark start) stop = Some m \<longleftrightarrow>
      start \<le> m \<and> m < stop \<and> m mod MINUTE = 0 \<and> fire m = Some True \<and>
      (\<forall>k. start \<le> k \<longrightarrow> k < m \<longrightarrow> k mod MINUTE = 0 \<longrightarrow> fire k = Some False)" for fire start stop
    using first_mark_props [of start] by (subst first_fire_iff) auto
  then show ?thesis
    by (auto simp: fire_in_window_def Let_def split: option.splits)
qed

section \<open>No scheduled time is lost\<close>

lemma skipped_match_iff:
  "skipped_match cols wall stop \<longleftrightarrow> (\<exists>k. wall \<le> k \<and> k < stop \<and> (k - wall) mod MINUTE = 0 \<and> wall_matches cols k)"
proof (induction cols wall stop rule: skipped_match.induct)
  case (1 cols wall stop)
  show ?case
  proof (cases "wall < stop")
    case True
    have "skipped_match cols wall stop \<longleftrightarrow> wall_matches cols wall \<or> skipped_match cols (wall + MINUTE) stop"
      using True by (subst skipped_match.simps) simp
    moreover have "skipped_match cols (wall + MINUTE) stop \<longleftrightarrow>
        (\<exists>k. wall + MINUTE \<le> k \<and> k < stop \<and> (k - (wall + MINUTE)) mod MINUTE = 0 \<and> wall_matches cols k)"
      if "\<not> wall_matches cols wall" by (rule 1) (use True that in simp_all)
    moreover have "(\<exists>k. wall \<le> k \<and> k < stop \<and> (k - wall) mod MINUTE = 0 \<and> wall_matches cols k) \<longleftrightarrow>
        (\<exists>k. (k = wall \<or> (wall + MINUTE \<le> k \<and> (k - (wall + MINUTE)) mod MINUTE = 0)) \<and> k < stop \<and> wall_matches cols k)"
      unfolding minute_steps [symmetric] by (simp only: conj_assoc conj_left_commute)
    moreover have "(\<exists>k. (k = wall \<or> R k) \<and> k < stop \<and> wall_matches cols k) \<longleftrightarrow>
        wall_matches cols wall \<or> (\<exists>k. R k \<and> k < stop \<and> wall_matches cols k)" for R
      using True by (simp add: conj_disj_distribR ex_disj_distrib)
    ultimately show ?thesis by (cases "wall_matches cols wall") (simp_all only: conj_assoc conj_left_commute simp_thms)
  qed (subst skipped_match.simps, auto)
qed

definition keeps_clock :: "zone \<Rightarrow> int \<Rightarrow> int \<Rightarrow> bool" where
  \<comment> \<open>from one instant to another, offsets are whole minutes, and \<open>fold\<close> marks a wall time that was shown before\<close>
  "keeps_clock zone from until \<longleftrightarrow>
     (\<forall>t. from \<le> t \<and> t \<le> until \<longrightarrow> (fst (zone t) - t) mod MINUTE = 0 \<and>
        (snd (zone t) \<longrightarrow> (\<exists>t' < t. t' mod MINUTE = t mod MINUTE \<and> fst (zone t') = fst (zone t))))"

lemma aligned_wall:
  assumes "keeps_clock zone from until" "from \<le> t" "t \<le> until" "t mod MINUTE = 0"
  shows "fst (zone t) mod MINUTE = 0"
proof -
  have "MINUTE dvd fst (zone t) - t" "MINUTE dvd t" using assms by (auto simp: keeps_clock_def)
  then have "MINUTE dvd fst (zone t) - t + t" by (rule dvd_add)
  then show ?thesis by simp
qed

text \<open>The first minute at which the clock shows a time that is not before \<open>wall\<close>.\<close>

lemma first_reached:
  fixes zone :: zone
  assumes "from mod MINUTE = 0" "fst (zone from) < wall" "until mod MINUTE = 0" "from \<le> until" "wall \<le> fst (zone until)"
  obtains m where "from < m" "m \<le> until" "m mod MINUTE = 0" "wall \<le> fst (zone m)"
    "\<And>k. from \<le> k \<Longrightarrow> k < m \<Longrightarrow> k mod MINUTE = 0 \<Longrightarrow> fst (zone k) < wall"
proof -
  define n where "n = (LEAST n. wall \<le> fst (zone (from + int n * MINUTE)))"
  obtain j where j: "until = from + int j * MINUTE"
  proof -
    have "(until - from) mod MINUTE = 0" using assms(1,3) by (simp add: mod_diff_eq [symmetric])
    then obtain i where i: "until - from = MINUTE * i" by auto
    with assms(4) have "0 \<le> i" by (simp add: MINUTE_def)
    then show ?thesis using i that [of "nat i"] by (simp add: algebra_simps)
  qed
  have reached: "wall \<le> fst (zone (from + int n * MINUTE))"
    unfolding n_def by (rule LeastI [of _ j]) (use assms(5) j in simp)
  have before: "fst (zone (from + int i * MINUTE)) < wall" if "i < n" for i
    using not_less_Least [of i "\<lambda>n. wall \<le> fst (zone (from + int n * MINUTE))"] that by (simp add: n_def not_le)
  have "n \<le> j" unfolding n_def by (rule Least_le) (use assms(5) j in simp)
  have "n \<noteq> 0" using reached assms(2) by (cases n) auto
  show ?thesis
  proof (rule that [of "from + int n * MINUTE"])
    show "from < from + int n * MINUTE" using \<open>n \<noteq> 0\<close> by (simp add: MINUTE_def)
    show "from + int n * MINUTE \<le> until" using \<open>n \<le> j\<close> j by (simp add: MINUTE_def)
    show "(from + int n * MINUTE) mod MINUTE = 0" using assms(1) by simp
    show "wall \<le> fst (zone (from + int n * MINUTE))" by (rule reached)
    fix k assume k: "from \<le> k" "k < from + int n * MINUTE" "k mod MINUTE = 0"
    have "(k - from) mod MINUTE = 0" using assms(1) k(3) by (simp add: mod_diff_eq [symmetric])
    then obtain i where i: "k - from = MINUTE * i" by auto
    with k(1,2) have "0 \<le> i" "i < int n" by (auto simp: MINUTE_def)
    then have "fst (zone (from + int (nat i) * MINUTE)) < wall" by (intro before) simp
    then show "fst (zone k) < wall" using i \<open>0 \<le> i\<close> by (simp add: algebra_simps)
  qed
qed

text \<open>A minute serves a wall time when it shows it for the first time, or when clocks jumped over it.\<close>

definition serves :: "zone \<Rightarrow> int \<Rightarrow> int \<Rightarrow> bool" where
  "serves zone mark wall \<longleftrightarrow> fst (zone (mark - MINUTE)) < wall \<and> wall \<le> fst (zone mark)"

lemma serving_minute_fires:
  assumes clock: "keeps_clock zone from until" and wall: "wall mod MINUTE = 0" "wall_matches cols wall"
    and m: "m mod MINUTE = 0" "serves zone m wall" "from + MINUTE \<le> m" "m \<le> until"
    and first: "\<And>t. t < m \<Longrightarrow> t mod MINUTE = 0 \<Longrightarrow> fst (zone t) < wall"
  shows "fires env expression zone cols True m = Some True"
proof (cases "fst (zone m) = wall")
  case True
  have "\<not> snd (zone m)"
  proof
    assume "snd (zone m)"
    moreover have "from \<le> m" using m(3) by (simp add: MINUTE_def)
    ultimately obtain t where "t < m" "t mod MINUTE = m mod MINUTE" "fst (zone t) = fst (zone m)"
      using clock m(4) by (auto simp: keeps_clock_def)
    with first [of t] m(1) True show "False" by simp
  qed
  then show ?thesis using True wall(2) by (simp add: fires_def fold_skips_def)
next
  case False
  let ?prev = "fst (zone (m - MINUTE))"
  have "(m - MINUTE) mod MINUTE = 0" using m(1) by (simp add: minus_mod_self2)
  moreover have "from \<le> m - MINUTE" "m - MINUTE \<le> until" using m(3,4) by (simp_all add: MINUTE_def)
  ultimately have prev: "?prev mod MINUTE = 0" by (intro aligned_wall [OF clock])
  have "(wall - ?prev) mod MINUTE = 0" using minute_diff [OF prev] wall(1) by simp
  then have "?prev + MINUTE \<le> wall" "(wall - (?prev + MINUTE)) mod MINUTE = 0"
    using minute_steps [of ?prev wall] m(2) by (auto simp: serves_def)
  moreover have "wall < fst (zone m)" using m(2) False by (simp add: serves_def)
  ultimately have "gap_backfill_matches cols m zone"
    using wall(2) by (auto simp: gap_backfill_matches_def skipped_match_iff Let_def)
  then show ?thesis by (simp add: fires_def)
qed

definition SCHEDULER_INTERVAL :: int where "SCHEDULER_INTERVAL = 5 * MINUTE"

text \<open>
  C18: no scheduled time is lost while the zone keeps whole-minute offsets. Take a plain cron expression, a wall
  time that it matches, and a zone whose offsets are whole minutes from the start of the scheduler until the later
  time below, with clocks set forward or back as often as it likes; before and after, the zone may do what it likes,
  as zones do whose old local mean time was off by seconds. When the wall time was not
  reached before the scheduler starts and is reached at some later time, then one of the consecutive
  windows of the scheduler fires, at or before the first minute that shows the wall time or whose clock
  change jumped over it; that minute lies in the same window.
\<close>

theorem no_scheduled_time_is_lost:
  assumes env: "strip (str_or cron_expr []) \<noteq> []" "zone_of env tz_name = Some zone"
      "cron_fields env (strip (str_or cron_expr [])) = Some (cols, True)"
    and clock: "keeps_clock zone start until" and wall: "wall mod MINUTE = 0" "wall_matches cols wall"
    and start: "start mod MINUTE = 0" "\<And>t. t \<le> start \<Longrightarrow> t mod MINUTE = 0 \<Longrightarrow> fst (zone t) < wall"
    and later: "until mod MINUTE = 0" "start \<le> until" "wall \<le> fst (zone until)"
  shows "\<exists>n m fire. 0 \<le> n \<and> start \<le> fire \<and> fire \<le> m \<and> m \<le> until \<and> serves zone m wall \<and>
    start + n * SCHEDULER_INTERVAL \<le> m \<and> m < start + (n + 1) * SCHEDULER_INTERVAL \<and>
    fire_in_window env cron_expr tz_name (start + n * SCHEDULER_INTERVAL, None)
      (start + (n + 1) * SCHEDULER_INTERVAL, None) = Some fire"
proof -
  have "fst (zone start) < wall" using start by simp
  then obtain m where m: "start < m" "m \<le> until" "m mod MINUTE = 0" "wall \<le> fst (zone m)"
    and before: "\<And>k. start \<le> k \<Longrightarrow> k < m \<Longrightarrow> k mod MINUTE = 0 \<Longrightarrow> fst (zone k) < wall"
    using first_reached [of start zone wall until, OF start(1) \<open>fst (zone start) < wall\<close> later(1,2,3)] by blast
  have first: "fst (zone t) < wall" if "t < m" "t mod MINUTE = 0" for t
    using before [of t] start(2) [of t] that by (cases "t \<le> start") simp_all
  have "(m - MINUTE) mod MINUTE = 0" using m(3) by (simp add: minus_mod_self2)
  then have serves: "serves zone m wall" using first [of "m - MINUTE"] m(4) by (simp add: serves_def MINUTE_def)
  define n where "n = (m - start) div SCHEDULER_INTERVAL"
  have n: "0 \<le> n" "start + n * SCHEDULER_INTERVAL \<le> m" "m < start + (n + 1) * SCHEDULER_INTERVAL"
  proof -
    define r where "r = (m - start) mod SCHEDULER_INTERVAL"
    have "n * SCHEDULER_INTERVAL + r = m - start" unfolding n_def r_def by (rule div_mult_mod_eq)
    moreover have "0 \<le> r" "r < SCHEDULER_INTERVAL" by (simp_all add: r_def SCHEDULER_INTERVAL_def MINUTE_def)
    ultimately show "start + n * SCHEDULER_INTERVAL \<le> m" "m < start + (n + 1) * SCHEDULER_INTERVAL"
      by (simp_all only: distrib_right)
    show "0 \<le> n" using m(1) by (simp add: n_def SCHEDULER_INTERVAL_def MINUTE_def pos_imp_zdiv_nonneg_iff)
  qed
  have fires: "fires env (strip (str_or cron_expr [])) zone cols True m = Some True"
  proof (rule serving_minute_fires [OF clock wall m(3) serves _ m(2)])
    show "start + MINUTE \<le> m" using minute_steps [of start m] minute_diff [OF start(1), of m] m(1,3) by simp
  qed (rule first)
  have window: "fire_in_window env cron_expr tz_name (start + n * SCHEDULER_INTERVAL, None)
      (start + (n + 1) * SCHEDULER_INTERVAL, None) =
    first_fire (fires env (strip (str_or cron_expr [])) zone cols True)
      (first_mark (start + n * SCHEDULER_INTERVAL)) (start + (n + 1) * SCHEDULER_INTERVAL)"
    using env by (simp add: fire_in_window_def moment_utc_def Let_def)
  have mark: "first_mark (start + n * SCHEDULER_INTERVAL) mod MINUTE = 0"
      "first_mark (start + n * SCHEDULER_INTERVAL) \<le> m" "start \<le> first_mark (start + n * SCHEDULER_INTERVAL)"
    using first_mark_props [of "start + n * SCHEDULER_INTERVAL" m]
      first_mark_props [of "start + n * SCHEDULER_INTERVAL" "first_mark (start + n * SCHEDULER_INTERVAL)"] m(3) n(1,2)
    by (auto simp: SCHEDULER_INTERVAL_def MINUTE_def)
  have "\<forall>k. fires env (strip (str_or cron_expr [])) zone cols True k \<noteq> None" by (simp add: fires_def)
  from first_fire_finds [OF this mark(1,2) n(3) m(3) fires] obtain fire where
    "fire_in_window env cron_expr tz_name (start + n * SCHEDULER_INTERVAL, None)
      (start + (n + 1) * SCHEDULER_INTERVAL, None) = Some fire" "start \<le> fire" "fire \<le> m"
    using window mark(3) by auto
  then show ?thesis using n m(2) serves by blast
qed

section \<open>Witnesses\<close>

text \<open>
  A zone that sets its clock forward by an hour after 100 minutes and back after 200. Before the epoch it
  kept a local mean time that was off by 4 h 56 min 2 s, as New York did.
\<close>

definition zone_sample :: zone where
  "zone_sample t =
     (if t < 0 then (t - 17762000000, False)
      else if t < 100 * MINUTE then (t, False)
      else if t < 200 * MINUTE then (t + 60 * MINUTE, False)
      else (t, t < 260 * MINUTE))"

definition cols_sample :: "cron_entry list list" where
  "cols_sample = [[At 30], [At 2], [Star], [Star], [Star]]"

definition cron_sample :: cron_env where
  "cron_sample = \<lparr>ce_expand = (\<lambda>e. Some (cols_sample, False)), ce_match = (\<lambda>e z t. None),
    ce_is_valid = (\<lambda>e. Some True), ce_zone = (\<lambda>n. Some zone_sample)\<rparr>"

lemma zone_sample_keeps_clock: "keeps_clock zone_sample (50 * MINUTE) (300 * MINUTE)"
proof -
  have "\<exists>t' < t. t' mod MINUTE = t mod MINUTE \<and> fst (zone_sample t') = fst (zone_sample t)" if "snd (zone_sample t)" for t
  proof (intro exI conjI)
    have t: "200 * MINUTE \<le> t" "t < 260 * MINUTE" using that by (auto simp: zone_sample_def split: if_splits)
    show "t - 60 * MINUTE < t" by (simp add: MINUTE_def)
    show "(t - 60 * MINUTE) mod MINUTE = t mod MINUTE" by (metis diff_zero mod_diff_right_eq mod_mult_self2_is_0)
    show "fst (zone_sample (t - 60 * MINUTE)) = fst (zone_sample t)" using t by (simp add: zone_sample_def MINUTE_def)
  qed
  moreover have "(fst (zone_sample t) - t) mod MINUTE = 0" if "50 * MINUTE \<le> t" for t
    using that by (simp add: zone_sample_def MINUTE_def)
  ultimately show ?thesis by (simp add: keeps_clock_def)
qed

lemma cron_sample_reads:
  "strip (str_or (PStr ''30 2 * * *'') []) = ''30 2 * * *''" "zone_of cron_sample PNone = Some zone_sample"
  "cron_fields cron_sample ''30 2 * * *'' = Some (cols_sample, True)"
  "wall_matches cols_sample (150 * MINUTE)"
proof -
  show "strip (str_or (PStr ''30 2 * * *'') []) = ''30 2 * * *''" "wall_matches cols_sample (150 * MINUTE)" by code_simp+
  show "zone_of cron_sample PNone = Some zone_sample" by (simp add: zone_of_def cron_sample_def)
  show "cron_fields cron_sample ''30 2 * * *'' = Some (cols_sample, True)"
    by (simp add: cron_fields_def cron_sample_def cols_sample_def plain_entry_def)
qed

theorem fire_is_the_first_minute_witness:
  "fire_in_window cron_sample (PStr ''30 2 * * *'') PNone (100 * MINUTE, None) (105 * MINUTE, None) = Some (100 * MINUTE) \<and>
   fires cron_sample ''30 2 * * *'' zone_sample cols_sample True (100 * MINUTE) = Some True"
proof -
  have "fire_in_window cron_sample (PStr ''30 2 * * *'') PNone (100 * MINUTE, None) (105 * MINUTE, None) = Some (100 * MINUTE)"
    by code_simp
  with this [unfolded fire_is_the_first_minute] show ?thesis using cron_sample_reads by auto
qed

theorem no_scheduled_time_is_lost_witness:
  "\<exists>n fire. 0 \<le> n \<and> fire_in_window cron_sample (PStr ''30 2 * * *'') PNone
    (50 * MINUTE + n * SCHEDULER_INTERVAL, None) (50 * MINUTE + (n + 1) * SCHEDULER_INTERVAL, None) = Some fire"
proof -
  have start: "(50 * MINUTE) mod MINUTE = 0" "(300 * MINUTE) mod MINUTE = 0" "(150 * MINUTE) mod MINUTE = 0" by simp_all
  have before: "fst (zone_sample t) < 150 * MINUTE" if "t \<le> 50 * MINUTE" "t mod MINUTE = 0" for t
    using that by (simp add: zone_sample_def MINUTE_def)
  have later: "50 * MINUTE \<le> 300 * MINUTE" "150 * MINUTE \<le> fst (zone_sample (300 * MINUTE))"
    by (simp_all add: zone_sample_def MINUTE_def)
  have "strip (str_or (PStr ''30 2 * * *'') []) \<noteq> []" using cron_sample_reads(1) by simp
  from no_scheduled_time_is_lost [OF this cron_sample_reads(2) _ zone_sample_keeps_clock start(3) cron_sample_reads(4)
      start(1) before start(2) later] cron_sample_reads(1,3)
  show ?thesis by auto
qed

end
