(* ===== verification/Entity_Schedule.thy ===== *)
theory Entity_Schedule
  imports Run_Admission Schedule_Window Refresh_Chain
begin

text \<open>
  The scheduler of the entities: \<open>airflow/dags/entity_scheduler.py\<close>, \<open>entity_scheduler_trigger.py\<close> and
  \<open>entity_scheduler_record.py\<close>.

  Every five minutes one task selects the entities that are due, the next one triggers a DAG run for each
  and records the time in \<open>entity_config\<close>, the last one reports to the registry. The tables
  \<open>entity_config\<close> and \<open>cartridge_dags\<close> are lists of rows in the order of the scan; requests to Airflow are
  a log; their answers, the outcome of the update and the clock of the signature are given per item
  (\<open>trigger_env\<close>). \<open>loads\<close> is \<open>json.loads\<close> (\<open>None\<close>: an error) and \<open>ts\<close> the cast to \<open>timestamptz\<close>.

  The theorems: the run authority of a scheduled run is admitted by the DAG it was signed for; the triggers
  are recorded one by one, and the task fails exactly when one was not; after a run of the task without
  failure the same window is due for nothing but the entities without a scope.
\<close>

section \<open>The tables\<close>

record entity_row =
  er_cartridge_id :: string
  er_entity :: string
  er_dag_id :: "string option"
  er_mode :: "string option"
  er_enabled :: "bool option"
  er_trigger_type :: "string option"
  er_cron_expression :: "string option"
  er_cron_timezone :: "string option"
  er_last_scheduled_at :: "int option"
  er_tenant_id :: "string option"
  er_workspace_id :: "string option"
  er_connection_id :: "string option"
  er_dag_params :: "pv option"

record dag_row =
  dg_cartridge_id :: string
  dg_dag_id :: string
  dg_dag_params_example :: "pv option"

definition entity_key :: "entity_row \<Rightarrow> string \<times> string" where
  \<comment> \<open>the primary key\<close>
  "entity_key row = (er_cartridge_id row, er_entity row)"

definition text_column :: "string option \<Rightarrow> pv" where
  "text_column v = (case v of None \<Rightarrow> PNone | Some s \<Rightarrow> PStr s)"

section \<open>What is due\<close>

definition dag_owner :: "dag_row list \<Rightarrow> entity_row \<Rightarrow> string" where
  \<comment> \<open>the cartridge of the joined row: the entity's own one, or \<open>platform\<close>\<close>
  "dag_owner dags row =
     (case filter (\<lambda>d. Some (dg_dag_id d) = er_dag_id row \<and> dg_cartridge_id d \<in> {er_cartridge_id row, ''platform''}) dags of
        [] \<Rightarrow> er_cartridge_id row
      | found \<Rightarrow> dg_cartridge_id (hd (sort_key (\<lambda>d. if dg_cartridge_id d = er_cartridge_id row then 0 else 1 :: nat) found)))"

definition joined_dags :: "dag_row list \<Rightarrow> entity_row \<Rightarrow> dag_row option list" where
  \<comment> \<open>the left join\<close>
  "joined_dags dags row =
     (case filter (\<lambda>d. Some (dg_dag_id d) = er_dag_id row \<and> dg_cartridge_id d = dag_owner dags row) dags of
        [] \<Rightarrow> [None]
      | found \<Rightarrow> map Some found)"

definition effective_params :: "entity_row \<Rightarrow> dag_row option \<Rightarrow> pv" where
  \<comment> \<open>the column \<open>dag_params\<close> of the query; \<open>'{}'::jsonb\<close> is the empty dictionary\<close>
  "effective_params row dag =
     (if er_dag_params row = None \<or> er_dag_params row = Some (PDict [])
      then (case dag of
          None \<Rightarrow> PDict []
        | Some d \<Rightarrow> (case dg_dag_params_example d of None \<Rightarrow> PDict [] | Some v \<Rightarrow> v))
      else (case er_dag_params row of None \<Rightarrow> PNone | Some v \<Rightarrow> v))"

definition scheduled_row :: "entity_row \<Rightarrow> bool" where
  \<comment> \<open>the conditions of the query\<close>
  "scheduled_row row \<longleftrightarrow> er_enabled row = Some True \<and> er_trigger_type row = Some ''scheduled'' \<and>
     er_cron_expression row \<noteq> None \<and> er_dag_id row \<noteq> None"

definition selected_rows :: "dag_row list \<Rightarrow> entity_row list \<Rightarrow> (entity_row \<times> pv) list" where
  "selected_rows dags table =
     concat (map (\<lambda>row. map (\<lambda>dag. (row, effective_params row dag)) (joined_dags dags row)) (filter scheduled_row table))"

record due_item =
  di_cartridge_id :: string
  di_entity :: string
  di_dag_id :: string
  di_mode :: string
  di_tenant_id :: pv
  di_workspace_id :: pv
  di_conn_id :: pv
  di_fire_time :: string
  di_dag_params :: pv

definition fire_of :: "cron_env \<Rightarrow> int \<times> int option \<Rightarrow> entity_row \<Rightarrow> int option" where
  "fire_of env logical_date row =
     fire_in_window env (text_column (er_cron_expression row))
       (PStr (case er_cron_timezone row of None \<Rightarrow> ''UTC'' | Some zone \<Rightarrow> zone))
       logical_date (fst logical_date + SCHEDULER_INTERVAL, snd logical_date)"

definition loaded_params :: "(string \<Rightarrow> pv option) \<Rightarrow> pv \<Rightarrow> pv" where
  "loaded_params loads dag_params =
     py_or (case dag_params of
         PStr text \<Rightarrow> (case loads text of None \<Rightarrow> PDict [] | Some v \<Rightarrow> v)
       | _ \<Rightarrow> dag_params) (PDict [])"

definition due_of :: "cron_env \<Rightarrow> (string \<Rightarrow> pv option) \<Rightarrow> int \<times> int option \<Rightarrow> entity_row \<times> pv \<Rightarrow> due_item option" where
  "due_of env loads logical_date selected = (case selected of (row, dag_params) \<Rightarrow>
     (case fire_of env logical_date row of
        None \<Rightarrow> None
      | Some fire \<Rightarrow>
          if (case er_last_scheduled_at row of None \<Rightarrow> False | Some last_at \<Rightarrow> fire \<le> last_at) then None
          else Some \<lparr>di_cartridge_id = er_cartridge_id row, di_entity = er_entity row,
            di_dag_id = (case er_dag_id row of None \<Rightarrow> [] | Some dag_id \<Rightarrow> dag_id),
            di_mode = str_or (text_column (er_mode row)) ''full'',
            di_tenant_id = text_column (er_tenant_id row), di_workspace_id = text_column (er_workspace_id row),
            di_conn_id = text_column (er_connection_id row), di_fire_time = isoformat fire (Some 0),
            di_dag_params = loaded_params loads dag_params\<rparr>))"

definition find_due_entities ::
    "cron_env \<Rightarrow> (string \<Rightarrow> pv option) \<Rightarrow> int \<times> int option \<Rightarrow> dag_row list \<Rightarrow> entity_row list \<Rightarrow> due_item list" where
  "find_due_entities env loads logical_date dags table =
     List.map_filter (due_of env loads logical_date) (selected_rows dags table)"

section \<open>Triggering a run\<close>

text \<open>
  What became of a request: a status code, one of the exceptions of \<open>requests\<close>, or another exception. The
  URL of the DAG is a quotation of its id, and the log keeps the id.
\<close>

datatype http_answer = Status int | RequestException | Unexpected mat_exc

datatype airflow_request = Unpause string | Trigger string string pdict

datatype trigger_error = ScopeMissing | AirflowTriggerError string "int option" | TriggerRaised mat_exc

record trigger_env =
  te_world :: world
  te_unpause :: http_answer
  te_trigger :: http_answer
  te_saved :: "mat_exc + unit"

definition checked_status :: "string \<Rightarrow> (int \<Rightarrow> bool) \<Rightarrow> http_answer \<Rightarrow> trigger_error + int" where
  "checked_status stage expected response =
     (case response of
        RequestException \<Rightarrow> Inl (AirflowTriggerError stage None)
      | Unexpected e \<Rightarrow> Inl (TriggerRaised e)
      | Status status \<Rightarrow> if expected status then Inr status else Inl (AirflowTriggerError stage (Some status)))"

definition trigger_dag_run ::
    "trigger_env \<Rightarrow> string \<Rightarrow> string \<Rightarrow> pdict \<Rightarrow> airflow_request list \<times> (trigger_error + int)" where
  "trigger_dag_run env dag_id run_id conf =
     (case checked_status ''unpause'' (\<lambda>status. status = 200) (te_unpause env) of
        Inl e \<Rightarrow> ([Unpause dag_id], Inl e)
      | Inr _ \<Rightarrow> ([Unpause dag_id, Trigger dag_id run_id conf],
          checked_status ''trigger'' (\<lambda>status. status \<in> {200, 201, 409}) (te_trigger env)))"

definition PLATFORM_CARTRIDGE :: string where "PLATFORM_CARTRIDGE = ''platform''"

definition item_scoped :: "due_item \<Rightarrow> bool" where
  "item_scoped it \<longleftrightarrow> truthy (di_tenant_id it) \<and> truthy (di_workspace_id it)"

definition scheduled_run_conf :: "world \<Rightarrow> due_item \<Rightarrow> string \<Rightarrow> trigger_error + pdict" where
  "scheduled_run_conf w it run_id =
     (let conf0 = dmerge (strip_reserved (di_dag_params it)) (pdict_of
            [(''entity'', PStr (di_entity it)), (''mode'', PStr (di_mode it)), (''cartridge_id'', PStr (di_cartridge_id it)),
             (''triggered_by'', PStr ''entity_scheduler'')]);
          conf1 = (if item_scoped it
            then dset (dset conf0 ''tenant_id'' (di_tenant_id it)) ''workspace_id'' (di_workspace_id it) else conf0);
          conf2 = (if truthy (di_conn_id it) then dset conf1 ''conn_id'' (di_conn_id it) else conf1)
      in if di_cartridge_id it = PLATFORM_CARTRIDGE then Inr conf2
         else if \<not> item_scoped it then Inl ScopeMissing
         else (case build_scheduled_run_context w (PStr (di_cartridge_id it)) (di_tenant_id it) (di_workspace_id it)
                 (PStr (di_dag_id it)) (PStr run_id) (PStr ''entity_scheduler'') of
             Inl e \<Rightarrow> Inl (TriggerRaised (PyExc e))
           | Inr ctx \<Rightarrow> Inr (dset conf2 ''security_context'' (PDict ctx))))"

definition schedule_run_id :: "due_item \<Rightarrow> string" where
  "schedule_run_id it =
     (let ts_id = map (\<lambda>c. if c = CHR ''+'' then CHR ''_'' else c)
            (filter (\<lambda>c. c \<noteq> CHR '':'' \<and> c \<noteq> CHR ''-'') (di_fire_time it))
      in ''sched_'' @ di_cartridge_id it @ ''_'' @ di_entity it @ ''_'' @ ts_id)"

definition record_fire :: "(string \<Rightarrow> int option) \<Rightarrow> due_item \<Rightarrow> entity_row list \<Rightarrow> mat_exc + entity_row list" where
  \<comment> \<open>the update of \<open>last_scheduled_at\<close>\<close>
  "record_fire ts it table =
     (case ts (di_fire_time it) of
        None \<Rightarrow> Inl (PyExc (DatabaseError ''InvalidDatetimeFormat''))
      | Some fire \<Rightarrow> Inr (map (\<lambda>row.
          if er_cartridge_id row = di_cartridge_id it \<and> er_entity row = di_entity it
          then row\<lparr>er_last_scheduled_at := Some fire\<rparr> else row) table))"

record scheduler_state =
  ss_table :: "entity_row list"
  ss_requests :: "airflow_request list"
  ss_results :: "pdict list"

definition item_result :: "due_item \<Rightarrow> pv \<Rightarrow> (string \<times> pv) list \<Rightarrow> pdict" where
  "item_result it status details = pdict_of
     ([(''cartridge_id'', PStr (di_cartridge_id it)), (''entity'', PStr (di_entity it)), (''dag_id'', PStr (di_dag_id it)),
       (''status'', status)] @ details)"

definition error_result :: "due_item \<Rightarrow> trigger_error \<Rightarrow> pdict" where
  \<comment> \<open>the exception handlers\<close>
  "error_result it e =
     (case e of
        ScopeMissing \<Rightarrow> item_result it (PStr ''scope_missing'') [(''ok'', PBool False)]
      | AirflowTriggerError stage answered \<Rightarrow>
          item_result it (py_or (case answered of None \<Rightarrow> PNone | Some c \<Rightarrow> PInt c) (PStr ''request_error''))
            [(''stage'', PStr stage), (''ok'', PBool False)]
      | TriggerRaised exc \<Rightarrow>
          item_result it (PStr ''exception'') [(''error_type'', PStr (type_name exc)), (''ok'', PBool False)])"

definition attempt :: "trigger_env \<Rightarrow> due_item \<Rightarrow> airflow_request list \<times> (trigger_error + int)" where
  "attempt env it =
     (case scheduled_run_conf (te_world env) it (schedule_run_id it) of
        Inl e \<Rightarrow> ([], Inl e)
      | Inr conf \<Rightarrow> trigger_dag_run env (di_dag_id it) (schedule_run_id it) conf)"

definition trigger_item :: "(string \<Rightarrow> int option) \<Rightarrow> trigger_env \<Rightarrow> due_item \<Rightarrow> scheduler_state \<Rightarrow> scheduler_state" where
  \<comment> \<open>one pass of the loop of \<open>trigger_each\<close>\<close>
  "trigger_item ts env it state =
     (case attempt env it of (requests, outcome) \<Rightarrow>
        let state1 = state\<lparr>ss_requests := ss_requests state @ requests\<rparr> in
        (case outcome of
           Inl e \<Rightarrow> state1\<lparr>ss_results := ss_results state @ [error_result it e]\<rparr>
         | Inr status \<Rightarrow>
             let ok = item_result it (PInt status) [(''ok'', PBool True), (''fire_time'', PStr (di_fire_time it))] in
             (case rbind (te_saved env) (\<lambda>_. record_fire ts it (ss_table state)) of
                Inl exc \<Rightarrow> state1\<lparr>ss_results := ss_results state @ [ok, error_result it (TriggerRaised exc)]\<rparr>
              | Inr table \<Rightarrow> state1\<lparr>ss_table := table, ss_results := ss_results state @ [ok]\<rparr>)))"

fun trigger_items :: "(string \<Rightarrow> int option) \<Rightarrow> (nat \<Rightarrow> trigger_env) \<Rightarrow> nat \<Rightarrow> due_item list \<Rightarrow> scheduler_state \<Rightarrow>
    scheduler_state" where
  "trigger_items ts env k [] state = state"
| "trigger_items ts env k (it # due) state = trigger_items ts env (Suc k) due (trigger_item ts (env k) it state)"

definition failed_trigger :: "pdict \<Rightarrow> bool" where
  "failed_trigger result \<longleftrightarrow> \<not> truthy (dget result ''ok'') \<and> dget result ''status'' \<noteq> PStr ''scope_missing''"

definition require_all_succeeded :: "pdict list \<Rightarrow> unit pyres" where
  "require_all_succeeded results =
     (let failed = length (filter failed_trigger results) in
      if failed \<noteq> 0
      then Inl (RuntimeError (str_of_int (int failed) @ '' of '' @ str_of_int (int (length results)) @
        '' scheduled DAG trigger(s) failed''))
      else Inr ())"

definition trigger_each :: "(string \<Rightarrow> int option) \<Rightarrow> (nat \<Rightarrow> trigger_env) \<Rightarrow> due_item list \<Rightarrow> entity_row list \<Rightarrow>
    scheduler_state \<times> pdict pyres" where
  "trigger_each ts env due table =
     (let state0 = \<lparr>ss_table = table, ss_requests = [], ss_results = []\<rparr> in
      if due = [] then (state0, Inr (pdict_of [(''triggered'', PInt 0)]))
      else
        let state = trigger_items ts env 0 due state0;
            ok_count = length (filter (\<lambda>r. truthy (dget r ''ok'')) (ss_results state))
        in (state, rbind (require_all_succeeded (ss_results state)) (\<lambda>_. Inr (pdict_of
          [(''triggered'', PInt (int ok_count)), (''results'', PList (map PDict (ss_results state)))]))))"

section \<open>The authority of a scheduled run\<close>

lemma dget_filter_PStr: "P (PStr k) \<Longrightarrow> dget (filter (\<lambda>kv. P (fst kv)) d) k = dget d k"
  by (induction d) (auto simp: dget_def)

lemma scheduled_run_conf_Inr:
  assumes "scheduled_run_conf w it run_id = Inr conf" "di_cartridge_id it \<noteq> PLATFORM_CARTRIDGE"
  obtains ctx where "build_scheduled_run_context w (PStr (di_cartridge_id it)) (di_tenant_id it) (di_workspace_id it)
      (PStr (di_dag_id it)) (PStr run_id) (PStr ''entity_scheduler'') = Inr ctx"
    "dget conf ''security_context'' = PDict ctx" "dget conf ''tenant_id'' = di_tenant_id it"
    "dget conf ''workspace_id'' = di_workspace_id it" "dget conf ''cartridge_id'' = PStr (di_cartridge_id it)"
    "dget conf ''entity'' = PStr (di_entity it)"
  using assms by (auto simp: scheduled_run_conf_def Let_def dget_dset dget_dmerge split: if_splits sum.splits)

text \<open>
  C22: a scheduled run is admitted. Whatever parameters are stored with an entity of a cartridge other than the
  platform, the configuration with which the scheduler triggers a run is admitted by the DAG, as this run, for the
  cartridge, the tenant and the workspace of the entity, from half a minute before to five minutes after it was
  signed, and refused as expired outside this window.
\<close>

theorem scheduled_run_is_admitted:
  assumes conf: "scheduled_run_conf w it run_id = Inr conf" "di_cartridge_id it \<noteq> PLATFORM_CARTRIDGE"
    and worlds: "w_environ w' = w_environ w" "w_hmac w' = w_hmac w" "hex_digests w"
    and scope: "run_scope (di_tenant_id it) (di_workspace_id it) = Inr (tenant, workspace)"
    and cartridge: "run_cartridge (PStr (di_cartridge_id it)) = Inr cartridge"
    and run: "dr_dag_id run = strip (di_dag_id it)" "dr_run_id run = strip run_id"
  shows "admit_run w' (PDict conf) (PStr (di_cartridge_id it)) run admitted_at =
    (let t = run_clock w' run admitted_at in
     if t + 30 < w_now w \<or> 300 < t - w_now w
     then Inl (ValueError ''run authority rejected: runtime context signature expired'')
     else Inr \<lparr>ar_cartridge_id = cartridge, ar_tenant_id = tenant, ar_workspace_id = workspace,
       ar_principal = ''airflow:entity_scheduler'', ar_source = ''airflow''\<rparr>)"
proof -
  obtain ctx where built: "build_scheduled_run_context w (PStr (di_cartridge_id it)) (di_tenant_id it) (di_workspace_id it)
      (PStr (di_dag_id it)) (PStr run_id) (PStr ''entity_scheduler'') = Inr ctx"
    and fields: "dget conf ''security_context'' = PDict ctx" "dget conf ''tenant_id'' = di_tenant_id it"
      "dget conf ''workspace_id'' = di_workspace_id it"
    by (rule scheduled_run_conf_Inr [OF conf]) blast
  have str: "str_or (PStr x) [] = x" for x by simp
  have supplied: "\<not> conf_scope_differs conf ''tenant_id'' tenant" "\<not> conf_scope_differs conf ''workspace_id'' workspace"
    using scope fields(2,3) by (auto simp: run_scope_Inr conf_scope_differs_def Let_def)
  have "run_cartridge (PStr (di_cartridge_id it)) = Inr (strip (str_or (PStr (di_cartridge_id it)) []))"
    and strip: "strip (di_cartridge_id it) = cartridge"
    using cartridge by (auto simp: run_cartridge_Inr str)
  note cartridge' = this(1)
  have "dr_dag_id run = strip (str_or (PStr (di_dag_id it)) [])" "dr_run_id run = strip (str_or (PStr run_id) [])"
    using run by (simp_all add: str)
  note admitted = issued_authority_admits [OF built worlds fields(1) supplied scope cartridge' this, of admitted_at]
  have "run_principal (PStr (''airflow:'' @ strip (str_or (PStr ''entity_scheduler'') []))) ''airflow'' = ''airflow:entity_scheduler''"
    by code_simp
  note principal = this
  show ?thesis unfolding admitted principal unfolding str strip ..
qed

section \<open>The loop of the triggers\<close>

definition scopeless :: "due_item \<Rightarrow> bool" where
  \<comment> \<open>no run can be signed for it\<close>
  "scopeless it \<longleftrightarrow> di_cartridge_id it \<noteq> PLATFORM_CARTRIDGE \<and> \<not> item_scoped it"

definition completed :: "(string \<Rightarrow> int option) \<Rightarrow> trigger_env \<Rightarrow> due_item \<Rightarrow> bool" where
  \<comment> \<open>Airflow took the run and the time was recorded\<close>
  "completed ts env it \<longleftrightarrow> (\<exists>conf code. scheduled_run_conf (te_world env) it (schedule_run_id it) = Inr conf \<and>
     te_unpause env = Status 200 \<and> te_trigger env = Status code \<and> code \<in> {200, 201, 409} \<and>
     te_saved env = Inr () \<and> ts (di_fire_time it) \<noteq> None)"

definition set_fire :: "(string \<Rightarrow> int option) \<Rightarrow> due_item \<Rightarrow> entity_row \<Rightarrow> entity_row" where
  "set_fire ts it row =
     (if entity_key row = (di_cartridge_id it, di_entity it)
      then row\<lparr>er_last_scheduled_at := ts (di_fire_time it)\<rparr> else row)"

fun completed_items :: "(string \<Rightarrow> int option) \<Rightarrow> (nat \<Rightarrow> trigger_env) \<Rightarrow> nat \<Rightarrow> due_item list \<Rightarrow> due_item list" where
  "completed_items ts env k [] = []"
| "completed_items ts env k (it # due) =
     (if completed ts (env k) it then [it] else []) @ completed_items ts env (Suc k) due"

lemma conf_scope_missing: "scheduled_run_conf w it run_id = Inl ScopeMissing \<longleftrightarrow> scopeless it"
  by (auto simp: scheduled_run_conf_def scopeless_def Let_def split: sum.splits)

lemma checked_status_Inr: "checked_status stage expected r = Inr s \<longleftrightarrow> r = Status s \<and> expected s"
  by (auto simp: checked_status_def split: http_answer.splits)

lemma checked_status_scope: "checked_status stage expected r \<noteq> Inl ScopeMissing"
  by (auto simp: checked_status_def split: http_answer.splits)

lemma record_fire_eq: "record_fire ts it table =
    (if ts (di_fire_time it) = None then Inl (PyExc (DatabaseError ''InvalidDatetimeFormat''))
     else Inr (map (set_fire ts it) table))"
  by (auto simp: record_fire_def set_fire_def entity_key_def split: option.splits intro!: map_cong)

lemma failed_trigger_results [simp]:
  "failed_trigger (error_result it e) \<longleftrightarrow> e \<noteq> ScopeMissing"
  "\<not> failed_trigger (item_result it status [(''ok'', PBool True), (''fire_time'', v)])"
  by (auto simp: failed_trigger_def error_result_def item_result_def py_or_def split: trigger_error.splits option.splits)

lemma attempt_outcome:
  "snd (attempt env it) = Inl ScopeMissing \<longleftrightarrow> scopeless it"
  "(\<exists>code. snd (attempt env it) = Inr code) \<longleftrightarrow>
     (\<exists>conf code. scheduled_run_conf (te_world env) it (schedule_run_id it) = Inr conf \<and>
       te_unpause env = Status 200 \<and> te_trigger env = Status code \<and> code \<in> {200, 201, 409})"
proof -
  show "snd (attempt env it) = Inl ScopeMissing \<longleftrightarrow> scopeless it"
    using conf_scope_missing [of "te_world env" it "schedule_run_id it"] checked_status_scope
    by (auto simp: attempt_def trigger_dag_run_def split: sum.splits)
  show "(\<exists>code. snd (attempt env it) = Inr code) \<longleftrightarrow>
     (\<exists>conf code. scheduled_run_conf (te_world env) it (schedule_run_id it) = Inr conf \<and>
       te_unpause env = Status 200 \<and> te_trigger env = Status code \<and> code \<in> {200, 201, 409})"
    by (auto simp: attempt_def trigger_dag_run_def checked_status_Inr checked_status_def [of "''unpause''"]
        split: sum.splits http_answer.splits if_splits)
qed

lemma trigger_item_effect:
  "ss_table (trigger_item ts env it state) =
     (if completed ts env it then map (set_fire ts it) (ss_table state) else ss_table state)"
  "list_ex failed_trigger (ss_results (trigger_item ts env it state)) \<longleftrightarrow>
     list_ex failed_trigger (ss_results state) \<or> \<not> (completed ts env it \<or> scopeless it)"
proof -
  obtain requests outcome where attempt: "attempt env it = (requests, outcome)" by fastforce
  have scope: "outcome = Inl ScopeMissing \<longleftrightarrow> scopeless it" and taken: "(\<exists>status. outcome = Inr status) \<longleftrightarrow>
      (\<exists>conf status. scheduled_run_conf (te_world env) it (schedule_run_id it) = Inr conf \<and>
       te_unpause env = Status 200 \<and> te_trigger env = Status status \<and> status \<in> {200, 201, 409})"
    using attempt_outcome [of env it] attempt by simp_all
  have completed: "completed ts env it \<longleftrightarrow>
      (\<exists>status. outcome = Inr status) \<and> te_saved env = Inr () \<and> ts (di_fire_time it) \<noteq> None"
    unfolding taken completed_def by blast
  show "ss_table (trigger_item ts env it state) =
     (if completed ts env it then map (set_fire ts it) (ss_table state) else ss_table state)"
    unfolding completed
    by (cases outcome; cases "te_saved env") (auto simp: trigger_item_def attempt Let_def record_fire_eq)
  show "list_ex failed_trigger (ss_results (trigger_item ts env it state)) \<longleftrightarrow>
     list_ex failed_trigger (ss_results state) \<or> \<not> (completed ts env it \<or> scopeless it)"
    unfolding completed scope [symmetric]
    by (cases outcome; cases "te_saved env") (auto simp: trigger_item_def attempt Let_def record_fire_eq)
qed

lemma trigger_items_effect:
  "ss_table (trigger_items ts env k due state) =
     foldl (\<lambda>table it. map (set_fire ts it) table) (ss_table state) (completed_items ts env k due)"
  "list_ex failed_trigger (ss_results (trigger_items ts env k due state)) \<longleftrightarrow>
     list_ex failed_trigger (ss_results state) \<or>
     (\<exists>i < length due. \<not> (completed ts (env (k + i)) (due ! i) \<or> scopeless (due ! i)))"
proof (induction due arbitrary: k state)
  case (Cons it due)
  {
    case 1
    show ?case by (simp add: Cons.IH(1) trigger_item_effect)
  next
    case 2
    show ?case by (auto simp: Cons.IH(2) trigger_item_effect Ex_less_Suc2)
  }
qed simp_all

lemma require_all_succeeded_Inr: "require_all_succeeded results = Inr () \<longleftrightarrow> \<not> list_ex failed_trigger results"
  by (auto simp: require_all_succeeded_def Let_def list_ex_iff filter_empty_conv)

lemma trigger_each_parts:
  "ss_table (fst (trigger_each ts env due table)) =
     foldl (\<lambda>table it. map (set_fire ts it) table) table (completed_items ts env 0 due) \<and>
   (isl (snd (trigger_each ts env due table)) \<longleftrightarrow>
     (\<exists>i < length due. \<not> (completed ts (env i) (due ! i) \<or> scopeless (due ! i))))"
proof (cases "due = []")
  case False
  let ?state = "trigger_items ts env 0 due \<lparr>ss_table = table, ss_requests = [], ss_results = []\<rparr>"
  have "isl (snd (trigger_each ts env due table)) \<longleftrightarrow> isl (require_all_succeeded (ss_results ?state))"
    using False by (cases "require_all_succeeded (ss_results ?state)") (simp_all add: trigger_each_def Let_def)
  also have "\<dots> \<longleftrightarrow> list_ex failed_trigger (ss_results ?state)"
    using require_all_succeeded_Inr [of "ss_results ?state"] by (cases "require_all_succeeded (ss_results ?state)") simp_all
  finally show ?thesis using False trigger_items_effect [of ts env 0 due] by (simp add: trigger_each_def Let_def)
qed (simp add: trigger_each_def)

text \<open>
  C40: the triggers are independent and accounted for. Whatever happens to the others, each entity whose run
  Airflow took (new or already there) and whose time could be saved has that time recorded, in the
  order of the list, and nothing else is recorded; the task fails exactly when this did not happen for some
  entity that has a scope or belongs to the platform.
\<close>

theorem trigger_each_accounts:
  "ss_table (fst (trigger_each ts env due table)) =
     foldl (\<lambda>table it. map (set_fire ts it) table) table (completed_items ts env 0 due) \<and>
   (isl (snd (trigger_each ts env due table)) \<longleftrightarrow>
     (\<exists>i < length due. \<not> (completed ts (env i) (due ! i) \<or> scopeless (due ! i))))"
  by (rule trigger_each_parts)

section \<open>The next look at the same window\<close>

definition due_key :: "due_item \<Rightarrow> string \<times> string" where
  "due_key it = (di_cartridge_id it, di_entity it)"

lemma set_fires:
  assumes "\<And>it. it \<in> set items \<Longrightarrow> ts (di_fire_time it) = Some (F (due_key it))"
  shows "foldl (\<lambda>table it. map (set_fire ts it) table) table items =
    map (\<lambda>row. if entity_key row \<in> due_key ` set items
      then row\<lparr>er_last_scheduled_at := Some (F (entity_key row))\<rparr> else row) table"
  using assms
proof (induction items arbitrary: table)
  case (Cons it items)
  have "set_fire ts it row = (if entity_key row = due_key it
      then row\<lparr>er_last_scheduled_at := Some (F (due_key it))\<rparr> else row)" for row
    using Cons.prems [of it] by (simp add: set_fire_def due_key_def)
  then have first: "set_fire ts it = (\<lambda>row. if entity_key row = due_key it
      then row\<lparr>er_last_scheduled_at := Some (F (due_key it))\<rparr> else row)" by blast
  have key: "entity_key (row\<lparr>er_last_scheduled_at := v\<rparr>) = entity_key row" for row v by (simp add: entity_key_def)
  show ?case using Cons by (auto simp: first key)
qed simp

definition items_of_row :: "cron_env \<Rightarrow> (string \<Rightarrow> pv option) \<Rightarrow> int \<times> int option \<Rightarrow> dag_row list \<Rightarrow> entity_row \<Rightarrow> due_item list" where
  "items_of_row env loads logical_date dags row =
     (if scheduled_row row
      then List.map_filter (\<lambda>dag. due_of env loads logical_date (row, effective_params row dag)) (joined_dags dags row) else [])"

lemma map_filter_append: "List.map_filter f (xs @ ys) = List.map_filter f xs @ List.map_filter f ys"
  by (simp add: List.map_filter_def)

lemma find_due_rows:
  "find_due_entities env loads logical_date dags table = concat (map (items_of_row env loads logical_date dags) table)"
  by (induction table) (auto simp: find_due_entities_def selected_rows_def items_of_row_def map_filter_append
      List.map_filter_def comp_def filter_map)

lemma due_of_Some:
  "due_of env loads logical_date (row, dag_params) = Some it \<longleftrightarrow>
     (\<exists>fire. fire_of env logical_date row = Some fire \<and>
       (case er_last_scheduled_at row of None \<Rightarrow> True | Some last_at \<Rightarrow> last_at < fire) \<and>
       it = \<lparr>di_cartridge_id = er_cartridge_id row, di_entity = er_entity row,
         di_dag_id = (case er_dag_id row of None \<Rightarrow> [] | Some dag_id \<Rightarrow> dag_id),
         di_mode = str_or (text_column (er_mode row)) ''full'',
         di_tenant_id = text_column (er_tenant_id row), di_workspace_id = text_column (er_workspace_id row),
         di_conn_id = text_column (er_connection_id row), di_fire_time = isoformat fire (Some 0),
         di_dag_params = loaded_params loads dag_params\<rparr>)"
  by (auto simp: due_of_def split: option.splits if_splits)

definition row_scopeless :: "entity_row \<Rightarrow> bool" where
  "row_scopeless row \<longleftrightarrow> er_cartridge_id row \<noteq> PLATFORM_CARTRIDGE \<and>
     \<not> (truthy (text_column (er_tenant_id row)) \<and> truthy (text_column (er_workspace_id row)))"

lemma items_of_row_facts:
  assumes "it \<in> set (items_of_row env loads logical_date dags row)"
  shows "due_key it = entity_key row \<and> scopeless it = row_scopeless row \<and>
    (\<exists>fire. fire_of env logical_date row = Some fire \<and> di_fire_time it = isoformat fire (Some 0))"
  using assms by (auto simp: items_of_row_def set_map_filter due_of_Some due_key_def entity_key_def scopeless_def
      item_scoped_def row_scopeless_def split: if_splits)

lemma items_after_fire:
  assumes "fire_of env logical_date row = Some fire"
  shows "items_of_row env loads logical_date dags (row\<lparr>er_last_scheduled_at := Some fire\<rparr>) = []"
proof -
  have "fire_of env logical_date (row\<lparr>er_last_scheduled_at := Some fire\<rparr>) = Some fire"
    using assms by (simp add: fire_of_def)
  then have "due_of env loads logical_date (row\<lparr>er_last_scheduled_at := Some fire\<rparr>, p) = None" for p
    by (simp add: due_of_def)
  then show ?thesis by (simp add: items_of_row_def List.map_filter_def)
qed

lemma completed_scoped: "completed ts env it \<Longrightarrow> \<not> scopeless it"
  by (auto simp: completed_def conf_scope_missing [symmetric, of _ "te_world env" "schedule_run_id it"])

lemma completed_items_all:
  "\<forall>i < length due. completed ts (env (k + i)) (due ! i) \<or> scopeless (due ! i) \<Longrightarrow>
     completed_items ts env k due = filter (\<lambda>it. \<not> scopeless it) due"
proof (induction due arbitrary: k)
  case (Cons it due)
  have "completed ts (env k) it \<or> scopeless it" using Cons.prems by (force dest: spec [of _ 0])
  moreover have "completed_items ts env (Suc k) due = filter (\<lambda>it. \<not> scopeless it) due"
    using Cons.prems by (intro Cons.IH) (auto dest: spec [of _ "Suc _"])
  ultimately show ?case using completed_scoped by auto
qed simp

definition cast_reads :: "(string \<Rightarrow> int option) \<Rightarrow> cron_env \<Rightarrow> int \<times> int option \<Rightarrow> entity_row list \<Rightarrow> bool" where
  \<comment> \<open>the database reads the times back that the scheduler printed\<close>
  "cast_reads ts cron logical_date table \<longleftrightarrow> list_all (\<lambda>row.
     case fire_of cron logical_date row of None \<Rightarrow> True | Some fire \<Rightarrow> ts (isoformat fire (Some 0)) = Some fire) table"

text \<open>
  C19: a time is not handled twice. When the task has triggered the entities that were due in a window, and
  did not fail, then the same look at the same window finds exactly the entities again for which no run could
  be signed, because their tenant or their workspace is missing and they do not belong to the platform.
\<close>

theorem handled_schedules_are_not_due_again:
  assumes triggered: "trigger_each ts env (find_due_entities cron loads logical_date dags table) table = (state, Inr summary)"
    and key: "distinct (map entity_key table)"
    and cast: "cast_reads ts cron logical_date table"
  shows "find_due_entities cron loads logical_date dags (ss_table state) =
    filter scopeless (find_due_entities cron loads logical_date dags table)"
proof -
  let ?items = "items_of_row cron loads logical_date dags"
  let ?due = "concat (map ?items table)"
  let ?handled = "filter (\<lambda>it. \<not> scopeless it) ?due"
  define F where "F k = the (fire_of cron logical_date (the (map_of (map (\<lambda>r. (entity_key r, r)) table) k)))" for k
  have row: "map_of (map (\<lambda>r. (entity_key r, r)) table) (entity_key r) = Some r" if "r \<in> set table" for r
    by (rule map_of_is_SomeI) (use that key in \<open>simp_all add: comp_def\<close>)
  then have F: "F (entity_key r) = the (fire_of cron logical_date r)" if "r \<in> set table" for r
    using that by (simp add: F_def)
  have same: "r' = r" if "r \<in> set table" "r' \<in> set table" "entity_key r' = entity_key r" for r r'
    using row [OF that(1)] row [OF that(2)] that(3) by simp
  have fires: "ts (di_fire_time it) = Some (F (due_key it))" if "it \<in> set ?handled" for it
    using that cast F by (fastforce simp: cast_reads_def list_all_iff dest!: items_of_row_facts)
  have "\<forall>i < length ?due. completed ts (env i) (?due ! i) \<or> scopeless (?due ! i)"
    using trigger_each_parts [of ts env ?due table] triggered by (auto simp: find_due_rows)
  then have "completed_items ts env 0 ?due = ?handled" by (intro completed_items_all) simp
  then have state: "ss_table state = map (\<lambda>row. if entity_key row \<in> due_key ` set ?handled
      then row\<lparr>er_last_scheduled_at := Some (F (entity_key row))\<rparr> else row) table"
    using trigger_each_parts [of ts env ?due table] triggered set_fires [of ?handled ts F table, OF fires]
    by (simp add: find_due_rows)
  have "?items (if entity_key r \<in> due_key ` set ?handled
      then r\<lparr>er_last_scheduled_at := Some (F (entity_key r))\<rparr> else r) = filter scopeless (?items r)"
    if r: "r \<in> set table" for r
  proof (cases "\<exists>it \<in> set (?items r). \<not> scopeless it")
    case True
    then obtain it where it: "it \<in> set (?items r)" "\<not> scopeless it" by blast
    then obtain fire where fire: "fire_of cron logical_date r = Some fire" using items_of_row_facts by blast
    have "entity_key r \<in> due_key ` set ?handled"
      using it r items_of_row_facts [OF it(1)] by (auto intro!: image_eqI [of _ _ it])
    moreover have "filter scopeless (?items r) = []"
      using it items_of_row_facts [of _ cron loads logical_date dags r] by (auto simp: filter_empty_conv)
    ultimately show ?thesis using fire F [OF r] items_after_fire [OF fire] by simp
  next
    case False
    have "entity_key r \<notin> due_key ` set ?handled"
    proof
      assume "entity_key r \<in> due_key ` set ?handled"
      then obtain it r' where it: "due_key it = entity_key r" "it \<in> set (?items r')" "r' \<in> set table" "\<not> scopeless it"
        by auto
      then have "r' = r" using same [OF r it(3)] items_of_row_facts [OF it(2)] by simp
      with it False show "False" by blast
    qed
    with False show ?thesis by (simp add: filter_id_conv)
  qed
  then show ?thesis
    unfolding find_due_rows state by (simp add: filter_concat comp_def cong: map_cong)
qed

section \<open>Witnesses\<close>

definition scheduled_sample :: "string \<Rightarrow> entity_row" where
  "scheduled_sample cartridge = \<lparr>er_cartridge_id = cartridge, er_entity = ''E'', er_dag_id = Some ''dag'', er_mode = None,
     er_enabled = Some True, er_trigger_type = Some ''scheduled'', er_cron_expression = Some ''30 2 * * *'',
     er_cron_timezone = None, er_last_scheduled_at = None, er_tenant_id = None, er_workspace_id = None,
     er_connection_id = None, er_dag_params = None\<rparr>"

definition schedule_table :: "entity_row list" where
  "schedule_table = [scheduled_sample ''platform'', scheduled_sample ''crm'',
     (scheduled_sample ''platform'')\<lparr>er_entity := ''F'', er_enabled := None\<rparr>]"

definition trigger_sample_env :: "nat \<Rightarrow> trigger_env" where
  "trigger_sample_env k = \<lparr>te_world = sample_world, te_unpause = Status 200, te_trigger = Status 201, te_saved = Inr ()\<rparr>"

definition cast_sample :: "string \<Rightarrow> int option" where
  "cast_sample s = (if s = isoformat (100 * MINUTE) (Some 0) then Some (100 * MINUTE) else None)"

definition due_sample_items :: "entity_row list \<Rightarrow> due_item list" where
  "due_sample_items = find_due_entities cron_sample (\<lambda>text. None) (100 * MINUTE, None) []"

theorem handled_schedules_are_not_due_again_witness:
  "map di_cartridge_id (due_sample_items schedule_table) = [''platform'', ''crm''] \<and>
   map di_cartridge_id (due_sample_items (ss_table (fst
     (trigger_each cast_sample trigger_sample_env (due_sample_items schedule_table) schedule_table)))) = [''crm'']"
proof -
  let ?run = "trigger_each cast_sample trigger_sample_env (due_sample_items schedule_table) schedule_table"
  have due: "map di_cartridge_id (due_sample_items schedule_table) = [''platform'', ''crm'']" 
    "map di_cartridge_id (filter scopeless (due_sample_items schedule_table)) = [''crm'']" by code_simp+
  have "\<not> isl (snd ?run)" "distinct (map entity_key schedule_table)"
    "cast_reads cast_sample cron_sample (100 * MINUTE, None) schedule_table" by code_simp+
  moreover from this(1) have "?run = (fst ?run, Inr (projr (snd ?run)))"
    by (metis sum.collapse(2) prod.collapse)
  ultimately have "due_sample_items (ss_table (fst ?run)) = filter scopeless (due_sample_items schedule_table)"
    unfolding due_sample_items_def by (intro handled_schedules_are_not_due_again)
  then show ?thesis using due by simp
qed

definition scoped_sample :: due_item where
  "scoped_sample = \<lparr>di_cartridge_id = ''crm'', di_entity = ''E'', di_dag_id = ''dag'', di_mode = ''full'',
     di_tenant_id = PStr uuid_sample, di_workspace_id = PStr uuid_sample, di_conn_id = PNone,
     di_fire_time = ''1970-01-01T01:40:00+00:00'',
     di_dag_params = PDict (pdict_of [(''tenant_id'', PStr ''other''), (''page'', PInt 5)])\<rparr>"

theorem scheduled_run_is_admitted_witness:
  "\<exists>conf. scheduled_run_conf sample_world scoped_sample ''run'' = Inr conf \<and>
    admit_run sample_world (PDict conf) (PStr ''crm'') run_sample None = Inr admitted_sample"
proof -
  have "signing_key sample_world = Inr ''0123456789abcdef0123456789abcdef''" "list_all (\<lambda>v. strip (str_or v []) \<noteq> [])
      [PStr ''crm'', PStr uuid_sample, PStr uuid_sample, PStr ''dag'', PStr ''run'', PStr ''entity_scheduler'']" by code_simp+
  from scheduled_builds [OF this] obtain ctx where "build_scheduled_run_context sample_world (PStr ''crm'')
      (PStr uuid_sample) (PStr uuid_sample) (PStr ''dag'') (PStr ''run'') (PStr ''entity_scheduler'') = Inr ctx" by blast
  moreover have "di_cartridge_id scoped_sample \<noteq> PLATFORM_CARTRIDGE" "item_scoped scoped_sample" by code_simp+
  ultimately obtain conf where conf: "scheduled_run_conf sample_world scoped_sample ''run'' = Inr conf"
    by (simp add: scheduled_run_conf_def scoped_sample_def Let_def)
  have "di_cartridge_id scoped_sample \<noteq> PLATFORM_CARTRIDGE"
    "run_scope (di_tenant_id scoped_sample) (di_workspace_id scoped_sample) = Inr (uuid_sample, uuid_sample)"
    "run_cartridge (PStr (di_cartridge_id scoped_sample)) = Inr ''crm''"
    "dr_dag_id run_sample = strip (di_dag_id scoped_sample)" "dr_run_id run_sample = strip ''run''" by code_simp+
  from scheduled_run_is_admitted [OF conf this(1) refl refl sample_digests(1) this(2-5), of None]
  have "admit_run sample_world (PDict conf) (PStr ''crm'') run_sample None = Inr admitted_sample"
    by (simp add: scoped_sample_def run_clock_def admission_time_def run_sample_def timestamp_int_def sample_world_def admitted_sample_def)
  with conf show ?thesis by blast
qed

end
