(* ===== verification/Schedule_Report.thy ===== *)
theory Schedule_Report
  imports Entity_Schedule Refresh_Monitors
begin

text \<open>
  What the scheduler reports to the registry: \<open>airflow/dags/entity_scheduler_record.py\<close> and the last task of
  \<open>entity_scheduler.py\<close>. The theorem ties the reported status to what the trigger task did.
\<close>

section \<open>The report\<close>

record report_env =
  rp_world :: world
  rp_run_id :: string
  rp_logical_date :: string
  rp_finished :: string
  rp_post :: "mat_exc + response"

definition scheduler_status :: "pdict \<Rightarrow> string pyres" where
  "scheduler_status invocation =
     rbind (int_or0 (dget invocation ''triggered'')) (\<lambda>triggered.
     rbind (py_len (py_or (dget invocation ''results'') (PList []))) (\<lambda>total.
       let status = (if total = triggered then ''success'' else if triggered \<noteq> 0 then ''partial'' else ''failed'')
       in Inr (if total = 0 then ''success'' else status)))"

definition scheduler_args :: "report_env \<Rightarrow> pdict \<Rightarrow> pdict pyres" where
  "scheduler_args env invocation =
     rbind (scheduler_status invocation) (\<lambda>status. Inr (pdict_of
       [(''dag_id'', PStr ''entity_scheduler''), (''cartridge_id'', PStr ''platform''), (''entity'', PStr ''EntityScheduler''),
        (''run_id'', PStr (''entity_scheduler:'' @ rp_run_id env)), (''airflow_dag_run_id'', PStr (rp_run_id env)),
        (''mode'', PStr ''scheduled''), (''status'', PStr status), (''started_at'', PStr (rp_logical_date env)),
        (''finished_at'', PStr (rp_finished env)), (''extra'', PDict invocation)]))"

definition posted_ok :: "response \<Rightarrow> mat_exc + unit" where
  \<comment> \<open>\<open>raise_for_status\<close> of \<open>requests\<close>, then the body\<close>
  "posted_ok r =
     (if 400 \<le> status_code r \<and> status_code r < 600 then Inl (OtherException ''HTTPError'')
      else (case body r of
          None \<Rightarrow> Inl (OtherException ''JSONDecodeError'')
        | Some (PDict d) \<Rightarrow>
            if truthy (dget d ''error'') then Inl (PyExc (RuntimeError ''pipeline_run_save returned an error'')) else Inr ()
        | Some _ \<Rightarrow> Inl (PyExc AttributeError)))"

definition record_scheduler_run :: "report_env \<Rightarrow> pdict \<Rightarrow> mat_exc + (pdict \<times> pdict)" where
  \<comment> \<open>the arguments and the context that were saved\<close>
  "record_scheduler_run env invocation =
     rbind (as_mat (scheduler_args env invocation)) (\<lambda>args.
     rbind (as_mat (build_pipeline_run_context (rp_world env) args)) (\<lambda>security_context.
     rbind (rp_post env) (\<lambda>response.
     rbind (posted_ok response) (\<lambda>_. Inr (args, security_context)))))"

definition mcp_headers :: "world \<Rightarrow> pdict pyres" where
  "mcp_headers w =
     rbind (internal_key w ''INTERNAL_API_KEY_AIRFLOW_TO_MCP_INFRA'') (\<lambda>key.
       Inr (pdict_of [(''X-Internal-Service'', PStr ''airflow''), (''X-API-Key'', PStr key)]))"

definition record_scheduled :: "report_env \<Rightarrow> pv \<Rightarrow> mat_exc + (pdict \<times> pdict)" where
  \<comment> \<open>the task \<open>record_run\<close>, given what the task before it returned\<close>
  "record_scheduled env returned =
     (case py_or returned (PDict []) of
        PDict invocation \<Rightarrow> rbind (as_mat (mcp_headers (rp_world env))) (\<lambda>_. record_scheduler_run env invocation)
      | _ \<Rightarrow> rbind (as_mat (mcp_headers (rp_world env))) (\<lambda>_. Inl (PyExc AttributeError)))"

section \<open>Guarantees\<close>

lemma item_result_ok:
  "truthy (dget (error_result it e) ''ok'') = False"
  "truthy (dget (item_result it status [(''ok'', PBool True), (''fire_time'', v)]) ''ok'') = True"
  by (auto simp: error_result_def item_result_def split: trigger_error.splits)

lemma trigger_item_result:
  assumes "completed ts env it \<or> scopeless it"
  obtains r where "ss_results (trigger_item ts env it state) = ss_results state @ [r]"
    "truthy (dget r ''ok'') \<longleftrightarrow> \<not> scopeless it"
proof -
  obtain requests outcome where attempt: "attempt env it = (requests, outcome)" by fastforce
  have outcomes: "outcome = Inl ScopeMissing \<longleftrightarrow> scopeless it" "(\<exists>status. outcome = Inr status) \<longleftrightarrow>
      (\<exists>conf status. scheduled_run_conf (te_world env) it (schedule_run_id it) = Inr conf \<and>
       te_unpause env = Status 200 \<and> te_trigger env = Status status \<and> status \<in> {200, 201, 409})"
    using attempt_outcome [of env it] attempt by simp_all
  show ?thesis
  proof (cases "scopeless it")
    case True
    then show ?thesis
      using outcomes(1) by (intro that [of "error_result it ScopeMissing"])
        (simp_all add: trigger_item_def attempt Let_def item_result_ok)
  next
    case False
    with assms have taken: "completed ts env it" by simp
    then obtain status where "outcome = Inr status" using taken outcomes(2) unfolding completed_def by blast
    with taken False show ?thesis
      by (intro that [of "item_result it (PInt status) [(''ok'', PBool True), (''fire_time'', PStr (di_fire_time it))]"])
        (auto simp: trigger_item_def attempt Let_def record_fire_eq completed_def item_result_ok)
  qed
qed

lemma trigger_items_results:
  assumes "\<forall>i < length due. completed ts (env (k + i)) (due ! i) \<or> scopeless (due ! i)"
  shows "map (\<lambda>r. truthy (dget r ''ok'')) (ss_results (trigger_items ts env k due state)) =
    map (\<lambda>r. truthy (dget r ''ok'')) (ss_results state) @ map (\<lambda>it. \<not> scopeless it) due"
  using assms
proof (induction due arbitrary: k state)
  case (Cons it due)
  have "completed ts (env k) it \<or> scopeless it" using Cons.prems by (force dest: spec [of _ 0])
  then obtain r where r: "ss_results (trigger_item ts (env k) it state) = ss_results state @ [r]"
    "truthy (dget r ''ok'') \<longleftrightarrow> \<not> scopeless it" by (rule trigger_item_result)
  have "map (\<lambda>r. truthy (dget r ''ok'')) (ss_results (trigger_items ts env (Suc k) due (trigger_item ts (env k) it state))) =
      map (\<lambda>r. truthy (dget r ''ok'')) (ss_results (trigger_item ts (env k) it state)) @ map (\<lambda>it. \<not> scopeless it) due"
    using Cons.prems by (intro Cons.IH) (auto dest: spec [of _ "Suc _"])
  with r show ?case by simp
qed simp

text \<open>
  what the scheduler reports is what it did. When the trigger task did not fail, the reported status is
  \<open>success\<close> if every due entity was triggered, \<open>failed\<close> if entities were due and none was, and \<open>partial\<close>
  otherwise; an entity was not triggered exactly when it has no scope.
\<close>

theorem reported_status_counts_triggers:
  assumes "trigger_each ts env due table = (state, Inr summary)"
  shows "scheduler_status summary = Inr
    (if list_all (\<lambda>it. \<not> scopeless it) due then ''success'' else if list_all scopeless due then ''failed'' else ''partial'')"
proof (cases "due = []")
  case False
  let ?state = "trigger_items ts env 0 due \<lparr>ss_table = table, ss_requests = [], ss_results = []\<rparr>"
  let ?ok = "\<lambda>r. truthy (dget r ''ok'')"
  have "\<forall>i < length due. completed ts (env i) (due ! i) \<or> scopeless (due ! i)"
    using trigger_each_parts [of ts env due table] assms by auto
  then have results: "map ?ok (ss_results ?state) = map (\<lambda>it. \<not> scopeless it) due"
    using trigger_items_results [of due ts env 0] by simp
  have summary: "summary = pdict_of [(''triggered'', PInt (int (length (filter ?ok (ss_results ?state))))),
      (''results'', PList (map PDict (ss_results ?state)))]"
    using assms False by (auto simp: trigger_each_def Let_def rbind_Inr_iff)
  have "length (filter ?ok (ss_results ?state)) = length (filter (\<lambda>b. b) (map ?ok (ss_results ?state)))"
    by (simp add: filter_map comp_def)
  also have "\<dots> = length (filter (\<lambda>it. \<not> scopeless it) due)" unfolding results by (simp add: filter_map comp_def)
  finally have count: "length (filter ?ok (ss_results ?state)) = length (filter (\<lambda>it. \<not> scopeless it) due)" .
  have total: "length (ss_results ?state) = length due" using results map_eq_imp_length_eq by blast
  have "length (filter (\<lambda>it. \<not> scopeless it) due) = length due \<longleftrightarrow> list_all (\<lambda>it. \<not> scopeless it) due"
    by (metis (mono_tags, lifting) filter_True length_filter_less less_irrefl list_all_iff)
  moreover have "length (filter (\<lambda>it. \<not> scopeless it) due) = 0 \<longleftrightarrow> list_all scopeless due"
    by (auto simp: filter_empty_conv list_all_iff)
  moreover have "py_len (py_or (PList (map PDict (ss_results ?state))) (PList [])) = Inr (int (length due))"
    using total by (auto simp: py_len_def py_or_def)
  ultimately show ?thesis
    using False unfolding scheduler_status_def summary by (simp add: count Let_def eq_commute [of "length due"])
next
  case True
  then have "summary = pdict_of [(''triggered'', PInt 0)]" using assms by (simp add: trigger_each_def)
  then show ?thesis using True by (simp add: scheduler_status_def py_len_def py_or_def)
qed

theorem reported_status_counts_triggers_witness:
  "scheduler_status (projr (snd (trigger_each cast_sample trigger_sample_env (due_sample_items schedule_table) schedule_table))) =
     Inr ''partial''"
proof -
  let ?run = "trigger_each cast_sample trigger_sample_env (due_sample_items schedule_table) schedule_table"
  have "\<not> isl (snd ?run)" by code_simp
  then have "?run = (fst ?run, Inr (projr (snd ?run)))" by (metis sum.collapse(2) prod.collapse)
  from reported_status_counts_triggers [OF this]
  have "scheduler_status (projr (snd ?run)) = Inr (if list_all (\<lambda>it. \<not> scopeless it) (due_sample_items schedule_table)
    then ''success'' else if list_all scopeless (due_sample_items schedule_table) then ''failed'' else ''partial'')" .
  moreover have "\<not> list_all (\<lambda>it. \<not> scopeless it) (due_sample_items schedule_table)"
    "\<not> list_all scopeless (due_sample_items schedule_table)" by code_simp+
  ultimately show ?thesis by simp
qed

end
