(* ===== verification/Spec2Isabelle.thy ===== *)
theory Spec2Isabelle
  imports Status_Transitions Storage_Scope Tool_Policy Sync_Runs Service_Job Refresh_Monitors Runtime_Authority
    Run_Janitor Schedule_Report
begin

text \<open>
  \<^bold>\<open>The data-pipeline and access-control core of the console platform.\<close>

  The platform extracts business data through cartridges, refines it into silver and gold datasets and
  lets people and assistants act on it in a console. This development models the Python code that
  decides what may run, what is recorded as done and who may see it, function by function, and proves
  the properties the rest of the system relies on.

  \<^bold>\<open>How the parts interact.\<close> A trigger of a dataset refresh carries a signed envelope
  (\<open>airflow/dags/dataset_refresh_admission.py\<close>, \<open>runtime_security_context.py\<close>). The DAG
  (\<open>dataset_refresh_chain.py\<close>) admits it once per nonce, plans the datasets downstream of what was
  extracted (\<open>dataset_refresh_graph.py\<close>), materialises them in order through the refinement service
  (\<open>dataset_refresh_materialize.py\<close>, \<open>service_job_client.py\<close>) under leased slots
  (\<open>dataset_refresh_idempotency.py\<close>), classifies the answers (\<open>dataset_refresh_outcome.py\<close>), records the
  run with the registry (whose \<open>mcp-infra/app/pipeline_run_authority.py\<close> checks the sender) and the
  intelligence service (\<open>dataset_refresh_finalization.py\<close>) and runs the
  monitors (\<open>dataset_refresh_monitors.py\<close>, \<open>agent_runner_outcome.py\<close>). The console merges the
  statuses it hears about (\<open>console/app/domains/pipeline/status_transitions.py\<close>) into its table of runs
  (\<open>recording.py\<close>, \<open>mcp-infra/app/tools/pipeline.py\<close>), closes the runs that were lost
  (\<open>stuck_run_recovery.py\<close>, \<open>stuck_run_recovery_service.py\<close>, called by an operator, by the janitor
  \<open>pipeline_run_janitor.py\<close> and before a trigger by \<open>trigger_preflight.py\<close>), reserves extractions
  (\<open>successfactors_reservation.py\<close>), shows the progress of
  a synchronisation (\<open>console/app/services/sync_progress.py\<close>), guards its endpoints
  (\<open>permissions.py\<close>, \<open>permission_catalog.py\<close>, \<open>permission_roles.py\<close>) and the tools of the assistant
  (\<open>tool_policy.py\<close>, \<open>tool_manifest.py\<close>). The scheduler (\<open>airflow/dags/entity_scheduler.py\<close> with
  \<open>entity_scheduler_window.py\<close>, \<open>_trigger.py\<close>, \<open>_record.py\<close>) triggers the extraction of the entities that are due
  with an authority that the DAG of the cartridge checks (\<open>cartridge_run_admission.py\<close>). Readers
  and writers of the lakehouse are confined to the keys of their tenant and workspace (\<open>omega_lakehouse/storage_scope.py\<close>, \<open>keys.py\<close>).

  \<^bold>\<open>Theories.\<close>
  \<^item> \<open>Py_Base\<close>: Python values, exceptions, dictionaries, strings, numbers; the shared lemmas.
  \<^item> \<open>Contracts\<close>: the locales that several components interpret, tables that keep their entries and
    tokens that never fall.
  \<^item> \<open>Canonical_Json\<close>: the text of \<open>json.dumps\<close> with sorted keys, and that it determines the value up to
    the order of dictionary items.
  \<^item> \<open>Signed_Context\<close>: \<open>runtime_security_context.py\<close>. A signed context verifies exactly in its window
    (\<open>signed_context_verifies\<close>); fields cannot be changed under a signature
    (\<open>signed_fields_cannot_change\<close>, with collision-freedom of the keyed hash as a hypothesis).
  \<^item> \<open>Refresh_Admission\<close>: \<open>dataset_refresh_admission.py\<close> and the SQL function that consumes the nonce.
    What was issued is admitted, its retry too, and a nonce admits one run.
  \<^item> \<open>Runtime_Authority\<close>: the receivers of signed contexts (\<open>mcp-infra/app/pipeline_run_authority.py\<close>,
    \<open>scheduled_effect_authority.py\<close>, \<open>refinement/app/runtime_security_context.py\<close>) and the part of the console that
    signs and checks the effects of scheduled agents. What was issued is accepted within its window; accepted
    telemetry speaks for the request it was signed for; the contract \<open>nonce_client\<close> gives that a nonce is
    spent once, whichever service sees it.
  \<^item> \<open>Run_Admission\<close>: \<open>cartridge_run_admission.py\<close>. An admitted run is the one its authority was signed for, is well
    formed, and what it signs for others stays in its scope.
  \<^item> \<open>Schedule_Window\<close>: \<open>entity_scheduler_window.py\<close>. The first minute of a window that fires is found, and no time
    of a plain cron expression is lost when clocks change, while the zone keeps offsets of whole minutes.
  \<^item> \<open>Entity_Schedule\<close>, \<open>Schedule_Report\<close>: the tasks of \<open>entity_scheduler.py\<close> with the query over the tables. What the
    scheduler triggers is admitted, each trigger is accounted for and no time is handled twice.
  \<^item> \<open>Refresh_Graph\<close>: \<open>dataset_refresh_graph.py\<close>. The plan is exactly what is downstream of the seed, once
    each, in topological order; the two errors are raised exactly on a cycle and on a too long chain.
  \<^item> \<open>Refresh_Outcome\<close>: \<open>dataset_refresh_outcome.py\<close>. When a run is a success, a partial one, a failure.
  \<^item> \<open>Refresh_Slots\<close>: \<open>dataset_refresh_idempotency.py\<close> as a transition system with fencing tokens; the
    contract \<open>slot_contract\<close> is what its clients rely on.
  \<^item> \<open>Refresh_Materialize\<close>: \<open>dataset_refresh_materialize.py\<close>, refined to the step relation \<open>mat_step\<close>, whose
    invariant gives the properties of the report.
  \<^item> \<open>Service_Job\<close>: \<open>service_job_client.py\<close>. The polling loop returns and reports only what it was told.
  \<^item> \<open>Refresh_Chain\<close>, \<open>Refresh_Monitors\<close>: the remaining tasks of the DAG. Success is recorded only for a report
    that earned it and, unless the run is exempt from it, after the intelligence service confirmed.
  \<^item> \<open>Sql_Text\<close>: a lexer, a parser and an evaluator of the SQL expressions that the code puts together as text,
    with the meaning Postgres gives them; it knows nothing of the modules that write the text.
  \<^item> \<open>Status_Transitions\<close>: \<open>status_transitions.py\<close>; the SQL text it generates, read and evaluated with
    \<open>Sql_Text\<close>, computes what the Python functions compute. The updates of \<open>Pipeline_Runs\<close> and
    \<open>Stuck_Recovery\<close> evaluate that text too.
  \<^item> \<open>Sync_Steps\<close>, \<open>Sync_Runs\<close>: \<open>sync_progress.py\<close>. Percentages and counts stay within bounds, steps in
    order, nothing counts as finished while a summary is outstanding.
  \<^item> \<open>Run_State\<close>, \<open>Pipeline_Runs\<close>: the table \<open>pipeline_runs\<close> with its writers: \<open>recording.py\<close>, the tool
    \<open>pipeline_run_save\<close> of \<open>mcp-infra\<close> and the helpers of \<open>run_state.py\<close> they use. Every statement keeps the
    rows, never lowers a status and never lowers a fencing token.
  \<^item> \<open>Extract_Reservation\<close>: \<open>successfactors_reservation.py\<close>. Reservations keep the number of active
    extractions of the workspace they ask for within the limit; they are one more writer of the table.
  \<^item> \<open>Run_Writers\<close>: the remaining writers of the table: the synchronisations of \<open>console/app/main.py\<close>, the mirror of
    \<open>runlog_service.py\<close>, the operator's \<open>scripts/reconcile_pipeline_runs.py\<close>, the renaming of an entity in
    \<open>cartridge_service.py\<close>, and the rows in which \<open>dataset_refresh_idempotency.py\<close> keeps its slots.
  \<^item> \<open>Stuck_Recovery\<close>: \<open>stuck_run_recovery.py\<close>. A run is given up exactly on positive evidence; the writers
    of runs together are the step relation \<open>run_step\<close>, with the slots \<open>table_step\<close>, under which no run is reopened (a slot
    may be) and a reading closes a run at most once; an approved digest fixes the plan.
  \<^item> \<open>Recovery_Observe\<close>, \<open>Recovery_Service\<close>: \<open>stuck_run_recovery_service.py\<close>. The log of a recovery refines the
    legal rounds \<open>round_log\<close> of an approved plan; closed rows were stuck by what Airflow answered about them and stay
    closed under any interleaving of the writers of runs; a stuck run that nobody touches is closed; the report adds up.
  \<^item> \<open>Trigger_Preflight\<close>: \<open>trigger_preflight.py\<close>. A paused process is resumed only when that starts no
    backlog; a run is reused only when it is the caller's own and live.
  \<^item> \<open>Run_Janitor\<close>: \<open>console/app/services/pipeline_run_janitor.py\<close>. A pass over the workspaces accounts for
    what it did, and only closes runs in the mode recover.
  \<^item> \<open>Permissions\<close>, \<open>Tool_Policy\<close>, \<open>Storage_Scope\<close>: the guards. They accept exactly what their rules allow.
  \<^item> This theory: the composition. What the registry is told is a success was admitted, planned and
    published under the scope that was signed.

  \<^bold>\<open>State and effects.\<close> A function that may raise returns \<open>pyexc + 'a\<close>. A table of the database is a map
  from keys to records, and each transaction of the code is one function from tables to tables. Several
  workers on one table are an inductive step relation, and the properties hold along its reflexive
  transitive closure. Requests to other services are a log; their answers, the clocks and random tokens
  are parameters per call (records named \<open>..._env\<close>, \<open>world\<close>, \<open>db\<close>), so every theorem holds for every
  behaviour of the other side unless a hypothesis restricts it.

  \<^bold>\<open>Parameters and bounds.\<close> SHA-256, HMAC, \<open>json.loads\<close>, \<open>datetime.fromisoformat\<close>, \<open>uuid5\<close>, the zone data base,
  \<open>croniter\<close> and the uuid type of the database are arguments. The depth of the Python stack is an argument of the recursive
  graph search, and \<open>plan_errors\<close> shows that the number of datasets is enough. The polling loop of
  \<open>Service_Job\<close> is a \<open>partial_function\<close>; that it returns is a theorem about a clock that advances by the
  polling interval. So is the loop of the janitor, which ends once a stop was requested
  (\<open>janitor_rounds_end\<close>). The other loops are structural or have a measure. Python integers are \<open>int\<close>; floats
  are kept as their \<open>repr\<close>; strings are lists of Latin-1 characters, which covers every literal of the
  sources.

  \<^bold>\<open>Not modelled.\<close> The routers, the frontend, the agents' prompts and connectors of the cartridges are input
  and output with little state of their own; the SQL engine of the refinement service and the database
  are other programs, of which the models use the documented behaviour; the texts of log messages and
  of most error messages do not influence control and are left out. The control room, the intelligence
  services, the agent runner DAGs, and the SQL guards of \<open>mcp-infra\<close> and \<open>refinement\<close> are the next parts to model.
\<close>

section \<open>The whole chain\<close>

lemma item_class_ok: "item_class (PDict r) = Some RESULT_OK \<Longrightarrow> dget r ''ok'' = PBool True"
  by (auto simp: item_class_def result_classification_def PUBLISHED_CLASSES_def result_defs
      split: if_splits pv.splits)

lemma admitted_scope:
  assumes "admit_dataset_refresh w db conf run_id nonces = Inr (conf', nonces')"
  obtains ctx tenant workspace where "dget conf ''security_context'' = PDict ctx"
    "dget ctx ''tenant_id'' = PStr tenant" "dget ctx ''workspace_id'' = PStr workspace"
    "dget ctx ''dag_run_id'' = PStr run_id" "required_scope conf' = Inr (tenant, workspace)"
proof -
  obtain tenant workspace where
    valid: "validate_dataset_refresh_admission w db (dget conf ''security_context'') conf run_id nonces = Inr ((tenant, workspace), nonces')"
    and conf': "conf' = filter (\<lambda>kv. fst kv \<noteq> PStr ''security_context'') conf"
    using assms by (auto simp: admit_dataset_refresh_def rbind_Inr_iff)
  obtain ctx where ctx: "dget conf ''security_context'' = PDict ctx"
    using valid by (cases "dget conf ''security_context''") (simp_all add: validate_dataset_refresh_admission_def)
  have fields: "dget ctx ''tenant_id'' = PStr tenant" "dget ctx ''workspace_id'' = PStr workspace"
      "dget ctx ''dag_run_id'' = PStr run_id" "tenant = scope_field conf ''tenant_id''"
      "workspace = scope_field conf ''workspace_id''"
    by (rule validate_Inr [OF valid [unfolded ctx]], blast)+
  have "tenant \<noteq> []" "workspace \<noteq> []"
    using valid by (auto simp: ctx validate_dataset_refresh_admission_def Let_def rbind_Inr_iff split: if_splits)
  moreover have "dget conf' k = dget conf k" if "k \<noteq> ''security_context''" for k
    using that dget_filter_keys [of "{PStr ''security_context''}" conf k] conf' by simp
  ultimately have "required_scope conf' = Inr (tenant, workspace)"
    using fields(4,5) by (simp add: required_scope_def scope_field_def Let_def)
  then show ?thesis using that ctx fields by blast
qed

text \<open>
  C1: from the admission to the registry. When a refresh run was admitted, its materialisation task
  pushed a report while other workers acted on the slots only through their own steps, and the
  recording task then told the registry that the run is a success, then every dataset of the plan is
  published in the slot of this run, under the tenant and the workspace that the signed envelope names;
  a retry finds these results instead of materialising again.
\<close>

theorem recorded_success_means_published:
  assumes admitted: "admit_dataset_refresh w db conf run_id nonces = Inr (conf', nonces')"
    and push: "materialize_in_order digest run_id env plan cartridge conf' table = (Some report, exc, table')" "quiet env"
    and recorded: "record_run cenv xcom = (log, exc')" "cx_result xcom = PDict report"
      "PStr ''success'' \<in> set (statuses log)"
  shows "\<exists>ctx tenant workspace. dget conf ''security_context'' = PDict ctx \<and>
    dget ctx ''tenant_id'' = PStr tenant \<and> dget ctx ''workspace_id'' = PStr workspace \<and>
    dget ctx ''dag_run_id'' = PStr run_id \<and>
    (\<forall>p\<in>set plan. \<exists>d result. p = PDict d \<and>
       published table' (slot_id digest run_id tenant workspace (py_str (dget d ''name'')), tenant, workspace) = Some result)"
proof -
  obtain ctx tenant workspace where ctx: "dget conf ''security_context'' = PDict ctx"
    "dget ctx ''tenant_id'' = PStr tenant" "dget ctx ''workspace_id'' = PStr workspace"
    "dget ctx ''dag_run_id'' = PStr run_id" and scope: "required_scope conf' = Inr (tenant, workspace)"
    by (rule admitted_scope [OF admitted])
  obtain items st mc where items: "list_all2 plan_item_is plan items" and inv: "loop_inv mc items st"
    and table: "ms_table st = table'" and rep: "report = (if plan = [] then empty_report else report_of (ms_results st))"
    and mc: "mc_digest mc = digest" "mc_run_id mc = run_id" "required_scope conf' = Inr (mc_tenant mc, mc_workspace mc)"
    by (rule materialize_push [OF push])
  have "materialization_status (PDict report) (cx_task_state xcom) = ''success''"
    using record_run_sent [OF recorded(1,3)] recorded(2) by (simp add: materialization_result_def)
  from status_success_D [OF this] obtain results where
    results: "dget report ''results'' = PList results" "\<forall>i\<in>set results. item_class i = Some RESULT_OK"
    by (auto simp: believed_def)
  then have ok: "\<forall>r\<in>set (ms_results st). dget r ''ok'' = PBool True"
    using push_results(3) [OF items inv rep] item_class_ok by auto
  have "\<exists>d result. p = PDict d \<and>
       published table' (slot_id digest run_id tenant workspace (py_str (dget d ''name'')), tenant, workspace) = Some result"
    if "p \<in> set plan" for p
  proof -
    from that obtain i where i: "i < length plan" "p = plan ! i" by (auto simp: in_set_conv_nth)
    then have item: "plan_item_is p (items ! i)" and ri: "ms_results st ! i \<in> set (ms_results st)"
      using items push_results(2) [OF items inv rep] by (auto simp: list_all2_conv_all_nth)
    have "\<exists>x. published table' (item_key mc (fst (items ! i))) = Some x"
      using inv ok ri i items table push_results [OF items inv rep] unfolding loop_inv_def
      by (auto simp: list_all2_conv_all_nth)
    with item show ?thesis using mc scope by (auto simp: plan_item_is_def item_key_def)
  qed
  then show ?thesis using ctx by blast
qed

section \<open>Witness\<close>

abbreviation sample_digest :: "string \<Rightarrow> string" where
  "sample_digest \<equiv> \<lambda>_. ''slot''"

lemma admitted_sample: "filter (\<lambda>kv. fst kv \<noteq> PStr ''security_context'') (snd trigger_sample) = conf_sample"
  by (rule trigger_Inr [OF trigger_sample]) (simp add: conf_sample_def dset_def)

lemma sample_admitted:
  "\<exists>nonces. admit_dataset_refresh admission_world db_sample (snd trigger_sample) (fst trigger_sample) Map.empty =
     Inr (conf_sample, nonces)"
proof -
  have clock: "1000 \<le> w_now admission_world + 30" "db_clock db_sample < (1000 + 86400) * 1000000"
    by (simp_all add: admission_world_def db_sample_def)
  show ?thesis
    using trigger_validation [OF trigger_sample sample_ready(1-3) sample_shared clock(1) _ clock(2) sample_ready(4)
        sample_shared clock(1) refl, of Map.empty] sample_fields
    by (auto simp: Let_def admit_dataset_refresh_def admitted_sample)
qed

lemma chain_run:
  "fst (materialize_in_order sample_digest run_id (\<lambda>_. ok_env) (take 1 two_plan) (PStr ''hr'') conf_sample Map.empty) =
     Some (report_of ok_results)"
  by code_simp

definition chain_xcom :: chain_xcom where
  "chain_xcom = \<lparr>cx_admitted = PDict conf_sample, cx_cartridge = PStr ''inegi'',
     cx_result = PDict (report_of ok_results), cx_return = PNone, cx_task_state = ''success''\<rparr>"

lemma chain_recorded: "\<exists>log. record_run sample_chain chain_xcom = (log, None) \<and> PStr ''success'' \<in> set (statuses log)"
proof -
  have result: "materialization_result chain_xcom = PDict (report_of ok_results)"
    by (simp add: materialization_result_def chain_xcom_def report_of_def)
  have status: "materialization_status (materialization_result chain_xcom) (cx_task_state chain_xcom) = ''success''"
    by code_simp
  have json: "json_value (PDict (report_of ok_results))"
    by (simp add: report_of_def ok_results_def Let_def counts_dict_def RESULT_CLASSES_def result_defs)
  have conf: "cx_admitted chain_xcom = PDict conf_sample" "required_scope conf_sample = Inr (''t'', ''w'')"
      "dget conf_sample ''project_id'' = PNone" "cx_cartridge chain_xcom = PStr ''inegi''"
    by (simp add: chain_xcom_def, code_simp, code_simp, simp add: chain_xcom_def)
  from sample_records_success [OF status result json conf] show ?thesis by auto
qed

theorem recorded_success_means_published_witness:
  "\<exists>ctx table result. dget (snd trigger_sample) ''security_context'' = PDict ctx \<and> dget ctx ''tenant_id'' = PStr ''t'' \<and>
     published table (slot_id sample_digest (fst trigger_sample) ''t'' ''w'' ''a'', ''t'', ''w'') = Some result"
proof -
  obtain nonces where admitted:
    "admit_dataset_refresh admission_world db_sample (snd trigger_sample) (fst trigger_sample) Map.empty =
       Inr (conf_sample, nonces)" using sample_admitted by blast
  obtain exc table where run: "materialize_in_order sample_digest (fst trigger_sample) (\<lambda>_. ok_env) (take 1 two_plan)
      (PStr ''hr'') conf_sample Map.empty = (Some (report_of ok_results), exc, table)"
    using chain_run [of "fst trigger_sample"] by (metis prod.collapse)
  obtain log where log: "record_run sample_chain chain_xcom = (log, None)" "PStr ''success'' \<in> set (statuses log)"
    using chain_recorded by blast
  have quiet: "quiet (\<lambda>_. ok_env)" by (simp add: quiet_def ok_env_def failing_env_def)
  have xcom: "cx_result chain_xcom = PDict (report_of ok_results)" by (simp add: chain_xcom_def)
  obtain ctx tenant workspace where ctx: "dget (snd trigger_sample) ''security_context'' = PDict ctx"
    "dget ctx ''tenant_id'' = PStr tenant" "dget ctx ''workspace_id'' = PStr workspace" and
    all: "\<forall>p\<in>set (take 1 two_plan). \<exists>d result. p = PDict d \<and>
      published table (slot_id sample_digest (fst trigger_sample) tenant workspace (py_str (dget d ''name'')), tenant, workspace) =
        Some result"
    using recorded_success_means_published [OF admitted run quiet log(1) xcom log(2)] by blast
  have "required_scope conf_sample = Inr (tenant, workspace)"
    by (rule admitted_scope [OF admitted]) (use ctx in simp)
  moreover have "required_scope conf_sample = Inr (''t'', ''w'')" by code_simp
  ultimately have "tenant = ''t''" "workspace = ''w''" by simp_all
  with ctx all show ?thesis by (auto simp: two_plan_def)
qed

end
